(* ===== verification/Prelude.thy ===== *)
theory Prelude
  imports Complex_Main
begin

text \<open>
  What every component shares: the exceptions of the NestJS handlers, the monad in which a
  handler runs, the calls it makes to the database and to Redis, and the two calculi in which
  the handlers are verified (weakest preconditions, and the parts of the state a computation
  leaves alone).  JavaScript helpers on strings and arrays stand at the end.
\<close>

named_theorems wp_rules \<open>equations that push a weakest precondition through a computation\<close>
named_theorems keep_rules \<open>introduction rules for the parts of the state a computation keeps\<close>
named_theorems total_rules \<open>computations that never throw\<close>
named_theorems preserve_rules \<open>introduction rules for invariants\<close>

section \<open>Exceptions\<close>

text \<open>
  A PostgrestError carries a SQLSTATE and a message; \<open>Http\<close> is one of the HttpException
  subclasses with its message and the further fields of its response body; \<open>Db\<close> is a
  PostgrestError thrown as it is, and \<open>Err\<close> a plain \<^verbatim>\<open>new Error(message)\<close>.
\<close>

record db_error =
  code :: "string option"
  message :: string

datatype http =
  BadRequest | Unauthorized | Forbidden | NotFound | Conflict | ServiceUnavailable

datatype exn =
    Http http string "(string \<times> string) list"
  | Db db_error
  | Err string

abbreviation bad_request :: "string \<Rightarrow> exn" where "bad_request m \<equiv> Http BadRequest m []"
abbreviation forbidden :: "string \<Rightarrow> exn" where "forbidden m \<equiv> Http Forbidden m []"
abbreviation not_found :: "string \<Rightarrow> exn" where "not_found m \<equiv> Http NotFound m []"

definition isUniqueViolation :: "exn \<Rightarrow> bool" where
  "isUniqueViolation e = (case e of Db d \<Rightarrow> code d = Some ''23505'' | _ \<Rightarrow> False)"

definition isForeignKeyViolation :: "exn \<Rightarrow> bool" where
  "isForeignKeyViolation e = (case e of Db d \<Rightarrow> code d = Some ''23503'' | _ \<Rightarrow> False)"

text \<open>What Postgres answers to a row that breaks a constraint.\<close>

definition check_violation :: db_error where
  "check_violation = \<lparr>code = Some ''23514'', message = ''new row violates check constraint''\<rparr>"

definition unique_violation :: db_error where
  "unique_violation = \<lparr>code = Some ''23505'', message = ''duplicate key value violates unique constraint''\<rparr>"

definition not_null_violation :: db_error where
  "not_null_violation = \<lparr>code = Some ''23502'', message = ''null value violates not-null constraint''\<rparr>"

section \<open>The monad of the handlers\<close>

text \<open>
  An \<^verbatim>\<open>async\<close> method takes the state of the world and returns a value or throws; either way it
  leaves a new state.  \<open>bindE\<close> is \<^verbatim>\<open>await\<close> followed by the rest of the method, \<open>catchE\<close> is
  \<^verbatim>\<open>try ... catch\<close>, and \<open>forEach\<close> the sequential \<^verbatim>\<open>for ... of\<close>.
\<close>

type_synonym ('w, 'a) io = "'w \<Rightarrow> (exn + 'a) \<times> 'w"

definition ret :: "'a \<Rightarrow> ('w, 'a) io" where
  "ret x = (\<lambda>w. (Inr x, w))"

definition throw :: "exn \<Rightarrow> ('w, 'a) io" where
  "throw e = (\<lambda>w. (Inl e, w))"

definition bindE :: "('w, 'a) io \<Rightarrow> ('a \<Rightarrow> ('w, 'b) io) \<Rightarrow> ('w, 'b) io" where
  "bindE m f = (\<lambda>w. case m w of (Inl e, w') \<Rightarrow> (Inl e, w') | (Inr x, w') \<Rightarrow> f x w')"

definition catchE :: "('w, 'a) io \<Rightarrow> (exn \<Rightarrow> ('w, 'a) io) \<Rightarrow> ('w, 'a) io" where
  "catchE m h = (\<lambda>w. case m w of (Inl e, w') \<Rightarrow> h e w' | (Inr x, w') \<Rightarrow> (Inr x, w'))"

definition gets :: "('w \<Rightarrow> 'a) \<Rightarrow> ('w, 'a) io" where
  "gets f = (\<lambda>w. (Inr (f w), w))"

definition modify :: "('w \<Rightarrow> 'w) \<Rightarrow> ('w, unit) io" where
  "modify f = (\<lambda>w. (Inr (), f w))"

definition require :: "bool \<Rightarrow> exn \<Rightarrow> ('w, unit) io" where
  "require c e = (if c then ret () else throw e)"

definition whenE :: "bool \<Rightarrow> ('w, unit) io \<Rightarrow> ('w, unit) io" where
  "whenE c m = (if c then m else ret ())"

definition lift :: "exn + 'a \<Rightarrow> ('w, 'a) io" where
  "lift r = (\<lambda>w. (r, w))"

primrec forEach :: "'x list \<Rightarrow> ('x \<Rightarrow> ('w, unit) io) \<Rightarrow> ('w, unit) io" where
  "forEach [] f = ret ()"
| "forEach (x # xs) f = bindE (f x) (\<lambda>_. forEach xs f)"

primrec foldE :: "'x list \<Rightarrow> 'a \<Rightarrow> ('a \<Rightarrow> 'x \<Rightarrow> ('w, 'a) io) \<Rightarrow> ('w, 'a) io" where
  "foldE [] a f = ret a"
| "foldE (x # xs) a f = bindE (f a x) (\<lambda>b. foldE xs b f)"

text \<open>A promise whose rejection is swallowed, as in \<^verbatim>\<open>p.catch(() => {})\<close>.\<close>

definition ignoring :: "('w, 'a) io \<Rightarrow> ('w, unit) io" where
  "ignoring m = catchE (bindE m (\<lambda>_. ret ())) (\<lambda>_. ret ())"

lemmas io_defs = ret_def throw_def bindE_def catchE_def gets_def modify_def require_def whenE_def
  lift_def ignoring_def

section \<open>Calls over the network\<close>

text \<open>
  Every database or Redis call is numbered.  The n-th call fails with the error \<open>fault n\<close>
  gives, if any, and then has no effect; \<open>clock n\<close> is the time \<^verbatim>\<open>new Date()\<close> reads before the
  n-th call (milliseconds), and \<open>uuid n\<close> the identifier a row inserted by the n-th call gets.
  All three are arbitrary, so that a property holds for every failure, time and identifier.
\<close>

record net =
  calls :: nat
  fault :: "nat \<Rightarrow> db_error option"
  clock :: "nat \<Rightarrow> int"
  uuid :: "nat \<Rightarrow> string"

definition now :: "('w net_scheme, int) io" where
  "now = gets (\<lambda>w. clock w (calls w))"

definition exec ::
  "('w net_scheme \<Rightarrow> (db_error + 'a) \<times> 'w net_scheme) \<Rightarrow> ('w net_scheme, db_error + 'a) io" where
  "exec f = (\<lambda>w. let w' = w\<lparr>calls := Suc (calls w)\<rparr> in
     case fault w (calls w) of Some e \<Rightarrow> (Inr (Inl e), w')
     | None \<Rightarrow> (case f w' of (r, w'') \<Rightarrow> (Inr r, w'')))"

definition query :: "('w net_scheme \<Rightarrow> db_error + 'a) \<Rightarrow> ('w net_scheme, db_error + 'a) io" where
  "query f = exec (\<lambda>w. (f w, w))"

text \<open>The identifier of the call being executed: \<open>exec\<close> has counted it already.\<close>

definition fresh_id :: "'w net_scheme \<Rightarrow> string" where
  "fresh_id w = uuid w (calls w - 1)"

text \<open>The three ways the code reads a \<^verbatim>\<open>{ data, error }\<close> result.\<close>

definition orThrow :: "('w, db_error + 'a) io \<Rightarrow> ('w, 'a) io" where
  "orThrow m = bindE m (\<lambda>r. case r of Inl e \<Rightarrow> throw (Db e) | Inr x \<Rightarrow> ret x)"

definition orError :: "('w, db_error + 'a) io \<Rightarrow> ('w, 'a) io" where
  "orError m = bindE m (\<lambda>r. case r of Inl e \<Rightarrow> throw (Err (message e)) | Inr x \<Rightarrow> ret x)"

definition orElse :: "'a \<Rightarrow> ('w, db_error + 'a) io \<Rightarrow> ('w, 'a) io" where
  "orElse d m = bindE m (\<lambda>r. ret (case r of Inl e \<Rightarrow> d | Inr x \<Rightarrow> x))"

text \<open>PostgREST's \<^verbatim>\<open>maybeSingle()\<close> and \<^verbatim>\<open>single()\<close> on the rows that match.\<close>

definition pgrst116 :: db_error where
  "pgrst116 = \<lparr>code = Some ''PGRST116'', message = ''JSON object requested, multiple (or no) rows returned''\<rparr>"

definition maybeSingle :: "'r list \<Rightarrow> db_error + 'r option" where
  "maybeSingle rs = (case rs of [] \<Rightarrow> Inr None | [r] \<Rightarrow> Inr (Some r) | _ \<Rightarrow> Inl pgrst116)"

definition single :: "'r list \<Rightarrow> db_error + 'r" where
  "single rs = (case rs of [r] \<Rightarrow> Inr r | _ \<Rightarrow> Inl pgrst116)"

lemma maybeSingle_Nil [simp]: "maybeSingle [] = Inr None"
  and maybeSingle_one [simp]: "maybeSingle [r] = Inr (Some r)"
  and single_Nil [simp]: "single [] = Inl pgrst116"
  and single_one [simp]: "single [r] = Inr r"
  by (simp_all add: maybeSingle_def single_def)

lemma maybeSingle_SomeD: "maybeSingle rs = Inr (Some r) \<Longrightarrow> rs = [r]"
  by (auto simp: maybeSingle_def split: list.splits)

lemma maybeSingle_NoneD: "maybeSingle rs = Inr None \<Longrightarrow> rs = []"
  by (auto simp: maybeSingle_def split: list.splits)

lemma single_InrD: "single rs = Inr r \<Longrightarrow> rs = [r]"
  by (auto simp: single_def split: list.splits)

lemma find_single: "filter P xs = [r] \<Longrightarrow> find P xs = Some r"
  by (induction xs) (auto split: if_splits)

text \<open>An \<^verbatim>\<open>UPDATE ... WHERE\<close>: the new table, and the rows it wrote.\<close>

definition update_where :: "('r \<Rightarrow> bool) \<Rightarrow> ('r \<Rightarrow> 'r) \<Rightarrow> 'r list \<Rightarrow> 'r list" where
  "update_where P f rs = map (\<lambda>r. if P r then f r else r) rs"

lemma length_update_where [simp]: "length (update_where P f rs) = length rs"
  by (simp add: update_where_def)

lemma filter_one: "filter P xs = [r] \<Longrightarrow> x \<in> set xs \<Longrightarrow> P x \<Longrightarrow> x = r"
proof -
  assume f: "filter P xs = [r]" and x: "x \<in> set xs" "P x"
  have "x \<in> set (filter P xs)" using x by simp
  then show "x = r" by (simp add: f)
qed

lemma filter_oneD: "filter P xs = [r] \<Longrightarrow> r \<in> set xs \<and> P r"
proof -
  assume "filter P xs = [r]"
  then have "r \<in> set (filter P xs)" by simp
  then show ?thesis by simp
qed

lemma update_where_none: "\<forall>r\<in>set rs. \<not> P r \<Longrightarrow> update_where P f rs = rs"
  by (induction rs) (auto simp: update_where_def)

lemma set_update_where: "set (update_where P f rs) = (\<lambda>r. if P r then f r else r) ` set rs"
  by (simp add: update_where_def)

lemma map_update_where: "(\<And>r. g (f r) = g r) \<Longrightarrow> map g (update_where P f rs) = map g rs"
  by (simp add: update_where_def)

lemma filter_update_where_other:
  assumes "\<And>r. r \<in> set rs \<Longrightarrow> Q r \<Longrightarrow> \<not> P r" "\<And>r. r \<in> set rs \<Longrightarrow> P r \<Longrightarrow> \<not> Q (f r)"
  shows "filter Q (update_where P f rs) = filter Q rs"
  using assms by (induction rs) (auto simp: update_where_def)

section \<open>Weakest preconditions\<close>

text \<open>
  \<open>wp m Q E w\<close>: run from \<open>w\<close>, \<open>m\<close> returns a value and a state that satisfy \<open>Q\<close>, or throws
  an exception in a state that satisfies \<open>E\<close>.  Every handler terminates, so this is total
  correctness.
\<close>

definition wp :: "('w, 'a) io \<Rightarrow> ('a \<Rightarrow> 'w \<Rightarrow> bool) \<Rightarrow> (exn \<Rightarrow> 'w \<Rightarrow> bool) \<Rightarrow> 'w \<Rightarrow> bool" where
  "wp m Q E w \<longleftrightarrow> (case m w of (Inl e, w') \<Rightarrow> E e w' | (Inr x, w') \<Rightarrow> Q x w')"

text \<open>
  The state stays on the right of each equation, so that the rules also fire on a
  postcondition whose state argument was eta-contracted away.
\<close>

lemma wp_ret [wp_rules]: "wp (ret x) Q E = Q x"
  by (rule ext) (simp add: wp_def ret_def)

lemma wp_throw [wp_rules]: "wp (throw e) Q E = E e"
  by (rule ext) (simp add: wp_def throw_def)

lemma wp_gets [wp_rules]: "wp (gets f) Q E = (\<lambda>w. Q (f w) w)"
  by (rule ext) (simp add: wp_def gets_def)

lemma wp_modify [wp_rules]: "wp (modify f) Q E = (\<lambda>w. Q () (f w))"
  by (rule ext) (simp add: wp_def modify_def)

lemma wp_now [wp_rules]: "wp now Q E = (\<lambda>w. Q (clock w (calls w)) w)"
  by (simp add: now_def wp_gets)

lemma wp_bindE [wp_rules]: "wp (bindE m f) Q E = wp m (\<lambda>x. wp (f x) Q E) E"
  by (rule ext) (auto simp: wp_def bindE_def split: prod.splits sum.splits)

lemma wp_catchE [wp_rules]: "wp (catchE m h) Q E = wp m Q (\<lambda>e. wp (h e) Q E)"
  by (rule ext) (auto simp: wp_def catchE_def split: prod.splits sum.splits)

lemma wp_require [wp_rules]: "wp (require c e) Q E = (\<lambda>w. if c then Q () w else E e w)"
  by (rule ext) (simp add: require_def wp_rules)

lemma wp_whenE [wp_rules]: "wp (whenE c m) Q E = (\<lambda>w. if c then wp m Q E w else Q () w)"
  by (rule ext) (simp add: whenE_def wp_rules)

lemma wp_lift [wp_rules]:
  "wp (lift r) Q E = (\<lambda>w. case r of Inl e \<Rightarrow> E e w | Inr x \<Rightarrow> Q x w)"
  by (rule ext) (simp add: lift_def wp_def split: sum.splits)

lemma wp_if [wp_rules]:
  "wp (if b then m else n) Q E = (\<lambda>w. if b then wp m Q E w else wp n Q E w)"
  by simp

lemma wp_case_option [wp_rules]:
  "wp (case v of None \<Rightarrow> m | Some x \<Rightarrow> f x) Q E =
   (\<lambda>w. case v of None \<Rightarrow> wp m Q E w | Some x \<Rightarrow> wp (f x) Q E w)"
  by (simp split: option.splits)

lemma wp_case_sum [wp_rules]:
  "wp (case v of Inl a \<Rightarrow> f a | Inr b \<Rightarrow> g b) Q E =
   (\<lambda>w. case v of Inl a \<Rightarrow> wp (f a) Q E w | Inr b \<Rightarrow> wp (g b) Q E w)"
  by (simp split: sum.splits)

lemma wp_case_prod [wp_rules]:
  "wp (case v of (a, b) \<Rightarrow> h a b) Q E = (\<lambda>w. case v of (a, b) \<Rightarrow> wp (h a b) Q E w)"
  by (simp split: prod.splits)

lemma wp_exec [wp_rules]:
  "wp (exec f) Q E = (\<lambda>w. case fault w (calls w) of
     Some e \<Rightarrow> Q (Inl e) (w\<lparr>calls := Suc (calls w)\<rparr>)
   | None \<Rightarrow> (case f (w\<lparr>calls := Suc (calls w)\<rparr>) of (r, w'') \<Rightarrow> Q r w''))"
  by (rule ext) (simp add: wp_def exec_def Let_def split: option.splits prod.splits)

lemma wp_query [wp_rules]:
  "wp (query f) Q E = (\<lambda>w. case fault w (calls w) of
     Some e \<Rightarrow> Q (Inl e) (w\<lparr>calls := Suc (calls w)\<rparr>)
   | None \<Rightarrow> Q (f (w\<lparr>calls := Suc (calls w)\<rparr>)) (w\<lparr>calls := Suc (calls w)\<rparr>))"
  by (rule ext) (simp add: query_def wp_rules split: option.split)

lemma wp_orThrow [wp_rules]:
  "wp (orThrow m) Q E = wp m (\<lambda>r w'. case r of Inl e \<Rightarrow> E (Db e) w' | Inr x \<Rightarrow> Q x w') E"
  by (simp add: orThrow_def wp_rules cong: sum.case_cong)

lemma wp_orError [wp_rules]:
  "wp (orError m) Q E =
   wp m (\<lambda>r w'. case r of Inl e \<Rightarrow> E (Err (message e)) w' | Inr x \<Rightarrow> Q x w') E"
  by (simp add: orError_def wp_rules cong: sum.case_cong)

lemma wp_orElse [wp_rules]:
  "wp (orElse d m) Q E = wp m (\<lambda>r. Q (case r of Inl e \<Rightarrow> d | Inr x \<Rightarrow> x)) E"
  by (simp add: orElse_def wp_rules)

lemma wp_ignoring [wp_rules]: "wp (ignoring m) Q E = wp m (\<lambda>_. Q ()) (\<lambda>_. Q ())"
  by (simp add: ignoring_def wp_rules)

lemma wp_mono:
  assumes "wp m Q E w" "\<And>x w'. Q x w' \<Longrightarrow> Q' x w'" "\<And>e w'. E e w' \<Longrightarrow> E' e w'"
  shows "wp m Q' E' w"
  using assms by (auto simp: wp_def split: prod.splits sum.splits)

lemma wp_conj: "wp m Q E w \<Longrightarrow> wp m Q' E' w \<Longrightarrow> wp m (\<lambda>x w. Q x w \<and> Q' x w) (\<lambda>e w. E e w \<and> E' e w) w"
  by (auto simp: wp_def split: prod.splits sum.splits)

lemma wp_run: "wp m Q E w \<Longrightarrow> m w = (Inr x, w') \<Longrightarrow> Q x w'"
  by (simp add: wp_def)

lemma wp_run_throw: "wp m Q E w \<Longrightarrow> m w = (Inl e, w') \<Longrightarrow> E e w'"
  by (simp add: wp_def)

lemma wpI:
  "(\<And>x w'. m w = (Inr x, w') \<Longrightarrow> Q x w') \<Longrightarrow> (\<And>e w'. m w = (Inl e, w') \<Longrightarrow> E e w') \<Longrightarrow> wp m Q E w"
  by (auto simp: wp_def split: prod.splits sum.splits)

lemma wp_forEach:
  assumes "\<And>x v. x \<in> set xs \<Longrightarrow> I v \<Longrightarrow> wp (f x) (\<lambda>_. I) E v" "I w"
  shows "wp (forEach xs f) (\<lambda>_. I) E w"
  using assms
proof (induction xs arbitrary: w)
  case (Cons x xs)
  have "wp (f x) (\<lambda>_ v. wp (forEach xs f) (\<lambda>_. I) E v) E w"
    by (rule wp_mono [OF Cons.prems(1)]) (use Cons in auto)
  then show ?case by (simp add: wp_rules)
qed (simp add: wp_rules)

section \<open>What a computation leaves alone\<close>

text \<open>\<open>keeps f m\<close>: whatever \<open>m\<close> does, and whether or not it throws, \<open>f\<close> of the state is as before.\<close>

definition keeps :: "('w \<Rightarrow> 'v) \<Rightarrow> ('w, 'a) io \<Rightarrow> bool" where
  "keeps f m \<longleftrightarrow> (\<forall>w. f (snd (m w)) = f w)"

lemma keepsD: "keeps f m \<Longrightarrow> m w = (r, w') \<Longrightarrow> f w' = f w"
  by (metis keeps_def snd_conv)

lemma keeps_ret [keep_rules]: "keeps f (ret x)"
  by (simp add: keeps_def ret_def)

lemma keeps_throw [keep_rules]: "keeps f (throw e)"
  by (simp add: keeps_def throw_def)

lemma keeps_gets [keep_rules]: "keeps f (gets g)"
  by (simp add: keeps_def gets_def)

lemma keeps_now [keep_rules]: "keeps f now"
  unfolding now_def by (rule keeps_gets)

lemma keeps_require [keep_rules]: "keeps f (require c e)"
  by (simp add: keeps_def io_defs)

lemma keeps_lift [keep_rules]: "keeps f (lift r)"
  by (simp add: keeps_def lift_def)

lemma keeps_bindE [keep_rules]: "keeps f m \<Longrightarrow> (\<And>x. keeps f (g x)) \<Longrightarrow> keeps f (bindE m g)"
  by (auto simp: keeps_def bindE_def split: prod.splits sum.splits) (metis snd_conv)+

lemma keeps_catchE [keep_rules]: "keeps f m \<Longrightarrow> (\<And>e. keeps f (h e)) \<Longrightarrow> keeps f (catchE m h)"
  by (auto simp: keeps_def catchE_def split: prod.splits sum.splits) (metis snd_conv)+

lemma keeps_ignoring [keep_rules]: "keeps f m \<Longrightarrow> keeps f (ignoring m)"
  unfolding ignoring_def by (intro keep_rules)

lemma keeps_whenE [keep_rules]: "(c \<Longrightarrow> keeps f m) \<Longrightarrow> keeps f (whenE c m)"
  by (simp add: whenE_def keeps_ret)

lemma keeps_if [keep_rules]: "(c \<Longrightarrow> keeps f m) \<Longrightarrow> (\<not> c \<Longrightarrow> keeps f n) \<Longrightarrow> keeps f (if c then m else n)"
  by simp

lemma keeps_case_option [keep_rules]:
  "(v = None \<Longrightarrow> keeps f m) \<Longrightarrow> (\<And>x. v = Some x \<Longrightarrow> keeps f (g x)) \<Longrightarrow>
   keeps f (case v of None \<Rightarrow> m | Some x \<Rightarrow> g x)"
  by (simp split: option.splits)

lemma keeps_case_sum [keep_rules]:
  "(\<And>x. v = Inl x \<Longrightarrow> keeps f (g x)) \<Longrightarrow> (\<And>x. v = Inr x \<Longrightarrow> keeps f (h x)) \<Longrightarrow>
   keeps f (case v of Inl x \<Rightarrow> g x | Inr x \<Rightarrow> h x)"
  by (simp split: sum.splits)

lemma keeps_case_prod [keep_rules]:
  "(\<And>a b. v = (a, b) \<Longrightarrow> keeps f (h a b)) \<Longrightarrow> keeps f (case v of (a, b) \<Rightarrow> h a b)"
  by (simp split: prod.splits)

lemma keeps_orThrow [keep_rules]: "keeps f m \<Longrightarrow> keeps f (orThrow m)"
  unfolding orThrow_def by (intro keep_rules)

lemma keeps_orError [keep_rules]: "keeps f m \<Longrightarrow> keeps f (orError m)"
  unfolding orError_def by (intro keep_rules)

lemma keeps_orElse [keep_rules]: "keeps f m \<Longrightarrow> keeps f (orElse d m)"
  unfolding orElse_def by (intro keep_rules)

lemma keeps_forEach [keep_rules]: "(\<And>x. x \<in> set xs \<Longrightarrow> keeps f (g x)) \<Longrightarrow> keeps f (forEach xs g)"
  by (induction xs) (auto intro!: keep_rules)

lemma keeps_foldE [keep_rules]:
  "(\<And>a x. x \<in> set xs \<Longrightarrow> keeps f (g a x)) \<Longrightarrow> keeps f (foldE xs a g)"
  by (induction xs arbitrary: a) (auto intro!: keep_rules)

lemma keeps_wp: "keeps f m \<Longrightarrow> f w = v \<Longrightarrow> wp m (\<lambda>_ w'. f w' = v) (\<lambda>_ w'. f w' = v) w"
  by (auto simp: wp_def split: prod.splits sum.splits dest: keepsD)

lemma wp_bind_keep:
  assumes "keeps v m" "\<And>x w'. v w' = v w \<Longrightarrow> wp (f x) Q E w'" "\<And>e w'. v w' = v w \<Longrightarrow> E e w'"
  shows "wp (bindE m f) Q E w"
  unfolding wp_bindE
  by (rule wp_mono [OF keeps_wp [OF assms(1) refl]]) (use assms(2,3) in auto)

lemma wp_bind:
  assumes "wp m R E w" "\<And>x w'. R x w' \<Longrightarrow> wp (f x) Q E w'"
  shows "wp (bindE m f) Q E w"
  unfolding wp_bindE by (rule wp_mono [OF assms(1)]) (use assms(2) in auto)

lemma wp_fst_ex: "wp m (\<lambda>x _. P x) (\<lambda>_ _. False) w \<Longrightarrow> \<exists>x. fst (m w) = Inr x \<and> P x"
  by (auto simp: wp_def split: prod.splits sum.splits)

text \<open>Whatever happens, the final state satisfies \<open>J\<close>.\<close>

lemma wp_snd: "wp m (\<lambda>_. J) (\<lambda>_. J) w \<longleftrightarrow> J (snd (m w))"
  by (auto simp: wp_def split: prod.splits sum.splits)

text \<open>
  A view is a part of the state that does not see the call counter: a table, or a tuple of
  tables.  A read keeps every view, and a statement keeps the views its effect keeps.
\<close>

locale view =
  fixes v :: "'w net_scheme \<Rightarrow> 'v"
  assumes counts: "v (w\<lparr>calls := n\<rparr>) = v w"
begin

lemma keeps_exec: "(\<And>w. v (snd (f w)) = v w) \<Longrightarrow> keeps v (exec f)"
  by (auto simp: keeps_def exec_def Let_def counts split: option.splits prod.splits)
     (metis counts snd_conv)

lemma keeps_query: "keeps v (query f)"
  unfolding query_def by (rule keeps_exec) simp

end

lemma wp_catch: "wp m Q E' w \<Longrightarrow> (\<And>e v. E' e v \<Longrightarrow> wp (h e) Q E v) \<Longrightarrow> wp (catchE m h) Q E w"
  unfolding wp_catchE by (erule wp_mono) auto

lemma keeps_part: "keeps v m \<Longrightarrow> (\<And>w. u w = g (v w)) \<Longrightarrow> keeps u m"
  by (simp add: keeps_def)

section \<open>Computations that never throw\<close>

definition total_io :: "('w, 'a) io \<Rightarrow> bool" where
  "total_io m \<longleftrightarrow> (\<forall>w. wp m (\<lambda>_ _. True) (\<lambda>_ _. False) w)"

lemma total_ret [total_rules]: "total_io (ret x)"
  and total_gets [total_rules]: "total_io (gets g)"
  and total_now [total_rules]: "total_io now"
  by (simp_all add: total_io_def wp_rules)

lemma total_call [total_rules]:
  fixes f :: "'w net_scheme \<Rightarrow> (db_error + 'a) \<times> 'w net_scheme"
  shows "total_io (exec f)" "total_io (query g)"
  by (auto simp: total_io_def wp_rules split: option.split prod.split)

lemma total_bindE [total_rules]:
  assumes "total_io m" "\<And>x. total_io (f x)" shows "total_io (bindE m f)"
  unfolding total_io_def wp_bindE
  by (intro allI, rule wp_mono) (use assms in \<open>auto simp: total_io_def\<close>)

lemma total_catchE [total_rules]:
  assumes "\<And>e. total_io (h e)" shows "total_io (catchE m h)"
proof -
  have "wp m (\<lambda>_ _. True) (\<lambda>_ _. True) w" for w by (simp add: wp_def split: prod.split sum.split)
  then show ?thesis unfolding total_io_def wp_catchE
    by (intro allI, rule wp_mono) (use assms in \<open>auto simp: total_io_def\<close>)
qed

lemma total_cases [total_rules]:
  "(c \<Longrightarrow> total_io m) \<Longrightarrow> (\<not> c \<Longrightarrow> total_io n) \<Longrightarrow> total_io (if c then m else n)"
  "(v = None \<Longrightarrow> total_io m) \<Longrightarrow> (\<And>x. v = Some x \<Longrightarrow> total_io (g x)) \<Longrightarrow>
   total_io (case v of None \<Rightarrow> m | Some x \<Rightarrow> g x)"
  by (simp_all split: option.split)

lemma total_whenE [total_rules]: "total_io m \<Longrightarrow> total_io (whenE c m)"
  unfolding whenE_def by (intro total_rules)

lemma total_ignoring [total_rules]: "total_io (ignoring m)"
  unfolding ignoring_def by (intro total_rules)

lemma total_orElse [total_rules]: "total_io m \<Longrightarrow> total_io (orElse d m)"
  unfolding orElse_def by (intro total_rules)

lemma total_foldE [total_rules]: "(\<And>a x. total_io (f a x)) \<Longrightarrow> total_io (foldE xs a f)"
  by (induction xs arbitrary: a) (auto intro: total_rules)

text \<open>
  The contract of a best-effort step after the sale: it never throws, and orders, lines, audit
  rows and journal are not its business.  Behind it the sale goes on from the same books.
\<close>

lemma total_bind:
  assumes "total_io m" "keeps v m" "\<And>x u. v u = v w \<Longrightarrow> wp (f x) Q E u"
  shows "wp (bindE m f) Q E w"
  unfolding wp_bindE
proof (rule wp_mono [OF wp_conj [OF keeps_wp [OF assms(2) refl]]])
  show "wp m (\<lambda>_ _. True) (\<lambda>_ _. False) w" using assms(1) by (simp add: total_io_def)
qed (use assms(3) in auto)

section \<open>Computations that preserve an invariant\<close>

definition preserves :: "('w \<Rightarrow> bool) \<Rightarrow> ('w, 'a) io \<Rightarrow> bool" where
  "preserves J m \<longleftrightarrow> (\<forall>w. J w \<longrightarrow> wp m (\<lambda>_. J) (\<lambda>_. J) w)"

lemma preservesD: "preserves J m \<Longrightarrow> J w \<Longrightarrow> m w = (r, w') \<Longrightarrow> J w'"
  unfolding preserves_def wp_snd by (metis snd_conv)

lemma preserves_snd: "preserves J m \<Longrightarrow> J w \<Longrightarrow> J (snd (m w))"
  using preservesD [of J m w "fst (m w)" "snd (m w)"] by simp

lemma preserves_bindE [preserve_rules]:
  assumes "preserves J m" "\<And>x. preserves J (f x)" shows "preserves J (bindE m f)"
  unfolding preserves_def
proof (intro allI impI)
  fix w assume "J w"
  then show "wp (bindE m f) (\<lambda>_. J) (\<lambda>_. J) w"
    by (intro wp_bind [where R = "\<lambda>_. J"]) (use assms in \<open>auto simp: preserves_def\<close>)
qed

lemma preserves_catchE [preserve_rules]:
  assumes "preserves J m" "\<And>e. preserves J (h e)" shows "preserves J (catchE m h)"
  unfolding preserves_def
proof (intro allI impI)
  fix w assume "J w"
  then show "wp (catchE m h) (\<lambda>_. J) (\<lambda>_. J) w"
    by (intro wp_catch [where E' = "\<lambda>_. J"]) (use assms in \<open>auto simp: preserves_def\<close>)
qed

lemma preserves_cases [preserve_rules]:
  "(c \<Longrightarrow> preserves J m) \<Longrightarrow> (\<not> c \<Longrightarrow> preserves J n) \<Longrightarrow> preserves J (if c then m else n)"
  "(x = None \<Longrightarrow> preserves J m) \<Longrightarrow> (\<And>y. x = Some y \<Longrightarrow> preserves J (g y)) \<Longrightarrow>
   preserves J (case x of None \<Rightarrow> m | Some y \<Rightarrow> g y)"
  "(\<And>a b. z = (a, b) \<Longrightarrow> preserves J (h a b)) \<Longrightarrow> preserves J (case z of (a, b) \<Rightarrow> h a b)"
  by (simp_all split: option.split prod.split)

lemma preserves_keeps: "keeps J m \<Longrightarrow> preserves J m"
  unfolding preserves_def by (auto intro: wp_mono [OF keeps_wp])

lemma preserves_basic [preserve_rules]:
  "preserves J (ret x)" "preserves J (throw e)" "preserves J (gets g)" "preserves J now" "preserves J (require c e)"
  by (intro preserves_keeps keep_rules)+

section \<open>JavaScript strings and arrays\<close>

text \<open>
  A string is a list of code units below 256.  \<open>trim\<close> removes the white space and line
  terminators of that range from both ends: tab to carriage return, space and no-break space.
\<close>

definition js_space :: "char \<Rightarrow> bool" where
  "js_space c = (let n = of_char c :: nat in (9 \<le> n \<and> n \<le> 13) \<or> n = 32 \<or> n = 160)"

definition trim :: "string \<Rightarrow> string" where
  "trim s = rev (dropWhile js_space (rev (dropWhile js_space s)))"

text \<open>A string that is absent or empty is falsy.\<close>

definition truthy :: "string option \<Rightarrow> bool" where
  "truthy v = (case v of None \<Rightarrow> False | Some s \<Rightarrow> s \<noteq> [])"

text \<open>\<^verbatim>\<open>a ?? b\<close> for values that may be null or undefined.\<close>

definition nullish :: "'a option \<Rightarrow> 'a \<Rightarrow> 'a" where
  "nullish v d = (case v of None \<Rightarrow> d | Some x \<Rightarrow> x)"

definition nullish2 :: "'a option \<Rightarrow> 'a option \<Rightarrow> 'a option" where
  "nullish2 v d = (case v of None \<Rightarrow> d | Some x \<Rightarrow> Some x)"

lemma nullish_simps [simp]: "nullish None d = d" "nullish (Some x) d = x"
  "nullish2 None v = v" "nullish2 (Some x) v = Some x"
  by (simp_all add: nullish_def nullish2_def)

lemma truthy_simps [simp]: "\<not> truthy None" "truthy (Some s) \<longleftrightarrow> s \<noteq> []"
  by (simp_all add: truthy_def)

lemma dropWhile_idem: "dropWhile P (dropWhile P xs) = dropWhile P xs"
  by (induction xs) auto

lemma trim_Nil_iff: "trim s = [] \<longleftrightarrow> (\<forall>c\<in>set s. js_space c)"
  by (auto simp: trim_def dropWhile_eq_Nil_conv dest: set_dropWhileD)
     (metis dropWhile_eq_Nil_conv dropWhile_idem)

text \<open>\<^verbatim>\<open>[...new Set(xs)]\<close>: the first occurrence of each element, in order.\<close>

fun uniq :: "'a list \<Rightarrow> 'a list" where
  "uniq [] = []"
| "uniq (x # xs) = x # filter (\<lambda>y. y \<noteq> x) (uniq xs)"

lemma set_uniq [simp]: "set (uniq xs) = set xs"
  by (induction xs) auto

lemma distinct_uniq [simp]: "distinct (uniq xs)"
  by (induction xs) auto

text \<open>\<^verbatim>\<open>xs.join(sep)\<close> and \<^verbatim>\<open>xs.find(p)\<close>.\<close>

fun join :: "string \<Rightarrow> string list \<Rightarrow> string" where
  "join sep [] = []"
| "join sep [x] = x"
| "join sep (x # xs) = x @ sep @ join sep xs"

text \<open>A count in a template literal.\<close>

fun nat_str :: "nat \<Rightarrow> string" where
  "nat_str n = (if n < 10 then [char_of (48 + n)] else nat_str (n div 10) @ [char_of (48 + n mod 10)])"

declare nat_str.simps [simp del]

end
