(* ===== verification/JsNum.thy ===== *)
theory JsNum
  imports Prelude "HOL-Library.Log_Nat"
begin

text \<open>
  The numbers of the program.  Every TypeScript number is an IEEE binary64 value; the model
  keeps the exact rational it denotes and writes out the rounding of each operation.
  \<open>fl\<close> rounds a rational to the nearest double, ties to even, with 53 significant bits and
  the smallest (subnormal) spacing of 2 to the -1074.  \<open>fadd\<close>, \<open>fsub\<close>, \<open>fmul\<close> and
  \<open>fdiv\<close> are the operators \<^verbatim>\<open>+ - * /\<close>, and \<open>round2 x\<close> is the idiom
  \<^verbatim>\<open>parseFloat(x.toFixed(2))\<close> that the engines use on every amount.
  Infinities, NaN and the sign of zero are not modelled: the exponent has no upper bound here,
  and each property that needs it bounds its amounts far below the overflow threshold.
\<close>

type_synonym number = rat

section \<open>Rounding to the nearest integer, ties to even\<close>

definition rne :: "rat \<Rightarrow> int" where
  "rne x = (let f = \<lfloor>x\<rfloor>; d = x - of_int f in
     if d < 1 / 2 then f else if 1 / 2 < d then f + 1
     else if even f then f else f + 1)"

lemma rne_of_int [simp]: "rne (of_int k) = k"
  by (simp add: rne_def)

lemma rne_0 [simp]: "rne 0 = 0"
  using rne_of_int [of 0] by simp

lemma rne_near: "\<bar>of_int (rne x) - x\<bar> \<le> 1 / 2"
proof -
  have "of_int \<lfloor>x\<rfloor> \<le> x" "x < of_int \<lfloor>x\<rfloor> + 1" by linarith+
  then show ?thesis by (auto simp: rne_def Let_def abs_le_iff)
qed

lemma rne_le_int:
  assumes "x \<le> of_int k" shows "rne x \<le> k"
proof (cases "x = of_int k")
  case False
  with assms have "x < of_int k" by simp
  then have "\<lfloor>x\<rfloor> < k" by linarith
  then show ?thesis by (auto simp: rne_def Let_def)
qed simp

lemma int_le_rne:
  assumes "of_int k \<le> x" shows "k \<le> rne x"
proof -
  have "k \<le> \<lfloor>x\<rfloor>" using assms by linarith
  then show ?thesis by (auto simp: rne_def Let_def)
qed

lemma rne_mono:
  assumes "x \<le> y" shows "rne x \<le> rne y"
proof (cases "\<lfloor>x\<rfloor> = \<lfloor>y\<rfloor>")
  case True
  with assms show ?thesis by (auto simp: rne_def Let_def)
next
  case False
  with assms have "\<lfloor>x\<rfloor> + 1 \<le> \<lfloor>y\<rfloor>" using floor_mono [OF assms] by linarith
  moreover have "rne x \<le> \<lfloor>x\<rfloor> + 1" by (rule rne_le_int) linarith
  moreover have "\<lfloor>y\<rfloor> \<le> rne y" by (rule int_le_rne) simp
  ultimately show ?thesis by linarith
qed

lemma rne_minus: "rne (- x) = - rne x"
proof (cases "x = of_int \<lfloor>x\<rfloor>")
  case True
  then show ?thesis by (metis of_int_minus rne_of_int)
next
  case False
  then have f: "\<lfloor>- x\<rfloor> = - \<lfloor>x\<rfloor> - 1" by linarith
  show ?thesis by (auto simp: rne_def Let_def f)
qed

section \<open>The binary exponent of a rational\<close>

definition flog2 :: "rat \<Rightarrow> int" where
  "flog2 x = (case quotient_of \<bar>x\<bar> of (p, q) \<Rightarrow>
     let e = bitlen p - bitlen q in if 2 powi e \<le> \<bar>x\<bar> then e else e - 1)"

lemma powi2_pos [simp]: "(0::rat) < 2 powi e"
  by (rule zero_less_power_int) simp

lemma powi2_Suc: "(2::rat) powi (e + 1) = 2 * 2 powi e"
  by (simp add: power_int_add)

lemma powi2_mono: "a \<le> b \<Longrightarrow> (2::rat) powi a \<le> 2 powi b"
  by (rule power_int_increasing) auto

lemma powi2_split: "(2::rat) powi a = 2 powi (a - b) * 2 powi b"
  by (simp add: power_int_add [symmetric])

lemma bitlen_powi:
  assumes "0 < p"
  shows "2 powi (bitlen p - 1) \<le> (of_int p :: rat)" "(of_int p :: rat) < 2 powi bitlen p"
proof -
  have b: "2 ^ nat (bitlen p - 1) \<le> p" "p < 2 ^ nat (bitlen p)"
    using bitlen_bounds [OF assms] by simp_all
  have pos: "0 < bitlen p" using assms by (simp add: bitlen_nonneg zero_less_iff_neq_zero bitlen_eq_zero_iff less_le)
  have "(2::rat) powi (bitlen p - 1) = of_int (2 ^ nat (bitlen p - 1))"
    using pos by (simp add: power_int_def)
  also have "\<dots> \<le> of_int p" using b(1) by (simp only: of_int_le_iff)
  finally show "2 powi (bitlen p - 1) \<le> (of_int p :: rat)" .
  have "(of_int p :: rat) < of_int (2 ^ nat (bitlen p))" using b(2) by (simp only: of_int_less_iff)
  also have "\<dots> = 2 powi bitlen p" using pos by (simp add: power_int_def)
  finally show "(of_int p :: rat) < 2 powi bitlen p" .
qed

lemma flog2_bounds:
  assumes "x \<noteq> 0"
  shows "2 powi flog2 x \<le> \<bar>x\<bar>" "\<bar>x\<bar> < 2 powi (flog2 x + 1)"
proof -
  obtain p q where pq: "quotient_of \<bar>x\<bar> = (p, q)" by fastforce
  have q: "0 < q" using quotient_of_denom_pos [OF pq] .
  have x: "\<bar>x\<bar> = of_int p / of_int q" using quotient_of_div [OF pq] .
  with assms q have p: "0 < p"
    by (metis abs_ge_zero abs_zero divide_eq_0_iff dual_order.antisym less_le_not_le linorder_not_le
        of_int_0_less_iff zero_less_abs_iff zero_less_divide_iff)
  let ?e = "bitlen p - bitlen q"
  have "\<bar>x\<bar> < 2 powi bitlen p / 2 powi (bitlen q - 1)"
    unfolding x using bitlen_powi [OF p] bitlen_powi [OF q] p q
    by (intro frac_less) auto
  also have "\<dots> = 2 powi (?e + 1)" by (simp add: power_int_diff [symmetric] algebra_simps)
  finally have up: "\<bar>x\<bar> < 2 powi (?e + 1)" .
  have "(2::rat) powi (?e - 1) = 2 powi (bitlen p - 1) / 2 powi (bitlen q)"
    by (simp add: power_int_diff [symmetric] algebra_simps)
  also have "\<dots> \<le> \<bar>x\<bar>"
    unfolding x using bitlen_powi [OF p] bitlen_powi [OF q] p q
    by (intro frac_le) auto
  finally have lo: "2 powi (?e - 1) \<le> \<bar>x\<bar>" .
  show "2 powi flog2 x \<le> \<bar>x\<bar>" "\<bar>x\<bar> < 2 powi (flog2 x + 1)"
    using up lo by (auto simp: flog2_def pq Let_def)
qed

section \<open>Rounding to binary64\<close>

definition ulp_exp :: "rat \<Rightarrow> int" where
  "ulp_exp x = max (flog2 x - 52) (- 1074)"

definition fl :: "rat \<Rightarrow> rat" where
  "fl x = (if x = 0 then 0 else
     let u = 2 powi ulp_exp x in of_int (rne (x / u)) * u)"

definition fadd :: "number \<Rightarrow> number \<Rightarrow> number" where "fadd a b = fl (a + b)"
definition fsub :: "number \<Rightarrow> number \<Rightarrow> number" where "fsub a b = fl (a - b)"
definition fmul :: "number \<Rightarrow> number \<Rightarrow> number" where "fmul a b = fl (a * b)"
definition fdiv :: "number \<Rightarrow> number \<Rightarrow> number" where "fdiv a b = fl (a / b)"

definition is_double :: "rat \<Rightarrow> bool" where
  "is_double x \<longleftrightarrow> fl x = x"

lemma fl_0 [simp]: "fl 0 = 0"
  by (simp add: fl_def)

lemma flog2_minus [simp]: "flog2 (- x) = flog2 x"
  by (simp add: flog2_def)

lemma fl_minus: "fl (- x) = - fl x"
  by (simp add: fl_def ulp_exp_def Let_def rne_minus)

lemma flog2_mono:
  assumes "x \<noteq> 0" "\<bar>x\<bar> \<le> \<bar>y\<bar>" shows "flog2 x \<le> flog2 y"
proof (rule ccontr)
  assume "\<not> ?thesis"
  then have "(2::rat) powi (flog2 y + 1) \<le> 2 powi flog2 x" by (intro powi2_mono) simp
  moreover have "y \<noteq> 0" using assms by auto
  ultimately show False
    using flog2_bounds [OF assms(1)] flog2_bounds [of y] assms(2) by linarith
qed

lemma flog2_less_iff:
  assumes "x \<noteq> 0" shows "flog2 x < k \<longleftrightarrow> \<bar>x\<bar> < 2 powi k"
proof
  assume "flog2 x < k"
  then have "(2::rat) powi (flog2 x + 1) \<le> 2 powi k" by (intro powi2_mono) simp
  then show "\<bar>x\<bar> < 2 powi k" using flog2_bounds [OF assms] by linarith
next
  assume "\<bar>x\<bar> < 2 powi k"
  then have "(2::rat) powi flog2 x < 2 powi k" using flog2_bounds [OF assms] by linarith
  then show "flog2 x < k" using powi2_mono [of k "flog2 x"] by (meson linorder_not_le)
qed

text \<open>A multiple of the spacing of \<open>x\<close> that bounds \<open>x\<close> also bounds its rounding.\<close>

lemma fl_le_grid:
  assumes "x \<le> of_int k * 2 powi ulp_exp x" shows "x \<noteq> 0 \<Longrightarrow> fl x \<le> of_int k * 2 powi ulp_exp x"
  using rne_le_int [of "x / 2 powi ulp_exp x" k] assms
  by (simp add: fl_def Let_def divide_le_eq)

lemma grid_le_fl:
  assumes "of_int k * 2 powi ulp_exp x \<le> x" shows "x \<noteq> 0 \<Longrightarrow> of_int k * 2 powi ulp_exp x \<le> fl x"
  using int_le_rne [of k "x / 2 powi ulp_exp x"] assms
  by (simp add: fl_def Let_def le_divide_eq)

lemma powi2_grid:
  assumes "e \<le> a" obtains k where "(2::rat) powi a = of_int k * 2 powi e"
proof
  show "(2::rat) powi a = of_int (2 ^ nat (a - e)) * 2 powi e"
    using assms powi2_split [of a e] by (simp add: power_int_def)
qed

lemma fl_le_powi:
  assumes "0 < x" "x \<le> 2 powi a" "ulp_exp x \<le> a" shows "fl x \<le> 2 powi a"
proof -
  obtain k where "(2::rat) powi a = of_int k * 2 powi ulp_exp x" using powi2_grid assms(3) by blast
  then show ?thesis using fl_le_grid [of x k] assms by simp
qed

lemma powi_le_fl:
  assumes "0 < x" "2 powi a \<le> x" "ulp_exp x \<le> a" shows "2 powi a \<le> fl x"
proof -
  obtain k where "(2::rat) powi a = of_int k * 2 powi ulp_exp x" using powi2_grid assms(3) by blast
  then show ?thesis using grid_le_fl [of k x] assms by simp
qed

lemma fl_mono_pos:
  assumes "0 < x" "x \<le> y" shows "fl x \<le> fl y"
proof (cases "ulp_exp x = ulp_exp y")
  case True
  have "x / 2 powi ulp_exp y \<le> y / 2 powi ulp_exp y"
    using assms(2) by (intro divide_right_mono) (simp_all add: less_imp_le)
  then have "rne (x / 2 powi ulp_exp y) \<le> rne (y / 2 powi ulp_exp y)" by (rule rne_mono)
  with assms True show ?thesis
    by (auto simp: fl_def Let_def intro!: mult_right_mono)
next
  case False
  have le: "flog2 x \<le> flog2 y" using assms by (intro flog2_mono) auto
  with False have lt: "flog2 x + 1 \<le> flog2 y" and y: "ulp_exp y = flog2 y - 52"
    and ux: "ulp_exp x \<le> flog2 y"
    by (auto simp: ulp_exp_def max_def split: if_splits)
  have "x \<le> 2 powi flog2 y"
    using flog2_bounds(2) [of x] assms(1) powi2_mono [OF lt] by simp
  then have "fl x \<le> 2 powi flog2 y" using ux assms(1) by (intro fl_le_powi)
  also have "2 powi flog2 y \<le> fl y"
    using flog2_bounds(1) [of y] assms y by (intro powi_le_fl) auto
  finally show ?thesis .
qed

lemma fl_nonneg: assumes "0 \<le> x" shows "0 \<le> fl x"
  using assms int_le_rne [of 0 "x / 2 powi ulp_exp x"] by (auto simp: fl_def Let_def)

lemma fl_mono: assumes "x \<le> y" shows "fl x \<le> fl y"
proof -
  consider "0 < x" | "x \<le> 0" "0 \<le> y" | "y < 0" by linarith
  then show ?thesis
  proof cases
    case 1 then show ?thesis using assms by (rule fl_mono_pos)
  next
    case 2 then show ?thesis using fl_nonneg [of y] fl_nonneg [of "- x"] by (simp add: fl_minus)
  next
    case 3 then show ?thesis using fl_mono_pos [of "- y" "- x"] assms by (simp add: fl_minus)
  qed
qed

text \<open>The error of one rounding, relative to a bound on the magnitude.\<close>

lemma fl_powi:
  assumes "- 1074 \<le> k" shows "fl (2 powi k) = 2 powi k"
  by (intro antisym fl_le_powi powi_le_fl)
    (use assms flog2_less_iff [of "2 powi k" "k + 1"] powi2_pos [of k] in
      \<open>auto simp: ulp_exp_def powi2_Suc simp del: powi2_pos\<close>)

lemma fl_error:
  assumes "\<bar>x\<bar> \<le> 2 powi k" "- 1022 \<le> k" shows "\<bar>fl x - x\<bar> \<le> 2 powi (k - 53)"
proof (cases "\<bar>x\<bar> = 0 \<or> \<bar>x\<bar> = 2 powi k")
  case True
  have "fl (2 powi k) = 2 powi k" using assms(2) by (intro fl_powi) simp
  moreover have "x = 0 \<or> x = 2 powi k \<or> x = - (2 powi k)"
    using True by (auto simp: abs_if split: if_splits)
  ultimately have "fl x = x" by (elim disjE) (simp_all add: fl_minus)
  then show ?thesis by (simp add: less_imp_le)
next
  case False
  then have nz: "x \<noteq> 0" and lt: "\<bar>x\<bar> < 2 powi k" using assms(1) by auto
  let ?u = "(2::rat) powi ulp_exp x"
  have "flog2 x < k" using lt nz flog2_less_iff by blast
  then have "?u \<le> 2 powi (k - 52)" using assms(2)
    by (intro powi2_mono) (auto simp: ulp_exp_def)
  also have "\<dots> = 2 * 2 powi (k - 53)" using powi2_Suc [of "k - 53"] by simp
  finally have u: "?u \<le> 2 * 2 powi (k - 53)" .
  have "fl x - x = (of_int (rne (x / ?u)) - x / ?u) * ?u"
    using nz by (simp add: fl_def Let_def algebra_simps)
  then have "\<bar>fl x - x\<bar> = \<bar>of_int (rne (x / ?u)) - x / ?u\<bar> * ?u" by (simp add: abs_mult)
  also have "\<dots> \<le> 1 / 2 * ?u" using rne_near by (intro mult_right_mono) (simp_all add: less_imp_le)
  finally show ?thesis using u by simp
qed

lemma fl_on_grid:
  assumes "x = of_int k * 2 powi e" "e \<le> ulp_exp x \<Longrightarrow> e = ulp_exp x" "ulp_exp x \<le> e"
  shows "fl x = x"
proof (cases "x = 0")
  case False
  obtain j where "(2::rat) powi e = of_int j * 2 powi ulp_exp x"
    using powi2_grid [OF assms(3)] by blast
  then have x: "x = of_int (k * j) * 2 powi ulp_exp x" using assms(1) by simp
  show ?thesis using fl_le_grid [of x "k * j"] grid_le_fl [of "k * j" x] x False by simp
qed simp

lemma fl_scaled_int:
  assumes "\<bar>m\<bar> \<le> 2 ^ 53" "- 1074 \<le> e"
  shows "fl (of_int m * 2 powi e) = of_int m * 2 powi e"
proof (cases "m = 0 \<or> \<bar>m\<bar> = 2 ^ 53")
  case True
  then have "m = 0 \<or> m = 2 ^ 53 \<or> m = - (2 ^ 53)" by linarith
  moreover have "(2::rat) ^ 53 * 2 powi e = 2 powi (53 + e)"
    by (simp add: power_int_add power_int_numeral)
  moreover have "fl (2 powi (53 + e)) = 2 powi (53 + e)"
    using assms(2) by (intro fl_powi) simp
  ultimately show ?thesis by (elim disjE) (simp_all add: fl_minus)
next
  case False
  let ?x = "of_int m * (2::rat) powi e"
  have nz: "?x \<noteq> 0" using False by simp
  have "of_int \<bar>m\<bar> < (of_int (2 ^ 53) :: rat)" using assms(1) False by (subst of_int_less_iff) linarith
  then have "\<bar>?x\<bar> < 2 ^ 53 * 2 powi e" by (simp add: abs_mult)
  also have "\<dots> = 2 powi (53 + e)" by (simp add: power_int_add power_int_numeral)
  finally have "flog2 ?x < 53 + e" using nz flog2_less_iff by blast
  then have "ulp_exp ?x \<le> e" using assms(2) by (auto simp: ulp_exp_def)
  then show ?thesis by (intro fl_on_grid [of _ m e]) auto
qed

lemma fl_of_int: "\<bar>n\<bar> \<le> 2 ^ 53 \<Longrightarrow> fl (of_int n) = of_int n"
  using fl_scaled_int [of n 0] by simp

lemma fl_numeral [simp]: "numeral k \<le> (2 ^ 53 :: int) \<Longrightarrow> fl (numeral k) = numeral k"
  using fl_of_int [of "numeral k"] by simp

lemma fl_1 [simp]: "fl 1 = 1"
  using fl_of_int [of 1] by simp

lemma fl_double [simp]: "is_double (fl x)"
proof (cases "x = 0")
  case False
  let ?u = "(2::rat) powi ulp_exp x"
  have bound: "\<bar>x\<bar> / ?u \<le> of_int (2 ^ 53)"
  proof -
    have "\<bar>x\<bar> < 2 powi (flog2 x + 1)" using flog2_bounds False by blast
    also have "\<dots> \<le> 2 powi (53 + ulp_exp x)" by (intro powi2_mono) (simp add: ulp_exp_def)
    finally show ?thesis by (simp add: power_int_add power_int_numeral divide_le_eq)
  qed
  have "\<bar>rne (x / ?u)\<bar> \<le> 2 ^ 53"
    using rne_le_int [of "x / ?u" "2 ^ 53"] int_le_rne [of "- (2 ^ 53)" "x / ?u"] bound
    by (auto simp: abs_le_iff abs_if divide_le_eq le_divide_eq split: if_splits)
  moreover have "- 1074 \<le> ulp_exp x" by (simp add: ulp_exp_def)
  ultimately show ?thesis using fl_scaled_int False by (simp add: is_double_def fl_def [of x] Let_def)
qed (simp add: is_double_def)

lemma fl_fl [simp]: "fl (fl x) = fl x"
  using fl_double by (simp add: is_double_def)

end
