(* ===== verification/Infra.thy ===== *)
theory Infra
  imports JsNum
begin

text \<open>
  The two services every component calls: \<^verbatim>\<open>RedisCacheService\<close> (\<^verbatim>\<open>core/cache\<close>) and
  \<^verbatim>\<open>AuditService\<close> (\<^verbatim>\<open>core/audit\<close>).  A Redis call may fail at any time; the service swallows the
  failure.  An entry is visible until its expiry time, and a set with an expiry time replaces
  it.  Values are stored as JSON.
\<close>

section \<open>JSON\<close>

datatype json =
    JNull
  | JBool bool
  | JNum number
  | JStr string
  | JArr "json list"
  | JObj "(string \<times> json) list"

definition js_opt_str :: "string option \<Rightarrow> json" where
  "js_opt_str v = (case v of None \<Rightarrow> JNull | Some s \<Rightarrow> JStr s)"

fun json_strings :: "json list \<Rightarrow> string list" where
  "json_strings [] = []"
| "json_strings (JStr s # xs) = s # json_strings xs"
| "json_strings (_ # xs) = json_strings xs"

lemma json_strings_map [simp]: "json_strings (map JStr xs) = xs"
  by (induction xs) auto

section \<open>The state\<close>

text \<open>
  \<open>scan_pages n p\<close> is what Redis answers to a full \<^verbatim>\<open>SCAN\<close> for the prefix \<open>p\<close> that starts with the
  n-th call: one page of keys for every cursor until the cursor is back at 0.
\<close>

record audit_entry =
  a_tenant :: "string option"
  a_actor :: string
  a_role :: "string option"
  a_action :: string
  a_type :: string
  a_resource :: "string option"
  a_before :: json
  a_after :: json
  a_ip :: "string option"
  a_device :: "string option"

record audit_row = audit_entry +
  a_at :: int

record infra = net +
  redis :: "string \<rightharpoonup> json \<times> int"
  scan_pages :: "nat \<Rightarrow> string \<Rightarrow> string list \<times> string list list"
  audit_logs :: "audit_row list"

definition redis_lookup :: "'w infra_scheme \<Rightarrow> string \<Rightarrow> json option" where
  "redis_lookup w k = (case redis w k of
     None \<Rightarrow> None
   | Some (v, expiry) \<Rightarrow> if clock w (calls w - 1) < expiry then Some v else None)"

section \<open>RedisCacheService\<close>

definition cache_get :: "string \<Rightarrow> ('w infra_scheme, json option) io" where
  "cache_get k = catchE
     (bindE (orThrow (query (\<lambda>w. Inr (redis_lookup w k)))) (\<lambda>raw.
        ret (case raw of None \<Rightarrow> None | Some v \<Rightarrow> if v = JNull then None else Some v)))
     (\<lambda>_. ret None)"

definition cache_set :: "string \<Rightarrow> json \<Rightarrow> int \<Rightarrow> ('w infra_scheme, unit) io" where
  "cache_set k v ttlSeconds = catchE
     (orThrow (exec (\<lambda>w. (Inr (),
        w\<lparr>redis := (redis w)(k \<mapsto> (v, clock w (calls w - 1) + ttlSeconds * 1000))\<rparr>))))
     (\<lambda>_. ret ())"

definition cache_del :: "string \<Rightarrow> ('w infra_scheme, unit) io" where
  "cache_del k = catchE
     (orThrow (exec (\<lambda>w. (Inr (), w\<lparr>redis := (redis w)(k := None)\<rparr>))))
     (\<lambda>_. ret ())"

definition redis_del_keys :: "string list \<Rightarrow> ('w infra_scheme, unit) io" where
  "redis_del_keys ks = orThrow (exec (\<lambda>w. (Inr (), w\<lparr>redis := (redis w) |` (- set ks)\<rparr>)))"

text \<open>The do-while loop of \<^verbatim>\<open>delByPrefix\<close>: one scan, and one delete if the page has keys, per cursor.\<close>

definition cache_delByPrefix :: "string \<Rightarrow> ('w infra_scheme, unit) io" where
  "cache_delByPrefix prefix = catchE
     (bindE (gets (\<lambda>w. scan_pages w (calls w) prefix)) (\<lambda>pages.
        forEach (fst pages # snd pages) (\<lambda>ks.
          bindE (orThrow (query (\<lambda>w. Inr ()))) (\<lambda>_.
          whenE (ks \<noteq> []) (redis_del_keys ks)))))
     (\<lambda>_. ret ())"

section \<open>AuditService\<close>

text \<open>A failed insert is logged by the service and otherwise ignored.\<close>

definition entry ::
  "string option \<Rightarrow> string \<Rightarrow> string option \<Rightarrow> string \<Rightarrow> string \<Rightarrow> string option \<Rightarrow> json \<Rightarrow> json \<Rightarrow> audit_entry" where
  "entry tenant actor role action rtype rid before after =
     \<lparr>a_tenant = tenant, a_actor = actor, a_role = role, a_action = action, a_type = rtype,
      a_resource = rid, a_before = before, a_after = after, a_ip = None, a_device = None\<rparr>"

definition audit_log :: "audit_entry \<Rightarrow> ('w infra_scheme, unit) io" where
  "audit_log e =
     bindE now (\<lambda>t.
     bindE (exec (\<lambda>w. (Inr (), w\<lparr>audit_logs := audit_logs w @ [audit_entry.extend e \<lparr>a_at = t\<rparr>]\<rparr>)))
       (\<lambda>_. ret ()))"

section \<open>Lemmas\<close>

lemmas infra_ops = cache_get_def cache_set_def cache_del_def redis_del_keys_def
  cache_delByPrefix_def audit_log_def

text \<open>The services change nothing but the cache and the audit log.\<close>

locale beside_infra = view v for v :: "'w infra_scheme \<Rightarrow> 'v" +
  assumes redis_hidden: "v (w\<lparr>redis := r\<rparr>) = v w"
    and audit_hidden: "v (w\<lparr>audit_logs := a\<rparr>) = v w"
begin

lemma keeps_cache_get: "keeps v (cache_get k)"
  unfolding cache_get_def by (intro keep_rules keeps_query)

lemma keeps_cache_set: "keeps v (cache_set k x ttl)"
  unfolding cache_set_def by (intro keep_rules keeps_exec) (simp add: redis_hidden)

lemma keeps_cache_del: "keeps v (cache_del k)"
  unfolding cache_del_def by (intro keep_rules keeps_exec) (simp add: redis_hidden)

lemma keeps_delByPrefix: "keeps v (cache_delByPrefix p)"
  unfolding cache_delByPrefix_def redis_del_keys_def
  by (intro keep_rules keeps_exec keeps_query) (simp add: redis_hidden)

lemma keeps_audit: "keeps v (audit_log en)"
  unfolding audit_log_def by (intro keep_rules keeps_exec) (simp add: audit_hidden)

lemmas keeps_infra = keeps_cache_get keeps_cache_set keeps_cache_del keeps_delByPrefix keeps_audit

end

text \<open>The services never throw.\<close>

lemma wp_get:
  "wp (cache_get k) Q E = (\<lambda>w. case fault w (calls w) of
     Some e \<Rightarrow> Q None (w\<lparr>calls := Suc (calls w)\<rparr>)
   | None \<Rightarrow> Q (case redis_lookup (w\<lparr>calls := Suc (calls w)\<rparr>) k of None \<Rightarrow> None
        | Some v \<Rightarrow> if v = JNull then None else Some v) (w\<lparr>calls := Suc (calls w)\<rparr>))"
  by (rule ext) (simp add: cache_get_def wp_rules split: option.splits)

lemma wp_set:
  "wp (cache_set k v ttl) Q E = (\<lambda>w. let w' = w\<lparr>calls := Suc (calls w)\<rparr> in
     case fault w (calls w) of Some e \<Rightarrow> Q () w'
     | None \<Rightarrow> Q () (w'\<lparr>redis := (redis w')(k \<mapsto> (v, clock w (calls w) + ttl * 1000))\<rparr>))"
  by (rule ext) (simp add: cache_set_def wp_rules Let_def split: option.splits)

lemma wp_del:
  "wp (cache_del k) Q E = (\<lambda>w. let w' = w\<lparr>calls := Suc (calls w)\<rparr> in
     case fault w (calls w) of Some e \<Rightarrow> Q () w'
     | None \<Rightarrow> Q () (w'\<lparr>redis := (redis w')(k := None)\<rparr>))"
  by (rule ext) (simp add: cache_del_def wp_rules Let_def split: option.splits)

lemma wp_audit:
  "wp (audit_log en) Q E = (\<lambda>w. let w' = w\<lparr>calls := Suc (calls w)\<rparr> in
     case fault w (calls w) of Some e \<Rightarrow> Q () w'
     | None \<Rightarrow> Q () (w'\<lparr>audit_logs := audit_logs w' @
        [audit_entry.extend en \<lparr>a_at = clock w (calls w)\<rparr>]\<rparr>))"
  by (rule ext) (simp add: audit_log_def wp_rules Let_def split: option.splits)

text \<open>
  The contract of the cache: what is set is read back until it expires, and what is deleted is
  not.  A set of \<^verbatim>\<open>null\<close> cannot be told from an absent entry.
\<close>

locale kv_cache =
  fixes get :: "string \<Rightarrow> ('w net_scheme, 'v option) io"
    and put :: "string \<Rightarrow> 'v \<Rightarrow> int \<Rightarrow> ('w net_scheme, unit) io"
    and del :: "string \<Rightarrow> ('w net_scheme, unit) io"
    and present :: "'w net_scheme \<Rightarrow> string \<Rightarrow> ('v \<times> int) option"
    and storable :: "'v \<Rightarrow> bool"
  assumes get_spec: "fault w (calls w) = None \<Longrightarrow>
      fst (get k w) = Inr (case present w k of None \<Rightarrow> None
        | Some (v, t) \<Rightarrow> if clock w (calls w) < t then Some v else None)"
    and get_keeps: "present (snd (get k w)) = present w"
    and put_spec: "fault w (calls w) = None \<Longrightarrow> storable v \<Longrightarrow>
      present (snd (put k v ttl w)) = (present w)(k \<mapsto> (v, clock w (calls w) + ttl * 1000))"
    and del_spec: "fault w (calls w) = None \<Longrightarrow>
      present (snd (del k w)) = (present w)(k := None)"
begin

lemma get_deleted:
  assumes "fault w (calls w) = None" "fault (snd (del k w)) (calls (snd (del k w))) = None"
  shows "fst (get k (snd (del k w))) = Inr None"
  using assms by (simp add: get_spec del_spec)

lemma get_after_put:
  assumes "fault w (calls w) = None" "storable v" "w' = snd (put k v ttl w)"
    "fault w' (calls w') = None" "clock w' (calls w') < clock w (calls w) + ttl * 1000"
  shows "fst (get k w') = Inr (Some v)"
  using assms put_spec [OF assms(1,2)] by (simp add: get_spec)

end

definition redis_present :: "'w infra_scheme \<Rightarrow> string \<Rightarrow> (json \<times> int) option" where
  "redis_present w k = (case redis w k of None \<Rightarrow> None
     | Some (v, t) \<Rightarrow> if v = JNull then None else Some (v, t))"

interpretation redis_cache: kv_cache cache_get cache_set cache_del redis_present "\<lambda>v. v \<noteq> JNull"
proof
  fix w :: "'w infra_scheme" and k
  assume "fault w (calls w) = None"
  then show "fst (cache_get k w) = Inr (case redis_present w k of None \<Rightarrow> None
      | Some (v, t) \<Rightarrow> if clock w (calls w) < t then Some v else None)"
    by (auto simp: cache_get_def io_defs query_def exec_def orThrow_def redis_present_def
        redis_lookup_def Let_def split: option.splits)
next
  fix w :: "'w infra_scheme" and k
  show "redis_present (snd (cache_get k w)) = redis_present w"
    by (auto simp: cache_get_def io_defs query_def exec_def orThrow_def redis_present_def
        Let_def fun_eq_iff split: option.splits)
next
  fix w :: "'w infra_scheme" and k v ttl
  assume "fault w (calls w) = None" "v \<noteq> JNull"
  then show "redis_present (snd (cache_set k v ttl w)) =
      (redis_present w)(k \<mapsto> (v, clock w (calls w) + ttl * 1000))"
    by (auto simp: cache_set_def io_defs exec_def orThrow_def redis_present_def Let_def fun_eq_iff
        split: option.splits)
next
  fix w :: "'w infra_scheme" and k
  assume "fault w (calls w) = None"
  then show "redis_present (snd (cache_del k w)) = (redis_present w)(k := None)"
    by (auto simp: cache_del_def io_defs exec_def orThrow_def redis_present_def Let_def fun_eq_iff
        split: option.splits)
qed

end
