(* ===== verification/Permissions.thy ===== *)
theory Permissions
  imports Infra
begin

text \<open>
  \<^verbatim>\<open>PermissionsService\<close> (\<^verbatim>\<open>core/permissions\<close>): which permission keys a role has in a tenant, which
  a user has through all of the user's roles and overrides, the two caches in front of these
  answers, and the write path of the user overrides.  The lemmas give the resolution a
  specification without cache and database calls.
\<close>

section \<open>Tables\<close>

record role_row =
  r_id :: string
  r_name :: string
  r_description :: "string option"
  r_tenant :: "string option"
  r_is_system :: bool
  r_priority :: int
  r_participant :: bool

record user_role =
  ur_user :: string
  ur_role :: string
  ur_primary :: bool

record role_permission =
  rp_role :: string
  rp_key :: string
  rp_granted :: bool

record tenant_role_permission =
  trp_tenant :: string
  trp_role :: string
  trp_key :: string
  trp_granted :: bool
  trp_updated :: int

datatype override_action = GRANT | DENY

record user_override =
  uo_user :: string
  uo_key :: string
  uo_action :: override_action
  uo_active :: bool

record permission_row =
  p_name :: string
  p_resource :: string

record user_row =
  u_id :: string
  u_tenant :: "string option"
  u_role :: string
  u_role_id :: "string option"
  u_deleted :: bool

text \<open>\<open>systemRoleIdCache\<close> lives in the process, the rest in the database.\<close>

record perms = infra +
  roles :: "role_row list"
  user_roles :: "user_role list"
  role_permissions :: "role_permission list"
  tenant_role_permissions :: "tenant_role_permission list"
  user_overrides :: "user_override list"
  permissions :: "permission_row list"
  users :: "user_row list"
  systemRoleIdCache :: "string \<rightharpoonup> string"

section \<open>PermissionsService\<close>

definition PERMISSIONS_TTL :: int where "PERMISSIONS_TTL = 600"

definition cacheKey :: "string \<Rightarrow> string option \<Rightarrow> string" where
  "cacheKey role tenantId =
     (if truthy tenantId then ''permissions:tenant:'' @ the tenantId @ '':role:'' @ role
      else ''permissions:role:'' @ role)"

definition userCacheKey :: "string \<Rightarrow> string option \<Rightarrow> string" where
  "userCacheKey userId tenantId =
     (if truthy tenantId then ''permissions:user:'' @ userId @ '':tenant:'' @ the tenantId
      else ''permissions:user:'' @ userId)"

text \<open>A JavaScript Set keeps its keys in insertion order.\<close>

definition set_add :: "string \<Rightarrow> string list \<Rightarrow> string list" where
  "set_add k ks = (if k \<in> set ks then ks else ks @ [k])"

definition set_delete :: "string \<Rightarrow> string list \<Rightarrow> string list" where
  "set_delete k ks = filter (\<lambda>x. x \<noteq> k) ks"

definition merge_key :: "string list \<Rightarrow> string \<times> bool \<Rightarrow> string list" where
  "merge_key ks ov = (if snd ov then set_add (fst ov) ks else set_delete (fst ov) ks)"

definition fetchGlobalGrants :: "string \<Rightarrow> ('w perms_scheme, string list) io" where
  "fetchGlobalGrants role = orElse []
     (query (\<lambda>w. Inr (map rp_key (filter (\<lambda>r. rp_role r = role \<and> rp_granted r) (role_permissions w)))))"

definition fetchAllTenantPermissionKeys :: "('w perms_scheme, string list) io" where
  "fetchAllTenantPermissionKeys = orElse []
     (query (\<lambda>w. Inr (map p_name (filter (\<lambda>p. p_resource p \<noteq> ''superadmin'') (permissions w)))))"

definition fetchTenantOverrides ::
  "string \<Rightarrow> string \<Rightarrow> ('w perms_scheme, (string \<times> bool) list) io" where
  "fetchTenantOverrides tenantId roleId = orElse []
     (query (\<lambda>w. Inr (map (\<lambda>r. (trp_key r, trp_granted r))
        (filter (\<lambda>r. trp_tenant r = tenantId \<and> trp_role r = roleId) (tenant_role_permissions w)))))"

definition lookupSystemRoleId :: "string \<Rightarrow> ('w perms_scheme, string option) io" where
  "lookupSystemRoleId role =
     bindE (gets (\<lambda>w. systemRoleIdCache w role)) (\<lambda>cached.
     if truthy cached then ret cached
     else bindE (orElse None (query (\<lambda>w. maybeSingle
            (filter (\<lambda>r. r_name r = role \<and> r_tenant r = None) (roles w))))) (\<lambda>data.
       case data of None \<Rightarrow> ret None
       | Some r \<Rightarrow> bindE (modify (\<lambda>w. w\<lparr>systemRoleIdCache := (systemRoleIdCache w)(role \<mapsto> r_id r)\<rparr>))
                      (\<lambda>_. ret (Some (r_id r)))))"

definition lookupRoleId :: "string \<Rightarrow> string option \<Rightarrow> ('w perms_scheme, string option) io" where
  "lookupRoleId role tenantId =
     bindE (lookupSystemRoleId role) (\<lambda>systemId.
     if truthy systemId then ret systemId
     else if \<not> truthy tenantId then ret None
     else bindE (orElse None (query (\<lambda>w. maybeSingle
            (filter (\<lambda>r. r_name r = role \<and> r_tenant r = tenantId) (roles w))))) (\<lambda>data.
       ret (case data of None \<Rightarrow> None | Some r \<Rightarrow> Some (r_id r))))"

definition resolveGrantedKeys :: "string \<Rightarrow> string option \<Rightarrow> ('w perms_scheme, string list) io" where
  "resolveGrantedKeys role tenantId =
     (if role = ''owner'' then fetchAllTenantPermissionKeys
      else bindE (fetchGlobalGrants role) (\<lambda>globalKeys.
        if \<not> truthy tenantId then ret globalKeys
        else bindE (lookupRoleId role tenantId) (\<lambda>roleId.
          if \<not> truthy roleId then ret globalKeys
          else bindE (fetchTenantOverrides (the tenantId) (the roleId)) (\<lambda>overrides.
            if overrides = [] then ret globalKeys
            else ret (foldl merge_key (uniq globalKeys) overrides)))))"

text \<open>\<^verbatim>\<open>new Set(cached)\<close>: an array of strings, or a value that is not iterable.\<close>

definition as_set :: "json \<Rightarrow> exn + string list" where
  "as_set v = (case v of JArr xs \<Rightarrow> Inr (json_strings xs) | _ \<Rightarrow> Inl (Err ''object is not iterable''))"

definition getGrantedSet :: "string \<Rightarrow> string option \<Rightarrow> ('w perms_scheme, string list) io" where
  "getGrantedSet role tenantId =
     bindE (cache_get (cacheKey role tenantId)) (\<lambda>cached.
     case cached of Some v \<Rightarrow> lift (as_set v)
     | None \<Rightarrow> bindE (resolveGrantedKeys role tenantId) (\<lambda>ps.
         bindE (cache_set (cacheKey role tenantId) (JArr (map JStr ps)) PERMISSIONS_TTL) (\<lambda>_. ret ps)))"

definition hasPermission :: "string \<Rightarrow> string \<Rightarrow> string option \<Rightarrow> ('w perms_scheme, bool) io" where
  "hasPermission role permissionKey tenantId =
     (if role = ''owner'' then ret True
      else bindE (getGrantedSet role tenantId) (\<lambda>granted. ret (permissionKey \<in> set granted)))"

definition getRolePermissions :: "string \<Rightarrow> string option \<Rightarrow> ('w perms_scheme, string list) io" where
  "getRolePermissions role tenantId = bindE (getGrantedSet role tenantId) (\<lambda>granted. ret (uniq granted))"

definition invalidateRole :: "string \<Rightarrow> string option \<Rightarrow> ('w perms_scheme, unit) io" where
  "invalidateRole role tenantId = cache_del (cacheKey role tenantId)"

definition invalidateUserPermissions :: "string \<Rightarrow> string option \<Rightarrow> ('w perms_scheme, unit) io" where
  "invalidateUserPermissions userId tenantId = cache_del (userCacheKey userId tenantId)"

definition role_of :: "'w perms_scheme \<Rightarrow> string \<Rightarrow> role_row option" where
  "role_of w rid = find (\<lambda>r. r_id r = rid) (roles w)"

definition role_names :: "'w perms_scheme \<Rightarrow> string \<Rightarrow> string list" where
  "role_names w userId = filter (\<lambda>n. n \<noteq> [])
     (List.map_filter (\<lambda>ur. map_option r_name (role_of w (ur_role ur)))
        (filter (\<lambda>ur. ur_user ur = userId) (user_roles w)))"

definition fetchUserRoleNames :: "string \<Rightarrow> ('w perms_scheme, string list) io" where
  "fetchUserRoleNames userId = orElse [] (query (\<lambda>w. Inr (role_names w userId)))"

definition fetchUserOverrides :: "string \<Rightarrow> ('w perms_scheme, (string \<times> override_action) list) io" where
  "fetchUserOverrides userId = orElse []
     (query (\<lambda>w. Inr (map (\<lambda>ov. (uo_key ov, uo_action ov))
        (filter (\<lambda>ov. uo_user ov = userId \<and> uo_active ov) (user_overrides w)))))"

definition getOverridesForUser :: "string \<Rightarrow> ('w perms_scheme, (string \<times> override_action) list) io" where
  "getOverridesForUser userId = fetchUserOverrides userId"

definition getGrantedSetForUser ::
  "string \<Rightarrow> string list \<Rightarrow> string option \<Rightarrow> ('w perms_scheme, string list) io" where
  "getGrantedSetForUser userId rs tenantId =
     bindE (cache_get (userCacheKey userId tenantId)) (\<lambda>cached.
     case cached of Some v \<Rightarrow> lift (as_set v)
     | None \<Rightarrow>
       bindE (foldE rs [] (\<lambda>merged role.
          bindE (resolveGrantedKeys role tenantId) (\<lambda>keys. ret (foldl (\<lambda>m k. set_add k m) merged keys))))
         (\<lambda>merged.
       bindE (fetchUserOverrides userId) (\<lambda>overrides.
       let result = foldl merge_key merged (map (\<lambda>ov. (fst ov, snd ov = GRANT)) overrides) in
       bindE (cache_set (userCacheKey userId tenantId) (JArr (map JStr result)) PERMISSIONS_TTL)
         (\<lambda>_. ret result))))"

definition hasPermissionForUser ::
  "string \<Rightarrow> string \<Rightarrow> string option \<Rightarrow> ('w perms_scheme, bool) io" where
  "hasPermissionForUser userId permissionKey tenantId =
     bindE (fetchUserRoleNames userId) (\<lambda>rs.
     if ''owner'' \<in> set rs then ret True
     else bindE (getGrantedSetForUser userId rs tenantId) (\<lambda>granted.
       ret (permissionKey \<in> set granted)))"

definition resetAllOverrides :: "string \<Rightarrow> string option \<Rightarrow> ('w perms_scheme, unit) io" where
  "resetAllOverrides userId tenantId =
     bindE (orThrow (exec (\<lambda>w. (Inr (), w\<lparr>user_overrides :=
        update_where (\<lambda>ov. uo_user ov = userId \<and> uo_active ov) (\<lambda>ov. ov\<lparr>uo_active := False\<rparr>)
          (user_overrides w)\<rparr>)))) (\<lambda>_.
     invalidateUserPermissions userId tenantId)"

definition override_match :: "string \<Rightarrow> string \<Rightarrow> user_override \<Rightarrow> bool" where
  "override_match userId key ov = (uo_user ov = userId \<and> uo_key ov = key \<and> uo_active ov)"

definition setOverride ::
  "string \<Rightarrow> string \<Rightarrow> override_action \<Rightarrow> string option \<Rightarrow> ('w perms_scheme, unit) io" where
  "setOverride userId permissionKey action tenantId =
     bindE (orThrow (exec (\<lambda>w. (Inr (filter (override_match userId permissionKey) (user_overrides w)),
        w\<lparr>user_overrides := update_where (override_match userId permissionKey)
           (\<lambda>ov. ov\<lparr>uo_action := action\<rparr>) (user_overrides w)\<rparr>)))) (\<lambda>updated.
     bindE (whenE (updated = []) (orThrow (exec (\<lambda>w. (Inr (),
        w\<lparr>user_overrides := user_overrides w @ [\<lparr>uo_user = userId, uo_key = permissionKey,
           uo_action = action, uo_active = True\<rparr>]\<rparr>))))) (\<lambda>_.
     invalidateUserPermissions userId tenantId))"

definition removeOverride :: "string \<Rightarrow> string \<Rightarrow> string option \<Rightarrow> ('w perms_scheme, unit) io" where
  "removeOverride userId permissionKey tenantId =
     bindE (orThrow (exec (\<lambda>w. (Inr (), w\<lparr>user_overrides :=
        update_where (override_match userId permissionKey) (\<lambda>ov. ov\<lparr>uo_active := False\<rparr>)
          (user_overrides w)\<rparr>)))) (\<lambda>_.
     invalidateUserPermissions userId tenantId)"

definition getResolutionDetail ::
  "string \<Rightarrow> string option \<Rightarrow> ('w perms_scheme, string list \<times> (string \<rightharpoonup> bool)) io" where
  "getResolutionDetail role tenantId =
     (if role = ''owner'' then
        bindE fetchAllTenantPermissionKeys (\<lambda>allKeys. ret (uniq allKeys, Map.empty))
      else bindE (fetchGlobalGrants role) (\<lambda>globalKeys.
        if \<not> truthy tenantId then ret (uniq globalKeys, Map.empty)
        else bindE (lookupRoleId role tenantId) (\<lambda>roleId.
          if \<not> truthy roleId then ret (uniq globalKeys, Map.empty)
          else bindE (fetchTenantOverrides (the tenantId) (the roleId)) (\<lambda>overrideRows.
            ret (foldl merge_key (uniq globalKeys) overrideRows,
                 foldl (\<lambda>m ov. m(fst ov \<mapsto> snd ov)) Map.empty overrideRows)))))"

section \<open>What a permission check leaves alone\<close>

text \<open>
  A permission check fills caches and reads tables.  Every component that asks for permissions
  interprets this interface on its own tables.
\<close>

locale beside_permissions = beside_infra v for v :: "'w perms_scheme \<Rightarrow> 'v" +
  assumes memo_hidden: "v (w\<lparr>systemRoleIdCache := m\<rparr>) = v w"
begin

lemma keeps_memo: "keeps v (modify (\<lambda>w. w\<lparr>systemRoleIdCache := f w\<rparr>))"
  by (simp add: keeps_def modify_def memo_hidden)

lemma keeps_lookups:
  "keeps v (fetchGlobalGrants r)" "keeps v fetchAllTenantPermissionKeys"
  "keeps v (fetchTenantOverrides t rid)" "keeps v (lookupSystemRoleId r)"
  "keeps v (fetchUserRoleNames u)" "keeps v (fetchUserOverrides u)"
  unfolding fetchGlobalGrants_def fetchAllTenantPermissionKeys_def fetchTenantOverrides_def
    lookupSystemRoleId_def fetchUserRoleNames_def fetchUserOverrides_def
  by (intro keep_rules keeps_query keeps_memo)+

lemma keeps_resolveGrantedKeys: "keeps v (resolveGrantedKeys r t)"
  unfolding resolveGrantedKeys_def lookupRoleId_def
  by (intro keep_rules keeps_query keeps_lookups)

lemma keeps_hasPermission: "keeps v (hasPermission r k t)"
  unfolding hasPermission_def getGrantedSet_def
  by (intro keep_rules keeps_infra keeps_resolveGrantedKeys)

lemma keeps_hasPermissionForUser: "keeps v (hasPermissionForUser u k t)"
  unfolding hasPermissionForUser_def getGrantedSetForUser_def Let_def
  by (intro keep_rules keeps_infra keeps_resolveGrantedKeys keeps_lookups)

lemma keeps_invalidate: "keeps v (invalidateRole n t)" "keeps v (invalidateUserPermissions u t)"
  unfolding invalidateRole_def invalidateUserPermissions_def by (rule keeps_cache_del)+

lemmas keeps_permissions = keeps_hasPermission keeps_hasPermissionForUser keeps_invalidate keeps_infra

end

section \<open>What the resolution computes\<close>

text \<open>The last decision on a key, if any.\<close>

definition decision :: "string \<Rightarrow> (string \<times> bool) list \<Rightarrow> bool option" where
  "decision k os = (case rev (filter (\<lambda>ov. fst ov = k) os) of [] \<Rightarrow> None | ov # _ \<Rightarrow> Some (snd ov))"

lemma decision_Nil [simp]: "decision k [] = None"
  by (simp add: decision_def)

lemma decision_snoc:
  "decision k (os @ [ov]) = (if fst ov = k then Some (snd ov) else decision k os)"
  by (simp add: decision_def)

lemma member_merge:
  "k \<in> set (foldl merge_key ks os) \<longleftrightarrow> nullish (decision k os) (k \<in> set ks)"
proof (induction os rule: rev_induct)
  case (snoc ov os)
  then show ?case
    by (cases "decision k os")
      (auto simp: decision_snoc merge_key_def set_add_def set_delete_def)
qed simp

lemma set_foldl_add: "set (foldl (\<lambda>m k. set_add k m) ks xs) = set ks \<union> set xs"
  by (induction xs arbitrary: ks) (auto simp: set_add_def)

text \<open>Which role a name denotes in a tenant: the system role, else the tenant's own.\<close>

definition system_role_id :: "'w perms_scheme \<Rightarrow> string \<Rightarrow> string option" where
  "system_role_id w role =
     (case filter (\<lambda>r. r_name r = role \<and> r_tenant r = None) (roles w) of
        [r] \<Rightarrow> Some (r_id r) | _ \<Rightarrow> None)"

definition role_id_for :: "'w perms_scheme \<Rightarrow> string \<Rightarrow> string option \<Rightarrow> string option" where
  "role_id_for w role tenantId =
     (if truthy (system_role_id w role) then system_role_id w role
      else if \<not> truthy tenantId then None
      else (case filter (\<lambda>r. r_name r = role \<and> r_tenant r = tenantId) (roles w) of
        [r] \<Rightarrow> Some (r_id r) | _ \<Rightarrow> None))"

definition tenant_decisions :: "'w perms_scheme \<Rightarrow> string \<Rightarrow> string option \<Rightarrow> (string \<times> bool) list" where
  "tenant_decisions w role tenantId =
     (if truthy tenantId \<and> truthy (role_id_for w role tenantId)
      then map (\<lambda>r. (trp_key r, trp_granted r))
        (filter (\<lambda>r. trp_tenant r = the tenantId \<and> trp_role r = the (role_id_for w role tenantId))
          (tenant_role_permissions w))
      else [])"

definition global_grant :: "'w perms_scheme \<Rightarrow> string \<Rightarrow> string \<Rightarrow> bool" where
  "global_grant w role key =
     (\<exists>r\<in>set (role_permissions w). rp_role r = role \<and> rp_granted r \<and> rp_key r = key)"

definition role_grants :: "'w perms_scheme \<Rightarrow> string \<Rightarrow> string option \<Rightarrow> string \<Rightarrow> bool" where
  "role_grants w role tenantId key =
     (if role = ''owner''
      then \<exists>p\<in>set (permissions w). p_resource p \<noteq> ''superadmin'' \<and> p_name p = key
      else nullish (decision key (tenant_decisions w role tenantId)) (global_grant w role key))"

definition user_decisions :: "'w perms_scheme \<Rightarrow> string \<Rightarrow> (string \<times> bool) list" where
  "user_decisions w userId = map (\<lambda>ov. (uo_key ov, uo_action ov = GRANT))
     (filter (\<lambda>ov. uo_user ov = userId \<and> uo_active ov) (user_overrides w))"

definition user_allowed :: "'w perms_scheme \<Rightarrow> string \<Rightarrow> string \<Rightarrow> string option \<Rightarrow> bool" where
  "user_allowed w userId key tenantId =
     (''owner'' \<in> set (role_names w userId) \<or>
      nullish (decision key (user_decisions w userId))
        (\<exists>role\<in>set (role_names w userId). role_grants w role tenantId key))"

text \<open>
  A world without faults in which \<open>systemRoleIdCache\<close> agrees with the roles; system roles are
  seeded once, so nothing the service does breaks the agreement.
\<close>

definition memo_ok :: "'w perms_scheme \<Rightarrow> bool" where
  "memo_ok w \<longleftrightarrow> (\<forall>role i. systemRoleIdCache w role = Some i \<longrightarrow> system_role_id w role = Some i)"

definition quiet :: "'w perms_scheme \<Rightarrow> bool" where
  "quiet w \<longleftrightarrow> (\<forall>n. fault w n = None) \<and> memo_ok w"

text \<open>What a read may change: the call counter and the memo.\<close>

definition touched :: "'w perms_scheme \<Rightarrow> 'w perms_scheme \<Rightarrow> bool" where
  "touched w w' \<longleftrightarrow> (\<exists>n m. w' = w\<lparr>calls := n, systemRoleIdCache := m\<rparr>) \<and> quiet w'"

lemma touched_refl: "quiet w \<Longrightarrow> touched w w"
  unfolding touched_def by (intro conjI exI [of _ "calls w"] exI [of _ "systemRoleIdCache w"]) simp_all

lemma touched_trans: "touched w v \<Longrightarrow> touched v u \<Longrightarrow> touched w u"
  unfolding touched_def by (elim conjE exE) (intro conjI exI, simp_all)

lemma touched_count: "touched w v \<Longrightarrow> touched w (v\<lparr>calls := n\<rparr>)"
proof -
  assume a: "touched w v"
  then obtain k m where v: "v = w\<lparr>calls := k, systemRoleIdCache := m\<rparr>" and q: "quiet v"
    unfolding touched_def by blast
  have "v\<lparr>calls := n\<rparr> = w\<lparr>calls := n, systemRoleIdCache := m\<rparr>" by (simp add: v)
  moreover have "quiet (v\<lparr>calls := n\<rparr>)"
    using q by (simp add: quiet_def memo_ok_def system_role_id_def)
  ultimately show ?thesis unfolding touched_def by blast
qed

lemma touched_quiet: "touched w w' \<Longrightarrow> quiet w'"
  by (simp add: touched_def)

lemma touched_same:
  assumes "touched w w'"
  shows "roles w' = roles w" "user_roles w' = user_roles w" "role_permissions w' = role_permissions w"
    "tenant_role_permissions w' = tenant_role_permissions w" "user_overrides w' = user_overrides w"
    "permissions w' = permissions w" "redis w' = redis w" "clock w' = clock w" "users w' = users w"
    "system_role_id w' = system_role_id w" "role_id_for w' = role_id_for w"
    "tenant_decisions w' = tenant_decisions w" "global_grant w' = global_grant w"
    "role_grants w' = role_grants w" "user_decisions w' = user_decisions w"
    "role_names w' = role_names w" "\<And>n. fault w' n = None"
  using assms
  by (auto simp: touched_def quiet_def fun_eq_iff system_role_id_def role_id_for_def
      tenant_decisions_def global_grant_def role_grants_def user_decisions_def role_names_def
      role_of_def)

text \<open>Each read returns what the tables say, and is quiet.\<close>

lemma wp_read:
  assumes "touched w v" "\<And>v'. touched w v' \<Longrightarrow> touched v v' \<Longrightarrow> Q (case f v' of Inl e \<Rightarrow> d | Inr x \<Rightarrow> x) v'"
  shows "wp (orElse d (query f)) Q E v"
proof -
  have f: "fault v n = None" for n using assms(1) by (simp add: touched_same(17))
  have "touched w (v\<lparr>calls := Suc (calls v)\<rparr>)" using assms(1) by (rule touched_count)
  moreover have "touched v (v\<lparr>calls := Suc (calls v)\<rparr>)"
    using assms(1) by (intro touched_count touched_refl) (rule touched_quiet)
  ultimately show ?thesis using assms(2) f by (simp add: wp_rules split: option.split)
qed

lemma fetchGlobalGrants_spec:
  assumes "touched w v"
  shows "wp (fetchGlobalGrants role) (\<lambda>ks v'. touched w v' \<and> (\<forall>k. k \<in> set ks \<longleftrightarrow> global_grant w role k))
     (\<lambda>_ _. False) v"
  unfolding fetchGlobalGrants_def
  by (rule wp_read [OF assms]) (auto simp: touched_same global_grant_def)

lemma fetchAll_spec:
  assumes "touched w v"
  shows "wp fetchAllTenantPermissionKeys (\<lambda>ks v'. touched w v' \<and> (\<forall>k. k \<in> set ks \<longleftrightarrow> role_grants w ''owner'' t k))
     (\<lambda>_ _. False) v"
  unfolding fetchAllTenantPermissionKeys_def
  by (rule wp_read [OF assms]) (auto simp: touched_same role_grants_def)

lemma fetchTenantOverrides_spec:
  assumes "touched w v"
  shows "wp (fetchTenantOverrides t r) (\<lambda>os v'. touched w v' \<and> os = map (\<lambda>r. (trp_key r, trp_granted r))
        (filter (\<lambda>x. trp_tenant x = t \<and> trp_role x = r) (tenant_role_permissions w)))
     (\<lambda>_ _. False) v"
  unfolding fetchTenantOverrides_def
  by (rule wp_read [OF assms]) (auto simp: touched_same)

lemma fetchUserRoleNames_spec:
  assumes "touched w v"
  shows "wp (fetchUserRoleNames u) (\<lambda>ns v'. touched w v' \<and> ns = role_names w u) (\<lambda>_ _. False) v"
  unfolding fetchUserRoleNames_def
  by (rule wp_read [OF assms]) (auto simp: touched_same)

lemma fetchUserOverrides_spec:
  assumes "touched w v"
  shows "wp (fetchUserOverrides u) (\<lambda>os v'. touched w v' \<and>
     map (\<lambda>ov. (fst ov, snd ov = GRANT)) os = user_decisions w u) (\<lambda>_ _. False) v"
  unfolding fetchUserOverrides_def
  by (rule wp_read [OF assms]) (auto simp: touched_same user_decisions_def)

lemma lookupSystemRoleId_spec:
  assumes "touched w v"
  shows "wp (lookupSystemRoleId role) (\<lambda>r v'. touched w v' \<and>
     (truthy r \<longleftrightarrow> truthy (system_role_id w role)) \<and> (truthy r \<longrightarrow> r = system_role_id w role))
     (\<lambda>_ _. False) v"
proof -
  let ?rows = "\<lambda>w. filter (\<lambda>r. r_name r = role \<and> r_tenant r = None) (roles w)"
  have memo: "systemRoleIdCache v role = Some i \<Longrightarrow> system_role_id w role = Some i" for i
    using assms touched_same(10) [OF assms] by (auto simp: touched_def quiet_def memo_ok_def)
  have q: "wp (orElse None (query (\<lambda>w. maybeSingle (?rows w)))) (\<lambda>x v'. touched w v' \<and>
       map_option r_id x = system_role_id w role) (\<lambda>_ _. False) v"
    by (rule wp_read [OF assms])
      (auto simp: touched_same system_role_id_def maybeSingle_def split: list.splits)
  have upd: "touched w (v'\<lparr>systemRoleIdCache := (systemRoleIdCache v')(role \<mapsto> r_id x)\<rparr>)"
    if t: "touched w v'" and i: "system_role_id w role = Some (r_id x)" for x v'
  proof -
    obtain n m where v': "v' = w\<lparr>calls := n, systemRoleIdCache := m\<rparr>"
      using t by (auto simp: touched_def)
    show ?thesis using t i touched_same(10) [OF t]
      unfolding touched_def quiet_def memo_ok_def v'
      by (auto simp: system_role_id_def)
  qed
  let ?Q = "\<lambda>r v'. touched w v' \<and> (truthy r \<longleftrightarrow> truthy (system_role_id w role)) \<and>
     (truthy r \<longrightarrow> r = system_role_id w role)"
  let ?rest = "\<lambda>data. case data of None \<Rightarrow> ret None
     | Some r \<Rightarrow> bindE (modify (\<lambda>w. w\<lparr>systemRoleIdCache := (systemRoleIdCache w)(role \<mapsto> r_id r)\<rparr>))
         (\<lambda>_. ret (Some (r_id r)))"
  have rest: "wp (?rest x) ?Q (\<lambda>_ _. False) v'"
    if "touched w v' \<and> map_option r_id x = system_role_id w role" for x v'
  proof (cases x)
    case None
    then show ?thesis using that by (simp add: wp_ret flip: conjunct2 [OF that])
  next
    case (Some r)
    then have "system_role_id w role = Some (r_id r)" using that by simp
    then have "touched w (v'\<lparr>systemRoleIdCache := (systemRoleIdCache v')(role \<mapsto> r_id r)\<rparr>)"
      using that by (intro upd) auto
    then show ?thesis using Some \<open>system_role_id w role = Some (r_id r)\<close>
      by (simp add: wp_bindE wp_modify wp_ret)
  qed
  have miss: "wp (bindE (orElse None (query (\<lambda>w. maybeSingle (?rows w)))) ?rest) ?Q (\<lambda>_ _. False) v"
    unfolding wp_bindE by (rule wp_mono [OF q]) (use rest in auto)
  show ?thesis
    unfolding lookupSystemRoleId_def wp_bindE wp_gets
    using miss memo assms by (cases "systemRoleIdCache v role") (auto simp: wp_if wp_ret)
qed

lemma lookupRoleId_spec:
  assumes "touched w v"
  shows "wp (lookupRoleId role t) (\<lambda>r v'. touched w v' \<and>
     (truthy r \<longleftrightarrow> truthy (role_id_for w role t)) \<and> (truthy r \<longrightarrow> r = role_id_for w role t))
     (\<lambda>_ _. False) v"
  unfolding lookupRoleId_def wp_bindE
proof (rule wp_mono [OF lookupSystemRoleId_spec [OF assms]])
  let ?rows = "\<lambda>w. filter (\<lambda>r. r_name r = role \<and> r_tenant r = t) (roles w)"
  fix r v' assume r: "touched w v' \<and> (truthy r \<longleftrightarrow> truthy (system_role_id w role)) \<and>
     (truthy r \<longrightarrow> r = system_role_id w role)"
  then have t': "touched w v'" by simp
  have read: "wp (orElse None (query (\<lambda>w. maybeSingle (?rows w)))) (\<lambda>x v''. touched w v'' \<and>
      map_option r_id x = (case ?rows w of [r] \<Rightarrow> Some (r_id r) | _ \<Rightarrow> None)) (\<lambda>_ _. False) v'"
    by (rule wp_read [OF t'])
      (auto simp: touched_same maybeSingle_def split: list.splits)
  have own: "wp (orElse None (query (\<lambda>w. maybeSingle (?rows w))))
      (\<lambda>x. wp (ret (case x of None \<Rightarrow> None | Some r \<Rightarrow> Some (r_id r)))
        (\<lambda>r v'. touched w v' \<and> (truthy r \<longleftrightarrow> truthy (role_id_for w role t)) \<and>
          (truthy r \<longrightarrow> r = role_id_for w role t)) (\<lambda>_ _. False)) (\<lambda>_ _. False) v'"
    if "\<not> truthy (system_role_id w role)" "truthy t"
    by (rule wp_mono [OF read])
      (use that in \<open>auto simp: wp_ret role_id_for_def map_option_case\<close>)
  show "wp (if truthy r then ret r else if \<not> truthy t then ret None
      else bindE (orElse None (query (\<lambda>w. maybeSingle (?rows w))))
        (\<lambda>data. ret (case data of None \<Rightarrow> None | Some r \<Rightarrow> Some (r_id r))))
     (\<lambda>r v'. touched w v' \<and> (truthy r \<longleftrightarrow> truthy (role_id_for w role t)) \<and>
       (truthy r \<longrightarrow> r = role_id_for w role t)) (\<lambda>_ _. False) v'"
  proof (cases "truthy r")
    case True
    then show ?thesis using r by (simp add: wp_ret role_id_for_def)
  next
    case False
    then show ?thesis using r own by (cases "truthy t") (simp_all add: wp_ret wp_bindE role_id_for_def)
  qed
qed auto

lemma resolveGrantedKeys_spec:
  assumes "touched w v"
  shows "wp (resolveGrantedKeys role t) (\<lambda>ks v'. touched w v' \<and> (\<forall>k. k \<in> set ks \<longleftrightarrow> role_grants w role t k))
     (\<lambda>_ _. False) v"
proof (cases "role = ''owner''")
  case True
  then show ?thesis unfolding resolveGrantedKeys_def using fetchAll_spec [OF assms, of t] by simp
next
  case False
  let ?Q = "\<lambda>ks v'. touched w v' \<and> (\<forall>k. k \<in> set ks \<longleftrightarrow> role_grants w role t k)"
  have base: "?Q g u" if "touched w u" "\<forall>k. k \<in> set g \<longleftrightarrow> global_grant w role k"
    "tenant_decisions w role t = []" for g u
    using that False by (simp add: role_grants_def)
  have over: "wp (bindE (fetchTenantOverrides (the t) (the r)) (\<lambda>os. if os = [] then ret g
        else ret (foldl merge_key (uniq g) os))) ?Q (\<lambda>_ _. False) u"
    if "touched w u" "truthy t" "truthy r" "r = role_id_for w role t"
      "\<forall>k. k \<in> set g \<longleftrightarrow> global_grant w role k" for r g u
    unfolding wp_bindE
  proof (rule wp_mono [OF fetchTenantOverrides_spec [OF that(1)]])
    fix os u' assume os: "touched w u' \<and> os = map (\<lambda>r. (trp_key r, trp_granted r))
        (filter (\<lambda>x. trp_tenant x = the t \<and> trp_role x = the r) (tenant_role_permissions w))"
    then have "os = tenant_decisions w role t" using that by (simp add: tenant_decisions_def)
    then have "\<forall>k. k \<in> set (foldl merge_key (uniq g) os) \<longleftrightarrow> role_grants w role t k"
      "os = [] \<longrightarrow> (\<forall>k. k \<in> set g \<longleftrightarrow> role_grants w role t k)"
      using that(5) False by (simp_all add: member_merge role_grants_def)
    then show "wp (if os = [] then ret g else ret (foldl merge_key (uniq g) os)) ?Q (\<lambda>_ _. False) u'"
      using os by (simp add: wp_ret)
  qed auto
  have look: "wp (bindE (lookupRoleId role t) (\<lambda>r. if \<not> truthy r then ret g
        else bindE (fetchTenantOverrides (the t) (the r)) (\<lambda>os. if os = [] then ret g
          else ret (foldl merge_key (uniq g) os)))) ?Q (\<lambda>_ _. False) u"
    if "touched w u" "truthy t" "\<forall>k. k \<in> set g \<longleftrightarrow> global_grant w role k" for g u
    unfolding wp_bindE [of "lookupRoleId role t"]
  proof (rule wp_mono [OF lookupRoleId_spec [OF that(1)]])
    fix r u' assume r: "touched w u' \<and> (truthy r \<longleftrightarrow> truthy (role_id_for w role t)) \<and>
      (truthy r \<longrightarrow> r = role_id_for w role t)"
    show "wp (if \<not> truthy r then ret g else bindE (fetchTenantOverrides (the t) (the r))
        (\<lambda>os. if os = [] then ret g else ret (foldl merge_key (uniq g) os))) ?Q (\<lambda>_ _. False) u'"
    proof (cases "truthy r")
      case True
      then have "r = role_id_for w role t" "touched w u'" using r by blast+
      then have "wp (bindE (fetchTenantOverrides (the t) (the r)) (\<lambda>os. if os = [] then ret g
          else ret (foldl merge_key (uniq g) os))) ?Q (\<lambda>_ _. False) u'"
        using over [OF _ that(2) True _ that(3)] by blast
      then show ?thesis using True by (simp only: not_True_eq_False if_False)
    next
      case nr: False
      then have "tenant_decisions w role t = []" using r by (simp add: tenant_decisions_def)
      then show ?thesis using nr base [of u' g] r that by (simp add: wp_ret)
    qed
  qed auto
  show ?thesis
    unfolding resolveGrantedKeys_def if_not_P [OF False] wp_bindE [of "fetchGlobalGrants role"]
  proof (rule wp_mono [OF fetchGlobalGrants_spec [OF assms]])
    fix g u assume g: "touched w u \<and> (\<forall>k. k \<in> set g \<longleftrightarrow> global_grant w role k)"
    show "wp (if \<not> truthy t then ret g else bindE (lookupRoleId role t) (\<lambda>r. if \<not> truthy r then ret g
        else bindE (fetchTenantOverrides (the t) (the r)) (\<lambda>os. if os = [] then ret g
          else ret (foldl merge_key (uniq g) os)))) ?Q (\<lambda>_ _. False) u"
    proof (cases "truthy t")
      case True
      then show ?thesis using look [of u g] g by simp
    next
      case nt: False
      then have "tenant_decisions w role t = []" by (simp add: tenant_decisions_def)
      then show ?thesis using nt base [of u g] g by (simp add: wp_ret)
    qed
  qed auto
qed

lemma foldE_roles_spec:
  assumes "touched w v"
  shows "wp (foldE rs m (\<lambda>merged role. bindE (resolveGrantedKeys role t)
        (\<lambda>keys. ret (foldl (\<lambda>m k. set_add k m) merged keys))))
     (\<lambda>ks v'. touched w v' \<and> (\<forall>k. k \<in> set ks \<longleftrightarrow> k \<in> set m \<or> (\<exists>role\<in>set rs. role_grants w role t k)))
     (\<lambda>_ _. False) v"
  using assms
proof (induction rs arbitrary: m v)
  case (Cons role rs)
  show ?case
    unfolding foldE.simps wp_bindE wp_ret
    by (rule wp_mono [OF resolveGrantedKeys_spec [OF Cons.prems]])
      (auto intro!: wp_mono [OF Cons.IH] simp: set_foldl_add)
qed (simp add: wp_ret)

text \<open>The set a user has, computed afresh: it is what the specification says, and it is cached.\<close>

lemma getGrantedSetForUser_spec:
  assumes "touched w v" "redis_present w (userCacheKey u t) = None"
  shows "wp (getGrantedSetForUser u rs t) (\<lambda>ks v'. (\<forall>k. k \<in> set ks \<longleftrightarrow>
      nullish (decision k (user_decisions w u)) (\<exists>role\<in>set rs. role_grants w role t k)))
     (\<lambda>_ _. False) v"
proof -
  have none: "(case redis_lookup (v\<lparr>calls := Suc (calls v)\<rparr>) (userCacheKey u t) of None \<Rightarrow> None
      | Some x \<Rightarrow> if x = JNull then None else Some x) = None"
    using assms(2) touched_same(7) [OF assms(1)]
    by (auto simp: redis_lookup_def redis_present_def split: option.splits if_splits)
  have t1: "touched w (v\<lparr>calls := Suc (calls v)\<rparr>)" using assms(1) by (rule touched_count)
  have fin: "wp (bindE (cache_set (userCacheKey u t) x ttl) (\<lambda>_. ret y)) (\<lambda>ks v'. P ks) (\<lambda>_ _. False) v'"
    if "P y" for x ttl y P and v' :: "'a perms_scheme"
    using that by (simp add: wp_bindE wp_set wp_ret Let_def split: option.split)
  have over: "wp (fetchUserOverrides u) (\<lambda>os. wp (let result = foldl merge_key m
        (map (\<lambda>ov. (fst ov, snd ov = GRANT)) os) in
       bindE (cache_set (userCacheKey u t) (JArr (map JStr result)) PERMISSIONS_TTL) (\<lambda>_. ret result))
      (\<lambda>ks v'. \<forall>k. k \<in> set ks \<longleftrightarrow> nullish (decision k (user_decisions w u)) (\<exists>role\<in>set rs. role_grants w role t k))
      (\<lambda>_ _. False)) (\<lambda>_ _. False) v'"
    if "touched w v'" "\<forall>k. k \<in> set m \<longleftrightarrow> (\<exists>role\<in>set rs. role_grants w role t k)" for m v'
    by (rule wp_mono [OF fetchUserOverrides_spec [OF that(1)]])
      (use that(2) in \<open>auto simp: Let_def member_merge intro!: fin\<close>)
  have go: "wp (foldE rs [] (\<lambda>merged role. bindE (resolveGrantedKeys role t)
        (\<lambda>keys. ret (foldl (\<lambda>m k. set_add k m) merged keys)))) (\<lambda>m. wp (fetchUserOverrides u)
      (\<lambda>os. wp (let result = foldl merge_key m (map (\<lambda>ov. (fst ov, snd ov = GRANT)) os) in
       bindE (cache_set (userCacheKey u t) (JArr (map JStr result)) PERMISSIONS_TTL) (\<lambda>_. ret result))
      (\<lambda>ks v'. \<forall>k. k \<in> set ks \<longleftrightarrow> nullish (decision k (user_decisions w u)) (\<exists>role\<in>set rs. role_grants w role t k))
      (\<lambda>_ _. False)) (\<lambda>_ _. False)) (\<lambda>_ _. False) (v\<lparr>calls := Suc (calls v)\<rparr>)"
    by (rule wp_mono [OF foldE_roles_spec [OF t1]]) (auto intro!: over)
  show ?thesis
    unfolding getGrantedSetForUser_def wp_bindE wp_get
    using go none by (simp add: touched_same [OF assms(1)] wp_case_option wp_bindE)
qed

lemma hasPermissionForUser_wp:
  assumes "touched w v" "redis_present w (userCacheKey u t) = None"
  shows "wp (hasPermissionForUser u k t) (\<lambda>b v'. b \<longleftrightarrow> user_allowed w u k t) (\<lambda>_ _. False) v"
  unfolding hasPermissionForUser_def wp_bindE
proof (rule wp_mono [OF fetchUserRoleNames_spec [OF assms(1)]])
  fix rs v' assume rs: "touched w v' \<and> rs = role_names w u"
  show "wp (if ''owner'' \<in> set rs then ret True
       else bindE (getGrantedSetForUser u rs t) (\<lambda>granted. ret (k \<in> set granted)))
     (\<lambda>b v'. b \<longleftrightarrow> user_allowed w u k t) (\<lambda>_ _. False) v'"
    using rs by (auto simp: wp_if wp_ret wp_bindE user_allowed_def
        intro!: wp_mono [OF getGrantedSetForUser_spec [OF _ assms(2)]])
qed auto

lemma wp_fst: "wp m (\<lambda>x _. x = y) (\<lambda>_ _. False) w \<Longrightarrow> fst (m w) = Inr y"
  by (auto simp: wp_def split: prod.splits sum.splits)

text \<open>C24. Permission resolution computes what the layers say.  With nothing cached for the user
  and no failing call, \<^verbatim>\<open>hasPermissionForUser\<close> grants a key exactly if one of the user's roles is
  owner, or the last active override of the user for the key is a GRANT, or there is no such
  override and one of the roles grants the key: by the tenant's last override for that role and
  key if there is one, else by the global table.\<close>

theorem hasPermissionForUser_resolves:
  assumes "quiet w" "redis_present w (userCacheKey u t) = None"
  shows "fst (hasPermissionForUser u k t w) = Inr (user_allowed w u k t)"
  using hasPermissionForUser_wp [OF touched_refl [OF assms(1)] assms(2)] by (rule wp_fst)

text \<open>A small world for the witnesses: one cashier in tenant t, with one override.\<close>

definition demo_perms :: perms where
  "demo_perms = \<lparr>calls = 0, fault = (\<lambda>_. None), clock = (\<lambda>n. int n), uuid = (\<lambda>_. ''id''),
     redis = Map.empty, scan_pages = (\<lambda>_ _. ([], [])), audit_logs = [],
     roles = [\<lparr>r_id = ''r1'', r_name = ''cashier'', r_description = None, r_tenant = None,
        r_is_system = True, r_priority = 10, r_participant = True\<rparr>],
     user_roles = [\<lparr>ur_user = ''u'', ur_role = ''r1'', ur_primary = True\<rparr>],
     role_permissions = [\<lparr>rp_role = ''cashier'', rp_key = ''sale'', rp_granted = True\<rparr>],
     tenant_role_permissions = [\<lparr>trp_tenant = ''t'', trp_role = ''r1'', trp_key = ''sale'',
        trp_granted = False, trp_updated = 0\<rparr>],
     user_overrides = [\<lparr>uo_user = ''u'', uo_key = ''sale'', uo_action = GRANT, uo_active = True\<rparr>],
     permissions = [\<lparr>p_name = ''sale'', p_resource = ''pos''\<rparr>], users = [],
     systemRoleIdCache = Map.empty\<rparr>"

lemma demo_perms_quiet: "quiet demo_perms"
  by (simp add: quiet_def memo_ok_def demo_perms_def)

theorem hasPermissionForUser_resolves_witness:
  "fst (hasPermissionForUser ''u'' ''sale'' (Some ''t'') demo_perms) = Inr True"
proof -
  have "redis_present demo_perms (userCacheKey ''u'' (Some ''t'')) = None"
    by (simp add: redis_present_def demo_perms_def)
  moreover have "user_allowed demo_perms ''u'' ''sale'' (Some ''t'')"
    by (simp add: user_allowed_def demo_perms_def user_decisions_def decision_def)
  ultimately show ?thesis
    using hasPermissionForUser_resolves [OF demo_perms_quiet] by simp
qed

section \<open>The write path of the overrides\<close>

lemma decision_uniform:
  "ov \<in> set os \<Longrightarrow> fst ov = k \<Longrightarrow> \<forall>x\<in>set os. fst x = k \<longrightarrow> snd x = b \<Longrightarrow> decision k os = Some b"
proof (induction os rule: rev_induct)
  case (snoc x os)
  then show ?case by (auto simp: decision_snoc)
qed simp

lemma wp_keeps_quiet: "quiet w \<Longrightarrow> quiet (w\<lparr>calls := n, user_overrides := ovs\<rparr>)"
  by (simp add: quiet_def memo_ok_def system_role_id_def)

text \<open>The overrides after \<open>setOverride\<close>: every active row for the key has the action, and there is one.\<close>

definition set_rows :: "string \<Rightarrow> string \<Rightarrow> override_action \<Rightarrow> user_override list \<Rightarrow> user_override list" where
  "set_rows u k a ovs = (if filter (override_match u k) ovs = []
     then ovs @ [\<lparr>uo_user = u, uo_key = k, uo_action = a, uo_active = True\<rparr>]
     else update_where (override_match u k) (\<lambda>ov. ov\<lparr>uo_action := a\<rparr>) ovs)"

lemma setOverride_run:
  assumes "quiet w"
  shows "\<exists>n. setOverride u k a t w = cache_del (userCacheKey u t)
     (w\<lparr>calls := n, user_overrides := set_rows u k a (user_overrides w)\<rparr>)"
proof -
  have f: "fault w n = None" for n using assms by (simp add: quiet_def)
  show ?thesis
  proof (cases "filter (override_match u k) (user_overrides w) = []")
    case True
    then have same: "update_where (override_match u k) (\<lambda>ov. ov\<lparr>uo_action := a\<rparr>) (user_overrides w)
        = user_overrides w"
      by (intro update_where_none) (auto simp: filter_empty_conv)
    show ?thesis
      by (rule exI [of _ "Suc (Suc (calls w))"])
        (use True f same in \<open>simp add: setOverride_def io_defs orThrow_def exec_def Let_def
          invalidateUserPermissions_def set_rows_def\<close>)
  next
    case False
    then show ?thesis
      by (intro exI [of _ "Suc (calls w)"])
        (use f in \<open>simp add: setOverride_def io_defs orThrow_def exec_def Let_def
          invalidateUserPermissions_def set_rows_def\<close>)
  qed
qed

lemma set_rows_decision:
  "decision k (map (\<lambda>ov. (uo_key ov, uo_action ov = GRANT))
     (filter (\<lambda>ov. uo_user ov = u \<and> uo_active ov) (set_rows u k a ovs))) = Some (a = GRANT)"
proof (cases "filter (override_match u k) ovs = []")
  case True
  then show ?thesis by (simp add: set_rows_def decision_snoc)
next
  case False
  then obtain x where x: "x \<in> set ovs" "override_match u k x" by (auto simp: filter_empty_conv)
  have "x\<lparr>uo_action := a\<rparr> \<in> set (set_rows u k a ovs)"
    unfolding set_rows_def if_not_P [OF False] set_update_where
    by (intro image_eqI [of _ _ x]) (use x in simp_all)
  then have "(k, a = GRANT) \<in> set (map (\<lambda>ov. (uo_key ov, uo_action ov = GRANT))
      (filter (\<lambda>ov. uo_user ov = u \<and> uo_active ov) (set_rows u k a ovs)))"
    unfolding set_map using x(2)
    by (intro image_eqI [of _ _ "x\<lparr>uo_action := a\<rparr>"]) (simp_all add: override_match_def)
  moreover have "\<forall>y\<in>set (set_rows u k a ovs). override_match u k y \<longrightarrow> uo_action y = a"
    unfolding set_rows_def if_not_P [OF False] set_update_where by fastforce
  ultimately show ?thesis
    by (intro decision_uniform) (auto simp: override_match_def)
qed

text \<open>An override takes effect at once.  Whatever the caches held, after \<^verbatim>\<open>setOverride\<close> of a key
  with GRANT the next \<^verbatim>\<open>hasPermissionForUser\<close> for that key answers yes, and after DENY it
  answers no unless the user is an owner: the row is written, or every active row for the key
  rewritten, and the cached set that would still give the old answer is deleted.\<close>

theorem setOverride_takes_effect:
  assumes "quiet w"
  shows "fst (setOverride u k a t w) = Inr () \<and>
    fst (hasPermissionForUser u k t (snd (setOverride u k a t w))) =
      Inr (''owner'' \<in> set (role_names w u) \<or> a = GRANT)"
proof -
  obtain n where run: "setOverride u k a t w = cache_del (userCacheKey u t)
      (w\<lparr>calls := n, user_overrides := set_rows u k a (user_overrides w)\<rparr>)" (is "_ = cache_del _ ?w")
    using setOverride_run [OF assms] by blast
  have q: "quiet ?w" using assms by (rule wp_keeps_quiet)
  then have f: "fault ?w m = None" for m unfolding quiet_def by blast
  have del: "cache_del (userCacheKey u t) ?w = (Inr (),
      ?w\<lparr>calls := Suc n, redis := (redis w)(userCacheKey u t := None)\<rparr>)" (is "_ = (_, ?v)")
    using f by (simp add: cache_del_def io_defs exec_def orThrow_def)
  have "redis_present ?v (userCacheKey u t) = None"
    using redis_cache.del_spec [of ?w "userCacheKey u t"] f del by simp
  moreover have "quiet ?v" using q by (simp add: quiet_def memo_ok_def system_role_id_def)
  ultimately have "fst (hasPermissionForUser u k t ?v) = Inr (user_allowed ?v u k t)"
    by (intro wp_fst hasPermissionForUser_wp touched_refl)
  moreover have "user_allowed ?v u k t = (''owner'' \<in> set (role_names w u) \<or> a = GRANT)"
    by (simp add: user_allowed_def user_decisions_def set_rows_decision role_names_def role_of_def)
  ultimately show ?thesis unfolding run del by simp
qed

theorem setOverride_takes_effect_witness:
  "fst (hasPermissionForUser ''u'' ''sale'' (Some ''t'')
     (snd (setOverride ''u'' ''sale'' DENY (Some ''t'') demo_perms))) = Inr False"
proof -
  have "''owner'' \<notin> set (role_names demo_perms ''u'')"
    by (simp add: demo_perms_def role_names_def role_of_def List.map_filter_simps)
  then show ?thesis
    using setOverride_takes_effect [OF demo_perms_quiet, of "''u''" "''sale''" DENY "Some ''t''"] by simp
qed

end
