(* ===== verification/AccessControl.thy ===== *)
theory AccessControl
  imports Permissions
begin

text \<open>
  \<^verbatim>\<open>AccessControlService\<close> and \<^verbatim>\<open>AccessControlRepository\<close> (\<^verbatim>\<open>modules/access-control\<close>): the
  administration of roles and of a tenant's overrides of role permissions.  Every handler is
  modelled with its guards, its writes, its cache invalidation and its audit entry.  The lemmas
  show what no sequence of failures can make these handlers do.
\<close>

section \<open>AccessControlRepository\<close>

definition HARDCODED_PLATFORM_ONLY_KEYS :: "string list" where
  "HARDCODED_PLATFORM_ONLY_KEYS = [''analytics.view.all'', ''audit.view.all'']"

definition PROTECTED_ROLE_NAMES :: "string list" where
  "PROTECTED_ROLE_NAMES = [''owner'', ''superadmin'']"

definition getRoleById :: "string \<Rightarrow> ('w perms_scheme, role_row option) io" where
  "getRoleById roleId = orThrow (query (\<lambda>w. maybeSingle (filter (\<lambda>r. r_id r = roleId) (roles w))))"

definition repo_createRole ::
  "string \<Rightarrow> string \<Rightarrow> string option \<Rightarrow> ('w perms_scheme, role_row) io" where
  "repo_createRole tenantId name description =
     bindE (exec (\<lambda>w.
       if \<exists>r\<in>set (roles w). r_tenant r = Some tenantId \<and> r_name r = name
       then (Inl \<lparr>code = Some ''23505'', message = ''duplicate key value''\<rparr>, w)
       else let row = \<lparr>r_id = fresh_id w, r_name = name, r_description = description,
              r_tenant = Some tenantId, r_is_system = False, r_priority = 0, r_participant = False\<rparr>
            in (Inr row, w\<lparr>roles := roles w @ [row]\<rparr>))) (\<lambda>res.
     case res of Inl e \<Rightarrow> if isUniqueViolation (Db e) then throw (Err ''DUPLICATE_ROLE_NAME'') else throw (Db e)
     | Inr row \<Rightarrow> ret row)"

definition repo_deleteRole :: "string \<Rightarrow> string \<Rightarrow> ('w perms_scheme, unit) io" where
  "repo_deleteRole tenantId roleId = orThrow (exec (\<lambda>w. (Inr (),
     w\<lparr>roles := filter (\<lambda>r. \<not> (r_id r = roleId \<and> r_tenant r = Some tenantId)) (roles w)\<rparr>)))"

definition getPermissionByKey :: "string \<Rightarrow> ('w perms_scheme, permission_row option) io" where
  "getPermissionByKey key = orThrow (query (\<lambda>w. maybeSingle (filter (\<lambda>p. p_name p = key) (permissions w))))"

definition role_holders :: "'w perms_scheme \<Rightarrow> string \<Rightarrow> string \<Rightarrow> user_role list" where
  "role_holders w roleId tenantId = filter (\<lambda>ur. ur_role ur = roleId \<and>
     (\<exists>u\<in>set (users w). u_id u = ur_user ur \<and> u_tenant u = Some tenantId \<and> \<not> u_deleted u)) (user_roles w)"

definition countUsersForRole :: "string \<Rightarrow> string \<Rightarrow> ('w perms_scheme, nat) io" where
  "countUsersForRole roleId tenantId = orThrow (query (\<lambda>w. Inr (length (role_holders w roleId tenantId))))"

definition trp_match :: "string \<Rightarrow> string \<Rightarrow> string \<Rightarrow> tenant_role_permission \<Rightarrow> bool" where
  "trp_match tenantId roleId key x = (trp_tenant x = tenantId \<and> trp_role x = roleId \<and> trp_key x = key)"

definition getOverride :: "string \<Rightarrow> string \<Rightarrow> string \<Rightarrow> ('w perms_scheme, bool option) io" where
  "getOverride tenantId roleId key = bindE (orThrow (query (\<lambda>w. maybeSingle
     (filter (trp_match tenantId roleId key) (tenant_role_permissions w)))))
     (\<lambda>r. ret (map_option trp_granted r))"

definition listOverridesForRole ::
  "string \<Rightarrow> string \<Rightarrow> ('w perms_scheme, tenant_role_permission list) io" where
  "listOverridesForRole tenantId roleId = orThrow (query (\<lambda>w. Inr
     (filter (\<lambda>x. trp_tenant x = tenantId \<and> trp_role x = roleId) (tenant_role_permissions w))))"

definition upsertOverride :: "string \<Rightarrow> string \<Rightarrow> string \<Rightarrow> bool \<Rightarrow> ('w perms_scheme, unit) io" where
  "upsertOverride tenantId roleId key isGranted =
     bindE now (\<lambda>t. orThrow (exec (\<lambda>w. (Inr (), w\<lparr>tenant_role_permissions :=
       (if \<exists>x\<in>set (tenant_role_permissions w). trp_match tenantId roleId key x
        then update_where (trp_match tenantId roleId key)
          (\<lambda>x. x\<lparr>trp_granted := isGranted, trp_updated := t\<rparr>) (tenant_role_permissions w)
        else tenant_role_permissions w @ [\<lparr>trp_tenant = tenantId, trp_role = roleId, trp_key = key,
          trp_granted = isGranted, trp_updated = t\<rparr>])\<rparr>))))"

definition deleteOverride :: "string \<Rightarrow> string \<Rightarrow> string \<Rightarrow> ('w perms_scheme, unit) io" where
  "deleteOverride tenantId roleId key = orThrow (exec (\<lambda>w. (Inr (), w\<lparr>tenant_role_permissions :=
     filter (\<lambda>x. \<not> trp_match tenantId roleId key x) (tenant_role_permissions w)\<rparr>)))"

definition deleteAllOverridesForRole :: "string \<Rightarrow> string \<Rightarrow> ('w perms_scheme, unit) io" where
  "deleteAllOverridesForRole tenantId roleId = orThrow (exec (\<lambda>w. (Inr (), w\<lparr>tenant_role_permissions :=
     filter (\<lambda>x. \<not> (trp_tenant x = tenantId \<and> trp_role x = roleId)) (tenant_role_permissions w)\<rparr>)))"

section \<open>AccessControlService\<close>

record jwt_payload =
  sub :: string
  jwt_role :: string

record role_view =
  rv_id :: string
  rv_name :: string
  rv_description :: "string option"
  rv_is_system :: bool
  rv_user_count :: nat
  rv_permission_count :: nat
  rv_customized :: nat

definition stateFromOverride :: "bool option \<Rightarrow> string" where
  "stateFromOverride ov = (case ov of None \<Rightarrow> ''inherited_default''
     | Some g \<Rightarrow> if g then ''granted'' else ''denied'')"

definition requireTenantId :: "string option \<Rightarrow> ('w, string) io" where
  "requireTenantId tenant = (if truthy tenant then ret (the tenant)
     else throw (forbidden ''Tenant context required for access-control management''))"

definition getAccessibleRoleOrThrow :: "string \<Rightarrow> string \<Rightarrow> ('w perms_scheme, role_row) io" where
  "getAccessibleRoleOrThrow roleId tenantId =
     bindE (getRoleById roleId) (\<lambda>role. case role of
       None \<Rightarrow> throw (not_found ''Role not found'')
     | Some r \<Rightarrow> if r_tenant r \<noteq> None \<and> r_tenant r \<noteq> Some tenantId
         then throw (forbidden ''Cannot access another tenant's role'') else ret r)"

definition getEditableRoleOrThrow :: "string \<Rightarrow> string \<Rightarrow> ('w perms_scheme, role_row) io" where
  "getEditableRoleOrThrow roleId tenantId =
     bindE (getAccessibleRoleOrThrow roleId tenantId) (\<lambda>role.
     if r_name role \<in> set PROTECTED_ROLE_NAMES
     then throw (forbidden (''Role \"'' @ r_name role @ ''\" is protected and cannot be modified''))
     else ret role)"

definition assertPermissionIsCustomizable :: "string \<Rightarrow> ('w perms_scheme, unit) io" where
  "assertPermissionIsCustomizable key =
     bindE (getPermissionByKey key) (\<lambda>permission. case permission of
       None \<Rightarrow> throw (not_found ''Permission not found'')
     | Some p \<Rightarrow> if p_resource p = ''superadmin'' \<or> key \<in> set HARDCODED_PLATFORM_ONLY_KEYS
         then throw (forbidden ''Platform-level permissions cannot be granted to a tenant role'')
         else ret ())"

definition logPermissionChange ::
  "string option \<Rightarrow> jwt_payload \<Rightarrow> string \<Rightarrow> string \<Rightarrow> string \<Rightarrow> string \<Rightarrow> string \<Rightarrow>
   ('w perms_scheme, unit) io" where
  "logPermissionChange tenant actor action roleId key beforeState afterState =
     ignoring (audit_log (entry tenant (sub actor) (Some (jwt_role actor)) action ''role_permission''
       (Some (roleId @ '':'' @ key))
       (JObj [(''permission_key'', JStr key), (''state'', JStr beforeState)])
       (JObj [(''permission_key'', JStr key), (''state'', JStr afterState)])))"

definition createRole ::
  "string \<Rightarrow> string option \<Rightarrow> string option \<Rightarrow> jwt_payload \<Rightarrow> ('w perms_scheme, role_view) io" where
  "createRole name description tenant actor =
     bindE (requireTenantId tenant) (\<lambda>tenantId.
     let trimmed = trim name in
     bindE (require (trimmed \<noteq> []) (forbidden ''Role name is required'')) (\<lambda>_.
     bindE (catchE (repo_createRole tenantId trimmed description) (\<lambda>err.
       if err = Err ''DUPLICATE_ROLE_NAME''
       then throw (forbidden (''A role named \"'' @ trimmed @ ''\" already exists for this tenant''))
       else throw err)) (\<lambda>role.
     bindE (ignoring (audit_log (entry tenant (sub actor) (Some (jwt_role actor)) ''role.created'' ''role''
       (Some (r_id role)) JNull (JObj [(''name'', JStr (r_name role)),
         (''description'', js_opt_str (r_description role))])))) (\<lambda>_.
     ret \<lparr>rv_id = r_id role, rv_name = r_name role, rv_description = r_description role,
       rv_is_system = r_is_system role, rv_user_count = 0, rv_permission_count = 0, rv_customized = 0\<rparr>))))"

definition deleteRole :: "string \<Rightarrow> string option \<Rightarrow> jwt_payload \<Rightarrow> ('w perms_scheme, string \<times> bool) io" where
  "deleteRole roleId tenant actor =
     bindE (requireTenantId tenant) (\<lambda>tenantId.
     bindE (getAccessibleRoleOrThrow roleId tenantId) (\<lambda>role.
     bindE (require (r_tenant role = Some tenantId) (forbidden ''System roles cannot be deleted'')) (\<lambda>_.
     bindE (countUsersForRole roleId tenantId) (\<lambda>userCount.
     bindE (require (userCount = 0) (forbidden (''Cannot delete role \"'' @ r_name role @ ''\" - '' @
       nat_str userCount @ '' user(s) are still assigned to it''))) (\<lambda>_.
     bindE (deleteAllOverridesForRole tenantId roleId) (\<lambda>_.
     bindE (repo_deleteRole tenantId roleId) (\<lambda>_.
     bindE (invalidateRole (r_name role) (Some tenantId)) (\<lambda>_.
     bindE (ignoring (audit_log (entry tenant (sub actor) (Some (jwt_role actor)) ''role.deleted'' ''role'' (Some roleId)
       (JObj [(''name'', JStr (r_name role)), (''description'', js_opt_str (r_description role))]) JNull))) (\<lambda>_.
     ret (roleId, True))))))))))"

definition updatePermission ::
  "string \<Rightarrow> string \<Rightarrow> bool \<Rightarrow> string option \<Rightarrow> jwt_payload \<Rightarrow>
   ('w perms_scheme, string \<times> string \<times> bool \<times> string) io" where
  "updatePermission roleId key isGranted tenant actor =
     bindE (requireTenantId tenant) (\<lambda>tenantId.
     bindE (getEditableRoleOrThrow roleId tenantId) (\<lambda>role.
     bindE (assertPermissionIsCustomizable key) (\<lambda>_.
     bindE (getOverride tenantId roleId key) (\<lambda>before.
     bindE (upsertOverride tenantId roleId key isGranted) (\<lambda>_.
     bindE (invalidateRole (r_name role) (Some tenantId)) (\<lambda>_.
     bindE (logPermissionChange tenant actor
       (if isGranted then ''role_permission.granted'' else ''role_permission.revoked'')
       roleId key (stateFromOverride before) (if isGranted then ''granted'' else ''denied'')) (\<lambda>_.
     ret (roleId, key, isGranted, ''tenant_override''))))))))"

definition resetPermission ::
  "string \<Rightarrow> string \<Rightarrow> string option \<Rightarrow> jwt_payload \<Rightarrow>
   ('w perms_scheme, string \<times> string \<times> bool \<times> string) io" where
  "resetPermission roleId key tenant actor =
     bindE (requireTenantId tenant) (\<lambda>tenantId.
     bindE (getEditableRoleOrThrow roleId tenantId) (\<lambda>role.
     bindE (getOverride tenantId roleId key) (\<lambda>before.
     bindE (deleteOverride tenantId roleId key) (\<lambda>_.
     bindE (invalidateRole (r_name role) (Some tenantId)) (\<lambda>_.
     bindE (logPermissionChange tenant actor ''role_permission.reset'' roleId key
       (stateFromOverride before) ''inherited_default'') (\<lambda>_.
     bindE (hasPermission (r_name role) key (Some tenantId)) (\<lambda>grantedNow.
     ret (roleId, key, grantedNow, ''global''))))))))"

definition resetRole :: "string \<Rightarrow> string option \<Rightarrow> jwt_payload \<Rightarrow> ('w perms_scheme, string \<times> nat) io" where
  "resetRole roleId tenant actor =
     bindE (requireTenantId tenant) (\<lambda>tenantId.
     bindE (getEditableRoleOrThrow roleId tenantId) (\<lambda>role.
     bindE (listOverridesForRole tenantId roleId) (\<lambda>overrides.
     bindE (deleteAllOverridesForRole tenantId roleId) (\<lambda>_.
     bindE (invalidateRole (r_name role) (Some tenantId)) (\<lambda>_.
     bindE (forEach overrides (\<lambda>ov. logPermissionChange tenant actor ''role_permission.reset'' roleId
       (trp_key ov) (if trp_granted ov then ''granted'' else ''denied'') ''inherited_default'')) (\<lambda>_.
     ret (roleId, length overrides)))))))"

section \<open>What the handlers cannot do\<close>

text \<open>The tables an administrator could damage, and what reads them only.\<close>

definition perm_tables ::
  "'w perms_scheme \<Rightarrow> role_row list \<times> user_role list \<times> tenant_role_permission list \<times> permission_row list" where
  "perm_tables w = (roles w, user_roles w, tenant_role_permissions w, permissions w)"

interpretation pt: beside_permissions perm_tables
  by unfold_locales (simp_all add: perm_tables_def)

declare pt.keeps_permissions [keep_rules]

lemma keeps_reads [keep_rules]:
  "keeps perm_tables (getRoleById rid)" "keeps perm_tables (getPermissionByKey k)"
  "keeps perm_tables (countUsersForRole rid t)" "keeps perm_tables (getOverride t rid k)"
  "keeps perm_tables (listOverridesForRole t rid)"
  unfolding getRoleById_def getPermissionByKey_def countUsersForRole_def getOverride_def
    listOverridesForRole_def
  by (intro keep_rules pt.keeps_query)+

lemma keeps_guards [keep_rules]:
  "keeps perm_tables (requireTenantId t)" "keeps perm_tables (getAccessibleRoleOrThrow rid tid)"
  "keeps perm_tables (getEditableRoleOrThrow rid tid)"
  "keeps perm_tables (assertPermissionIsCustomizable k)"
  "keeps perm_tables (logPermissionChange tn a ac rid k b f)"
  unfolding requireTenantId_def getAccessibleRoleOrThrow_def getEditableRoleOrThrow_def
    assertPermissionIsCustomizable_def logPermissionChange_def
  by (intro keep_rules)+

text \<open>The results of the guards, whatever fails.\<close>

definition protected_id :: "role_row list \<Rightarrow> string \<Rightarrow> bool" where
  "protected_id rs i = (\<exists>r\<in>set rs. r_id r = i \<and> r_tenant r = None \<and> r_name r \<in> set PROTECTED_ROLE_NAMES)"

definition tenant_key :: "permission_row list \<Rightarrow> string \<Rightarrow> bool" where
  "tenant_key ps k = (k \<notin> set HARDCODED_PLATFORM_ONLY_KEYS \<and>
     (\<forall>p\<in>set ps. p_name p = k \<longrightarrow> p_resource p \<noteq> ''superadmin''))"

lemma accessible_role:
  "wp (getAccessibleRoleOrThrow rid tid) (\<lambda>r w'. perm_tables w' = perm_tables w \<and>
     (\<forall>x\<in>set (roles w). r_id x = rid \<longrightarrow> x = r))
   (\<lambda>_ w'. perm_tables w' = perm_tables w) w"
  unfolding getAccessibleRoleOrThrow_def getRoleById_def
  by (auto simp: wp_rules perm_tables_def split: option.split sum.split dest!: maybeSingle_SomeD
      dest: filter_one)

lemma editable_role:
  "wp (getEditableRoleOrThrow rid tid) (\<lambda>r w'. perm_tables w' = perm_tables w \<and> \<not> protected_id (roles w) rid)
   (\<lambda>_ w'. perm_tables w' = perm_tables w) w"
  unfolding getEditableRoleOrThrow_def
  by (rule wp_bind [OF accessible_role]) (auto simp: wp_rules protected_id_def)

lemma customizable:
  "wp (assertPermissionIsCustomizable k) (\<lambda>_ w'. perm_tables w' = perm_tables w \<and> tenant_key (permissions w) k)
   (\<lambda>_ w'. perm_tables w' = perm_tables w) w"
  unfolding assertPermissionIsCustomizable_def getPermissionByKey_def
  by (auto simp: wp_rules perm_tables_def tenant_key_def split: option.split sum.split
      dest!: maybeSingle_SomeD dest: filter_one)

text \<open>What an administrator of tenant \<open>t\<close> may change.\<close>

definition admin_effect :: "string \<Rightarrow> 'w perms_scheme \<Rightarrow> 'w perms_scheme \<Rightarrow> bool" where
  "admin_effect t w w' \<longleftrightarrow>
     permissions w' = permissions w \<and> user_roles w' = user_roles w \<and>
     filter (\<lambda>r. r_tenant r \<noteq> Some t) (roles w') = filter (\<lambda>r. r_tenant r \<noteq> Some t) (roles w) \<and>
     filter (\<lambda>x. trp_tenant x \<noteq> t \<or> protected_id (roles w) (trp_role x)) (tenant_role_permissions w') =
       filter (\<lambda>x. trp_tenant x \<noteq> t \<or> protected_id (roles w) (trp_role x)) (tenant_role_permissions w) \<and>
     (\<forall>x\<in>set (tenant_role_permissions w'). trp_granted x \<longrightarrow>
        x \<in> set (tenant_role_permissions w) \<or> tenant_key (permissions w) (trp_key x))"

lemma admin_effect_same: "perm_tables w' = perm_tables w \<Longrightarrow> admin_effect t w w'"
  by (simp add: admin_effect_def perm_tables_def)

lemma protected_id_system:
  "filter (\<lambda>r. r_tenant r \<noteq> Some t) rs = filter (\<lambda>r. r_tenant r \<noteq> Some t) rs' \<Longrightarrow>
   protected_id rs i = protected_id rs' i"
proof -
  have "protected_id rs i = protected_id (filter (\<lambda>r. r_tenant r \<noteq> Some t) rs) i" for rs
    by (auto simp: protected_id_def)
  then show "filter (\<lambda>r. r_tenant r \<noteq> Some t) rs = filter (\<lambda>r. r_tenant r \<noteq> Some t) rs' \<Longrightarrow>
    protected_id rs i = protected_id rs' i" by metis
qed

lemma admin_effect_trans: "admin_effect t w v \<Longrightarrow> admin_effect t v u \<Longrightarrow> admin_effect t w u"
proof -
  assume a: "admin_effect t w v" "admin_effect t v u"
  have "protected_id (roles v) = protected_id (roles w)"
    using a(1) by (auto simp: admin_effect_def fun_eq_iff dest: protected_id_system)
  then show "admin_effect t w u" using a by (auto simp: admin_effect_def)
qed

text \<open>The four writes, and what follows a write: calls that leave the tables alone.\<close>

lemma wp_write:
  assumes "\<And>w'. perm_tables w' = perm_tables w \<Longrightarrow> admin_effect t w (g w')"
    "keeps perm_tables m" "perm_tables w1 = perm_tables w"
  shows "wp (bindE (orThrow (exec (\<lambda>w. (Inr (), g w)))) (\<lambda>_. m))
    (\<lambda>_ w'. admin_effect t w w') (\<lambda>_ w'. admin_effect t w w') w1"
proof -
  have count: "perm_tables (w1\<lparr>calls := Suc (calls w1)\<rparr>) = perm_tables w"
    using assms(3) by (simp add: perm_tables_def)
  have keep: "admin_effect t w w'" if "perm_tables w' = perm_tables (g v)" "perm_tables v = perm_tables w" for w' v
    using admin_effect_trans [OF assms(1) admin_effect_same] that by blast
  show ?thesis
    using assms(1) [OF count] admin_effect_same [OF count]
    by (auto simp: wp_rules split: option.split
        intro!: wp_mono [OF keeps_wp [OF assms(2) refl]] keep count)
qed

lemma filter_update_where_out:
  "(\<And>x. Q x \<Longrightarrow> \<not> P x) \<Longrightarrow> (\<And>x. P x \<Longrightarrow> \<not> Q (f x)) \<Longrightarrow>
   filter Q (update_where P f xs) = filter Q xs"
  by (rule filter_update_where_other) auto

lemma filter_filter_out: "(\<And>x. Q x \<Longrightarrow> P x) \<Longrightarrow> filter Q (filter P xs) = filter Q xs"
  by (induction xs) auto

text \<open>The effect of each write.\<close>

lemma upsert_effect:
  assumes "perm_tables w' = perm_tables w" "\<not> protected_id (roles w) rid" "tenant_key (permissions w) k"
  shows "admin_effect t w (w'\<lparr>tenant_role_permissions :=
      (if \<exists>x\<in>set (tenant_role_permissions w'). trp_match t rid k x
       then update_where (trp_match t rid k) (\<lambda>x. x\<lparr>trp_granted := g, trp_updated := ts\<rparr>) (tenant_role_permissions w')
       else tenant_role_permissions w' @ [\<lparr>trp_tenant = t, trp_role = rid, trp_key = k, trp_granted = g, trp_updated = ts\<rparr>])\<rparr>)"
  using assms
  by (auto simp: admin_effect_def perm_tables_def trp_match_def set_update_where
      intro!: filter_update_where_out)

lemma delete_effect:
  assumes "perm_tables w' = perm_tables w" "\<not> protected_id (roles w) rid"
    "\<And>x. P x \<Longrightarrow> trp_tenant x = t \<and> trp_role x = rid"
  shows "admin_effect t w (w'\<lparr>tenant_role_permissions := filter (\<lambda>x. \<not> P x) (tenant_role_permissions w')\<rparr>)"
  using assms
  by (auto simp: admin_effect_def perm_tables_def simp del: filter_filter intro!: filter_filter_out)

text \<open>
  A handler is a chain of guards and reads up to its write.  One rule for each link; the handlers
  below are then verified by applying the rules in the order of the code.
\<close>

abbreviation effect_only where
  "effect_only t w m w1 \<equiv> wp m (\<lambda>_. admin_effect t w) (\<lambda>_. admin_effect t w) w1"

lemma tenant_then:
  "(\<And>w'. perm_tables w' = perm_tables w \<Longrightarrow> effect_only t w (f t) w') \<Longrightarrow>
   effect_only t w (bindE (requireTenantId (Some t)) f) w"
  by (simp add: requireTenantId_def wp_rules admin_effect_same)

lemma read_then:
  "keeps perm_tables m \<Longrightarrow> perm_tables w1 = perm_tables w \<Longrightarrow>
   (\<And>x w'. perm_tables w' = perm_tables w \<Longrightarrow> effect_only t w (f x) w') \<Longrightarrow>
   effect_only t w (bindE m f) w1"
  by (rule wp_bind_keep) (auto intro: admin_effect_same)

lemma editable_then:
  assumes "perm_tables w1 = perm_tables w"
    "\<And>r w'. perm_tables w' = perm_tables w \<Longrightarrow> \<not> protected_id (roles w) rid \<Longrightarrow> effect_only t w (f r) w'"
  shows "effect_only t w (bindE (getEditableRoleOrThrow rid tid) f) w1"
proof (rule wp_bind)
  show "wp (getEditableRoleOrThrow rid tid) (\<lambda>_ w'. perm_tables w' = perm_tables w \<and>
      \<not> protected_id (roles w) rid) (\<lambda>_. admin_effect t w) w1"
    by (rule wp_mono [OF editable_role])
      (use assms(1) in \<open>auto intro: admin_effect_same simp: perm_tables_def\<close>)
qed (use assms(2) in auto)

lemma accessible_then:
  assumes "perm_tables w1 = perm_tables w"
    "\<And>r w'. perm_tables w' = perm_tables w \<Longrightarrow> \<forall>x\<in>set (roles w). r_id x = rid \<longrightarrow> x = r \<Longrightarrow> effect_only t w (f r) w'"
  shows "effect_only t w (bindE (getAccessibleRoleOrThrow rid tid) f) w1"
proof (rule wp_bind)
  show "wp (getAccessibleRoleOrThrow rid tid) (\<lambda>r w'. perm_tables w' = perm_tables w \<and>
      (\<forall>x\<in>set (roles w). r_id x = rid \<longrightarrow> x = r)) (\<lambda>_. admin_effect t w) w1"
    by (rule wp_mono [OF accessible_role])
      (use assms(1) in \<open>auto intro: admin_effect_same simp: perm_tables_def\<close>)
qed (use assms(2) in auto)

lemma customizable_then:
  assumes "perm_tables w1 = perm_tables w"
    "\<And>x w'. perm_tables w' = perm_tables w \<Longrightarrow> tenant_key (permissions w) k \<Longrightarrow> effect_only t w (f x) w'"
  shows "effect_only t w (bindE (assertPermissionIsCustomizable k) f) w1"
proof (rule wp_bind)
  show "wp (assertPermissionIsCustomizable k) (\<lambda>_ w'. perm_tables w' = perm_tables w \<and>
      tenant_key (permissions w) k) (\<lambda>_. admin_effect t w) w1"
    by (rule wp_mono [OF customizable])
      (use assms(1) in \<open>auto intro: admin_effect_same simp: perm_tables_def\<close>)
qed (use assms(2) in auto)

lemma require_then:
  assumes "perm_tables w1 = perm_tables w" "c \<Longrightarrow> effect_only t w (f ()) w1"
  shows "effect_only t w (bindE (require c e) f) w1"
  using assms by (simp add: wp_bindE wp_require admin_effect_same)

lemma updatePermission_effect: "effect_only t w (updatePermission rid k g (Some t) a) w"
  unfolding updatePermission_def upsertOverride_def
  apply (rule tenant_then, erule editable_then, erule customizable_then)
  apply (rule read_then [OF keeps_reads(4)], assumption)
  apply (simp only: wp_bindE [of now] wp_bindE [of "bindE now _"] wp_now)
  apply (simp only: wp_bindE [of now] wp_bindE [of "bindE now _"] wp_now flip: wp_bindE)
  apply (rule wp_write)
    apply (erule upsert_effect, assumption+)
   apply (intro keep_rules)
  apply assumption
  done

lemma resetPermission_effect: "effect_only t w (resetPermission rid k (Some t) a) w"
  unfolding resetPermission_def deleteOverride_def
  apply (rule tenant_then, erule editable_then)
  apply (rule read_then [OF keeps_reads(4)], assumption)
  apply (rule wp_write)
    apply (erule delete_effect, assumption, simp add: trp_match_def)
   apply (intro keep_rules)
  apply assumption
  done

lemma resetRole_effect: "effect_only t w (resetRole rid (Some t) a) w"
  unfolding resetRole_def deleteAllOverridesForRole_def
  apply (rule tenant_then, erule editable_then)
  apply (rule read_then [OF keeps_reads(5)], assumption)
  apply (rule wp_write)
    apply (erule delete_effect, assumption, simp)
   apply (intro keep_rules)
  apply assumption
  done

text \<open>Deleting a role takes two writes; the first one may already have happened when the second fails.\<close>

lemma keep_then:
  "keeps perm_tables m \<Longrightarrow> admin_effect t w w1 \<Longrightarrow> effect_only t w m w1"
  by (rule wp_mono [OF keeps_wp [OF _ refl]]) (auto intro: admin_effect_trans admin_effect_same)

lemma write_then:
  assumes "\<And>w'. admin_effect t w' (g w')" "admin_effect t w w1"
    "\<And>w'. admin_effect t w w' \<Longrightarrow> effect_only t w m w'"
  shows "effect_only t w (bindE (orThrow (exec (\<lambda>w. (Inr (), g w)))) (\<lambda>_. m)) w1"
proof -
  have count: "admin_effect t w (w1\<lparr>calls := n\<rparr>)" for n
    by (rule admin_effect_trans [OF assms(2) admin_effect_same]) (simp add: perm_tables_def)
  then show ?thesis
    using assms(1,3) by (auto simp: wp_rules split: option.split intro: admin_effect_trans)
qed

lemma gone_effect:
  "admin_effect t w (w\<lparr>roles := filter (\<lambda>r. \<not> (r_id r = rid \<and> r_tenant r = Some t)) (roles w)\<rparr>)"
  by (auto simp: admin_effect_def intro: filter_cong)

lemma deleteRole_effect: "effect_only t w (deleteRole rid (Some t) a) w"
proof -
  have wipe: "admin_effect t w (w'\<lparr>tenant_role_permissions :=
      filter (\<lambda>x. \<not> (trp_tenant x = t \<and> trp_role x = rid)) (tenant_role_permissions w')\<rparr>)"
    if "perm_tables w' = perm_tables w" "\<not> protected_id (roles w) rid" for w'
    using that by (rule delete_effect) simp
  have sys: "\<not> protected_id (roles w) rid"
    if "\<forall>x\<in>set (roles w). r_id x = rid \<longrightarrow> x = r" "r_tenant r = Some t" for r
    using that by (auto simp: protected_id_def)
  have rest: "effect_only t w (bindE (repo_deleteRole t rid) (\<lambda>_. m)) w'"
    if "keeps perm_tables m" "admin_effect t w w'" for w' and m :: "('a perms_scheme, 'b) io"
    unfolding repo_deleteRole_def by (rule write_then [OF gone_effect that(2)]) (rule keep_then [OF that(1)])
  have two: "effect_only t w (bindE (deleteAllOverridesForRole t rid)
      (\<lambda>_. bindE (repo_deleteRole t rid) (\<lambda>_. m))) w'"
    if "keeps perm_tables m" "perm_tables w' = perm_tables w" "\<not> protected_id (roles w) rid"
    for w' and m :: "('a perms_scheme, 'b) io"
    unfolding deleteAllOverridesForRole_def
    using wipe that rest [OF that(1)]
    by (auto simp: wp_rules perm_tables_def split: option.split intro: admin_effect_same)
  show ?thesis
    unfolding deleteRole_def
    apply (rule tenant_then, erule accessible_then, rule require_then, assumption)
    apply (rule read_then [OF keeps_reads(3)], assumption)
    apply (rule require_then, assumption)
    apply (rule two)
      apply (intro keep_rules)
     apply assumption
    apply (erule sys, assumption)
    done
qed

lemma createRole_effect: "effect_only t w (createRole n d (Some t) a) w"
proof -
  have add: "admin_effect t w (w'\<lparr>roles := roles w' @ [r]\<rparr>)"
    if "perm_tables w' = perm_tables w" "r_tenant r = Some t" for w' r
    using that by (auto simp: admin_effect_def perm_tables_def)
  have ins: "effect_only t w (bindE (catchE (repo_createRole t nm d) h) m) w'"
    if "perm_tables w' = perm_tables w" "\<And>r. keeps perm_tables (m r)" "\<And>e. \<exists>e'. h e = throw e'"
    for w' nm h and m :: "role_row \<Rightarrow> ('a perms_scheme, 'b) io"
  proof -
    have thr: "wp (h e) Q (\<lambda>_. P) v = P v" for e Q v P
      using that(3) [of e] by (auto simp: wp_throw)
    have same: "admin_effect t w (w'\<lparr>calls := k\<rparr>)" for k
      using that(1) by (intro admin_effect_same) (simp add: perm_tables_def)
    have ins: "admin_effect t w (w'\<lparr>calls := k, roles := roles w' @ [r]\<rparr>)" if "r_tenant r = Some t" for k r
      using add [of "w'\<lparr>calls := k\<rparr>" r] that \<open>perm_tables w' = _\<close> by (simp add: perm_tables_def)
    have "effect_only t w (catchE (repo_createRole t nm d) h) w'"
      unfolding repo_createRole_def using same ins
      by (simp add: wp_rules thr Let_def split: option.split sum.split)
    then show ?thesis by (rule wp_bind) (rule keep_then [OF that(2)])
  qed
  show ?thesis
    unfolding createRole_def Let_def
    apply (rule tenant_then, rule require_then, assumption)
    apply (erule ins)
     apply (intro keep_rules)
    apply auto
    done
qed

text \<open>Any sequence of calls by the administrators of one tenant, successful or not.\<close>

inductive admin_step :: "string \<Rightarrow> 'w perms_scheme \<Rightarrow> 'w perms_scheme \<Rightarrow> bool" for t where
  create: "createRole n d (Some t) a w = (r, w') \<Longrightarrow> admin_step t w w'"
| delete: "deleteRole rid (Some t) a w = (r, w') \<Longrightarrow> admin_step t w w'"
| update: "updatePermission rid k g (Some t) a w = (r, w') \<Longrightarrow> admin_step t w w'"
| reset_permission: "resetPermission rid k (Some t) a w = (r, w') \<Longrightarrow> admin_step t w w'"
| reset_role: "resetRole rid (Some t) a w = (r, w') \<Longrightarrow> admin_step t w w'"

lemma admin_step_effect: "admin_step t w w' \<Longrightarrow> admin_effect t w w'"
  by (induction rule: admin_step.induct)
    (metis snd_conv wp_snd createRole_effect deleteRole_effect updatePermission_effect
      resetPermission_effect resetRole_effect)+

text \<open>C5. The administrators of a tenant stay inside it, whatever they call in whatever order and
  whatever calls fail.  After any sequence of createRole, deleteRole, updatePermission,
  resetPermission and resetRole in tenant t: the permission catalogue and the assignment of
  roles to users are as before; the system roles and every other tenant's roles are as before;
  the overrides of other tenants, and those of the system roles owner and superadmin, are as
  before; and no override that was added or changed to a grant is for a platform-level
  permission.  Resetting deletes overrides, also ones that deny a platform-level permission, and
  that permission then falls back to what the role has by default.\<close>

theorem admin_isolation:
  assumes "(admin_step t)\<^sup>*\<^sup>* w w'"
  shows "admin_effect t w w'"
  using assms
proof (induction rule: rtranclp_induct)
  case base
  show ?case by (rule admin_effect_same) (rule refl)
next
  case (step v u)
  then show ?case using admin_effect_trans admin_step_effect by blast
qed

theorem admin_isolation_witness:
  "admin_effect ''t'' demo_perms (snd (updatePermission ''r1'' ''sale'' True (Some ''t'')
     \<lparr>sub = ''a'', jwt_role = ''owner''\<rparr> demo_perms))"
  by (rule admin_isolation, rule r_into_rtranclp, rule admin_step.update) (rule surjective_pairing)

end
