(* ===== verification/UserRoles.thy ===== *)
theory UserRoles
  imports AccessControl
begin

text \<open>
  The part of \<^verbatim>\<open>UsersService\<close> and \<^verbatim>\<open>UsersRepository\<close> (\<^verbatim>\<open>modules/users\<close>) that assigns roles and
  permission overrides to users.  \<open>user_roles\<close> is what the guards read; the column \<open>role\<close> of the
  users table is kept as a mirror.  The lemmas give the invariant of \<open>user_roles\<close> and show which
  handler can hand out the superadmin role.
\<close>

section \<open>UsersRepository\<close>

definition in_tenant :: "string option \<Rightarrow> user_row \<Rightarrow> bool" where
  "in_tenant tenant u = (truthy tenant \<longrightarrow> u_tenant u = tenant)"

definition users_findOne :: "string \<Rightarrow> string option \<Rightarrow> ('w perms_scheme, user_row) io" where
  "users_findOne uid tenant =
     bindE (query (\<lambda>w. single (filter (\<lambda>u. \<not> u_deleted u \<and> in_tenant tenant u \<and> u_id u = uid) (users w))))
       (\<lambda>r. case r of Inl e \<Rightarrow> throw (not_found ''User not found'') | Inr u \<Rightarrow> ret u)"

definition findSystemRoleId :: "string \<Rightarrow> ('w perms_scheme, string option) io" where
  "findSystemRoleId roleName =
     bindE (orElse None (query (\<lambda>w. maybeSingle
       (filter (\<lambda>r. r_name r = roleName \<and> r_tenant r = None) (roles w)))))
       (\<lambda>data. ret (map_option r_id data))"

definition findUserRoles :: "string \<Rightarrow> ('w perms_scheme, user_role list) io" where
  "findUserRoles userId = orThrow (query (\<lambda>w. Inr
     (let rs = filter (\<lambda>ur. ur_user ur = userId) (user_roles w)
      in filter ur_primary rs @ filter (\<lambda>ur. \<not> ur_primary ur) rs)))"

definition countUserRoles :: "string \<Rightarrow> ('w perms_scheme, nat) io" where
  "countUserRoles userId = orThrow (query (\<lambda>w. Inr
     (length (filter (\<lambda>ur. ur_user ur = userId) (user_roles w)))))"

definition findAccessibleRole ::
  "string \<Rightarrow> string option \<Rightarrow> ('w perms_scheme, role_row option) io" where
  "findAccessibleRole roleId tenantId =
     bindE (orElse None (query (\<lambda>w. maybeSingle (filter (\<lambda>r. r_id r = roleId) (roles w))))) (\<lambda>data.
     ret (case data of None \<Rightarrow> None
       | Some r \<Rightarrow> if r_tenant r \<noteq> None \<and> r_tenant r \<noteq> tenantId then None else Some r))"

definition ur_match :: "string \<Rightarrow> string \<Rightarrow> user_role \<Rightarrow> bool" where
  "ur_match userId roleId ur = (ur_user ur = userId \<and> ur_role ur = roleId)"

text \<open>The table has the unique key (user, role).\<close>

definition insertUserRole :: "string \<Rightarrow> string \<Rightarrow> bool \<Rightarrow> ('w perms_scheme, unit) io" where
  "insertUserRole userId roleId isPrimary = orThrow (exec (\<lambda>w.
     if \<exists>ur\<in>set (user_roles w). ur_match userId roleId ur
     then (Inl \<lparr>code = Some ''23505'', message = ''duplicate key value''\<rparr>, w)
     else (Inr (), w\<lparr>user_roles := user_roles w @
       [\<lparr>ur_user = userId, ur_role = roleId, ur_primary = isPrimary\<rparr>]\<rparr>)))"

definition deleteUserRole :: "string \<Rightarrow> string \<Rightarrow> ('w perms_scheme, unit) io" where
  "deleteUserRole userId roleId = orThrow (exec (\<lambda>w. (Inr (),
     w\<lparr>user_roles := filter (\<lambda>ur. \<not> ur_match userId roleId ur) (user_roles w)\<rparr>)))"

definition syncPrimaryRole :: "string \<Rightarrow> string \<Rightarrow> ('w perms_scheme, unit) io" where
  "syncPrimaryRole userId roleId =
     bindE (orThrow (exec (\<lambda>w. (Inr (), w\<lparr>user_roles :=
       filter (\<lambda>ur. \<not> (ur_user ur = userId \<and> ur_primary ur \<and> ur_role ur \<noteq> roleId)) (user_roles w)\<rparr>))))
     (\<lambda>_. orThrow (exec (\<lambda>w. (Inr (), w\<lparr>user_roles :=
       (if \<exists>ur\<in>set (user_roles w). ur_match userId roleId ur
        then update_where (ur_match userId roleId) (\<lambda>ur. ur\<lparr>ur_primary := True\<rparr>) (user_roles w)
        else user_roles w @ [\<lparr>ur_user = userId, ur_role = roleId, ur_primary = True\<rparr>])\<rparr>))))"

definition users_update_role :: "string \<Rightarrow> string option \<Rightarrow> string \<Rightarrow> string \<Rightarrow> ('w perms_scheme, user_row) io" where
  "users_update_role uid tenant role roleId =
     bindE (exec (\<lambda>w. let hit = (\<lambda>u. u_id u = uid \<and> u_tenant u = tenant \<and> tenant \<noteq> None);
         new = (\<lambda>u. u\<lparr>u_role := role, u_role_id := Some roleId\<rparr>) in
       case single (map new (filter hit (users w))) of
         Inl e \<Rightarrow> (Inl e, w)
       | Inr u \<Rightarrow> (Inr u, w\<lparr>users := update_where hit new (users w)\<rparr>))) (\<lambda>r.
     case r of Inl e \<Rightarrow> throw (bad_request (message e)) | Inr u \<Rightarrow> ret u)"

section \<open>UsersService\<close>

definition user_audit ::
  "string option \<Rightarrow> string \<Rightarrow> string \<Rightarrow> string \<Rightarrow> json \<Rightarrow> json \<Rightarrow> ('w perms_scheme, unit) io" where
  "user_audit tenant actorId action uid before after =
     audit_log (entry tenant actorId None action ''user'' (Some uid) before after)"

definition changeRole ::
  "string \<Rightarrow> string \<Rightarrow> string option \<Rightarrow> string \<Rightarrow> ('w perms_scheme, user_row) io" where
  "changeRole uid newRole tenant actorId =
     bindE (users_findOne uid tenant) (\<lambda>existing.
     bindE (require (u_role existing \<noteq> ''superadmin'') (forbidden ''Cannot change superadmin role'')) (\<lambda>_.
     bindE (require (newRole \<noteq> ''superadmin'') (forbidden ''Cannot assign superadmin role'')) (\<lambda>_.
     bindE (findSystemRoleId newRole) (\<lambda>roleId.
     bindE (require (truthy roleId) (bad_request (''Unknown system role: '' @ newRole))) (\<lambda>_.
     bindE (users_update_role uid tenant newRole (the roleId)) (\<lambda>data.
     bindE (syncPrimaryRole uid (the roleId)) (\<lambda>_.
     bindE (invalidateUserPermissions uid tenant) (\<lambda>_.
     bindE (user_audit tenant actorId ''user.role_change'' uid
       (JObj [(''role'', JStr (u_role existing))]) (JObj [(''role'', JStr newRole)])) (\<lambda>_.
     ret data)))))))))"

definition getUserRoles :: "string \<Rightarrow> string option \<Rightarrow> ('w perms_scheme, user_role list) io" where
  "getUserRoles uid tenant = bindE (users_findOne uid tenant) (\<lambda>_. findUserRoles uid)"

definition addRole ::
  "string \<Rightarrow> string \<Rightarrow> string option \<Rightarrow> string \<Rightarrow> ('w perms_scheme, string \<times> string \<times> string) io" where
  "addRole uid roleId tenant actorId =
     bindE (users_findOne uid tenant) (\<lambda>_.
     bindE (findAccessibleRole roleId tenant) (\<lambda>role. case role of
       None \<Rightarrow> throw (not_found ''Role not found'')
     | Some r \<Rightarrow>
       bindE (countUserRoles uid) (\<lambda>currentCount.
       bindE (catchE (insertUserRole uid roleId (currentCount = 0)) (\<lambda>err.
         if isUniqueViolation err
         then throw (Http Conflict (''User already has the \"'' @ r_name r @ ''\" role'') [])
         else throw err)) (\<lambda>_.
       bindE (invalidateUserPermissions uid tenant) (\<lambda>_.
       bindE (user_audit tenant actorId ''user.role_added'' uid JNull
         (JObj [(''role_id'', JStr roleId), (''role_name'', JStr (r_name r))])) (\<lambda>_.
       ret (uid, roleId, r_name r)))))))"

definition removeRole ::
  "string \<Rightarrow> string \<Rightarrow> string option \<Rightarrow> string \<Rightarrow> ('w perms_scheme, string \<times> string \<times> bool) io" where
  "removeRole uid roleId tenant actorId =
     bindE (users_findOne uid tenant) (\<lambda>_.
     bindE (findUserRoles uid) (\<lambda>rs. case find (\<lambda>ur. ur_role ur = roleId) rs of
       None \<Rightarrow> throw (not_found ''User does not have this role'')
     | Some target \<Rightarrow>
       bindE (require (length rs \<noteq> 1) (forbidden ''Cannot remove a user's only remaining role'')) (\<lambda>_.
       bindE (require (\<not> ur_primary target) (forbidden
         ''Cannot remove the primary role directly - change it via PATCH /users/:id/role instead'')) (\<lambda>_.
       bindE (deleteUserRole uid roleId) (\<lambda>_.
       bindE (invalidateUserPermissions uid tenant) (\<lambda>_.
       bindE (gets (\<lambda>w. map_option r_name (role_of w roleId))) (\<lambda>roleName.
       bindE (user_audit tenant actorId ''user.role_removed'' uid
         (JObj [(''role_id'', JStr roleId), (''role_name'', js_opt_str roleName)]) JNull) (\<lambda>_.
       ret (uid, roleId, True)))))))))"

definition action_str :: "override_action \<Rightarrow> string" where
  "action_str a = (case a of GRANT \<Rightarrow> ''GRANT'' | DENY \<Rightarrow> ''DENY'')"

definition setPermissionOverride ::
  "string \<Rightarrow> string \<Rightarrow> override_action \<Rightarrow> string option \<Rightarrow> string \<Rightarrow>
   ('w perms_scheme, string \<times> string \<times> override_action) io" where
  "setPermissionOverride uid key action tenant actorId =
     bindE (users_findOne uid tenant) (\<lambda>_.
     bindE (catchE (setOverride uid key action tenant) (\<lambda>err.
       if isForeignKeyViolation err then throw (not_found (''Unknown permission: '' @ key)) else throw err)) (\<lambda>_.
     bindE (user_audit tenant actorId ''user.permission_override_set'' uid JNull
       (JObj [(''permission_key'', JStr key), (''action'', JStr (action_str action))])) (\<lambda>_.
     ret (uid, key, action))))"

definition removePermissionOverride ::
  "string \<Rightarrow> string \<Rightarrow> string option \<Rightarrow> string \<Rightarrow> ('w perms_scheme, string \<times> string \<times> bool) io" where
  "removePermissionOverride uid key tenant actorId =
     bindE (users_findOne uid tenant) (\<lambda>_.
     bindE (removeOverride uid key tenant) (\<lambda>_.
     bindE (user_audit tenant actorId ''user.permission_override_removed'' uid
       (JObj [(''permission_key'', JStr key)]) JNull) (\<lambda>_.
     ret (uid, key, True))))"

definition getPermissionOverrides ::
  "string \<Rightarrow> string option \<Rightarrow> ('w perms_scheme, (string \<times> override_action) list) io" where
  "getPermissionOverrides uid tenant =
     bindE (users_findOne uid tenant) (\<lambda>_. getOverridesForUser uid)"

definition resetPermissionOverrides ::
  "string \<Rightarrow> string option \<Rightarrow> string \<Rightarrow> ('w perms_scheme, string \<times> bool) io" where
  "resetPermissionOverrides uid tenant actorId =
     bindE (users_findOne uid tenant) (\<lambda>_.
     bindE (resetAllOverrides uid tenant) (\<lambda>_.
     bindE (user_audit tenant actorId ''user.permission_overrides_reset'' uid JNull JNull) (\<lambda>_.
     ret (uid, True))))"

section \<open>The invariant of the assignments\<close>

text \<open>No pair of user and role twice, and at most one primary role per user.\<close>

definition wf_roles :: "user_role list \<Rightarrow> bool" where
  "wf_roles urs \<longleftrightarrow> distinct (map (\<lambda>ur. (ur_user ur, ur_role ur)) urs) \<and>
     (\<forall>a\<in>set urs. \<forall>b\<in>set urs. ur_user a = ur_user b \<and> ur_primary a \<and> ur_primary b \<longrightarrow> ur_role a = ur_role b)"

interpretation ur: beside_infra user_roles
  by unfold_locales simp_all

declare ur.keeps_infra [keep_rules]

lemma keeps_user_reads [keep_rules]:
  "keeps user_roles (users_findOne u t)" "keeps user_roles (findSystemRoleId n)"
  "keeps user_roles (findUserRoles u)" "keeps user_roles (countUserRoles u)"
  "keeps user_roles (findAccessibleRole r tn)" "keeps user_roles (invalidateUserPermissions u tn)"
  "keeps user_roles (user_audit tn a ac u b f)"
  unfolding users_findOne_def findSystemRoleId_def findUserRoles_def countUserRoles_def
    findAccessibleRole_def invalidateUserPermissions_def user_audit_def
  by (intro keep_rules ur.keeps_query)+

lemma keeps_users_update_role [keep_rules]: "keeps user_roles (users_update_role u tn r i)"
  unfolding users_update_role_def
  by (intro keep_rules ur.keeps_exec) (simp add: Let_def split: sum.split)

lemma distinct_filter_map: "distinct (map f xs) \<Longrightarrow> distinct (map f (filter P xs))"
  by (induction xs) auto

lemma wf_filter: "wf_roles urs \<Longrightarrow> wf_roles (filter P urs)"
  by (auto simp: wf_roles_def distinct_filter_map)

lemma wf_rolesD: "wf_roles urs \<Longrightarrow> a \<in> set urs \<Longrightarrow> b \<in> set urs \<Longrightarrow> ur_user a = ur_user b \<Longrightarrow>
    ur_primary a \<Longrightarrow> ur_primary b \<Longrightarrow> ur_role a = ur_role b"
  unfolding wf_roles_def by blast

lemma wf_snoc:
  assumes "wf_roles urs" "\<forall>ur\<in>set urs. \<not> ur_match u r ur"
    "\<forall>ur\<in>set urs. ur_user ur = u \<and> ur_primary ur \<longrightarrow> \<not> p"
  shows "wf_roles (urs @ [\<lparr>ur_user = u, ur_role = r, ur_primary = p\<rparr>])"
proof -
  let ?new = "\<lparr>ur_user = u, ur_role = r, ur_primary = p\<rparr>"
  have "ur_role a = ur_role b" if "a \<in> insert ?new (set urs)" "b \<in> insert ?new (set urs)"
    "ur_user a = ur_user b" "ur_primary a" "ur_primary b" for a b
    using that(1,2)
  proof (elim insertE)
    assume "a \<in> set urs" "b \<in> set urs"
    then show ?thesis using that(3-5) by (rule wf_rolesD [OF assms(1)])
  next
    assume "a = ?new" "b \<in> set urs"
    then show ?thesis using that(3-5) assms(3) by simp
  next
    assume "a \<in> set urs" "b = ?new"
    then show ?thesis using that(3-5) assms(3) by simp
  qed simp
  moreover have "distinct (map (\<lambda>ur. (ur_user ur, ur_role ur)) (urs @ [?new]))"
    using conjunct1 [OF assms(1) [unfolded wf_roles_def]] assms(2) by (auto simp: ur_match_def)
  moreover have "set (urs @ [?new]) = insert ?new (set urs)" by simp
  ultimately show ?thesis unfolding wf_roles_def by blast
qed

lemma wf_promote:
  assumes "wf_roles urs" "\<forall>ur\<in>set urs. ur_user ur = u \<and> ur_primary ur \<longrightarrow> ur_role ur = r"
  shows "wf_roles (update_where (ur_match u r) (\<lambda>ur. ur\<lparr>ur_primary := True\<rparr>) urs)"
proof -
  let ?f = "\<lambda>ur. if ur_match u r ur then ur\<lparr>ur_primary := True\<rparr> else ur"
  have "distinct (map (\<lambda>ur. (ur_user ur, ur_role ur))
      (update_where (ur_match u r) (\<lambda>ur. ur\<lparr>ur_primary := True\<rparr>) urs))"
    using assms(1) by (subst map_update_where) (simp_all add: wf_roles_def)
  moreover have "ur_role (?f a) = ur_role (?f b)" if "a \<in> set urs" "b \<in> set urs"
    "ur_user (?f a) = ur_user (?f b)" "ur_primary (?f a)" "ur_primary (?f b)" for a b
    using that assms(2) wf_rolesD [OF assms(1) that(1,2)]
    by (cases "ur_match u r a"; cases "ur_match u r b") (auto simp: ur_match_def)
  ultimately show ?thesis unfolding wf_roles_def set_update_where by blast
qed

abbreviation wf_after where
  "wf_after m w \<equiv> wp m (\<lambda>_ w'. wf_roles (user_roles w')) (\<lambda>_ w'. wf_roles (user_roles w')) w"

lemma wf_read_then:
  "keeps user_roles m \<Longrightarrow> wf_roles (user_roles w) \<Longrightarrow>
   (\<And>x w'. user_roles w' = user_roles w \<Longrightarrow> wf_roles (user_roles w') \<Longrightarrow> wf_after (f x) w') \<Longrightarrow>
   wf_after (bindE m f) w"
  by (rule wp_bind_keep) auto

lemma wf_keep: "keeps user_roles m \<Longrightarrow> wf_roles (user_roles w) \<Longrightarrow> wf_after m w"
  by (rule wp_mono [OF keeps_wp [OF _ refl]]) auto

lemma wf_require: "wf_roles (user_roles w) \<Longrightarrow> (c \<Longrightarrow> wf_after (f ()) w) \<Longrightarrow> wf_after (bindE (require c e) f) w"
  by (simp add: wp_bindE wp_require)

lemma sync_wf: "wf_roles (user_roles w) \<Longrightarrow> wf_after (syncPrimaryRole u r) w"
proof -
  assume wf: "wf_roles (user_roles w)"
  let ?urs = "filter (\<lambda>ur. \<not> (ur_user ur = u \<and> ur_primary ur \<and> ur_role ur \<noteq> r)) (user_roles w)"
  have "wf_roles ?urs" using wf by (rule wf_filter)
  define urs where "urs = ?urs"
  have "wf_roles urs" using \<open>wf_roles ?urs\<close> by (simp only: urs_def)
  moreover have "\<forall>ur\<in>set urs. ur_user ur = u \<and> ur_primary ur \<longrightarrow> ur_role ur = r" by (auto simp: urs_def)
  ultimately have up: "wf_roles (update_where (ur_match u r) (\<lambda>ur. ur\<lparr>ur_primary := True\<rparr>) urs)"
    and new: "\<forall>ur\<in>set urs. \<not> ur_match u r ur \<Longrightarrow> wf_roles (urs @ [\<lparr>ur_user = u, ur_role = r, ur_primary = True\<rparr>])"
    by (auto intro!: wf_promote wf_snoc simp: ur_match_def)
  show ?thesis
    unfolding syncPrimaryRole_def
  proof (rule wp_bind [where R = "\<lambda>_ w'. user_roles w' = urs"])
    fix w' :: "'a perms_scheme" assume "user_roles w' = urs"
    then show "wf_after (orThrow (exec (\<lambda>w. (Inr (), w\<lparr>user_roles :=
       (if \<exists>ur\<in>set (user_roles w). ur_match u r ur
        then update_where (ur_match u r) (\<lambda>ur. ur\<lparr>ur_primary := True\<rparr>) (user_roles w)
        else user_roles w @ [\<lparr>ur_user = u, ur_role = r, ur_primary = True\<rparr>])\<rparr>)))) w'"
      using up new \<open>wf_roles urs\<close> by (auto simp: wp_rules split: option.split)
  qed (use wf in \<open>simp add: wp_rules urs_def split: option.split\<close>)
qed

lemma changeRole_wf: "wf_roles (user_roles w) \<Longrightarrow> wf_after (changeRole u n t a) w"
  unfolding changeRole_def
  apply (rule wf_read_then, intro keep_rules, assumption)
  apply (rule wf_require, assumption)+
  apply (rule wf_read_then, intro keep_rules, assumption)
  apply (rule wf_require, assumption)
  apply (rule wf_read_then, intro keep_rules, assumption)
  apply (rule wp_bind [OF sync_wf], assumption)
  apply (erule wf_keep [rotated], intro keep_rules)
  done

lemma addRole_wf: "wf_roles (user_roles w) \<Longrightarrow> wf_after (addRole u rid t a) w"
proof -
  assume wf: "wf_roles (user_roles w)"
  have count: "wp (countUserRoles u) (\<lambda>n w'. user_roles w' = user_roles v \<and>
      (n = 0 \<longrightarrow> (\<forall>ur\<in>set (user_roles v). ur_user ur \<noteq> u))) (\<lambda>_ w'. user_roles w' = user_roles v) v"
    for v :: "'a perms_scheme"
    unfolding countUserRoles_def by (simp add: wp_rules filter_empty_conv split: option.split)
  show ?thesis
    unfolding addRole_def
    apply (rule wf_read_then, intro keep_rules, rule wf)
    apply (rule wf_read_then, intro keep_rules, assumption)
    apply (simp add: wp_case_option wp_throw split: option.split, rule allI, rule impI)
    apply (rule wp_bind [where R = "\<lambda>n w'. wf_roles (user_roles w') \<and>
        (n = 0 \<longrightarrow> (\<forall>ur\<in>set (user_roles w'). ur_user ur \<noteq> u))"])
     apply (rule wp_mono [OF count]; simp)
    apply (rule wp_bind [where R = "\<lambda>_ w'. wf_roles (user_roles w')"])
     apply (auto simp: insertUserRole_def wp_rules intro!: wf_snoc split: option.split)[1]
    apply (erule wf_keep [rotated], intro keep_rules)
    done
qed

lemma removeRole_wf: "wf_roles (user_roles w) \<Longrightarrow> wf_after (removeRole u rid t a) w"
  unfolding removeRole_def
  apply (rule wf_read_then, intro keep_rules, assumption)
  apply (rule wf_read_then, intro keep_rules, assumption)
  apply (simp add: wp_case_option wp_throw split: option.split, rule allI, rule impI)
  apply (rule wf_require, simp)+
  apply (rule wp_bind [where R = "\<lambda>_ w'. wf_roles (user_roles w')"])
   apply (simp add: deleteUserRole_def wp_rules wf_filter split: option.split)
  apply (erule wf_keep [rotated], intro keep_rules)
  done

inductive membership_step :: "'w perms_scheme \<Rightarrow> 'w perms_scheme \<Rightarrow> bool" where
  change: "changeRole u n t a w = (r, w') \<Longrightarrow> membership_step w w'"
| add: "addRole u rid t a w = (r, w') \<Longrightarrow> membership_step w w'"
| remove: "removeRole u rid t a w = (r, w') \<Longrightarrow> membership_step w w'"

lemma membership_step_wf:
  "membership_step w w' \<Longrightarrow> wf_roles (user_roles w) \<Longrightarrow> wf_roles (user_roles w')"
  by (induction rule: membership_step.induct)
    (metis snd_conv wp_snd changeRole_wf addRole_wf removeRole_wf)+

text \<open>C23. A user never gets two primary roles, nor the same role twice.  The invariant holds after
  any sequence of changeRole, addRole and removeRole calls, successful or not, and whichever of
  their database calls fail: changeRole removes the other primary roles before it promotes the
  new one, and addRole makes a role primary only for a user who has none.\<close>

theorem one_primary_role:
  assumes "wf_roles (user_roles w)" "membership_step\<^sup>*\<^sup>* w w'"
  shows "wf_roles (user_roles w')"
  using assms(2,1) by (induction rule: rtranclp_induct) (auto intro: membership_step_wf)

text \<open>A cashier becomes a manager and then a cashier besides: two roles, of which one is primary.\<close>

definition demo_members :: perms where
  "demo_members = demo_perms\<lparr>
     roles := roles demo_perms @ [\<lparr>r_id = ''r2'', r_name = ''manager'', r_description = None,
        r_tenant = None, r_is_system = True, r_priority = 50, r_participant = True\<rparr>],
     users := [\<lparr>u_id = ''u'', u_tenant = Some ''t'', u_role = ''cashier'', u_role_id = Some ''r1'',
        u_deleted = False\<rparr>]\<rparr>"

definition demo_promoted :: perms where
  "demo_promoted = snd (changeRole ''u'' ''manager'' (Some ''t'') ''a'' demo_members)"

lemma demo_promoted_roles:
  "user_roles (snd (addRole ''u'' ''r1'' (Some ''t'') ''a'' demo_promoted)) =
     [\<lparr>ur_user = ''u'', ur_role = ''r2'', ur_primary = True\<rparr>, \<lparr>ur_user = ''u'', ur_role = ''r1'', ur_primary = False\<rparr>]"
  by (simp add: demo_promoted_def demo_members_def demo_perms_def changeRole_def addRole_def users_findOne_def findSystemRoleId_def
      users_update_role_def syncPrimaryRole_def findAccessibleRole_def countUserRoles_def insertUserRole_def
      invalidateUserPermissions_def user_audit_def audit_log_def cache_del_def now_def query_def exec_def orThrow_def orElse_def
      orError_def io_defs Let_def in_tenant_def ur_match_def update_where_def truthy_def single_def)

theorem one_primary_role_witness:
  "\<exists>w'. membership_step\<^sup>*\<^sup>* demo_members w' \<and> wf_roles (user_roles w') \<and>
     user_roles w' = [\<lparr>ur_user = ''u'', ur_role = ''r2'', ur_primary = True\<rparr>, \<lparr>ur_user = ''u'', ur_role = ''r1'', ur_primary = False\<rparr>]"
proof (intro exI conjI)
  let ?w = "snd (addRole ''u'' ''r1'' (Some ''t'') ''a'' demo_promoted)"
  have "membership_step demo_members demo_promoted"
    unfolding demo_promoted_def by (rule membership_step.change, rule surjective_pairing)
  moreover have "membership_step demo_promoted ?w" by (rule membership_step.add, rule surjective_pairing)
  ultimately show run: "membership_step\<^sup>*\<^sup>* demo_members ?w" by (meson r_into_rtranclp rtranclp_trans)
  show "wf_roles (user_roles ?w)"
    by (rule one_primary_role [OF _ run]) (simp add: wf_roles_def demo_members_def demo_perms_def)
qed (rule demo_promoted_roles)

text \<open>\<^verbatim>\<open>addRole\<close> hands out the superadmin role that \<^verbatim>\<open>changeRole\<close> refuses.  For a user of the
  tenant, changeRole to superadmin is forbidden and changes nothing; but addRole with the
  identifier of the system role superadmin succeeds, because it accepts every role without a
  tenant, and from then on superadmin is one of the role names the guards read.\<close>

theorem addRole_gives_superadmin:
  assumes "quiet w" "truthy t" "filter (\<lambda>x. \<not> u_deleted x \<and> in_tenant t x \<and> u_id x = u) (users w) = [usr]"
    and "filter (\<lambda>r. r_id r = rid) (roles w) = [r]" "r_tenant r = None" "r_name r = ''superadmin''"
    and "\<forall>ur\<in>set (user_roles w). \<not> ur_match u rid ur"
  shows "fst (addRole u rid t a w) = Inr (u, rid, ''superadmin'') \<and>
    ''superadmin'' \<in> set (role_names (snd (addRole u rid t a w)) u) \<and>
    (\<exists>e. fst (changeRole u ''superadmin'' t a w) = Inl e) \<and>
    user_roles (snd (changeRole u ''superadmin'' t a w)) = user_roles w"
proof -
  have f: "fault w n = None" for n using assms(1) by (simp add: quiet_def)
  have role: "find (\<lambda>r. r_id r = rid) (roles w) = Some r"
    using assms(4) by (rule find_single)
  have add: "addRole u rid t a w = (Inr (u, rid, ''superadmin''), snd (addRole u rid t a w))"
    and urs: "user_roles (snd (addRole u rid t a w)) = user_roles w @
      [\<lparr>ur_user = u, ur_role = rid, ur_primary = (filter (\<lambda>ur. ur_user ur = u) (user_roles w) = [])\<rparr>]"
    and rls: "roles (snd (addRole u rid t a w)) = roles w"
    using assms(3-7) f
    by (simp_all add: addRole_def users_findOne_def findAccessibleRole_def countUserRoles_def
        insertUserRole_def invalidateUserPermissions_def user_audit_def audit_log_def cache_del_def
        now_def query_def exec_def orThrow_def orElse_def io_defs Let_def)
  have "''superadmin'' \<in> set (role_names (snd (addRole u rid t a w)) u)"
    using role assms(6) by (simp add: role_names_def role_of_def urs rls map_filter_def)
  moreover have "(\<exists>e. fst (changeRole u ''superadmin'' t a w) = Inl e) \<and>
      user_roles (snd (changeRole u ''superadmin'' t a w)) = user_roles w"
    using assms(3) f
    by (simp add: changeRole_def users_findOne_def query_def exec_def io_defs Let_def)
  ultimately show ?thesis using add by (metis fst_conv)
qed

definition demo_admin :: perms where
  "demo_admin = demo_perms\<lparr>
     roles := roles demo_perms @ [\<lparr>r_id = ''r0'', r_name = ''superadmin'', r_description = None,
        r_tenant = None, r_is_system = True, r_priority = 100, r_participant = True\<rparr>],
     users := [\<lparr>u_id = ''u'', u_tenant = Some ''t'', u_role = ''cashier'', u_role_id = Some ''r1'',
        u_deleted = False\<rparr>]\<rparr>"

theorem addRole_gives_superadmin_witness:
  "''superadmin'' \<in> set (role_names (snd (addRole ''u'' ''r0'' (Some ''t'') ''a'' demo_admin)) ''u'')"
proof -
  have "quiet demo_admin" by (simp add: quiet_def memo_ok_def demo_admin_def demo_perms_def)
  then show ?thesis
    using addRole_gives_superadmin [of demo_admin "Some ''t''" "''u''" _ "''r0''"]
    by (simp add: demo_admin_def demo_perms_def in_tenant_def ur_match_def)
qed

end
