(* ===== verification/Money.thy ===== *)
theory Money
  imports JsNum
begin

text \<open>
  Amounts of money.  \<open>to_cents x\<close> is the integer that \<^verbatim>\<open>x.toFixed(2)\<close> prints (without its
  point), \<open>round2 x\<close> is \<^verbatim>\<open>parseFloat(x.toFixed(2))\<close>, and \<open>cents n\<close> is the double nearest
  to \<open>n / 100\<close>, the value every amount that went through the idiom has.  \<open>near x n e\<close> says
  that \<open>x\<close> is within \<open>e\<close> of \<open>n\<close> hundredths; its rules follow an amount through the roundings
  of the arithmetic, and \<open>round2_near\<close> turns it back into an exact number of hundredths.
  The bound \<open>money_bound\<close> (a million million currency units) is far above what the DECIMAL(10,2)
  and DECIMAL(12,2) columns of the schema hold.
\<close>

definition to_cents :: "number \<Rightarrow> int" where
  "to_cents x = (if x < 0 then - \<lfloor>- x * 100 + 1 / 2\<rfloor> else \<lfloor>x * 100 + 1 / 2\<rfloor>)"

definition round2 :: "number \<Rightarrow> number" where
  "round2 x = (if 10 ^ 21 \<le> \<bar>x\<bar> then x else fl (of_int (to_cents x) / 100))"

definition cents :: "int \<Rightarrow> number" where
  "cents n = fl (of_int n / 100)"

definition money_bound :: int where
  "money_bound = 10 ^ 14"

definition near :: "number \<Rightarrow> int \<Rightarrow> rat \<Rightarrow> bool" where
  "near x n e \<longleftrightarrow> \<bar>x - of_int n / 100\<bar> \<le> e"

section \<open>Roundings in the range of money\<close>

lemma fl_error_money:
  assumes "\<bar>x\<bar> \<le> 2 ^ 40" shows "\<bar>fl x - x\<bar> \<le> 1 / 8192"
  using fl_error [of x 40] assms by (simp add: power_int_def power_one_over)

lemma fl_error_small:
  assumes "\<bar>x\<bar> \<le> 2 ^ 34" shows "\<bar>fl x - x\<bar> \<le> 1 / 524288"
  using fl_error [of x 34] assms by (simp add: power_int_def power_one_over)

lemma fl_rel_error:
  assumes "x = 0 \<or> 1 / 1000 \<le> \<bar>x\<bar>" shows "\<bar>fl x - x\<bar> \<le> \<bar>x\<bar> / 2 ^ 52"
proof (cases "x = 0")
  case False
  let ?k = "flog2 x + 1"
  have "(2::rat) powi (- 10) \<le> \<bar>x\<bar>" using assms False by (simp add: power_int_def power_one_over)
  then have "\<not> flog2 x < - 10" using flog2_less_iff [OF False, of "- 10"] by simp
  then have "\<bar>fl x - x\<bar> \<le> 2 powi (?k - 53)"
    using flog2_bounds(2) [OF False] by (intro fl_error) auto
  also have "(2::rat) powi (?k - 53) = 2 powi flog2 x / 2 ^ 52"
    using powi2_split [of "?k - 53" "flog2 x"] by (simp add: power_int_minus field_simps)
  also have "\<dots> \<le> \<bar>x\<bar> / 2 ^ 52" using flog2_bounds(1) [OF False] by simp
  finally show ?thesis .
qed simp

lemma near_cents: "\<bar>n\<bar> \<le> money_bound \<Longrightarrow> near (cents n) n (1 / 8192)"
  using fl_error_money [of "of_int n / 100"]
  by (simp add: near_def cents_def money_bound_def abs_le_iff divide_le_eq)

lemma near_mono: "near x n e \<Longrightarrow> e \<le> d \<Longrightarrow> near x n d"
  by (simp add: near_def)

lemma near_bounds: "near x n e \<Longrightarrow> x \<le> of_int n / 100 + e \<and> of_int n / 100 - e \<le> x"
  unfolding near_def by linarith

lemma near_small:
  assumes "near x n e" "e \<le> 1" "0 \<le> n" "n \<le> 10 ^ 12" shows "\<bar>x\<bar> \<le> 2 ^ 34"
proof -
  have "(of_int n :: rat) \<le> of_int (10 ^ 12)" using assms(4) by (simp only: of_int_le_iff)
  then have "of_int n / 100 \<le> (10 ^ 10 :: rat)" by simp
  moreover have "0 \<le> (of_int n / 100 :: rat)" using assms(3) by simp
  moreover have "x - of_int n / 100 \<le> e" "- (x - of_int n / 100) \<le> e"
    using assms(1) unfolding near_def by linarith+
  ultimately have "x \<le> 2 ^ 34" "- x \<le> 2 ^ 34" using assms(2) by auto
  then show ?thesis by (rule abs_leI)
qed

lemma near_fl:
  assumes "near x n e" "e \<le> 1" "\<bar>n\<bar> \<le> money_bound"
  shows "near (fl x) n (e + 1 / 8192)"
proof -
  have n: "\<bar>of_int n :: rat\<bar> \<le> 10 ^ 14"
    using assms(3) unfolding money_bound_def by (metis of_int_abs of_int_le_iff of_int_numeral of_int_power)
  then have "\<bar>x\<bar> \<le> 2 ^ 40" using assms(1,2) by (auto simp: near_def abs_le_iff)
  then have "\<bar>fl x - x\<bar> \<le> 1 / 8192" by (rule fl_error_money)
  with assms(1) show ?thesis unfolding near_def by linarith
qed

lemma near_fadd:
  assumes "near a m d" "near b n e" "d + e \<le> 1" "\<bar>m + n\<bar> \<le> money_bound"
  shows "near (fadd a b) (m + n) (d + e + 1 / 8192)"
proof -
  have "near (a + b) (m + n) (d + e)"
    using assms(1,2) unfolding near_def by (simp add: add_divide_distrib)
  then show ?thesis unfolding fadd_def using assms(3,4) by (rule near_fl)
qed

lemma near_fsub:
  assumes "near a m d" "near b n e" "d + e \<le> 1" "\<bar>m - n\<bar> \<le> money_bound"
  shows "near (fsub a b) (m - n) (d + e + 1 / 8192)"
proof -
  have "near (a - b) (m - n) (d + e)"
    using assms(1,2) unfolding near_def by (simp add: diff_divide_distrib)
  then show ?thesis unfolding fsub_def using assms(3,4) by (rule near_fl)
qed

lemma near_min:
  assumes "near a m e" "near b n e" shows "near (min a b) (min m n) e"
proof -
  have "\<bar>a - of_int m / 100\<bar> \<le> e" "\<bar>b - of_int n / 100\<bar> \<le> e" using assms by (simp_all add: near_def)
  then have "\<bar>min a b - min (of_int m / 100) (of_int n / 100)\<bar> \<le> e" by (auto simp: min_def)
  moreover have "min (of_int m / 100) (of_int n / 100) = (of_int (min m n) / 100 :: rat)"
    by (simp add: min_def divide_le_cancel)
  ultimately show ?thesis by (simp add: near_def)
qed

section \<open>toFixed recovers the hundredths\<close>

lemma to_cents_near:
  assumes "near x n e" "e < 1 / 200" shows "to_cents x = n"
proof (cases "x < 0")
  case True
  have "\<lfloor>- x * 100 + 1 / 2\<rfloor> = - n"
    using assms by (intro floor_unique) (auto simp: near_def abs_le_iff field_simps)
  with True show ?thesis by (simp add: to_cents_def)
next
  case False
  have "\<lfloor>x * 100 + 1 / 2\<rfloor> = n"
    using assms by (intro floor_unique) (auto simp: near_def abs_le_iff field_simps)
  with False show ?thesis by (simp add: to_cents_def)
qed

lemma round2_near:
  assumes "near x n e" "e < 1 / 200" "\<bar>n\<bar> \<le> money_bound" shows "round2 x = cents n"
proof -
  have "\<bar>of_int n :: rat\<bar> \<le> 10 ^ 14"
    using assms(3) unfolding money_bound_def by (metis of_int_abs of_int_le_iff of_int_numeral of_int_power)
  then have "\<bar>x\<bar> < 10 ^ 21" using assms(1,2) by (auto simp: near_def abs_le_iff abs_less_iff)
  then show ?thesis using to_cents_near [OF assms(1,2)] by (simp add: round2_def cents_def)
qed

lemma to_cents_cents [simp]: "\<bar>n\<bar> \<le> money_bound \<Longrightarrow> to_cents (cents n) = n"
  using near_cents [of n] by (rule to_cents_near) auto

lemma round2_cents [simp]: "\<bar>n\<bar> \<le> money_bound \<Longrightarrow> round2 (cents n) = cents n"
  using near_cents [of n] by (rule round2_near) auto

lemma cents_mono: "m \<le> n \<Longrightarrow> cents m \<le> cents n"
  unfolding cents_def by (intro fl_mono divide_right_mono) auto

lemma cents_inject:
  "\<bar>m\<bar> \<le> money_bound \<Longrightarrow> \<bar>n\<bar> \<le> money_bound \<Longrightarrow> cents m = cents n \<longleftrightarrow> m = n"
  by (metis to_cents_cents)

lemma cents_le_iff:
  assumes "\<bar>m\<bar> \<le> money_bound" "\<bar>n\<bar> \<le> money_bound" shows "cents m \<le> cents n \<longleftrightarrow> m \<le> n"
  using cents_mono cents_inject [OF assms] by (metis antisym linear)

lemma cents_less_iff:
  assumes "\<bar>m\<bar> \<le> money_bound" "\<bar>n\<bar> \<le> money_bound" shows "cents m < cents n \<longleftrightarrow> m < n"
  using cents_le_iff [OF assms(2,1)] by (simp add: not_le [symmetric])

lemma cents_0 [simp]: "cents 0 = 0"
  by (simp add: cents_def)

lemma cents_nonneg: "0 \<le> n \<Longrightarrow> 0 \<le> cents n"
  using cents_mono [of 0 n] by simp

lemma is_double_cents [simp]: "fl (cents n) = cents n"
  by (simp add: cents_def)

lemma to_cents_nonneg: "0 \<le> x \<Longrightarrow> 0 \<le> to_cents x"
  by (simp add: to_cents_def)

lemma to_cents_mono:
  assumes "x \<le> y" shows "to_cents x \<le> to_cents y"
proof -
  consider "0 \<le> x" | "x < 0" "0 \<le> y" | "y < 0" by linarith
  then show ?thesis
  proof cases
    case 1 then show ?thesis using assms by (auto simp: to_cents_def intro!: floor_mono)
  next
    case 2
    then have "to_cents x \<le> 0" by (simp add: to_cents_def)
    also have "0 \<le> to_cents y" using 2 by (intro to_cents_nonneg)
    finally show ?thesis .
  next
    case 3 then show ?thesis using assms by (auto simp: to_cents_def intro!: floor_mono)
  qed
qed

lemma round2_nonneg: "0 \<le> x \<Longrightarrow> 0 \<le> round2 x"
  by (simp add: round2_def to_cents_nonneg fl_nonneg)

lemma round2_0 [simp]: "round2 0 = 0"
  using round2_cents [of 0] by (simp add: money_bound_def)

lemma round2_le_cents:
  assumes "x \<le> cents n" "0 \<le> x" "\<bar>n\<bar> \<le> money_bound" shows "round2 x \<le> cents n"
proof (cases "10 ^ 21 \<le> \<bar>x\<bar>")
  case False
  have "to_cents x \<le> n" using to_cents_mono [OF assms(1)] assms(3) by simp
  with False show ?thesis using cents_mono by (simp add: round2_def cents_def)
qed (simp add: round2_def assms(1))

text \<open>An amount the idiom produced, in the range of money.\<close>

definition is_amount :: "number \<Rightarrow> bool" where
  "is_amount x \<longleftrightarrow> (\<exists>n. \<bar>n\<bar> \<le> money_bound \<and> x = cents n)"

lemma amount_cents: "\<bar>n\<bar> \<le> money_bound \<Longrightarrow> is_amount (cents n)"
  unfolding is_amount_def by blast

lemma amount_to_cents: "is_amount x \<Longrightarrow> cents (to_cents x) = x"
  by (auto simp: is_amount_def)

section \<open>Sums of amounts\<close>

text \<open>Sums of at most ten thousand million: each addition adds less than 1/131072 of noise.\<close>

definition subtotal_bound :: int where
  "subtotal_bound = 10 ^ 12"

definition near_term :: "number \<Rightarrow> int \<Rightarrow> bool" where
  "near_term x n \<longleftrightarrow> 0 \<le> n \<and> near x n (3 / 524288)"

lemma near_term_zero: "near_term 0 0"
  by (simp add: near_term_def near_def)

lemma near_term_cents:
  assumes "0 \<le> n" "n \<le> subtotal_bound" shows "near_term (cents n) n"
proof -
  have "(of_int n :: rat) \<le> of_int (10 ^ 12)"
    using assms(2) unfolding subtotal_bound_def by (simp only: of_int_le_iff)
  then have "\<bar>of_int n / 100 :: rat\<bar> \<le> 2 ^ 34" using assms(1) by simp
  then have "\<bar>cents n - of_int n / 100\<bar> \<le> 1 / 524288"
    unfolding cents_def by (rule fl_error_small)
  then show ?thesis using assms(1) by (simp add: near_term_def near_def)
qed

lemma member_le_sum:
  fixes f :: "'a \<Rightarrow> int"
  assumes "\<forall>x\<in>set xs. 0 \<le> f x" "x \<in> set xs" shows "f x \<le> (\<Sum>x\<leftarrow>xs. f x)"
  using assms
proof (induction xs)
  case (Cons y xs)
  have "0 \<le> (\<Sum>x\<leftarrow>xs. f x)" using Cons.prems(1) by (intro sum_list_nonneg) auto
  with Cons show ?case by (cases "x = y") auto
qed simp

lemma near_sum:
  assumes "\<forall>x\<in>set xs. near_term (t x) (c x)" "near acc n e" "0 \<le> n"
    "n + (\<Sum>x\<leftarrow>xs. c x) \<le> subtotal_bound" "e + of_nat (length xs) / 131072 \<le> 1"
  shows "near (foldl (\<lambda>acc x. fadd acc (t x)) acc xs)
     (n + (\<Sum>x\<leftarrow>xs. c x)) (e + of_nat (length xs) / 131072)"
  using assms
proof (induction xs arbitrary: acc n e)
  case (Cons x xs)
  have rest: "0 \<le> (\<Sum>x\<leftarrow>xs. c x)"
    using Cons.prems(1) by (intro sum_list_nonneg) (auto simp: near_term_def)
  have x: "0 \<le> c x" "n + c x \<le> subtotal_bound" "near (t x) (c x) (3 / 524288)"
    using Cons.prems rest by (auto simp: near_term_def)
  have "0 \<le> (of_nat (length xs) / 131072 :: rat)" by simp
  then have e: "e + 3 / 524288 \<le> 1" using Cons.prems(5) by (simp add: add_divide_distrib)
  have sum: "near (acc + t x) (n + c x) (e + 3 / 524288)"
    using Cons.prems(2) x(3) unfolding near_def of_int_add add_divide_distrib by linarith
  then have "\<bar>acc + t x\<bar> \<le> 2 ^ 34"
    using x Cons.prems(3) e by (intro near_small [OF sum]) (auto simp: subtotal_bound_def)
  then have "\<bar>fadd acc (t x) - (acc + t x)\<bar> \<le> 1 / 524288"
    unfolding fadd_def by (rule fl_error_small)
  with sum have "near (fadd acc (t x)) (n + c x) (e + 1 / 131072)" unfolding near_def by linarith
  then have "near (foldl (\<lambda>acc x. fadd acc (t x)) (fadd acc (t x)) xs)
     (n + c x + (\<Sum>x\<leftarrow>xs. c x)) (e + 1 / 131072 + of_nat (length xs) / 131072)"
    using Cons.prems x by (intro Cons.IH) (auto simp: add_divide_distrib)
  then show ?case by (simp add: add_divide_distrib algebra_simps)
qed simp

lemma near_sum_0:
  assumes "\<forall>x\<in>set xs. near_term (t x) (c x)" "(\<Sum>x\<leftarrow>xs. c x) \<le> subtotal_bound" "length xs \<le> 500"
  shows "near (foldl (\<lambda>acc x. fadd acc (t x)) 0 xs) (\<Sum>x\<leftarrow>xs. c x) (1 / 250)"
proof -
  have len: "(of_nat (length xs) :: rat) \<le> 500" using assms(3) by simp
  have "near (foldl (\<lambda>acc x. fadd acc (t x)) 0 xs) (0 + (\<Sum>x\<leftarrow>xs. c x))
      (0 + of_nat (length xs) / 131072)"
    using assms(1,2) len by (intro near_sum) (auto simp: near_def)
  then show ?thesis using len by (auto intro: near_mono)
qed

section \<open>The doubles of the model are the doubles of JavaScript\<close>

text \<open>Three well-known facts: 0.1 + 0.2 is not 0.3 but 0.30000000000000004, and the idiom
  repairs it; 1.005 is stored below 1.005, so that its toFixed is 1.00.\<close>

lemma tenth_plus_two_tenths:
  "fadd (cents 10) (cents 20) \<noteq> cents 30"
  "fadd (cents 10) (cents 20) = 5404319552844596 / 2 ^ 54"
  "round2 (fadd (cents 10) (cents 20)) = cents 30"
  by code_simp+

lemma toFixed_1_005: "round2 (fl (1005 / 1000)) = cents 100"
  by code_simp

end
