(* ===== verification/Pricing.thy ===== *)
theory Pricing
  imports AccessControl Money "HOL-Library.Multiset"
begin

text \<open>
  \<^verbatim>\<open>EffectiveRoleResolver\<close> and \<^verbatim>\<open>PriceResolutionService\<close> (\<^verbatim>\<open>core/pricing\<close>): the official price of a
  line, the one role that represents a user, the policy that applies to it in a branch, and the
  decision on a requested price.  Percentages are computed with doubles as in the source.  The
  lemmas give the exact condition under which an override is approved.
\<close>

section \<open>EffectiveRoleResolver\<close>

definition D01_EXCLUDED_ROLE_NAMES :: "string list" where
  "D01_EXCLUDED_ROLE_NAMES = [''superadmin'']"

record effective_role =
  er_roleId :: string
  er_roleName :: string
  er_priority :: int

definition toEffectiveRole :: "role_row \<Rightarrow> effective_role" where
  "toEffectiveRole r = \<lparr>er_roleId = r_id r, er_roleName = r_name r, er_priority = r_priority r\<rparr>"

definition eligible_role :: "role_row \<Rightarrow> bool" where
  "eligible_role r = (r_participant r \<and> r_name r \<notin> set D01_EXCLUDED_ROLE_NAMES)"

text \<open>The rows are pairs of \<open>is_primary\<close> and the joined role, if the join found one.\<close>

definition pick_role :: "(bool \<times> role_row option) list \<Rightarrow> effective_role option" where
  "pick_role rows =
     (let eligible = List.map_filter (\<lambda>(prim, role). case role of None \<Rightarrow> None
            | Some r \<Rightarrow> if eligible_role r then Some (prim, r) else None) rows
      in if eligible = [] then None else
      let maxPriority = Max (set (map (\<lambda>(prim, r). r_priority r) eligible));
          candidates = filter (\<lambda>(prim, r). r_priority r = maxPriority) eligible
      in case candidates of [(prim, r)] \<Rightarrow> Some (toEffectiveRole r)
         | _ \<Rightarrow> (case filter fst candidates of [(prim, r)] \<Rightarrow> Some (toEffectiveRole r) | _ \<Rightarrow> None))"

definition joined_roles :: "'w perms_scheme \<Rightarrow> string \<Rightarrow> (bool \<times> role_row option) list" where
  "joined_roles w userId = map (\<lambda>ur. (ur_primary ur, role_of w (ur_role ur)))
     (filter (\<lambda>ur. ur_user ur = userId) (user_roles w))"

definition resolveEffectiveRole :: "string \<Rightarrow> ('w perms_scheme, effective_role option) io" where
  "resolveEffectiveRole userId =
     bindE (query (\<lambda>w. Inr (joined_roles w userId))) (\<lambda>r.
     case r of Inl e \<Rightarrow> ret None | Inr rows \<Rightarrow> ret (pick_role rows))"

section \<open>Tables\<close>

datatype reason_policy = NotRequired | AlwaysRequired | RequiredAboveThreshold | Optional

record effective_policy =
  allow_discount :: "bool option"
  allow_increase :: "bool option"
  allow_combine_with_discount :: "bool option"
  max_discount_percent :: "number option"
  max_increase_percent :: "number option"
  reason_policy :: "reason_policy option"
  reason_threshold_percent :: "number option"
  allow_zero_price :: "bool option"
  zero_price_requires_permission :: "bool option"
  zero_price_requires_reason :: "bool option"

record policy_row = effective_policy +
  pol_tenant :: string
  pol_branch :: "string option"
  pol_role :: "string option"

record item_row =
  it_id :: string
  it_tenant :: string
  it_price :: number
  it_active :: bool
  it_deleted :: bool

record variant_row =
  va_id :: string
  va_tenant :: string
  va_item :: string
  va_adjust :: number
  va_active :: bool

record catalog = perms +
  catalog_items :: "item_row list"
  item_variants :: "variant_row list"
  price_override_policies :: "policy_row list"

section \<open>PriceResolutionService\<close>

record price_input =
  pi_user :: string
  pi_tenant :: string
  pi_branch :: string
  pi_item :: string
  pi_variant :: "string option"
  pi_requested :: number
  pi_reason :: "string option"
  pi_invoice_discount :: bool
  pi_role :: "effective_role option option"

datatype price_direction = Discount | Increase

datatype rejection =
    ItemOrVariantNotFound | OfficialPriceZeroIncrease | NoEffectiveRole | NoEffectivePolicy
  | PermissionDenied | DiscountNotAllowed | IncreaseNotAllowed | LimitExceeded | ReasonRequired
  | ZeroPriceNotAllowed | CombineWithDiscountNotAllowed

record override_data =
  od_official :: number
  od_approved :: number
  od_difference :: number
  od_percent :: number
  od_direction :: price_direction
  od_reason :: "string option"
  od_role :: effective_role
  od_policy :: effective_policy

text \<open>The last component of a rejection: absent, or the role that was consulted.\<close>

datatype price_result =
    NoOverride number
  | ApprovedOverride override_data
  | RejectedPrice number number rejection "effective_role option option"

definition resolveOfficialPrice ::
  "string \<Rightarrow> string option \<Rightarrow> string \<Rightarrow> ('w catalog_scheme, number option) io" where
  "resolveOfficialPrice itemId variantId tenantId =
     bindE (orElse None (query (\<lambda>w. maybeSingle
       (filter (\<lambda>i. it_id i = itemId \<and> it_tenant i = tenantId) (catalog_items w))))) (\<lambda>item.
     case item of None \<Rightarrow> ret None | Some i \<Rightarrow>
       if it_deleted i \<or> \<not> it_active i then ret None
       else if \<not> truthy variantId then ret (Some (it_price i))
       else bindE (orElse None (query (\<lambda>w. maybeSingle
         (filter (\<lambda>v. Some (va_id v) = variantId \<and> va_tenant v = tenantId) (item_variants w))))) (\<lambda>variant.
       case variant of None \<Rightarrow> ret None | Some v \<Rightarrow>
         if \<not> va_active v \<or> va_item v \<noteq> itemId then ret None
         else ret (Some (fadd (it_price i) (va_adjust v)))))"

definition pick :: "(policy_row \<Rightarrow> 'v option) \<Rightarrow> policy_row option \<Rightarrow> policy_row option \<Rightarrow> policy_row \<Rightarrow> 'v option" where
  "pick key roleRow branchRow tenantRow =
     nullish2 (Option.bind roleRow key) (nullish2 (Option.bind branchRow key) (key tenantRow))"

definition merge_policy :: "policy_row list \<Rightarrow> string \<Rightarrow> string \<Rightarrow> effective_policy option" where
  "merge_policy rows branchId roleId =
     (case find (\<lambda>r. pol_branch r = None \<and> pol_role r = None) rows of
        None \<Rightarrow> None
      | Some tenantRow \<Rightarrow>
        let branchRow = find (\<lambda>r. pol_branch r = Some branchId \<and> pol_role r = None) rows;
            roleRow = find (\<lambda>r. pol_branch r = Some branchId \<and> pol_role r = Some roleId) rows
        in Some \<lparr>allow_discount = pick allow_discount roleRow branchRow tenantRow,
             allow_increase = pick allow_increase roleRow branchRow tenantRow,
             allow_combine_with_discount = pick allow_combine_with_discount roleRow branchRow tenantRow,
             max_discount_percent = pick max_discount_percent roleRow branchRow tenantRow,
             max_increase_percent = pick max_increase_percent roleRow branchRow tenantRow,
             reason_policy = pick reason_policy roleRow branchRow tenantRow,
             reason_threshold_percent = pick reason_threshold_percent roleRow branchRow tenantRow,
             allow_zero_price = pick allow_zero_price roleRow branchRow tenantRow,
             zero_price_requires_permission = pick zero_price_requires_permission roleRow branchRow tenantRow,
             zero_price_requires_reason = pick zero_price_requires_reason roleRow branchRow tenantRow\<rparr>)"

definition tenant_policies :: "'w catalog_scheme \<Rightarrow> string \<Rightarrow> policy_row list" where
  "tenant_policies w tenantId = filter (\<lambda>r. pol_tenant r = tenantId) (price_override_policies w)"

definition resolveEffectivePolicy ::
  "string \<Rightarrow> string \<Rightarrow> string \<Rightarrow> ('w catalog_scheme, effective_policy option) io" where
  "resolveEffectivePolicy tenantId branchId roleId =
     bindE (query (\<lambda>w. Inr (tenant_policies w tenantId))) (\<lambda>r.
     case r of Inl e \<Rightarrow> ret None | Inr rows \<Rightarrow> ret (merge_policy rows branchId roleId))"

definition direction_of :: "number \<Rightarrow> number \<Rightarrow> price_direction" where
  "direction_of requested official = (if requested < official then Discount else Increase)"

definition difference_amount :: "number \<Rightarrow> number \<Rightarrow> number" where
  "difference_amount requested official = \<bar>fsub requested official\<bar>"

definition difference_percent :: "number \<Rightarrow> number \<Rightarrow> number" where
  "difference_percent requested official =
     fmul (fdiv (difference_amount requested official) official) 100"

text \<open>\<^verbatim>\<open>limit === null || percent > limit\<close>\<close>

definition over_limit :: "number \<Rightarrow> number option \<Rightarrow> bool" where
  "over_limit percent limit = (case limit of None \<Rightarrow> True | Some m \<Rightarrow> m < percent)"

definition reason_required :: "effective_policy \<Rightarrow> bool \<Rightarrow> number \<Rightarrow> bool" where
  "reason_required policy isZeroPrice percent =
     (reason_policy policy = Some AlwaysRequired \<or>
      (isZeroPrice \<and> zero_price_requires_reason policy = Some True) \<or>
      (reason_policy policy = Some RequiredAboveThreshold \<and>
       (case reason_threshold_percent policy of None \<Rightarrow> False | Some th \<Rightarrow> th < percent)))"

text \<open>The checks of \<^verbatim>\<open>resolvePrice\<close> against the policy, in their order.\<close>

definition check_policy ::
  "price_input \<Rightarrow> number \<Rightarrow> effective_role \<Rightarrow> effective_policy \<Rightarrow> price_result" where
  "check_policy input official role policy =
     (let requested = pi_requested input;
          direction = direction_of requested official;
          differenceAmount = difference_amount requested official;
          differencePercent = difference_percent requested official;
          isZeroPrice = (requested = 0);
          rejected = (\<lambda>c. RejectedPrice official requested c (Some (Some role)));
          trimmedReason = (case pi_reason input of None \<Rightarrow> [] | Some s \<Rightarrow> trim s)
      in if isZeroPrice \<and> allow_zero_price policy \<noteq> Some True then rejected ZeroPriceNotAllowed
      else if direction = Discount \<and> allow_discount policy \<noteq> Some True then rejected DiscountNotAllowed
      else if direction = Discount \<and> over_limit differencePercent (max_discount_percent policy)
        then rejected LimitExceeded
      else if direction = Increase \<and> allow_increase policy \<noteq> Some True then rejected IncreaseNotAllowed
      else if direction = Increase \<and> over_limit differencePercent (max_increase_percent policy)
        then rejected LimitExceeded
      else if reason_required policy isZeroPrice differencePercent \<and> trimmedReason = []
        then rejected ReasonRequired
      else if pi_invoice_discount input \<and> allow_combine_with_discount policy \<noteq> Some True
        then rejected CombineWithDiscountNotAllowed
      else ApprovedOverride \<lparr>od_official = official, od_approved = requested,
        od_difference = differenceAmount, od_percent = differencePercent, od_direction = direction,
        od_reason = (if trimmedReason \<noteq> [] then Some trimmedReason else None), od_role = role,
        od_policy = policy\<rparr>)"

definition resolvePrice :: "price_input \<Rightarrow> ('w catalog_scheme, price_result) io" where
  "resolvePrice input =
     bindE (resolveOfficialPrice (pi_item input) (pi_variant input) (pi_tenant input)) (\<lambda>res.
     case res of None \<Rightarrow> ret (RejectedPrice 0 (pi_requested input) ItemOrVariantNotFound None)
     | Some official \<Rightarrow>
       if official = 0 \<and> pi_requested input > 0
       then ret (RejectedPrice 0 (pi_requested input) OfficialPriceZeroIncrease None)
       else if pi_requested input = official then ret (NoOverride official)
       else bindE (case pi_role input of Some r \<Rightarrow> ret r | None \<Rightarrow> resolveEffectiveRole (pi_user input)) (\<lambda>er.
         case er of None \<Rightarrow> ret (RejectedPrice official (pi_requested input) NoEffectiveRole (Some None))
         | Some role \<Rightarrow>
           bindE (hasPermissionForUser (pi_user input) ''invoice.price_override'' (Some (pi_tenant input)))
             (\<lambda>hasPermission.
           if \<not> hasPermission
           then ret (RejectedPrice official (pi_requested input) PermissionDenied (Some (Some role)))
           else bindE (resolveEffectivePolicy (pi_tenant input) (pi_branch input) (er_roleId role)) (\<lambda>pol.
             case pol of None \<Rightarrow>
               ret (RejectedPrice official (pi_requested input) NoEffectivePolicy (Some (Some role)))
             | Some policy \<Rightarrow> ret (check_policy input official role policy)))))"

section \<open>The role that represents a user\<close>

definition only :: "'x list \<Rightarrow> 'x option" where
  "only xs = (case xs of [x] \<Rightarrow> Some x | _ \<Rightarrow> None)"

lemma only_eq: "only xs = Some x \<longleftrightarrow> xs = [x]"
  by (auto simp: only_def split: list.splits)

lemma only_simps [simp]: "only [] = None" "only [x] = Some x"
  by (simp_all add: only_def)

lemma only_mset:
  assumes "mset xs = mset ys" shows "only xs = only ys"
proof (cases "only xs")
  case (Some x)
  then have "ys = [x]" using assms by (simp add: only_eq)
  then show ?thesis using Some by (simp add: only_eq)
next
  case None
  show ?thesis
  proof (cases "only ys")
    case (Some y)
    then have "xs = [y]" using assms by (simp add: only_eq)
    then show ?thesis using None by (simp add: only_def)
  qed (simp add: None)
qed

definition eligible_rows :: "(bool \<times> role_row option) list \<Rightarrow> (bool \<times> role_row) list" where
  "eligible_rows rows = List.map_filter (\<lambda>(prim, role). case role of None \<Rightarrow> None
     | Some r \<Rightarrow> if eligible_role r then Some (prim, r) else None) rows"

definition top_rows :: "(bool \<times> role_row) list \<Rightarrow> (bool \<times> role_row) list" where
  "top_rows es = filter (\<lambda>(prim, r). r_priority r = Max (set (map (\<lambda>(prim, r). r_priority r) es))) es"

lemma case_only: "(case xs of [(p, r)] \<Rightarrow> Some (f r) | _ \<Rightarrow> d) =
    (case only xs of Some x \<Rightarrow> Some (f (snd x)) | None \<Rightarrow> d)"
  by (cases xs; cases "tl xs") (auto simp: only_def)

lemma pick_role_only:
  "pick_role rows = (if eligible_rows rows = [] then None else
     case only (top_rows (eligible_rows rows)) of Some x \<Rightarrow> Some (toEffectiveRole (snd x))
     | None \<Rightarrow> (case only (filter fst (top_rows (eligible_rows rows))) of
          Some x \<Rightarrow> Some (toEffectiveRole (snd x)) | None \<Rightarrow> None))"
  unfolding pick_role_def Let_def eligible_rows_def [symmetric] top_rows_def [symmetric] case_only ..

lemma mset_map_filter:
  "mset (List.map_filter f xs) = image_mset (the \<circ> f) (filter_mset (\<lambda>x. f x \<noteq> None) (mset xs))"
  by (induction xs) (auto simp: List.map_filter_simps split: option.split)

lemma mset_eligible: "mset rows = mset rows' \<Longrightarrow> mset (eligible_rows rows) = mset (eligible_rows rows')"
  unfolding eligible_rows_def mset_map_filter by simp

lemma mset_top: "mset es = mset es' \<Longrightarrow> mset (top_rows es) = mset (top_rows es')"
  unfolding top_rows_def by (metis mset_eq_setD mset_filter set_map)

lemma set_eligible: "(prim, r) \<in> set (eligible_rows rows) \<longleftrightarrow> (prim, Some r) \<in> set rows \<and> eligible_role r"
proof (induction rows)
  case (Cons a rows)
  obtain p x where "a = (p, x)" by (cases a)
  then show ?case using Cons
    by (cases x) (auto simp: eligible_rows_def List.map_filter_simps)
qed (simp add: eligible_rows_def List.map_filter_simps)

text \<open>The role that represents a user for price overrides is well chosen: it does not depend on the
  order in which the database returns the assignments; it is a role the user holds, takes part
  in the hierarchy and is never superadmin; no eligible role of the user has a higher priority;
  and when another assignment has the same priority, it is the only primary one among them, so
  that an unresolved tie gives no role at all.\<close>

theorem pick_role_sound:
  "(\<forall>rows'. mset rows' = mset rows \<longrightarrow> pick_role rows' = pick_role rows) \<and>
   (\<forall>e. pick_role rows = Some e \<longrightarrow> (\<exists>prim r. (prim, Some r) \<in> set rows \<and> eligible_role r \<and>
      r_name r \<noteq> ''superadmin'' \<and> e = toEffectiveRole r \<and>
      (\<forall>p x. (p, Some x) \<in> set rows \<and> eligible_role x \<longrightarrow> r_priority x \<le> r_priority r) \<and>
      (\<forall>p x. (p, Some x) \<in> set rows \<and> eligible_role x \<and> r_priority x = r_priority r \<longrightarrow>
         (p, x) = (prim, r) \<or> (prim \<and> \<not> p))))"
proof (intro conjI allI impI)
  fix rows' assume "mset rows' = mset rows"
  then have e: "mset (eligible_rows rows') = mset (eligible_rows rows)" by (rule mset_eligible)
  then have t: "mset (top_rows (eligible_rows rows')) = mset (top_rows (eligible_rows rows))"
    by (rule mset_top)
  have "only (top_rows (eligible_rows rows')) = only (top_rows (eligible_rows rows))"
    "only (filter fst (top_rows (eligible_rows rows'))) = only (filter fst (top_rows (eligible_rows rows)))"
    using t by (auto intro!: only_mset simp flip: filter_mset_eq_conv)
  moreover have "eligible_rows rows' = [] \<longleftrightarrow> eligible_rows rows = []"
    using e by (metis mset_zero_iff)
  ultimately show "pick_role rows' = pick_role rows" unfolding pick_role_only by (simp only:)
next
  fix e assume e: "pick_role rows = Some e"
  let ?es = "eligible_rows rows"
  let ?m = "Max (set (map (\<lambda>(prim, r). r_priority r) ?es))"
  have top: "(p, x) \<in> set (top_rows ?es) \<longleftrightarrow> (p, x) \<in> set ?es \<and> r_priority x = ?m" for p x
    by (auto simp: top_rows_def)
  have max: "r_priority x \<le> ?m" if "(p, x) \<in> set ?es" for p x
    using that by (intro Max_ge) force+
  from e consider (alone) x where "top_rows ?es = [x]" "e = toEffectiveRole (snd x)"
    | (primary) x where "filter fst (top_rows ?es) = [x]" "e = toEffectiveRole (snd x)"
    by (cases "only (top_rows ?es)"; cases "only (filter fst (top_rows ?es))")
      (auto simp: pick_role_only only_eq split: if_splits)
  then obtain prim r where r: "e = toEffectiveRole r"
    and c: "top_rows ?es = [(prim, r)] \<or> filter fst (top_rows ?es) = [(prim, r)]"
    by cases (metis prod.collapse)+
  then have mem: "(prim, r) \<in> set (top_rows ?es)"
    by (metis filter_is_subset in_mono list.set_intros(1))
  have tie: "(p, x) = (prim, r) \<or> (prim \<and> \<not> p)" if "(p, x) \<in> set (top_rows ?es)" for p x
    using c
  proof
    assume "top_rows ?es = [(prim, r)]"
    then show ?thesis using that by simp
  next
    assume f: "filter fst (top_rows ?es) = [(prim, r)]"
    have "(prim, r) \<in> set (filter fst (top_rows ?es))" by (simp add: f)
    then have "prim" by simp
    show ?thesis
    proof (cases p)
      case True
      then show ?thesis using filter_one [OF f that] by simp
    next
      case False
      then show ?thesis using \<open>prim\<close> by simp
    qed
  qed
  have r': "(prim, Some r) \<in> set rows" "eligible_role r" "r_priority r = ?m"
    using mem by (auto simp: top set_eligible)
  have name: "r_name r \<noteq> ''superadmin''"
    using r'(2) by (auto simp: eligible_role_def D01_EXCLUDED_ROLE_NAMES_def)
  have hi: "r_priority x \<le> r_priority r" if "(p, Some x) \<in> set rows \<and> eligible_role x" for p x
    unfolding r'(3) using that by (intro max [of p]) (simp add: set_eligible)
  have un: "(p, x) = (prim, r) \<or> (prim \<and> \<not> p)"
    if "(p, Some x) \<in> set rows \<and> eligible_role x \<and> r_priority x = r_priority r" for p x
    using that r'(3) by (intro tie) (simp add: top set_eligible)
  show "\<exists>prim r. (prim, Some r) \<in> set rows \<and> eligible_role r \<and>
      r_name r \<noteq> ''superadmin'' \<and> e = toEffectiveRole r \<and>
      (\<forall>p x. (p, Some x) \<in> set rows \<and> eligible_role x \<longrightarrow> r_priority x \<le> r_priority r) \<and>
      (\<forall>p x. (p, Some x) \<in> set rows \<and> eligible_role x \<and> r_priority x = r_priority r \<longrightarrow>
         (p, x) = (prim, r) \<or> (prim \<and> \<not> p))"
    using r'(1,2) name r hi un by blast
qed

theorem pick_role_sound_witness:
  "pick_role [(False, Some \<lparr>r_id = ''a'', r_name = ''cashier'', r_description = None, r_tenant = None,
      r_is_system = True, r_priority = 50, r_participant = True\<rparr>), (True, None)] =
   pick_role [(True, None), (False, Some \<lparr>r_id = ''a'', r_name = ''cashier'', r_description = None,
      r_tenant = None, r_is_system = True, r_priority = 50, r_participant = True\<rparr>)]"
  by (rule conjunct1 [OF pick_role_sound, rule_format]) simp

section \<open>When an override is approved\<close>

text \<open>The price the catalogue gives: the item's, plus the adjustment of the variant if one is asked for.\<close>

definition is_official :: "'w catalog_scheme \<Rightarrow> string \<Rightarrow> string option \<Rightarrow> string \<Rightarrow> number \<Rightarrow> bool" where
  "is_official w item v t p \<longleftrightarrow> (\<exists>i\<in>set (catalog_items w).
     it_id i = item \<and> it_tenant i = t \<and> it_active i \<and> \<not> it_deleted i \<and>
     (if truthy v
      then \<exists>x\<in>set (item_variants w). Some (va_id x) = v \<and> va_tenant x = t \<and> va_item x = item \<and>
        va_active x \<and> p = fadd (it_price i) (va_adjust x)
      else p = it_price i))"

text \<open>What a policy asks of an override, without the order of the checks.\<close>

definition permits :: "effective_policy \<Rightarrow> price_input \<Rightarrow> number \<Rightarrow> bool" where
  "permits pol input official \<longleftrightarrow>
     (let requested = pi_requested input; percent = difference_percent requested official in
     (requested = 0 \<longrightarrow> allow_zero_price pol = Some True) \<and>
     (requested < official \<longrightarrow> allow_discount pol = Some True \<and>
        (\<exists>m. max_discount_percent pol = Some m \<and> percent \<le> m)) \<and>
     (official < requested \<longrightarrow> allow_increase pol = Some True \<and>
        (\<exists>m. max_increase_percent pol = Some m \<and> percent \<le> m)) \<and>
     (reason_required pol (requested = 0) percent \<longrightarrow>
        (\<exists>s. pi_reason input = Some s \<and> trim s \<noteq> [])) \<and>
     (pi_invoice_discount input \<longrightarrow> allow_combine_with_discount pol = Some True))"

lemma check_policy_permits:
  assumes "pi_requested input \<noteq> official"
  shows "(\<exists>d. check_policy input official role pol = ApprovedOverride d) \<longleftrightarrow> permits pol input official"
proof (cases "pi_requested input < official")
  case True
  then have d: "direction_of (pi_requested input) official = Discount" by (simp add: direction_of_def)
  have n: "\<not> official < pi_requested input" using True by simp
  show ?thesis
    unfolding permits_def check_policy_def Let_def d over_limit_def using True n
    by (cases "max_discount_percent pol"; cases "pi_reason input") (auto simp: not_less)
next
  case False
  then have d: "direction_of (pi_requested input) official = Increase" by (simp add: direction_of_def)
  have n: "official < pi_requested input" using False assms by simp
  show ?thesis
    unfolding permits_def check_policy_def Let_def d over_limit_def using False n
    by (cases "max_increase_percent pol"; cases "pi_reason input") (auto simp: not_less)
qed

lemma check_policy_data:
  "check_policy input official role pol = ApprovedOverride d \<Longrightarrow>
   od_official d = official \<and> od_approved d = pi_requested input \<and> od_role d = role \<and> od_policy d = pol \<and>
   od_percent d = difference_percent (pi_requested input) official"
  by (auto simp: check_policy_def Let_def split: if_splits)

lemma check_policy_not_free: "check_policy input official role pol \<noteq> NoOverride p"
  by (auto simp: check_policy_def Let_def)

definition price_tables where
  "price_tables w = (catalog_items w, item_variants w, price_override_policies w, roles w, user_roles w, fault w)"

interpretation price: beside_permissions price_tables
  by unfold_locales (simp_all add: price_tables_def)

lemma keeps_resolveEffectiveRole: "keeps price_tables (resolveEffectiveRole u)"
  unfolding resolveEffectiveRole_def by (intro keep_rules price.keeps_query)

lemma price_tables_eq:
  "price_tables w' = price_tables w \<Longrightarrow> catalog_items w' = catalog_items w \<and> item_variants w' = item_variants w \<and>
   price_override_policies w' = price_override_policies w \<and> joined_roles w' = joined_roles w \<and> fault w' = fault w \<and>
   is_official w' = is_official w \<and> tenant_policies w' = tenant_policies w"
  by (auto simp: price_tables_def is_official_def fun_eq_iff joined_roles_def role_of_def tenant_policies_def)

lemma official_sound:
  "wp (resolveOfficialPrice i v t) (\<lambda>res w'. price_tables w' = price_tables w \<and>
     (\<forall>p. res = Some p \<longrightarrow> is_official w i v t p)) (\<lambda>_ _. False) w"
  unfolding resolveOfficialPrice_def
  by (auto simp: wp_rules price_tables_def is_official_def split: option.split sum.split
      dest!: maybeSingle_SomeD filter_oneD)

text \<open>What \<open>resolvePrice\<close> guarantees about its result \<open>res\<close>, seen from the state \<open>w\<close> it starts in.\<close>

definition price_sound :: "'w catalog_scheme \<Rightarrow> price_input \<Rightarrow> price_result \<Rightarrow> bool" where
  "price_sound w input res = (case res of
     NoOverride p \<Rightarrow> is_official w (pi_item input) (pi_variant input) (pi_tenant input) p \<and> pi_requested input = p
   | ApprovedOverride d \<Rightarrow>
       is_official w (pi_item input) (pi_variant input) (pi_tenant input) (od_official d) \<and>
       od_approved d = pi_requested input \<and> od_approved d \<noteq> od_official d \<and>
       merge_policy (tenant_policies w (pi_tenant input)) (pi_branch input) (er_roleId (od_role d)) = Some (od_policy d) \<and>
       permits (od_policy d) input (od_official d) \<and>
       (pi_role input = Some (Some (od_role d)) \<or>
        pi_role input = None \<and> pick_role (joined_roles w (pi_user input)) = Some (od_role d))
   | RejectedPrice _ _ _ _ \<Rightarrow> True)"

lemma role_sound:
  "wp (case pi_role input of Some r \<Rightarrow> ret r | None \<Rightarrow> resolveEffectiveRole (pi_user input))
     (\<lambda>er v'. price_tables v' = price_tables v \<and> (\<forall>r. er = Some r \<longrightarrow> pi_role input = Some (Some r) \<or>
        pi_role input = None \<and> pick_role (joined_roles v (pi_user input)) = Some r)) (\<lambda>_ _. False) v"
  by (auto simp: resolveEffectiveRole_def wp_rules price_tables_def joined_roles_def role_of_def
      split: option.split sum.split)

lemma policy_sound:
  "wp (resolveEffectivePolicy t b r) (\<lambda>pol v'. price_tables v' = price_tables v \<and>
     (\<forall>p. pol = Some p \<longrightarrow> merge_policy (tenant_policies v t) b r = Some p)) (\<lambda>_ _. False) v"
  by (auto simp: resolveEffectivePolicy_def wp_rules price_tables_def tenant_policies_def
      split: option.split sum.split)

lemma price_sound_check:
  assumes "is_official w (pi_item input) (pi_variant input) (pi_tenant input) p" "pi_requested input \<noteq> p"
    "pi_role input = Some (Some role) \<or>
     pi_role input = None \<and> pick_role (joined_roles w (pi_user input)) = Some role"
    "merge_policy (tenant_policies w (pi_tenant input)) (pi_branch input) (er_roleId role) = Some pol"
  shows "price_sound w input (check_policy input p role pol)"
proof (cases "check_policy input p role pol")
  case (ApprovedOverride d)
  then have "permits pol input p" using check_policy_permits [OF assms(2)] by blast
  then show ?thesis
    using check_policy_data [OF ApprovedOverride] assms by (auto simp: price_sound_def ApprovedOverride)
next
  case (NoOverride q)
  then show ?thesis using check_policy_not_free by blast
qed (simp add: price_sound_def)

lemma resolvePrice_wp:
  "wp (resolvePrice input) (\<lambda>res w'. price_tables w' = price_tables w \<and> price_sound w input res)
     (\<lambda>_ w'. price_tables w' = price_tables w) w"
  unfolding resolvePrice_def
proof (rule wp_bind, rule wp_mono [OF official_sound])
  let ?t = "pi_tenant input" and ?u = "pi_user input" and ?req = "pi_requested input"
  let ?Q = "\<lambda>res w'. price_tables w' = price_tables w \<and> price_sound w input res"
  let ?E = "\<lambda>_ w'. price_tables w' = price_tables w"
  fix res w1 assume 1: "price_tables w1 = price_tables w \<and>
    (\<forall>p. res = Some p \<longrightarrow> is_official w (pi_item input) (pi_variant input) ?t p)"
  have rej: "wp (ret (RejectedPrice a b c d)) ?Q ?E v" if "price_tables v = price_tables w" for a b c d v
    using that by (simp add: wp_ret price_sound_def)
  have pol: "wp (bindE (resolveEffectivePolicy ?t (pi_branch input) (er_roleId role)) (\<lambda>pol. case pol of
        None \<Rightarrow> ret (RejectedPrice p ?req NoEffectivePolicy (Some (Some role)))
      | Some policy \<Rightarrow> ret (check_policy input p role policy))) ?Q ?E v"
    if "price_tables v = price_tables w" "res = Some p" "?req \<noteq> p"
      "pi_role input = Some (Some role) \<or> pi_role input = None \<and> pick_role (joined_roles w ?u) = Some role"
    for p role v
    by (rule wp_bind, rule wp_mono [OF policy_sound])
      (use that 1 price_tables_eq [OF that(1)] in \<open>auto simp: wp_ret wp_case_option price_sound_def [of _ _ "RejectedPrice _ _ _ _"]
        intro!: price_sound_check split: option.split\<close>)
  have perm: "wp (bindE (hasPermissionForUser ?u ''invoice.price_override'' (Some ?t)) (\<lambda>hasPermission.
       if \<not> hasPermission then ret (RejectedPrice p ?req PermissionDenied (Some (Some role)))
       else bindE (resolveEffectivePolicy ?t (pi_branch input) (er_roleId role)) (\<lambda>pol. case pol of
          None \<Rightarrow> ret (RejectedPrice p ?req NoEffectivePolicy (Some (Some role)))
        | Some policy \<Rightarrow> ret (check_policy input p role policy)))) ?Q ?E v"
    if "price_tables v = price_tables w" "res = Some p" "?req \<noteq> p"
      "pi_role input = Some (Some role) \<or> pi_role input = None \<and> pick_role (joined_roles w ?u) = Some role"
    for p role v
  proof (rule wp_bind_keep [OF price.keeps_hasPermissionForUser])
    fix x v' assume "price_tables v' = price_tables v"
    then have v': "price_tables v' = price_tables w" using that(1) by simp
    show "wp (if \<not> x then ret (RejectedPrice p ?req PermissionDenied (Some (Some role)))
       else bindE (resolveEffectivePolicy ?t (pi_branch input) (er_roleId role)) (\<lambda>pol. case pol of
          None \<Rightarrow> ret (RejectedPrice p ?req NoEffectivePolicy (Some (Some role)))
        | Some policy \<Rightarrow> ret (check_policy input p role policy))) ?Q ?E v'"
      using rej [OF v'] pol [OF v' that(2-4)] by (cases x) simp_all
  qed (use that(1) in simp)
  show "wp (case res of None \<Rightarrow> ret (RejectedPrice 0 ?req ItemOrVariantNotFound None)
     | Some official \<Rightarrow>
       if official = 0 \<and> ?req > 0 then ret (RejectedPrice 0 ?req OfficialPriceZeroIncrease None)
       else if ?req = official then ret (NoOverride official)
       else bindE (case pi_role input of Some r \<Rightarrow> ret r | None \<Rightarrow> resolveEffectiveRole ?u) (\<lambda>er.
         case er of None \<Rightarrow> ret (RejectedPrice official ?req NoEffectiveRole (Some None))
         | Some role \<Rightarrow> bindE (hasPermissionForUser ?u ''invoice.price_override'' (Some ?t)) (\<lambda>hasPermission.
           if \<not> hasPermission then ret (RejectedPrice official ?req PermissionDenied (Some (Some role)))
           else bindE (resolveEffectivePolicy ?t (pi_branch input) (er_roleId role)) (\<lambda>pol. case pol of
              None \<Rightarrow> ret (RejectedPrice official ?req NoEffectivePolicy (Some (Some role)))
            | Some policy \<Rightarrow> ret (check_policy input official role policy))))) ?Q ?E w1"
  proof (cases res)
    case None
    then show ?thesis using rej 1 by simp
  next
    case (Some p)
    have role: "wp (bindE (case pi_role input of Some r \<Rightarrow> ret r | None \<Rightarrow> resolveEffectiveRole ?u) (\<lambda>er.
         case er of None \<Rightarrow> ret (RejectedPrice p ?req NoEffectiveRole (Some None))
         | Some role \<Rightarrow> bindE (hasPermissionForUser ?u ''invoice.price_override'' (Some ?t)) (\<lambda>hasPermission.
           if \<not> hasPermission then ret (RejectedPrice p ?req PermissionDenied (Some (Some role)))
           else bindE (resolveEffectivePolicy ?t (pi_branch input) (er_roleId role)) (\<lambda>pol. case pol of
              None \<Rightarrow> ret (RejectedPrice p ?req NoEffectivePolicy (Some (Some role)))
            | Some policy \<Rightarrow> ret (check_policy input p role policy))))) ?Q ?E w1" if "?req \<noteq> p"
    proof (rule wp_bind, rule wp_mono [OF role_sound])
      fix er v assume v: "price_tables v = price_tables w1 \<and> (\<forall>r. er = Some r \<longrightarrow> pi_role input = Some (Some r) \<or>
        pi_role input = None \<and> pick_role (joined_roles w1 ?u) = Some r)"
      then have pt: "price_tables v = price_tables w" using 1 by simp
      have j: "joined_roles w1 = joined_roles w" using 1 price_tables_eq by blast
      show "wp (case er of None \<Rightarrow> ret (RejectedPrice p ?req NoEffectiveRole (Some None))
         | Some role \<Rightarrow> bindE (hasPermissionForUser ?u ''invoice.price_override'' (Some ?t)) (\<lambda>hasPermission.
           if \<not> hasPermission then ret (RejectedPrice p ?req PermissionDenied (Some (Some role)))
           else bindE (resolveEffectivePolicy ?t (pi_branch input) (er_roleId role)) (\<lambda>pol. case pol of
              None \<Rightarrow> ret (RejectedPrice p ?req NoEffectivePolicy (Some (Some role)))
            | Some policy \<Rightarrow> ret (check_policy input p role policy)))) ?Q ?E v"
        using v perm [OF pt Some that] rej [OF pt] unfolding j by (cases er) auto
    qed auto
    show ?thesis
      using 1 rej role by (auto simp: Some wp_if wp_ret price_sound_def)
  qed
qed auto

text \<open>The permission: the check of \<^verbatim>\<open>invoice.price_override\<close>, run on the state of the request (after the
  calls made until then), has answered yes.\<close>

definition permission_held :: "'w catalog_scheme \<Rightarrow> price_input \<Rightarrow> price_result \<Rightarrow> bool" where
  "permission_held w input res = (case res of
     ApprovedOverride d \<Rightarrow> \<exists>n. fst (hasPermissionForUser (pi_user input) ''invoice.price_override'' (Some (pi_tenant input))
       (w\<lparr>calls := n\<rparr>)) = Inr True
   | _ \<Rightarrow> True)"

lemma wp_only_calls:
  fixes w :: "'w catalog_scheme"
  shows "wp (resolveOfficialPrice i v t) (\<lambda>_ u. \<exists>n. u = w\<lparr>calls := n\<rparr>) (\<lambda>_ _. True) w"
    "wp (case role of Some r \<Rightarrow> ret r | None \<Rightarrow> resolveEffectiveRole a) (\<lambda>_ u. \<exists>n. u = w\<lparr>calls := n\<rparr>) (\<lambda>_ _. True) (w\<lparr>calls := k\<rparr>)"
proof -
  have [simp]: "\<exists>n. w\<lparr>calls := k\<rparr> = w\<lparr>calls := n\<rparr>" for k by blast
  have [simp]: "\<exists>n. w = w\<lparr>calls := n\<rparr>" by (rule exI [of _ "calls w"]) simp
  show "wp (resolveOfficialPrice i v t) (\<lambda>_ u. \<exists>n. u = w\<lparr>calls := n\<rparr>) (\<lambda>_ _. True) w"
    by (auto simp: resolveOfficialPrice_def wp_rules split: option.split sum.split)
  show "wp (case role of Some r \<Rightarrow> ret r | None \<Rightarrow> resolveEffectiveRole a) (\<lambda>_ u. \<exists>n. u = w\<lparr>calls := n\<rparr>) (\<lambda>_ _. True) (w\<lparr>calls := k\<rparr>)"
    by (auto simp: resolveEffectiveRole_def wp_rules split: option.split sum.split)
qed

lemma wp_permission:
  fixes w :: "'w catalog_scheme"
  shows "wp (resolvePrice input) (\<lambda>res _. permission_held w input res) (\<lambda>_ _. True) w"
  unfolding resolvePrice_def
proof (rule wp_bind [OF wp_only_calls(1)])
  let ?ask = "hasPermissionForUser (pi_user input) ''invoice.price_override'' (Some (pi_tenant input))"
  let ?J = "\<lambda>res (_ :: 'w catalog_scheme). permission_held w input res"
  fix res and u :: "'w catalog_scheme" assume "\<exists>n. u = w\<lparr>calls := n\<rparr>"
  then obtain k where u: "u = w\<lparr>calls := k\<rparr>" by blast
  have no: "permission_held w input (RejectedPrice a b c d)" "permission_held w input (NoOverride a)" for a b c d
    by (simp_all add: permission_held_def)
  have asked: "wp (bindE ?ask (\<lambda>hasPermission.
       if \<not> hasPermission then ret (RejectedPrice p r PermissionDenied (Some (Some role)))
       else bindE (resolveEffectivePolicy t b i) (\<lambda>pol. case pol of
          None \<Rightarrow> ret (RejectedPrice p r NoEffectivePolicy (Some (Some role)))
        | Some policy \<Rightarrow> ret (check_policy input p role policy)))) ?J (\<lambda>_ _. True) v"
    if "\<exists>n. v = w\<lparr>calls := n\<rparr>" for p r role t b i and v :: "'w catalog_scheme"
  proof (rule wp_bind)
    show "wp ?ask (\<lambda>x _. fst (?ask v) = Inr x) (\<lambda>_ _. True) v" by (auto simp: wp_def split: prod.split sum.split)
    fix yes and z :: "'w catalog_scheme" assume yes: "fst (?ask v) = Inr yes"
    have "yes \<Longrightarrow> permission_held w input x" for x
      using yes that by (auto simp: permission_held_def split: price_result.split)
    then show "wp (if \<not> yes then ret (RejectedPrice p r PermissionDenied (Some (Some role)))
       else bindE (resolveEffectivePolicy t b i) (\<lambda>pol. case pol of
          None \<Rightarrow> ret (RejectedPrice p r NoEffectivePolicy (Some (Some role)))
        | Some policy \<Rightarrow> ret (check_policy input p role policy))) ?J (\<lambda>_ _. True) z"
      by (auto simp: wp_rules no resolveEffectivePolicy_def split: option.split sum.split)
  qed
  show "wp (case res of None \<Rightarrow> ret (RejectedPrice 0 (pi_requested input) ItemOrVariantNotFound None)
     | Some official \<Rightarrow>
       if official = 0 \<and> pi_requested input > 0
       then ret (RejectedPrice 0 (pi_requested input) OfficialPriceZeroIncrease None)
       else if pi_requested input = official then ret (NoOverride official)
       else bindE (case pi_role input of Some r \<Rightarrow> ret r | None \<Rightarrow> resolveEffectiveRole (pi_user input)) (\<lambda>er.
         case er of None \<Rightarrow> ret (RejectedPrice official (pi_requested input) NoEffectiveRole (Some None))
         | Some role \<Rightarrow>
           bindE ?ask (\<lambda>hasPermission.
           if \<not> hasPermission
           then ret (RejectedPrice official (pi_requested input) PermissionDenied (Some (Some role)))
           else bindE (resolveEffectivePolicy (pi_tenant input) (pi_branch input) (er_roleId role)) (\<lambda>pol.
             case pol of None \<Rightarrow>
               ret (RejectedPrice official (pi_requested input) NoEffectivePolicy (Some (Some role)))
             | Some policy \<Rightarrow> ret (check_policy input official role policy))))) ?J (\<lambda>_ _. True) u"
  proof (cases res)
    case (Some official)
    have "wp (bindE (case pi_role input of Some r \<Rightarrow> ret r | None \<Rightarrow> resolveEffectiveRole (pi_user input)) (\<lambda>er.
         case er of None \<Rightarrow> ret (RejectedPrice official (pi_requested input) NoEffectiveRole (Some None))
         | Some role \<Rightarrow>
           bindE ?ask (\<lambda>hasPermission.
           if \<not> hasPermission
           then ret (RejectedPrice official (pi_requested input) PermissionDenied (Some (Some role)))
           else bindE (resolveEffectivePolicy (pi_tenant input) (pi_branch input) (er_roleId role)) (\<lambda>pol.
             case pol of None \<Rightarrow>
               ret (RejectedPrice official (pi_requested input) NoEffectivePolicy (Some (Some role)))
             | Some policy \<Rightarrow> ret (check_policy input official role policy))))) ?J (\<lambda>_ _. True) u"
      unfolding u
    proof (rule wp_bind [OF wp_only_calls(2)], split option.split, intro conjI allI impI)
      fix v :: "'w catalog_scheme"
      show "wp (ret (RejectedPrice official (pi_requested input) NoEffectiveRole (Some None))) ?J (\<lambda>_ _. True) v"
        by (simp add: wp_rules no)
    qed (rule asked)
    then show ?thesis by (simp add: Some wp_rules(1) no)
  qed (simp add: wp_rules no)
qed

text \<open>C6. No price override is approved without cause, whatever calls fail and whatever the caches
  hold.  If \<^verbatim>\<open>resolvePrice\<close> approves a requested price, then the item (and variant) exists, is
  active and has the official price it reports; the price it approves is the requested one and
  differs from the official one; the role it reports is the one passed in or the one the user's
  assignments give; the check of the permission \<^verbatim>\<open>invoice.price_override\<close>, run for this user and
  tenant on the state of the request, answered yes; the policy it reports is the merge of the
  tenant, branch and role rows; and that policy permits the override: direction, percentage, zero
  price, reason and combination with a discount.  If it reports a normal sale, the requested price
  is the official one.  It changes none of the tables it reads.\<close>

theorem resolvePrice_safe:
  assumes "resolvePrice input w = (Inr res, w')"
  shows "price_sound w input res \<and> permission_held w input res \<and> price_tables w' = price_tables w"
  using wp_run [OF resolvePrice_wp assms] wp_run [OF wp_permission assms] by blast

text \<open>A shop for the witnesses: one item, one cashier with the permission, one tenant policy.\<close>

definition demo_policy :: policy_row where
  "demo_policy = \<lparr>allow_discount = Some True, allow_increase = Some False,
     allow_combine_with_discount = None, max_discount_percent = Some 10, max_increase_percent = None,
     reason_policy = Some AlwaysRequired, reason_threshold_percent = None, allow_zero_price = None,
     zero_price_requires_permission = None, zero_price_requires_reason = None,
     pol_tenant = ''t'', pol_branch = None, pol_role = None\<rparr>"

definition demo_shop :: catalog where
  "demo_shop = \<lparr>calls = 0, fault = (\<lambda>_. None), clock = (\<lambda>n. int n), uuid = (\<lambda>_. ''id''),
     redis = Map.empty, scan_pages = (\<lambda>_ _. ([], [])), audit_logs = [],
     roles = [\<lparr>r_id = ''r1'', r_name = ''cashier'', r_description = None, r_tenant = None,
        r_is_system = True, r_priority = 10, r_participant = True\<rparr>],
     user_roles = [\<lparr>ur_user = ''u'', ur_role = ''r1'', ur_primary = True\<rparr>],
     role_permissions = [\<lparr>rp_role = ''cashier'', rp_key = ''invoice.price_override'', rp_granted = True\<rparr>],
     tenant_role_permissions = [], user_overrides = [], permissions = [], users = [],
     systemRoleIdCache = Map.empty,
     catalog_items = [\<lparr>it_id = ''i'', it_tenant = ''t'', it_price = 20, it_active = True, it_deleted = False\<rparr>],
     item_variants = [], price_override_policies = [demo_policy]\<rparr>"

definition demo_input :: price_input where
  "demo_input = \<lparr>pi_user = ''u'', pi_tenant = ''t'', pi_branch = ''b'', pi_item = ''i'', pi_variant = None,
     pi_requested = 19, pi_reason = Some ''loyal'', pi_invoice_discount = False, pi_role = None\<rparr>"

lemma demo_run: "\<exists>d w'. resolvePrice demo_input demo_shop = (Inr (ApprovedOverride d), w')"
proof -
  have "case fst (resolvePrice demo_input demo_shop) of Inr (ApprovedOverride d) \<Rightarrow> True | _ \<Rightarrow> False"
    by code_simp
  then show ?thesis
    by (cases "resolvePrice demo_input demo_shop") (auto split: sum.splits price_result.splits)
qed

theorem resolvePrice_safe_witness:
  "\<exists>d. fst (resolvePrice demo_input demo_shop) = Inr (ApprovedOverride d) \<and>
     permits (od_policy d) demo_input (od_official d) \<and> od_approved d = 19"
proof -
  obtain d w' where run: "resolvePrice demo_input demo_shop = (Inr (ApprovedOverride d), w')"
    using demo_run by blast
  show ?thesis using resolvePrice_safe [OF run] run by (auto simp: price_sound_def demo_input_def)
qed

section \<open>The limit on discounts\<close>

lemma permitted_within:
  assumes "permits pol input official" "0 \<le> pi_requested input" "pi_requested input < official"
    and "is_double official" "official \<le> 2 ^ 34"
  shows "\<exists>m. max_discount_percent pol = Some m \<and>
    official - pi_requested input \<le> official * m / 100 + 1 / 1000"
proof -
  let ?req = "pi_requested input"
  obtain m where m: "max_discount_percent pol = Some m" "difference_percent ?req official \<le> m"
    using assms(1,3) by (auto simp: permits_def Let_def)
  define d where "d = fl (official - ?req)"
  have pos: "0 < official" using assms(2,3) by simp
  have d: "difference_amount ?req official = d"
    using fl_minus [of "official - ?req"] fl_nonneg [of "official - ?req"] assms(3)
    by (simp add: difference_amount_def fsub_def d_def)
  have "d \<le> fl official" unfolding d_def by (rule fl_mono) (use assms(2) in simp)
  then have le: "d \<le> official" using assms(4) by (simp add: is_double_def)
  have d0: "0 \<le> d" unfolding d_def by (rule fl_nonneg) (use assms(3) in simp)
  have "\<bar>official - ?req\<bar> \<le> 2 ^ 34" using assms by (auto simp: abs_le_iff)
  then have sub_err: "\<bar>d - (official - ?req)\<bar> \<le> 1 / 524288" unfolding d_def by (rule fl_error_small)
  have ratio: "0 \<le> d / official" "d / official \<le> 1" using le d0 pos by simp_all
  have div_err: "\<bar>fl (d / official) - d / official\<bar> \<le> 1 / 9007199254740992"
    using fl_error [of "d / official" 0] ratio by (simp add: power_int_def power_one_over)
  have q: "0 \<le> fl (d / official)" "fl (d / official) \<le> 1"
    using fl_nonneg [OF ratio(1)] fl_mono [OF ratio(2)] fl_of_int [of 1] by simp_all
  have "\<bar>fl (d / official) * 100\<bar> \<le> 2 ^ 7" using q by simp
  then have mul_err: "\<bar>fl (fl (d / official) * 100) - fl (d / official) * 100\<bar> \<le> 1 / 70368744177664"
    using fl_error [of "fl (d / official) * 100" 7] by (simp add: power_int_def power_one_over)
  have "fl (fl (d / official) * 100) \<le> m"
    using m(2) by (simp add: difference_percent_def d fdiv_def fmul_def)
  then have "d / official * 100 \<le> m + 1 / 35184372088832" using mul_err div_err unfolding abs_le_iff by linarith
  then have "d * 100 \<le> (m + 1 / 35184372088832) * official" using pos by (simp add: divide_le_eq)
  also have "\<dots> = m * official + official / 35184372088832" by (simp add: distrib_right)
  also have "\<dots> \<le> m * official + 1 / 2048" using assms(5) by simp
  finally have "d \<le> official * m / 100 + 1 / 204800" by (simp add: mult.commute)
  then show ?thesis using m(1) sub_err by (intro exI [of _ m] conjI) linarith+
qed

text \<open>C16. The percentage limit bounds the money given away.  If \<^verbatim>\<open>resolvePrice\<close> approves a price below
  the official one, then the policy in force (the merge of the tenant, branch and role rows for the
  role that is reported) has a limit, and what is taken off is at most that percentage of the
  official price, up to a thousandth of the currency unit: the code computes the percentage by a
  subtraction, a division and a multiplication of doubles, each of which rounds.  The requested
  price must not be negative, and the official price a double of at most 2 to the power 34.\<close>

theorem discount_within_limit:
  assumes "resolvePrice input w = (Inr (ApprovedOverride d), w')" "0 \<le> od_approved d" "od_approved d < od_official d"
    and "is_double (od_official d)" "od_official d \<le> 2 ^ 34"
  shows "od_approved d = pi_requested input \<and>
    merge_policy (tenant_policies w (pi_tenant input)) (pi_branch input) (er_roleId (od_role d)) = Some (od_policy d) \<and>
    (\<exists>m. max_discount_percent (od_policy d) = Some m \<and>
      od_official d - od_approved d \<le> od_official d * m / 100 + 1 / 1000)"
proof -
  have s: "price_sound w input (ApprovedOverride d)" using wp_run [OF resolvePrice_wp assms(1)] by blast
  then show ?thesis
    using permitted_within [of "od_policy d" input "od_official d"] assms(2-5) by (simp add: price_sound_def)
qed

theorem discount_within_limit_witness:
  "\<exists>d w'. resolvePrice demo_input demo_shop = (Inr (ApprovedOverride d), w') \<and> od_official d = 20 \<and> od_approved d = 19 \<and>
     (\<exists>m. max_discount_percent (od_policy d) = Some m \<and> 20 - 19 \<le> 20 * m / 100 + 1 / 1000)"
proof -
  have "case fst (resolvePrice demo_input demo_shop) of Inr (ApprovedOverride d) \<Rightarrow> od_official d = 20 \<and> od_approved d = 19 | _ \<Rightarrow> False"
    by code_simp
  then obtain d w' where d: "resolvePrice demo_input demo_shop = (Inr (ApprovedOverride d), w')" "od_official d = 20" "od_approved d = 19"
    by (cases "resolvePrice demo_input demo_shop") (auto split: sum.splits price_result.splits)
  moreover have "is_double 20" by code_simp
  ultimately show ?thesis using discount_within_limit [OF d(1)] by simp
qed

section \<open>Granting\<close>

text \<open>C17. With nothing failing, no permissions of the user cached and no role passed in, the decision is
  exactly the documented one: for an active item without variant, an official price above zero and
  another requested price, an override is approved if and only if the user's assignments give an effective role, the user has the
  permission invoice.price_override, the tenant has a default policy, and the policy merged for
  the branch and the role permits the override.\<close>

theorem resolvePrice_decides:
  assumes "quiet w" "redis_present w (userCacheKey (pi_user input) (Some (pi_tenant input))) = None"
    and "filter (\<lambda>i. it_id i = pi_item input \<and> it_tenant i = pi_tenant input) (catalog_items w) = [i]"
    and "it_active i" "\<not> it_deleted i" "\<not> truthy (pi_variant input)" "0 < it_price i"
    and "pi_requested input \<noteq> it_price i" "pi_role input = None"
  shows "(\<exists>d. fst (resolvePrice input w) = Inr (ApprovedOverride d)) \<longleftrightarrow>
    (\<exists>role pol. pick_role (joined_roles w (pi_user input)) = Some role \<and>
       user_allowed w (pi_user input) ''invoice.price_override'' (Some (pi_tenant input)) \<and>
       merge_policy (tenant_policies w (pi_tenant input)) (pi_branch input) (er_roleId role) = Some pol \<and>
       permits pol input (it_price i))"
proof -
  let ?t = "pi_tenant input" and ?u = "pi_user input" and ?k = "''invoice.price_override''"
  have f: "fault w n = None" for n using assms(1) by (simp add: quiet_def)
  define w2 where "w2 = w\<lparr>calls := Suc (Suc (calls w))\<rparr>"
  have t2: "touched w w2" unfolding w2_def using assms(1) by (intro touched_count touched_refl)
  have perm: "wp (hasPermissionForUser ?u ?k (Some ?t)) (\<lambda>b v. (b \<longleftrightarrow> user_allowed w ?u ?k (Some ?t)) \<and>
      price_tables v = price_tables w) (\<lambda>_ _. False) w2"
  proof (rule wp_mono [OF wp_conj [OF hasPermissionForUser_wp [OF t2 assms(2)]
      keeps_wp [OF price.keeps_hasPermissionForUser refl]]])
  qed (auto simp: w2_def price_tables_def)
  have fin: "wp (bindE (hasPermissionForUser ?u ?k (Some ?t)) (\<lambda>hasPermission.
       if \<not> hasPermission then ret (RejectedPrice p r PermissionDenied (Some (Some role)))
       else bindE (resolveEffectivePolicy ?t (pi_branch input) (er_roleId role)) (\<lambda>pol. case pol of
          None \<Rightarrow> ret (RejectedPrice p r NoEffectivePolicy (Some (Some role)))
        | Some policy \<Rightarrow> ret (check_policy input p role policy))))
     (\<lambda>res _. (\<exists>d. res = ApprovedOverride d) \<longleftrightarrow> user_allowed w ?u ?k (Some ?t) \<and>
        (\<exists>pol. merge_policy (tenant_policies w ?t) (pi_branch input) (er_roleId role) = Some pol \<and>
          (\<exists>d. check_policy input p role pol = ApprovedOverride d))) (\<lambda>_ _. False) w2" for p r role
    by (rule wp_bind [OF perm])
      (auto simp: wp_rules resolveEffectivePolicy_def f tenant_policies_def price_tables_def split: option.split)
  have run: "resolvePrice input w =
      (case pick_role (joined_roles w ?u) of
         None \<Rightarrow> (Inr (RejectedPrice (it_price i) (pi_requested input) NoEffectiveRole (Some None)), w2)
       | Some role \<Rightarrow> bindE (hasPermissionForUser ?u ?k (Some ?t)) (\<lambda>hasPermission.
           if \<not> hasPermission then ret (RejectedPrice (it_price i) (pi_requested input) PermissionDenied (Some (Some role)))
           else bindE (resolveEffectivePolicy ?t (pi_branch input) (er_roleId role)) (\<lambda>pol. case pol of
              None \<Rightarrow> ret (RejectedPrice (it_price i) (pi_requested input) NoEffectivePolicy (Some (Some role)))
            | Some policy \<Rightarrow> ret (check_policy input (it_price i) role policy))) w2)"
    using assms(3-9) f
    by (simp add: resolvePrice_def resolveOfficialPrice_def resolveEffectiveRole_def bindE_def orElse_def
        query_def exec_def ret_def w2_def joined_roles_def role_of_def split: option.split)
  show ?thesis
  proof (cases "pick_role (joined_roles w ?u)")
    case None
    then show ?thesis unfolding run by simp
  next
    case (Some role)
    then show ?thesis
      using wp_fst_ex [OF fin [of "it_price i" "pi_requested input" role]] check_policy_permits [OF assms(8)]
      unfolding run by auto
  qed
qed

theorem resolvePrice_decides_witness:
  "\<exists>d. fst (resolvePrice demo_input demo_shop) = Inr (ApprovedOverride d)"
proof -
  have q: "quiet demo_shop" by (simp add: quiet_def memo_ok_def demo_shop_def)
  have c: "redis_present demo_shop (userCacheKey (pi_user demo_input) (Some (pi_tenant demo_input))) = None"
    by (simp add: redis_present_def demo_shop_def)
  let ?er = "\<lparr>er_roleId = ''r1'', er_roleName = ''cashier'', er_priority = 10\<rparr>"
  let ?p = "effective_policy.truncate demo_policy"
  have "case check_policy demo_input 20 ?er ?p of ApprovedOverride d \<Rightarrow> True | _ \<Rightarrow> False" by code_simp
  then have "\<exists>d. check_policy demo_input 20 ?er ?p = ApprovedOverride d"
    by (cases "check_policy demo_input 20 ?er ?p") auto
  then have "permits ?p demo_input 20"
    by (subst (asm) check_policy_permits) (simp_all add: demo_input_def)
  moreover have "pick_role (joined_roles demo_shop ''u'') = Some ?er" by code_simp
  moreover have "user_allowed demo_shop ''u'' ''invoice.price_override'' (Some ''t'')"
    by (simp add: user_allowed_def demo_shop_def role_names_def role_of_def List.map_filter_simps
        user_decisions_def role_grants_def tenant_decisions_def role_id_for_def system_role_id_def
        global_grant_def)
  moreover have "merge_policy (tenant_policies demo_shop ''t'') ''b'' ''r1'' = Some ?p"
    by code_simp
  ultimately show ?thesis
    by (subst resolvePrice_decides [OF q c])
      (auto simp: demo_input_def demo_shop_def intro!: exI [of _ ?er])
qed

text \<open>An item price plus a negative adjustment can be negative; the percentage is then never positive,
  and every limit is met.\<close>

lemma negative_official_no_limit:
  assumes "official < 0" shows "difference_percent requested official \<le> 0"
proof -
  have "fl (\<bar>fl (requested - official)\<bar> / official) \<le> 0"
    using fl_mono [of "\<bar>fl (requested - official)\<bar> / official" 0] assms
    by (simp add: divide_nonneg_neg)
  then show ?thesis
    using fl_mono [of "fl (\<bar>fl (requested - official)\<bar> / official) * 100" 0]
    by (simp add: difference_percent_def difference_amount_def fsub_def fdiv_def fmul_def)
qed

text \<open>The policy field \<open>zero_price_requires_permission\<close> is merged and never read.\<close>

lemma zero_price_permission_ignored:
  "permits (pol\<lparr>zero_price_requires_permission := x\<rparr>) input official = permits pol input official"
  by (simp add: permits_def reason_required_def)

end
