(* ===== verification/Engines.thy ===== *)
theory Engines
  imports Money
begin

text \<open>
  The calculation engines under \<^verbatim>\<open>src/engines\<close>: DiscountEngine, PosEngine, PaymentEngine,
  ShiftEngine, ApprovalEngine and ExpenseEngine.  They keep no state; each method is a function
  on doubles, written with the rounded operations of \<open>JsNum\<close> in the order of the source.  The
  lemmas show that amounts that are whole hundredths stay exact through them.
\<close>

section \<open>DiscountEngine\<close>

definition applyPercentageDiscount :: "number \<Rightarrow> number \<Rightarrow> number" where
  "applyPercentageDiscount subtotal percent = round2 (fdiv (fmul subtotal percent) 100)"

definition applyFixedDiscount :: "number \<Rightarrow> number \<Rightarrow> number" where
  "applyFixedDiscount subtotal amount = round2 (min amount subtotal)"

definition checkMaxDiscount :: "number \<Rightarrow> number \<Rightarrow> number" where
  "checkMaxDiscount discount maxAllowed = round2 (min discount maxAllowed)"

section \<open>PosEngine\<close>

record invoice_item =
  item_id :: string
  item_name :: string
  variant_id :: "string option"
  variant_name :: "string option"
  quantity :: number
  unit_price :: number

datatype discount_type = Percentage | Fixed

record discount_input =
  dtype :: discount_type
  dvalue :: number
  max_allowed :: "number option"

record 'i built_invoice =
  items :: "'i list"
  subtotal :: number
  discount_amount :: number
  tax_amount :: number
  total :: number

definition calculateSubtotal :: "'i invoice_item_scheme list \<Rightarrow> number" where
  "calculateSubtotal xs =
     round2 (foldl (\<lambda>sum it. fadd sum (fmul (unit_price it) (quantity it))) 0 xs)"

definition applyDiscount :: "number \<Rightarrow> discount_input option \<Rightarrow> number" where
  "applyDiscount sub discount = (case discount of None \<Rightarrow> 0 | Some d \<Rightarrow>
     let discountAmount = (case dtype d of
           Percentage \<Rightarrow> applyPercentageDiscount sub (dvalue d)
         | Fixed \<Rightarrow> applyFixedDiscount sub (dvalue d))
     in case max_allowed d of None \<Rightarrow> discountAmount
        | Some m \<Rightarrow> checkMaxDiscount discountAmount m)"

definition applyTax :: "number \<Rightarrow> number \<Rightarrow> number \<Rightarrow> number" where
  "applyTax sub discountAmount taxRate = round2 (fmul (fsub sub discountAmount) taxRate)"

definition calculateTotal :: "number \<Rightarrow> number \<Rightarrow> number \<Rightarrow> number" where
  "calculateTotal sub discountAmount taxAmount = round2 (fadd (fsub sub discountAmount) taxAmount)"

definition buildInvoice ::
  "'i invoice_item_scheme list \<Rightarrow> discount_input option \<Rightarrow> number \<Rightarrow>
   'i invoice_item_scheme built_invoice" where
  "buildInvoice xs discount taxRate =
     (let sub = calculateSubtotal xs;
          disc = applyDiscount sub discount;
          tax = applyTax sub disc taxRate
      in \<lparr>items = xs, subtotal = sub, discount_amount = disc, tax_amount = tax,
          total = calculateTotal sub disc tax\<rparr>)"

section \<open>PaymentEngine\<close>

record payment_result =
  success :: bool
  change :: "number option"
  pay_method :: string

definition processCashPayment :: "number \<Rightarrow> number \<Rightarrow> exn + payment_result" where
  "processCashPayment amount tendered =
     (if tendered < amount then Inl (bad_request ''Insufficient cash tendered'')
      else Inr \<lparr>success = True, change = Some (round2 (fsub tendered amount)), pay_method = ''cash''\<rparr>)"

definition processCardPayment :: "number \<Rightarrow> exn + payment_result" where
  "processCardPayment amount =
     (if amount \<le> 0 then Inl (bad_request ''Invalid payment amount'')
      else Inr \<lparr>success = True, change = None, pay_method = ''card''\<rparr>)"

definition processSplitPayment :: "number \<Rightarrow> number \<Rightarrow> number \<Rightarrow> exn + payment_result" where
  "processSplitPayment tot cashAmount cardAmount =
     (let sum = round2 (fadd cashAmount cardAmount) in
      if sum < tot then Inl (bad_request ''Split payment does not cover total'')
      else Inr \<lparr>success = True, change = Some (round2 (fsub sum tot)), pay_method = ''split''\<rparr>)"

definition validatePaymentMethod :: "string \<Rightarrow> string list \<Rightarrow> bool" where
  "validatePaymentMethod m allowed = List.member allowed m"

section \<open>ShiftEngine\<close>

record shift_summary =
  totalInvoices :: nat
  totalRevenue :: number
  totalCash :: number
  totalCard :: number
  totalExpenses :: number
  openingCash :: number
  closingCash :: number
  expectedCash :: number
  discrepancy :: number

record cash_reconciliation =
  counted :: number
  system :: number
  rec_discrepancy :: number

record shift_invoice =
  inv_total :: number
  inv_method :: string
  inv_cash :: "number option"
  inv_card :: "number option"

record shift_expense =
  exp_amount :: number
  exp_status :: string

definition validateNoDoubleShift :: "bool \<Rightarrow> exn + unit" where
  "validateNoDoubleShift existingOpenShift =
     (if existingOpenShift then Inl (bad_request ''A shift is already open for this cashier'')
      else Inr ())"

definition calculateExpectedCash :: "number \<Rightarrow> number \<Rightarrow> number \<Rightarrow> number" where
  "calculateExpectedCash opening cash cashExpenses = fsub (fadd opening cash) cashExpenses"

definition reconcileCash :: "number \<Rightarrow> number \<Rightarrow> cash_reconciliation" where
  "reconcileCash cnt expected =
     \<lparr>counted = cnt, system = expected, rec_discrepancy = fsub cnt expected\<rparr>"

definition cash_step :: "number \<Rightarrow> shift_invoice \<Rightarrow> number" where
  "cash_step acc i =
     (if inv_method i = ''cash'' then fadd acc (inv_total i)
      else if inv_method i = ''split'' then fadd acc (nullish (inv_cash i) 0)
      else acc)"

definition card_step :: "number \<Rightarrow> shift_invoice \<Rightarrow> number" where
  "card_step acc i =
     (if inv_method i = ''card'' then fadd acc (inv_total i)
      else if inv_method i = ''split'' then fadd acc (nullish (inv_card i) 0)
      else acc)"

definition buildShiftSummary ::
  "number \<Rightarrow> number \<Rightarrow> shift_invoice list \<Rightarrow> shift_expense list \<Rightarrow> shift_summary" where
  "buildShiftSummary opening closing invoices expenses =
     (let cash = foldl cash_step 0 invoices;
          card = foldl card_step 0 invoices;
          exps = foldl (\<lambda>sum e. fadd sum (exp_amount e)) 0
                   (filter (\<lambda>e. exp_status e = ''approved'') expenses);
          expected = calculateExpectedCash opening cash exps
      in \<lparr>totalInvoices = length invoices,
          totalRevenue = foldl (\<lambda>sum inv. fadd sum (inv_total inv)) 0 invoices,
          totalCash = cash, totalCard = card, totalExpenses = exps,
          openingCash = opening, closingCash = closing, expectedCash = expected,
          discrepancy = fsub closing expected\<rparr>)"

section \<open>ApprovalEngine\<close>

datatype approval_outcome = Approved | Rejected

record approval_result =
  outcome :: approval_outcome
  resolvedAt :: int
  resolvedBy :: string
  reason :: "string option"

definition outcome_string :: "approval_outcome \<Rightarrow> string" where
  "outcome_string a = (case a of Approved \<Rightarrow> ''approved'' | Rejected \<Rightarrow> ''rejected'')"

definition approve :: "int \<Rightarrow> string \<Rightarrow> approval_result" where
  "approve t approverId =
     \<lparr>outcome = Approved, resolvedAt = t, resolvedBy = approverId, reason = None\<rparr>"

definition reject :: "int \<Rightarrow> string \<Rightarrow> string \<Rightarrow> exn + approval_result" where
  "reject t approverId why =
     (if why = [] \<or> trim why = [] then Inl (bad_request ''Rejection reason is required'')
      else Inr \<lparr>outcome = Rejected, resolvedAt = t, resolvedBy = approverId, reason = Some (trim why)\<rparr>)"

definition canApprove :: "string \<Rightarrow> string \<Rightarrow> bool" where
  "canApprove currentStatus pendingStatus = (currentStatus = pendingStatus)"

definition canReject :: "string \<Rightarrow> string \<Rightarrow> bool" where
  "canReject currentStatus pendingStatus =
     (currentStatus = pendingStatus \<or> currentStatus = ''approved'')"

section \<open>ExpenseEngine\<close>

record expense_summary =
  es_total :: number
  es_approved :: number
  es_rejected :: number
  es_pending :: number
  es_expired :: number

definition isExpired :: "int \<Rightarrow> int \<Rightarrow> bool" where
  "isExpired t expiresAt = (expiresAt < t)"

definition summary_step :: "expense_summary \<Rightarrow> shift_expense \<Rightarrow> expense_summary" where
  "summary_step s e =
     (let a = exp_amount e; st = exp_status e;
          s1 = s\<lparr>es_total := fadd (es_total s) a\<rparr>;
          s2 = (if st = ''approved'' then s1\<lparr>es_approved := fadd (es_approved s1) a\<rparr> else s1);
          s3 = (if st = ''rejected'' then s2\<lparr>es_rejected := fadd (es_rejected s2) a\<rparr> else s2);
          s4 = (if st = ''pending'' then s3\<lparr>es_pending := fadd (es_pending s3) a\<rparr> else s3)
      in if st = ''expired'' then s4\<lparr>es_expired := fadd (es_expired s4) a\<rparr> else s4)"

definition buildSummary :: "shift_expense list \<Rightarrow> expense_summary" where
  "buildSummary expenses = foldl summary_step
     \<lparr>es_total = 0, es_approved = 0, es_rejected = 0, es_pending = 0, es_expired = 0\<rparr> expenses"

section \<open>Whole hundredths stay exact\<close>

text \<open>
  An invoice line whose price is a whole number of hundredths and whose quantity is a whole
  number is worth \<open>line_cents\<close> hundredths.
\<close>

definition whole_line :: "'i invoice_item_scheme \<Rightarrow> bool" where
  "whole_line it \<longleftrightarrow> (\<exists>p q. 0 \<le> p \<and> p \<le> money_bound \<and> 0 \<le> q \<and>
     unit_price it = cents p \<and> quantity it = of_int q)"

definition line_cents :: "'i invoice_item_scheme \<Rightarrow> int" where
  "line_cents it = to_cents (unit_price it) * \<lfloor>quantity it\<rfloor>"

lemma line_cents_nonneg: "whole_line it \<Longrightarrow> 0 \<le> line_cents it"
  by (auto simp: whole_line_def line_cents_def money_bound_def)

lemma near_line:
  assumes "whole_line it" "line_cents it \<le> subtotal_bound"
  shows "near_term (fmul (unit_price it) (quantity it)) (line_cents it)"
proof -
  obtain p q where p: "0 \<le> p" "p \<le> money_bound" and q: "0 \<le> q"
    and eq: "unit_price it = cents p" "quantity it = of_int q"
    using assms(1) by (auto simp: whole_line_def)
  have lc: "line_cents it = p * q" using p by (simp add: line_cents_def eq)
  have "of_int (p * q) \<le> (of_int subtotal_bound :: rat)"
    using assms(2) unfolding lc by (simp only: of_int_le_iff)
  then have pq: "of_int p * of_int q / 100 \<le> (10 ^ 10 :: rat)"
    by (simp add: subtotal_bound_def)
  have "\<bar>cents p - of_int p / 100\<bar> \<le> \<bar>of_int p / 100\<bar> / 2 ^ 52"
    unfolding cents_def by (rule fl_rel_error) (use p in \<open>auto simp: field_simps\<close>)
  then have "\<bar>cents p - of_int p / 100\<bar> * of_int q \<le> \<bar>of_int p / 100\<bar> / 2 ^ 52 * of_int q"
    using q by (intro mult_right_mono) auto
  also have "\<dots> \<le> 1 / 262144" using pq p by simp
  finally have "\<bar>cents p - of_int p / 100\<bar> * \<bar>of_int q\<bar> \<le> 1 / 262144" using q by simp
  then have "\<bar>cents p * of_int q - of_int (p * q) / 100\<bar> \<le> 1 / 262144"
    unfolding abs_mult [symmetric] by (simp add: left_diff_distrib)
  then have raw: "near (cents p * of_int q) (p * q) (1 / 262144)" by (simp add: near_def)
  then have "\<bar>cents p * of_int q\<bar> \<le> 2 ^ 34"
    using assms(2) p q lc by (intro near_small) (auto simp: subtotal_bound_def)
  then have "\<bar>fl (cents p * of_int q) - cents p * of_int q\<bar> \<le> 1 / 524288"
    by (rule fl_error_small)
  with raw have "near (fl (cents p * of_int q)) (p * q) (3 / 524288)"
    unfolding near_def by linarith
  then show ?thesis using p q unfolding near_term_def fmul_def eq lc by simp
qed

lemma calculateSubtotal_sum:
  assumes "\<forall>it\<in>set xs. whole_line it" "length xs \<le> 500" "(\<Sum>it\<leftarrow>xs. line_cents it) \<le> subtotal_bound"
  shows "calculateSubtotal xs = cents (\<Sum>it\<leftarrow>xs. line_cents it)"
proof -
  have each: "line_cents it \<le> subtotal_bound" if "it \<in> set xs" for it
    using member_le_sum [of xs line_cents it] that assms(1,3) by (auto simp: line_cents_nonneg)
  have "near (foldl (\<lambda>acc it. fadd acc (fmul (unit_price it) (quantity it))) 0 xs)
     (\<Sum>it\<leftarrow>xs. line_cents it) (1 / 250)"
    using assms each by (intro near_sum_0) (auto simp: near_line)
  moreover have "0 \<le> (\<Sum>it\<leftarrow>xs. line_cents it)"
    using assms(1) by (intro sum_list_nonneg) (auto simp: line_cents_nonneg)
  ultimately show ?thesis
    unfolding calculateSubtotal_def using assms(3)
    by (intro round2_near [where e = "1 / 250"]) (auto simp: subtotal_bound_def money_bound_def)
qed

text \<open>The subtotal of an invoice is exact.  The loop of \<^verbatim>\<open>calculateSubtotal\<close> multiplies and
  adds doubles, so every line adds rounding noise; if the prices are whole hundredths, the
  quantities whole numbers, and there are at most 500 lines worth at most ten thousand million
  in total, the rounding at the end removes the noise and the result is the double nearest to
  the sum of price times quantity.\<close>

theorem calculateSubtotal_exact:
  assumes "\<forall>it\<in>set xs. whole_line it" "length xs \<le> 500" "(\<Sum>it\<leftarrow>xs. line_cents it) \<le> subtotal_bound"
  shows "calculateSubtotal xs = cents (\<Sum>it\<leftarrow>xs. line_cents it)"
  using assms by (rule calculateSubtotal_sum)

theorem calculateSubtotal_exact_witness:
  "calculateSubtotal
     [\<lparr>item_id = ''a'', item_name = ''Tea'', variant_id = None, variant_name = None,
       quantity = 3, unit_price = cents 10\<rparr>,
      \<lparr>item_id = ''b'', item_name = ''Cake'', variant_id = None, variant_name = None,
       quantity = 2, unit_price = cents 1999\<rparr>] = cents 4028"
proof -
  let ?a = "\<lparr>item_id = ''a'', item_name = ''Tea'', variant_id = None, variant_name = None,
       quantity = 3, unit_price = cents 10\<rparr>"
  let ?b = "\<lparr>item_id = ''b'', item_name = ''Cake'', variant_id = None, variant_name = None,
       quantity = 2, unit_price = cents 1999\<rparr>"
  have "whole_line ?a" unfolding whole_line_def
    by (rule exI [of _ 10], rule exI [of _ 3]) (simp add: money_bound_def)
  moreover have "whole_line ?b" unfolding whole_line_def
    by (rule exI [of _ 1999], rule exI [of _ 2]) (simp add: money_bound_def)
  moreover have "(\<Sum>it\<leftarrow>[?a, ?b]. line_cents it) = 4028"
    by (simp add: line_cents_def money_bound_def)
  ultimately show ?thesis using calculateSubtotal_exact [of "[?a, ?b]"] by (simp add: subtotal_bound_def)
qed

section \<open>Discount, tax and total\<close>

lemma round2_between:
  assumes "0 \<le> x" "x \<le> y" "near y n e" "e < 1 / 200" "\<bar>n\<bar> \<le> money_bound"
  obtains k where "0 \<le> k" "k \<le> n" "round2 x = cents k"
proof
  show "0 \<le> to_cents x" using assms(1) by (rule to_cents_nonneg)
  show "to_cents x \<le> n" using to_cents_mono [OF assms(2)] to_cents_near [OF assms(3,4)] by simp
  have "(of_int \<bar>n\<bar> :: rat) \<le> of_int money_bound" using assms(5) by (simp only: of_int_le_iff)
  then have "\<bar>of_int n :: rat\<bar> \<le> 10 ^ 14" by (simp add: money_bound_def)
  then have "y < 10 ^ 21" using assms(3,4) unfolding near_def by (simp add: abs_le_iff)
  then show "round2 x = cents (to_cents x)" using assms(1,2) by (simp add: round2_def cents_def)
qed

lemma fmul_le:
  assumes "0 \<le> x" "r \<le> 1" "is_double x" shows "fmul x r \<le> x"
proof -
  have "x * r \<le> x * 1" using assms(1,2) by (intro mult_left_mono)
  then have "fl (x * r) \<le> fl x" by (intro fl_mono) simp
  then show ?thesis using assms(3) by (simp add: fmul_def is_double_def)
qed

lemma fmul_nonneg: "0 \<le> a \<Longrightarrow> 0 \<le> b \<Longrightarrow> 0 \<le> fmul a b"
  unfolding fmul_def by (intro fl_nonneg) simp

lemma fsub_nonneg: "b \<le> a \<Longrightarrow> 0 \<le> fsub a b"
  unfolding fsub_def by (intro fl_nonneg) simp

lemma fdiv_nonneg: "0 \<le> a \<Longrightarrow> 0 \<le> b \<Longrightarrow> 0 \<le> fdiv a b"
  unfolding fdiv_def by (intro fl_nonneg) simp

lemma fadd_nonneg: "0 \<le> a \<Longrightarrow> 0 \<le> b \<Longrightarrow> 0 \<le> fadd a b"
  unfolding fadd_def by (intro fl_nonneg) simp

lemma applyFixedDiscount_range:
  assumes "0 \<le> S" "S \<le> money_bound" "0 \<le> a"
  obtains D where "0 \<le> D" "D \<le> S" "applyFixedDiscount (cents S) a = cents D"
  unfolding applyFixedDiscount_def
  by (rule round2_between [of "min a (cents S)" "cents S" S "1 / 8192"])
    (use assms near_cents [of S] in \<open>auto simp: cents_nonneg\<close>)

lemma near_hundred:
  assumes "0 \<le> S" "S \<le> subtotal_bound"
  shows "near (fdiv (fmul (cents S) 100) 100) S (1 / 1000)"
proof -
  have S: "\<bar>S\<bar> \<le> money_bound" using assms by (simp add: subtotal_bound_def money_bound_def)
  have c: "near (cents S) S (1 / 8192)" using S by (rule near_cents)
  have s: "(of_int S :: rat) \<le> 10 ^ 12"
    using assms(2) unfolding subtotal_bound_def by (metis of_int_le_iff of_int_numeral of_int_power)
  have s0: "(0::rat) \<le> of_int S" using assms(1) by simp
  have "\<bar>cents S * 100\<bar> \<le> 2 ^ 40"
    using near_bounds [OF c] s s0 by (intro abs_leI) auto
  then have m: "\<bar>fl (cents S * 100) - cents S * 100\<bar> \<le> 1 / 8192" by (rule fl_error_money)
  have "near (fmul (cents S) 100 / 100) S (1 / 8192 + 1 / 819200)"
    using near_bounds [OF c] m unfolding near_def fmul_def by (intro abs_leI) linarith+
  then have "near (fl (fmul (cents S) 100 / 100)) S (1 / 8192 + 1 / 819200 + 1 / 8192)"
    using S by (intro near_fl) auto
  then show ?thesis unfolding fdiv_def by (rule near_mono) simp
qed

lemma applyPercentageDiscount_range:
  assumes "0 \<le> S" "S \<le> subtotal_bound" "0 \<le> p" "p \<le> 100"
  obtains D where "0 \<le> D" "D \<le> S" "applyPercentageDiscount (cents S) p = cents D"
  unfolding applyPercentageDiscount_def
proof (rule round2_between)
  have c: "0 \<le> cents S" using assms(1) by (rule cents_nonneg)
  then show "0 \<le> fdiv (fmul (cents S) p) 100" using assms(3) by (intro fdiv_nonneg fmul_nonneg) auto
  have "cents S * p \<le> cents S * 100" using c assms(4) by (intro mult_left_mono)
  then have "fmul (cents S) p \<le> fmul (cents S) 100" unfolding fmul_def by (rule fl_mono)
  then show "fdiv (fmul (cents S) p) 100 \<le> fdiv (fmul (cents S) 100) 100"
    unfolding fdiv_def by (intro fl_mono divide_right_mono) auto
  show "near (fdiv (fmul (cents S) 100) 100) S (1 / 1000)" using assms(1,2) by (rule near_hundred)
qed (use assms in \<open>auto simp: subtotal_bound_def money_bound_def\<close>)

lemma checkMaxDiscount_range:
  assumes "0 \<le> D" "D \<le> money_bound" "0 \<le> m"
  obtains D' where "0 \<le> D'" "D' \<le> D" "checkMaxDiscount (cents D) m = cents D'"
  unfolding checkMaxDiscount_def
  by (rule round2_between [of "min (cents D) m" "cents D" D "1 / 8192"])
    (use assms near_cents [of D] in \<open>auto simp: cents_nonneg\<close>)

text \<open>A discount the DTO accepts, with a percentage of at most a hundred.\<close>

definition valid_discount :: "discount_input \<Rightarrow> bool" where
  "valid_discount d \<longleftrightarrow> 0 \<le> dvalue d \<and> (dtype d = Percentage \<longrightarrow> dvalue d \<le> 100) \<and>
     (case max_allowed d of None \<Rightarrow> True | Some m \<Rightarrow> 0 \<le> m)"

lemma applyDiscount_range:
  assumes "0 \<le> S" "S \<le> subtotal_bound" "\<forall>d. disc = Some d \<longrightarrow> valid_discount d"
  obtains D where "0 \<le> D" "D \<le> S" "applyDiscount (cents S) disc = cents D"
proof (cases disc)
  case None
  then show ?thesis using that [of 0] assms(1) by (simp add: applyDiscount_def)
next
  case (Some d)
  then have v: "valid_discount d" using assms(3) by simp
  have S: "S \<le> money_bound" using assms(2) by (simp add: subtotal_bound_def money_bound_def)
  obtain D where D: "0 \<le> D" "D \<le> S" and raw: "(case dtype d of
      Percentage \<Rightarrow> applyPercentageDiscount (cents S) (dvalue d)
    | Fixed \<Rightarrow> applyFixedDiscount (cents S) (dvalue d)) = cents D"
  proof (cases "dtype d")
    case Percentage
    then show ?thesis
      using applyPercentageDiscount_range [OF assms(1,2), where p = "dvalue d"] v that
      by (auto simp: valid_discount_def)
  next
    case Fixed
    then show ?thesis
      using applyFixedDiscount_range [OF assms(1) S, where a = "dvalue d"] v that
      by (auto simp: valid_discount_def)
  qed
  show ?thesis
  proof (cases "max_allowed d")
    case None
    then show ?thesis using that [OF D] raw Some by (simp add: applyDiscount_def Let_def)
  next
    case (Some m)
    then obtain D' where "0 \<le> D'" "D' \<le> D" "checkMaxDiscount (cents D) m = cents D'"
      using checkMaxDiscount_range [OF D(1), where m = m] D(2) S v by (auto simp: valid_discount_def)
    then show ?thesis using that [of D'] D raw Some \<open>disc = Some d\<close>
      by (simp add: applyDiscount_def Let_def)
  qed
qed

text \<open>The discount may carry the noise of an unrounded sum: it only has to be near \<open>D\<close>.\<close>

lemma applyTax_range:
  assumes "0 \<le> D" "D \<le> S" "S \<le> money_bound" "near d D (1 / 1000)" "d \<le> cents S" "0 \<le> r" "r \<le> 1"
  obtains T where "0 \<le> T" "T \<le> S - D" "applyTax (cents S) d r = cents T"
  unfolding applyTax_def
proof (rule round2_between)
  have x: "0 \<le> fsub (cents S) d" using assms(5) by (rule fsub_nonneg)
  then show "0 \<le> fmul (fsub (cents S) d) r" using assms(6) by (rule fmul_nonneg)
  show "fmul (fsub (cents S) d) r \<le> fsub (cents S) d"
    using x assms(7) by (rule fmul_le) (simp add: fsub_def)
  show "near (fsub (cents S) d) (S - D) (1 / 8192 + 1 / 1000 + 1 / 8192)"
    using assms(1-4) near_cents [of S] by (intro near_fsub) auto
qed (use assms in auto)

lemma calculateTotal_exact:
  assumes "\<bar>S - D\<bar> \<le> money_bound" "\<bar>S\<bar> \<le> money_bound" "\<bar>T\<bar> \<le> money_bound"
    "\<bar>S - D + T\<bar> \<le> money_bound" "near d D (1 / 1000)"
  shows "calculateTotal (cents S) d (cents T) = cents (S - D + T)"
proof -
  have "near (fsub (cents S) d) (S - D) (1 / 8192 + 1 / 1000 + 1 / 8192)"
    using assms by (intro near_fsub near_cents) auto
  then have "near (fadd (fsub (cents S) d) (cents T)) (S - D + T)
      (1 / 8192 + 1 / 1000 + 1 / 8192 + 1 / 8192 + 1 / 8192)"
    using assms by (intro near_fadd near_cents) auto
  then show ?thesis unfolding calculateTotal_def using assms by (intro round2_near) auto
qed

text \<open>An invoice adds up to the hundredth.  Whatever rounding noise the subtraction and the
  addition of doubles leave, \<^verbatim>\<open>buildInvoice\<close> returns amounts that are whole hundredths with
  total = subtotal - discount + tax, a discount between nothing and the subtotal, and a tax
  between nothing and the discounted subtotal, for every list of whole lines, every discount
  the DTO accepts with a percentage of at most 100, and every tax rate between 0 and 1.\<close>

theorem buildInvoice_adds_up:
  assumes "\<forall>it\<in>set xs. whole_line it" "length xs \<le> 500" "(\<Sum>it\<leftarrow>xs. line_cents it) \<le> subtotal_bound"
    and "\<forall>d. disc = Some d \<longrightarrow> valid_discount d" "0 \<le> rate" "rate \<le> 1"
  shows "\<exists>D T. let S = (\<Sum>it\<leftarrow>xs. line_cents it) in
    buildInvoice xs disc rate = \<lparr>items = xs, subtotal = cents S, discount_amount = cents D,
      tax_amount = cents T, total = cents (S - D + T)\<rparr> \<and> 0 \<le> D \<and> D \<le> S \<and> 0 \<le> T \<and> T \<le> S - D"
proof -
  define S where "S = (\<Sum>it\<leftarrow>xs. line_cents it)"
  have sub: "calculateSubtotal xs = cents S"
    using calculateSubtotal_sum [OF assms(1-3)] by (simp add: S_def)
  have S: "0 \<le> S" "S \<le> subtotal_bound"
    using assms(1,3) by (auto simp: S_def line_cents_nonneg intro!: sum_list_nonneg)
  then have S': "S \<le> money_bound" by (simp add: subtotal_bound_def money_bound_def)
  obtain D where D: "0 \<le> D" "D \<le> S" "applyDiscount (cents S) disc = cents D"
    using applyDiscount_range [OF S assms(4)] by blast
  have near: "near (cents D) D (1 / 1000)"
    using D S' near_cents [of D] by (auto intro: near_mono)
  obtain T where T: "0 \<le> T" "T \<le> S - D" "applyTax (cents S) (cents D) rate = cents T"
    using applyTax_range [OF D(1,2) S' near cents_mono [OF D(2)] assms(5,6)] by blast
  have tot: "calculateTotal (cents S) (cents D) (cents T) = cents (S - D + T)"
    using D T S near by (intro calculateTotal_exact) (auto simp: subtotal_bound_def money_bound_def)
  show ?thesis
    by (rule exI [of _ D], rule exI [of _ T])
      (simp add: buildInvoice_def Let_def sub D T tot flip: S_def)
qed

theorem buildInvoice_adds_up_witness:
  "\<exists>D T. let S = 4000 in
    buildInvoice [\<lparr>item_id = ''a'', item_name = ''Tea'', variant_id = None, variant_name = None,
       quantity = 4, unit_price = cents 1000\<rparr>]
      (Some \<lparr>dtype = Percentage, dvalue = 10, max_allowed = Some 3\<rparr>) (3 / 20) =
    \<lparr>items = [\<lparr>item_id = ''a'', item_name = ''Tea'', variant_id = None, variant_name = None,
       quantity = 4, unit_price = cents 1000\<rparr>], subtotal = cents S, discount_amount = cents D,
      tax_amount = cents T, total = cents (S - D + T)\<rparr> \<and> 0 \<le> D \<and> D \<le> S \<and> 0 \<le> T \<and> T \<le> S - D"
proof -
  let ?a = "\<lparr>item_id = ''a'', item_name = ''Tea'', variant_id = None, variant_name = None,
       quantity = 4, unit_price = cents 1000\<rparr>"
  let ?d = "\<lparr>dtype = Percentage, dvalue = 10, max_allowed = Some 3\<rparr>"
  have "whole_line ?a" unfolding whole_line_def
    by (rule exI [of _ 1000], rule exI [of _ 4]) (simp add: money_bound_def)
  moreover have "(\<Sum>it\<leftarrow>[?a]. line_cents it) = 4000" by (simp add: line_cents_def money_bound_def)
  moreover have "valid_discount ?d" by (simp add: valid_discount_def)
  ultimately show ?thesis
    using buildInvoice_adds_up [of "[?a]" "Some ?d" "3 / 20"] by (simp add: subtotal_bound_def)
qed

section \<open>Payments\<close>

lemma near_sum2:
  assumes "\<bar>a\<bar> \<le> money_bound" "\<bar>b\<bar> \<le> money_bound" "\<bar>a + b\<bar> \<le> money_bound"
  shows "round2 (fadd (cents a) (cents b)) = cents (a + b)"
proof -
  have "near (fadd (cents a) (cents b)) (a + b) (1 / 8192 + 1 / 8192 + 1 / 8192)"
    using assms by (intro near_fadd near_cents) auto
  then show ?thesis using assms by (intro round2_near) auto
qed

lemma near_diff2:
  assumes "\<bar>a\<bar> \<le> money_bound" "\<bar>b\<bar> \<le> money_bound" "\<bar>a - b\<bar> \<le> money_bound"
  shows "round2 (fsub (cents a) (cents b)) = cents (a - b)"
proof -
  have "near (fsub (cents a) (cents b)) (a - b) (1 / 8192 + 1 / 8192 + 1 / 8192)"
    using assms by (intro near_fsub near_cents) auto
  then show ?thesis using assms by (intro round2_near) auto
qed

text \<open>A split payment is accepted exactly when its parts cover the total, and the change is
  exact: for amounts that are whole hundredths the comparison of doubles decides the comparison
  of the hundredths, so that 0.10 in cash and 0.20 by card do pay 0.30 although the double sum
  of the parts is not the double of the total.  Cash behaves the same way.\<close>

theorem payment_exact:
  assumes "0 \<le> t" "t \<le> subtotal_bound" "0 \<le> a" "a \<le> subtotal_bound" "0 \<le> b" "b \<le> subtotal_bound"
  shows "processSplitPayment (cents t) (cents a) (cents b) =
      (if a + b < t then Inl (bad_request ''Split payment does not cover total'')
       else Inr \<lparr>success = True, change = Some (cents (a + b - t)), pay_method = ''split''\<rparr>) \<and>
    processCashPayment (cents t) (cents a) =
      (if a < t then Inl (bad_request ''Insufficient cash tendered'')
       else Inr \<lparr>success = True, change = Some (cents (a - t)), pay_method = ''cash''\<rparr>)"
proof -
  have m: "\<bar>t\<bar> \<le> money_bound" "\<bar>a\<bar> \<le> money_bound" "\<bar>b\<bar> \<le> money_bound" "\<bar>a + b\<bar> \<le> money_bound"
    "\<bar>a + b - t\<bar> \<le> money_bound" "\<bar>a - t\<bar> \<le> money_bound"
    using assms by (auto simp: subtotal_bound_def money_bound_def)
  have sum: "round2 (fadd (cents a) (cents b)) = cents (a + b)" using m by (intro near_sum2)
  have split: "processSplitPayment (cents t) (cents a) (cents b) =
      (if a + b < t then Inl (bad_request ''Split payment does not cover total'')
       else Inr \<lparr>success = True, change = Some (cents (a + b - t)), pay_method = ''split''\<rparr>)"
    using m near_diff2 [OF m(4,1,5)] by (simp add: processSplitPayment_def sum cents_less_iff)
  have cash: "processCashPayment (cents t) (cents a) =
      (if a < t then Inl (bad_request ''Insufficient cash tendered'')
       else Inr \<lparr>success = True, change = Some (cents (a - t)), pay_method = ''cash''\<rparr>)"
    using m near_diff2 [OF m(2,1,6)] by (simp add: processCashPayment_def cents_less_iff)
  show ?thesis using split cash by (rule conjI)
qed

theorem payment_exact_witness:
  "processSplitPayment (cents 30) (cents 10) (cents 20) =
     Inr \<lparr>success = True, change = Some (cents 0), pay_method = ''split''\<rparr> \<and>
   processCashPayment (cents 30) (cents 10) = Inl (bad_request ''Insufficient cash tendered'')"
  using payment_exact [of 30 10 20] by (simp add: subtotal_bound_def)

section \<open>The summary of a shift\<close>

text \<open>An order in hundredths: its total, and the parts of a split payment.\<close>

definition whole_order :: "shift_invoice \<Rightarrow> bool" where
  "whole_order i \<longleftrightarrow> (\<exists>n. 0 \<le> n \<and> n \<le> subtotal_bound \<and> inv_total i = cents n) \<and>
     (\<forall>x. inv_cash i = Some x \<longrightarrow> (\<exists>n. 0 \<le> n \<and> n \<le> subtotal_bound \<and> x = cents n)) \<and>
     (\<forall>x. inv_card i = Some x \<longrightarrow> (\<exists>n. 0 \<le> n \<and> n \<le> subtotal_bound \<and> x = cents n))"

definition cash_part :: "shift_invoice \<Rightarrow> int" where
  "cash_part i = (if inv_method i = ''cash'' then to_cents (inv_total i)
     else if inv_method i = ''split'' then to_cents (nullish (inv_cash i) 0) else 0)"

definition card_part :: "shift_invoice \<Rightarrow> int" where
  "card_part i = (if inv_method i = ''card'' then to_cents (inv_total i)
     else if inv_method i = ''split'' then to_cents (nullish (inv_card i) 0) else 0)"

definition total_part :: "shift_invoice \<Rightarrow> int" where
  "total_part i = to_cents (inv_total i)"

definition approved_part :: "shift_expense \<Rightarrow> int" where
  "approved_part e = (if exp_status e = ''approved'' then to_cents (exp_amount e) else 0)"

definition whole_expense :: "shift_expense \<Rightarrow> bool" where
  "whole_expense e \<longleftrightarrow> (\<exists>n. 0 \<le> n \<and> n \<le> subtotal_bound \<and> exp_amount e = cents n)"

lemma foldl_cond:
  "foldl (\<lambda>acc x. if P x then f acc x else acc) a xs = foldl f a (filter P xs)"
  by (induction xs arbitrary: a) auto

lemma sum_list_filter_0:
  fixes c :: "'a \<Rightarrow> int"
  assumes "\<And>x. x \<in> set xs \<Longrightarrow> \<not> P x \<Longrightarrow> c x = 0"
  shows "(\<Sum>x\<leftarrow>filter P xs. c x) = (\<Sum>x\<leftarrow>xs. c x)"
  using assms by (induction xs) auto

lemma near_sum_if:
  assumes "\<forall>x\<in>set xs. P x \<longrightarrow> near_term (t x) (c x)" "\<forall>x\<in>set xs. \<not> P x \<longrightarrow> c x = 0"
    "(\<Sum>x\<leftarrow>xs. c x) \<le> subtotal_bound" "length xs \<le> n" "n \<le> 500"
  shows "near (foldl (\<lambda>acc x. if P x then fadd acc (t x) else acc) 0 xs) (\<Sum>x\<leftarrow>xs. c x)
    (of_nat n / 131072)"
proof -
  have eq: "(\<Sum>x\<leftarrow>filter P xs. c x) = (\<Sum>x\<leftarrow>xs. c x)" using assms(2) by (intro sum_list_filter_0) auto
  have "length (filter P xs) \<le> n" using length_filter_le [of P xs] assms(4) by linarith
  then have len: "(of_nat (length (filter P xs)) :: rat) \<le> of_nat n" "(of_nat n :: rat) \<le> 500"
    using assms(5) by simp_all
  have "near (foldl (\<lambda>acc x. fadd acc (t x)) 0 (filter P xs)) (0 + (\<Sum>x\<leftarrow>filter P xs. c x))
     (0 + of_nat (length (filter P xs)) / 131072)"
    using assms(1,3) len by (intro near_sum) (auto simp: near_def eq)
  then show ?thesis using len by (auto simp: foldl_cond eq intro: near_mono)
qed

lemma to_cents_0: "to_cents 0 = 0"
  by (rule to_cents_near [where e = 0]) (simp_all add: near_def)

lemma whole_total: "whole_order i \<Longrightarrow> near_term (inv_total i) (total_part i)"
  by (auto simp: whole_order_def total_part_def subtotal_bound_def money_bound_def
      intro!: near_term_cents)

lemma whole_cash:
  "whole_order i \<Longrightarrow> near_term (if inv_method i = ''cash'' then inv_total i
     else if inv_method i = ''split'' then nullish (inv_cash i) 0 else 0) (cash_part i)"
  by (cases "inv_cash i")
    (auto simp: whole_order_def cash_part_def to_cents_0 subtotal_bound_def money_bound_def
      near_term_zero intro!: near_term_cents)

lemma whole_card:
  "whole_order i \<Longrightarrow> near_term (if inv_method i = ''card'' then inv_total i
     else if inv_method i = ''split'' then nullish (inv_card i) 0 else 0) (card_part i)"
  by (cases "inv_card i")
    (auto simp: whole_order_def card_part_def to_cents_0 subtotal_bound_def money_bound_def
      near_term_zero intro!: near_term_cents)

lemma whole_approved:
  "whole_expense e \<Longrightarrow> exp_status e = ''approved'' \<Longrightarrow> near_term (exp_amount e) (approved_part e)"
  by (auto simp: whole_expense_def approved_part_def subtotal_bound_def money_bound_def
      intro!: near_term_cents)

lemma cash_step_eq:
  "cash_step acc i = (if inv_method i = ''cash'' \<or> inv_method i = ''split'' then
     fadd acc (if inv_method i = ''cash'' then inv_total i
       else if inv_method i = ''split'' then nullish (inv_cash i) 0 else 0) else acc)"
  by (simp add: cash_step_def)

lemma card_step_eq:
  "card_step acc i = (if inv_method i = ''card'' \<or> inv_method i = ''split'' then
     fadd acc (if inv_method i = ''card'' then inv_total i
       else if inv_method i = ''split'' then nullish (inv_card i) 0 else 0) else acc)"
  by (simp add: card_step_def)

text \<open>The sums of a shift of at most 500 orders and expenses, as \<open>buildShiftSummary\<close> computes them.\<close>

lemma shift_sums:
  assumes "\<forall>i\<in>set xs. whole_order i" "length xs \<le> n" "n \<le> 500"
    "(\<Sum>i\<leftarrow>xs. total_part i) \<le> subtotal_bound" "(\<Sum>i\<leftarrow>xs. cash_part i) \<le> subtotal_bound"
    "(\<Sum>i\<leftarrow>xs. card_part i) \<le> subtotal_bound"
  shows "near (foldl (\<lambda>a i. fadd a (inv_total i)) 0 xs) (\<Sum>i\<leftarrow>xs. total_part i) (of_nat n / 131072)"
    and "near (foldl cash_step 0 xs) (\<Sum>i\<leftarrow>xs. cash_part i) (of_nat n / 131072)"
    and "near (foldl card_step 0 xs) (\<Sum>i\<leftarrow>xs. card_part i) (of_nat n / 131072)"
proof -
  show "near (foldl (\<lambda>a i. fadd a (inv_total i)) 0 xs) (\<Sum>i\<leftarrow>xs. total_part i) (of_nat n / 131072)"
    using near_sum_if [of xs "\<lambda>_. True" inv_total total_part n] assms whole_total by simp
  show "near (foldl cash_step 0 xs) (\<Sum>i\<leftarrow>xs. cash_part i) (of_nat n / 131072)"
    unfolding cash_step_eq [abs_def] using assms whole_cash
    by (intro near_sum_if) (auto simp: cash_part_def)
  show "near (foldl card_step 0 xs) (\<Sum>i\<leftarrow>xs. card_part i) (of_nat n / 131072)"
    unfolding card_step_eq [abs_def] using assms whole_card
    by (intro near_sum_if) (auto simp: card_part_def)
qed

text \<open>How an order that was settled is paid: in full by one method, or by parts that add up.\<close>

definition settled :: "shift_invoice \<Rightarrow> bool" where
  "settled i \<longleftrightarrow> inv_method i = ''cash'' \<or> inv_method i = ''card'' \<or>
     (inv_method i = ''split'' \<and> cash_part i + card_part i = total_part i)"

lemma settled_part: "settled i \<Longrightarrow> total_part i = cash_part i + card_part i"
  by (auto simp: settled_def total_part_def cash_part_def card_part_def)

lemma settled_sum:
  "\<forall>i\<in>set xs. settled i \<Longrightarrow>
   (\<Sum>i\<leftarrow>xs. total_part i) = (\<Sum>i\<leftarrow>xs. cash_part i) + (\<Sum>i\<leftarrow>xs. card_part i)"
  by (induction xs) (auto simp: settled_part)

text \<open>
  The discrepancy of a shift is exact whatever the methods of payment are: an order that is paid
  neither in cash nor split does not move the till, and of a split one its cash part counts.
\<close>

lemma discrepancy_exact:
  assumes "\<forall>i\<in>set xs. whole_order i" "\<forall>e\<in>set es. whole_expense e"
    and "length xs + length es \<le> 500" "(\<Sum>i\<leftarrow>xs. cash_part i) \<le> subtotal_bound"
    "(\<Sum>e\<leftarrow>es. approved_part e) \<le> subtotal_bound"
    and "0 \<le> op" "op \<le> subtotal_bound" "0 \<le> cl" "cl \<le> subtotal_bound"
  shows "to_cents (discrepancy (buildShiftSummary (cents op) (cents cl) xs es)) =
    cl - (op + (\<Sum>i\<leftarrow>xs. cash_part i) - (\<Sum>e\<leftarrow>es. approved_part e))"
proof -
  let ?C = "\<Sum>i\<leftarrow>xs. cash_part i" and ?E = "\<Sum>e\<leftarrow>es. approved_part e"
  let ?n = "length xs" and ?m = "length es"
  have pos: "0 \<le> ?C" "0 \<le> ?E"
    using assms(1,2) whole_cash whole_approved
    by (auto simp: near_term_def approved_part_def intro!: sum_list_nonneg)
  have len: "(of_nat ?n + of_nat ?m :: rat) \<le> 500" using assms(3) by (simp flip: of_nat_add)
  have cash: "near (foldl cash_step 0 xs) ?C (of_nat ?n / 131072)"
    unfolding cash_step_eq [abs_def] using assms(1,3,4) whole_cash
    by (intro near_sum_if) (auto simp: cash_part_def)
  have "near (foldl (\<lambda>a e. if exp_status e = ''approved'' then fadd a (exp_amount e) else a) 0 es)
      ?E (of_nat ?m / 131072)"
    using assms(2,3,5) whole_approved by (intro near_sum_if) (auto simp: approved_part_def)
  then have exps: "near (foldl (\<lambda>a e. fadd a (exp_amount e)) 0
      (filter (\<lambda>e. exp_status e = ''approved'') es)) ?E (of_nat ?m / 131072)"
    by (simp add: foldl_cond)
  note bounds = subtotal_bound_def money_bound_def
  have nb: "(of_nat ?n :: rat) / 131072 \<le> 1 / 250" "(of_nat ?m :: rat) / 131072 \<le> 1 / 250"
    "0 \<le> (of_nat ?n :: rat)" "0 \<le> (of_nat ?m :: rat)"
    using len by auto
  have "near (fadd (cents op) (foldl cash_step 0 xs)) (op + ?C) (1 / 8192 + of_nat ?n / 131072 + 1 / 8192)"
    using assms(4,6,7) pos nb by (intro near_fadd near_cents cash) (auto simp: bounds)
  then have "near (calculateExpectedCash (cents op) (foldl cash_step 0 xs) (foldl (\<lambda>a e. fadd a (exp_amount e)) 0
      (filter (\<lambda>e. exp_status e = ''approved'') es))) (op + ?C - ?E)
      (1 / 8192 + of_nat ?n / 131072 + 1 / 8192 + of_nat ?m / 131072 + 1 / 8192)"
    unfolding calculateExpectedCash_def
    using assms(4-7) pos nb by (intro near_fsub exps) (auto simp: bounds)
  then have "near (fsub (cents cl) (calculateExpectedCash (cents op) (foldl cash_step 0 xs)
      (foldl (\<lambda>a e. fadd a (exp_amount e)) 0 (filter (\<lambda>e. exp_status e = ''approved'') es))))
      (cl - (op + ?C - ?E)) (1 / 8192 + (1 / 8192 + of_nat ?n / 131072 + 1 / 8192 +
         of_nat ?m / 131072 + 1 / 8192) + 1 / 8192)"
    using assms(4-9) pos nb by (intro near_fsub near_cents) (auto simp: bounds)
  then have "to_cents (fsub (cents cl) (calculateExpectedCash (cents op) (foldl cash_step 0 xs)
      (foldl (\<lambda>a e. fadd a (exp_amount e)) 0 (filter (\<lambda>e. exp_status e = ''approved'') es)))) =
      cl - (op + ?C - ?E)"
    using len by (rule_tac to_cents_near) auto
  then show ?thesis by (simp add: buildShiftSummary_def Let_def)
qed

lemma shift_summary_exact:
  assumes "\<forall>i\<in>set xs. whole_order i \<and> settled i" "\<forall>e\<in>set es. whole_expense e"
    and "length xs + length es \<le> 500" "(\<Sum>i\<leftarrow>xs. total_part i) \<le> subtotal_bound"
    "(\<Sum>e\<leftarrow>es. approved_part e) \<le> subtotal_bound"
    and "0 \<le> op" "op \<le> subtotal_bound" "0 \<le> cl" "cl \<le> subtotal_bound"
  shows "let s = buildShiftSummary (cents op) (cents cl) xs es in
    to_cents (discrepancy s) = cl - (op + (\<Sum>i\<leftarrow>xs. cash_part i) - (\<Sum>e\<leftarrow>es. approved_part e)) \<and>
    to_cents (totalCash s) + to_cents (totalCard s) = to_cents (totalRevenue s) \<and>
    to_cents (totalRevenue s) = (\<Sum>i\<leftarrow>xs. total_part i)"
proof -
  let ?C = "\<Sum>i\<leftarrow>xs. cash_part i" and ?K = "\<Sum>i\<leftarrow>xs. card_part i"
  have split: "(\<Sum>i\<leftarrow>xs. total_part i) = ?C + ?K" using assms(1) by (intro settled_sum) auto
  have w: "\<forall>i\<in>set xs. whole_order i" using assms(1) by auto
  then have pos: "0 \<le> ?C" "0 \<le> ?K"
    using whole_cash whole_card by (auto simp: near_term_def intro!: sum_list_nonneg)
  then have b: "?C \<le> subtotal_bound" "?K \<le> subtotal_bound" using split assms(4) by auto
  have "(of_nat (length xs) + of_nat (length es) :: rat) \<le> 500" using assms(3) by (simp flip: of_nat_add)
  then have nb: "(of_nat (length xs) :: rat) / 131072 \<le> 1 / 250" "0 \<le> (of_nat (length xs) :: rat)" by auto
  have "to_cents (foldl (\<lambda>a i. fadd a (inv_total i)) 0 xs) = ?C + ?K"
    "to_cents (foldl cash_step 0 xs) = ?C" "to_cents (foldl card_step 0 xs) = ?K"
    using shift_sums [OF w order_refl _ assms(4) b] assms(3) nb unfolding split by (auto intro!: to_cents_near)
  then show ?thesis using discrepancy_exact [OF w assms(2,3) b(1) assms(5-9)]
    by (simp add: buildShiftSummary_def Let_def split)
qed

text \<open>Closing a shift reconciles to the hundredth.  For a shift of at most 500 settled orders and
  expenses in whole hundredths, the discrepancy \<^verbatim>\<open>buildShiftSummary\<close> reports, rounded to
  hundredths, is the counted cash minus (opening cash + cash taken - approved expenses)
  computed exactly, and cash and card revenue add up to the total revenue: the noise of adding
  doubles order by order never reaches a hundredth.  Expenses that are pending or rejected do
  not move the till.\<close>

theorem shift_reconciles:
  assumes "\<forall>i\<in>set xs. whole_order i \<and> settled i" "\<forall>e\<in>set es. whole_expense e"
    and "length xs + length es \<le> 500" "(\<Sum>i\<leftarrow>xs. total_part i) \<le> subtotal_bound"
    "(\<Sum>e\<leftarrow>es. approved_part e) \<le> subtotal_bound"
    and "0 \<le> op" "op \<le> subtotal_bound" "0 \<le> cl" "cl \<le> subtotal_bound"
  shows "let s = buildShiftSummary (cents op) (cents cl) xs es in
    to_cents (discrepancy s) = cl - (op + (\<Sum>i\<leftarrow>xs. cash_part i) - (\<Sum>e\<leftarrow>es. approved_part e)) \<and>
    to_cents (totalCash s) + to_cents (totalCard s) = to_cents (totalRevenue s) \<and>
    to_cents (totalRevenue s) = (\<Sum>i\<leftarrow>xs. total_part i)"
  using assms by (rule shift_summary_exact)

theorem shift_reconciles_witness:
  "let s = buildShiftSummary (cents 10000) (cents 12530)
     [\<lparr>inv_total = cents 2010, inv_method = ''cash'', inv_cash = None, inv_card = None\<rparr>,
      \<lparr>inv_total = cents 3020, inv_method = ''split'', inv_cash = Some (cents 1020),
        inv_card = Some (cents 2000)\<rparr>]
     [\<lparr>exp_amount = cents 500, exp_status = ''approved''\<rparr>,
      \<lparr>exp_amount = cents 700, exp_status = ''pending''\<rparr>] in
   to_cents (discrepancy s) = 0 \<and> to_cents (totalCash s) + to_cents (totalCard s) = to_cents (totalRevenue s)
   \<and> to_cents (totalRevenue s) = 5030"
proof -
  let ?xs = "[\<lparr>inv_total = cents 2010, inv_method = ''cash'', inv_cash = None, inv_card = None\<rparr>,
      \<lparr>inv_total = cents 3020, inv_method = ''split'', inv_cash = Some (cents 1020),
        inv_card = Some (cents 2000)\<rparr>]"
  let ?es = "[\<lparr>exp_amount = cents 500, exp_status = ''approved''\<rparr>,
      \<lparr>exp_amount = cents 700, exp_status = ''pending''\<rparr>]"
  note d = whole_order_def settled_def whole_expense_def total_part_def cash_part_def card_part_def
    approved_part_def money_bound_def subtotal_bound_def
  have "\<forall>i\<in>set ?xs. whole_order i \<and> settled i"
    by (auto simp: d intro: exI [of _ 2010] exI [of _ 3020] exI [of _ 1020] exI [of _ 2000])
  moreover have "\<forall>e\<in>set ?es. whole_expense e"
    by (auto simp: d intro: exI [of _ 500] exI [of _ 700])
  ultimately show ?thesis
    using shift_reconciles [of ?xs ?es 10000 12530] by (simp add: d)
qed

end
