(* ===== verification/PosTables.thy ===== *)
theory PosTables
  imports Pricing Engines
begin

text \<open>
  The tables behind a sale (orders, lines, audit rows, shifts, customers, coupons, loyalty tiers,
  tenants, branches, expenses), the flags of \<^verbatim>\<open>ConfigService\<close>, notifications, and the transaction
  wrapper \<^verbatim>\<open>TenantSessionService.runInTenantContext\<close> (\<^verbatim>\<open>core/tenant\<close>).  The SQL functions for
  accounting and stock are recorded as the calls that reached them, in \<open>journal\<close> and
  \<open>stock_log\<close>; like every call they fail whenever \<open>fault\<close> says so.  A column holds the number
  the code sends.
\<close>

section \<open>Rows\<close>

record shift_row =
  sh_id :: string
  sh_tenant :: string
  sh_branch :: string
  sh_cashier :: string
  sh_status :: string
  sh_opening :: number
  sh_closing :: "number option"
  sh_expected :: "number option"
  sh_discrepancy :: "number option"
  sh_notes :: "string option"
  sh_opened_at :: int
  sh_closed_at :: "int option"
  sh_deleted :: bool

record order_payload =
  o_branch :: string
  o_shift :: "string option"
  o_cashier :: string
  o_customer :: "string option"
  o_status :: string
  o_subtotal :: number
  o_discount :: number
  o_tax :: number
  o_total :: number
  o_method :: "string option"
  o_notes :: "string option"
  o_coupon :: "string option"
  o_attempt :: "string option"
  o_cash :: "number option"
  o_card :: "number option"
  o_held :: bool
  o_visibility :: "string option"
  o_held_by :: "string option"
  o_held_at :: "int option"

record order_row = order_payload +
  o_id :: string
  o_tenant :: "string option"
  o_deleted_at :: "int option"

record order_item_row =
  oi_id :: string
  oi_order :: string
  oi_item :: string
  oi_name :: string
  oi_qty :: number
  oi_price :: number
  oi_total :: number
  oi_variant :: "string option"
  oi_variant_name :: "string option"
  oi_official :: "number option"

record override_audit_row =
  oa_tenant :: "string option"
  oa_branch :: string
  oa_order :: string
  oa_order_item :: string
  oa_actor :: string
  oa_item :: string
  oa_data :: override_data

record customer_row =
  c_id :: string
  c_tenant :: string
  c_points :: number
  c_lifetime :: number
  c_deleted :: bool

record tenant_row =
  t_id :: string
  t_tax_rate :: "number option"
  t_points_per_currency :: "number option"
  t_redemption_value :: "number option"
  t_loyalty_enabled :: "bool option"
  t_deleted :: bool

record coupon_row =
  cp_id :: string
  cp_tenant :: string
  cp_code :: string
  cp_type :: discount_type
  cp_value :: number
  cp_max_discount :: "number option"
  cp_min_order :: "number option"
  cp_max_uses :: "int option"
  cp_used :: int
  cp_from :: "int option"
  cp_to :: "int option"
  cp_active :: bool
  cp_deleted :: bool

record tier_row =
  ti_id :: string
  ti_tenant :: string
  ti_name :: string
  ti_min :: number
  ti_multiplier :: number
  ti_sort :: int
  ti_deleted :: bool

record expense_row =
  ex_id :: string
  ex_tenant :: string
  ex_branch :: string
  ex_shift :: "string option"
  ex_template :: "string option"
  ex_category :: "string option"
  ex_requested_by :: string
  ex_approved_by :: "string option"
  ex_title :: string
  ex_amount :: number
  ex_notes :: "string option"
  ex_photo :: "string option"
  ex_type :: string
  ex_recurrence :: "string option"
  ex_status :: string
  ex_created :: int
  ex_expires :: int
  ex_resolved :: "int option"
  ex_deleted :: bool

record branch_row =
  b_id :: string
  b_tenant :: string
  b_deleted :: bool
  b_warehouse :: "string option"

datatype stock_event =
    Deducted string string string string "(string \<times> string option \<times> number) list"
  | Restocked string
  | SerialSold string string "number option"
  | SerialReturned string
  | OwnershipConsumed string string "string option" number

datatype journal_event = Posted string | Reversed string

section \<open>The state\<close>

text \<open>
  \<open>held_names\<close>, \<open>expired_names\<close> and \<open>owned\<close> are what the advisory lookups of the warehouse
  answer, \<open>sold_serials\<close> the serials an order sold; \<open>pg_pool\<close> says whether a connection pool is
  configured.
\<close>

record pos = catalog +
  shifts :: "shift_row list"
  orders :: "order_row list"
  order_items :: "order_item_row list"
  override_audits :: "override_audit_row list"
  customers :: "customer_row list"
  tenants :: "tenant_row list"
  coupons :: "coupon_row list"
  loyalty_tiers :: "tier_row list"
  expenses :: "expense_row list"
  branches :: "branch_row list"
  journal :: "journal_event list"
  stock_log :: "stock_event list"
  notifications :: "(string \<times> string) list"
  held_names :: "string \<Rightarrow> string \<Rightarrow> (string \<times> string option) list \<Rightarrow> string list"
  expired_names :: "string \<Rightarrow> string \<Rightarrow> (string \<times> string option) list \<Rightarrow> string list"
  owned :: "string \<Rightarrow> number"
  sold_serials :: "string \<Rightarrow> string list"
  config :: "string \<Rightarrow> bool"
  pg_pool :: bool

section \<open>Transactions and notifications\<close>

definition statement :: "('w net_scheme \<Rightarrow> (db_error + 'a) \<times> 'w net_scheme) \<Rightarrow> ('w net_scheme, 'a) io" where
  "statement f = orThrow (exec f)"

definition silent :: "('w net_scheme, unit) io" where
  "silent = statement (\<lambda>w. (Inr (), w))"

text \<open>
  After \<^verbatim>\<open>ROLLBACK\<close> everything but the call counter is as it was before \<^verbatim>\<open>BEGIN\<close>.  If the
  rollback statement itself fails, its error is the one thrown.
\<close>

definition rollback :: "'w net_scheme \<Rightarrow> exn \<Rightarrow> ('w net_scheme, 'a) io" where
  "rollback before err =
     bindE (modify (\<lambda>w. before\<lparr>calls := calls w\<rparr>)) (\<lambda>_. bindE silent (\<lambda>_. throw err))"

definition runInTenantContext :: "('w pos_scheme, 'a) io \<Rightarrow> ('w pos_scheme, 'a) io" where
  "runInTenantContext fn =
     bindE (gets pg_pool) (\<lambda>pool.
     if \<not> pool then throw (Http ServiceUnavailable ''TenantSessionService has no PG_POOL configured'' [])
     else bindE silent (\<lambda>_.
     bindE (gets (\<lambda>w. w)) (\<lambda>before.
     catchE
       (bindE silent (\<lambda>_. bindE silent (\<lambda>_.
        bindE fn (\<lambda>result.
        bindE silent (\<lambda>_. ret result)))))
       (rollback before))))"

text \<open>
  The same wrapper around a body that catches the error of one of its own statements.  PostgreSQL
  aborts a transaction when a statement fails in it, whether or not the client catches the error,
  and answers \<^verbatim>\<open>COMMIT\<close> of an aborted transaction with a rollback and without an error: the flag
  that the body returns says whether a statement failed in it, and \<open>runInTenantContext\<close> is the case
  of a body in which none does.
\<close>

definition runAbortable :: "('w pos_scheme, 'a \<times> bool) io \<Rightarrow> ('w pos_scheme, 'a) io" where
  "runAbortable fn =
     bindE (gets pg_pool) (\<lambda>pool.
     if \<not> pool then throw (Http ServiceUnavailable ''TenantSessionService has no PG_POOL configured'' [])
     else bindE silent (\<lambda>_.
     bindE (gets (\<lambda>w. w)) (\<lambda>before.
     catchE
       (bindE silent (\<lambda>_. bindE silent (\<lambda>_.
        bindE fn (\<lambda>(result, aborted).
        bindE silent (\<lambda>_.
        bindE (if aborted then modify (\<lambda>w. before\<lparr>calls := calls w\<rparr>) else ret ()) (\<lambda>_. ret result))))))
       (rollback before))))"

definition notify :: "string \<Rightarrow> string \<Rightarrow> ('w pos_scheme, unit) io" where
  "notify userId kind = ignoring (statement (\<lambda>w. (Inr (),
     w\<lparr>notifications := notifications w @ [(userId, kind)]\<rparr>)))"

section \<open>Lemmas\<close>

lemma wp_statement [wp_rules]:
  "wp (statement f) Q E = (\<lambda>w. case fault w (calls w) of
     Some e \<Rightarrow> E (Db e) (w\<lparr>calls := Suc (calls w)\<rparr>)
   | None \<Rightarrow> (case f (w\<lparr>calls := Suc (calls w)\<rparr>) of (Inl e, w') \<Rightarrow> E (Db e) w' | (Inr x, w') \<Rightarrow> Q x w'))"
  by (rule ext) (simp add: statement_def wp_orThrow wp_exec split: option.split prod.split sum.split)

lemma wp_silent [wp_rules]:
  "wp silent Q E = (\<lambda>w. case fault w (calls w) of
     Some e \<Rightarrow> E (Db e) (w\<lparr>calls := Suc (calls w)\<rparr>)
   | None \<Rightarrow> Q () (w\<lparr>calls := Suc (calls w)\<rparr>))"
  by (rule ext) (simp add: silent_def wp_statement split: option.split)

context view
begin

lemma keeps_statement: "(\<And>w. v (snd (f w)) = v w) \<Longrightarrow> keeps v (statement f)"
  unfolding statement_def by (intro keep_rules keeps_exec)

lemma keeps_silent: "keeps v silent"
  unfolding silent_def by (rule keeps_statement) simp

end

text \<open>
  A transaction is all or nothing: it either ends in a state its body can reach, or leaves
  everything but the call counter as it was.
\<close>

lemma runInTenantContext_atomic:
  assumes "\<And>v. v = w\<lparr>calls := calls v\<rparr> \<Longrightarrow> wp fn (\<lambda>x w'. \<forall>n. Q x (w'\<lparr>calls := n\<rparr>)) (\<lambda>_ _. True) v"
    and "\<And>e n. E e (w\<lparr>calls := n\<rparr>)"
  shows "wp (runInTenantContext fn) Q E w"
proof -
  have E': "E e (w\<lparr>calls := n\<rparr>)" for e n by (rule assms(2))
  have undo: "wp (rollback (w\<lparr>calls := k\<rparr>) err) Q E v" for k err v
    by (simp add: rollback_def wp_rules E' split: option.split)
  have body: "wp fn (\<lambda>x w'. wp (bindE silent (\<lambda>_. ret x)) Q (\<lambda>e. wp (rollback (w\<lparr>calls := k\<rparr>) e) Q E) w')
      (\<lambda>e. wp (rollback (w\<lparr>calls := k\<rparr>) e) Q E) (w\<lparr>calls := n\<rparr>)" for k n
    by (rule wp_mono [OF assms(1)]) (auto simp: wp_rules undo split: option.split)
  show ?thesis
    using E' [of _ "calls w"] body
    by (auto simp: runInTenantContext_def wp_rules E' undo [simplified] split: option.split)
qed

lemma runInTenantContext_abortable: "runInTenantContext fn = runAbortable (bindE fn (\<lambda>x. ret (x, False)))"
  unfolding runInTenantContext_def runAbortable_def
  by (rule ext) (simp add: io_defs split: prod.split sum.split)

lemma runAbortable_atomic:
  assumes "\<And>v. v = w\<lparr>calls := calls v\<rparr> \<Longrightarrow>
      wp fn (\<lambda>(x, aborted) w'. \<forall>n. Q x ((if aborted then w else w')\<lparr>calls := n\<rparr>)) (\<lambda>_ _. True) v"
    and "\<And>e n. E e (w\<lparr>calls := n\<rparr>)"
  shows "wp (runAbortable fn) Q E w"
proof -
  have E': "E e (w\<lparr>calls := n\<rparr>)" for e n by (rule assms(2))
  have undo: "wp (rollback (w\<lparr>calls := k\<rparr>) err) Q E v" for k err v
    by (simp add: rollback_def wp_rules E' split: option.split)
  have body: "wp fn (\<lambda>r w'. wp (case r of (x, aborted) \<Rightarrow> bindE silent (\<lambda>_.
        bindE (if aborted then modify (\<lambda>u. w\<lparr>calls := k\<rparr>\<lparr>calls := calls u\<rparr>) else ret ()) (\<lambda>_. ret x)))
        Q (\<lambda>e. wp (rollback (w\<lparr>calls := k\<rparr>) e) Q E) w')
      (\<lambda>e. wp (rollback (w\<lparr>calls := k\<rparr>) e) Q E) (w\<lparr>calls := n\<rparr>)" for k n
    by (rule wp_mono [OF assms(1)]) (auto simp: wp_rules undo split: option.split if_splits)
  show ?thesis
    using E' [of _ "calls w"]
    by (auto simp: runAbortable_def wp_rules E' undo [simplified] split: option.split)
      (rule wp_mono [OF body], auto simp: wp_rules split: option.splits prod.splits if_splits)
qed

lemma preserves_statement:
  assumes "\<And>w. J w \<Longrightarrow> J (snd (f w))" "\<And>w n. J (w\<lparr>calls := n\<rparr>) = J w"
  shows "preserves J (statement f)"
  unfolding preserves_def
proof (intro allI impI)
  fix w assume "J w"
  then have "J (w\<lparr>calls := Suc (calls w)\<rparr>)" by (simp add: assms(2))
  then show "wp (statement f) (\<lambda>_. J) (\<lambda>_. J) w"
    using assms(1) [of "w\<lparr>calls := Suc (calls w)\<rparr>"] by (auto simp: wp_rules split: option.split prod.split sum.split)
qed

lemma preserves_transaction:
  fixes J :: "'w pos_scheme \<Rightarrow> bool"
  assumes "preserves J m" "\<And>w n. J (w\<lparr>calls := n\<rparr>) = J w"
  shows "preserves J (runInTenantContext m)"
  unfolding preserves_def
proof (intro allI impI)
  fix w assume w: "J w"
  show "wp (runInTenantContext m) (\<lambda>_. J) (\<lambda>_. J) w"
  proof (rule runInTenantContext_atomic)
    fix v :: "'w pos_scheme" assume v: "v = w\<lparr>calls := calls v\<rparr>"
    have "J v" by (subst v) (simp only: assms(2) w)
    then have "wp m (\<lambda>_. J) (\<lambda>_. J) v" using assms(1) unfolding preserves_def by blast
    then show "wp m (\<lambda>_ w'. \<forall>n. J (w'\<lparr>calls := n\<rparr>)) (\<lambda>_ _. True) v"
      by (rule wp_mono) (simp_all only: assms(2) simp_thms)
  next
    fix n show "J (w\<lparr>calls := n\<rparr>)" by (simp only: assms(2) w)
  qed
qed

lemma preserves_abortable:
  fixes J :: "'w pos_scheme \<Rightarrow> bool"
  assumes "preserves J m" "\<And>w n. J (w\<lparr>calls := n\<rparr>) = J w"
  shows "preserves J (runAbortable m)"
  unfolding preserves_def
proof (intro allI impI)
  fix w assume w: "J w"
  show "wp (runAbortable m) (\<lambda>_. J) (\<lambda>_. J) w"
  proof (rule runAbortable_atomic)
    fix v :: "'w pos_scheme" assume v: "v = w\<lparr>calls := calls v\<rparr>"
    have "J v" by (subst v) (simp only: assms(2) w)
    then have "wp m (\<lambda>_. J) (\<lambda>_. J) v" using assms(1) unfolding preserves_def by blast
    then show "wp m (\<lambda>(_, aborted) w'. \<forall>n. J ((if aborted then w else w')\<lparr>calls := n\<rparr>)) (\<lambda>_ _. True) v"
      by (rule wp_mono) (simp_all add: assms(2) w split: prod.split)
  next
    fix n show "J (w\<lparr>calls := n\<rparr>)" by (simp only: assms(2) w)
  qed
qed

text \<open>A small shop on which the theorems are applied.\<close>

definition demo_pos :: pos where
  "demo_pos = catalog.extend demo_shop
     \<lparr>shifts = [], orders = [], order_items = [], override_audits = [],
      customers = [\<lparr>c_id = ''c'', c_tenant = ''t'', c_points = 100, c_lifetime = 250, c_deleted = False\<rparr>],
      tenants = [\<lparr>t_id = ''t'', t_tax_rate = Some (3 / 20), t_points_per_currency = Some 1,
        t_redemption_value = Some (1 / 100), t_loyalty_enabled = Some True, t_deleted = False\<rparr>],
      coupons = [\<lparr>cp_id = ''cp'', cp_tenant = ''t'', cp_code = ''SAVE5'', cp_type = Fixed, cp_value = 5,
        cp_max_discount = None, cp_min_order = None, cp_max_uses = Some 1, cp_used = 0,
        cp_from = None, cp_to = None, cp_active = True, cp_deleted = False\<rparr>],
      loyalty_tiers = [], expenses = [], branches = [], journal = [], stock_log = [], notifications = [],
      held_names = (\<lambda>_ _ _. []), expired_names = (\<lambda>_ _ _. []), owned = (\<lambda>_. 0), sold_serials = (\<lambda>_. []),
      config = (\<lambda>_. True), pg_pool = True\<rparr>"

lemma demo_pos_no_fault: "fault demo_pos n = None"
  by (simp add: demo_pos_def demo_shop_def catalog.extend_def)

lemma demo_pos_tables [simp]:
  "orders demo_pos = []" "expenses demo_pos = []" "shifts demo_pos = []"
  by (simp_all add: demo_pos_def catalog.extend_def)

end
