(* ===== verification/Shifts.thy ===== *)
theory Shifts
  imports PosTables
begin

text \<open>
  \<^verbatim>\<open>ShiftsService\<close> and \<^verbatim>\<open>ShiftsRepository\<close> (\<^verbatim>\<open>modules/shifts\<close>): opening and closing the cash session of
  a cashier, the check every sale makes, and the summary.  The repository reads ignore their
  error, as in the source; the lemmas show what that costs.
\<close>

section \<open>ShiftsRepository\<close>

definition open_by :: "string \<Rightarrow> string \<Rightarrow> shift_row \<Rightarrow> bool" where
  "open_by cashierId tenantId s = (sh_tenant s = tenantId \<and> sh_cashier s = cashierId \<and>
     sh_status s = ''open'' \<and> \<not> sh_deleted s)"

definition shifts_findOpenByUser :: "string \<Rightarrow> string \<Rightarrow> ('w pos_scheme, shift_row option) io" where
  "shifts_findOpenByUser cashierId tenantId =
     orElse None (query (\<lambda>w. maybeSingle (filter (open_by cashierId tenantId) (shifts w))))"

definition shifts_findById :: "string \<Rightarrow> string \<Rightarrow> ('w pos_scheme, shift_row option) io" where
  "shifts_findById sid tenantId = orElse None (query (\<lambda>w. maybeSingle
     (filter (\<lambda>s. sh_id s = sid \<and> sh_tenant s = tenantId \<and> \<not> sh_deleted s) (shifts w))))"

definition shifts_create ::
  "string \<Rightarrow> string \<Rightarrow> string \<Rightarrow> number \<Rightarrow> string option \<Rightarrow> ('w pos_scheme, shift_row) io" where
  "shifts_create tenantId branchId cashierId opening notes =
     bindE now (\<lambda>t. orError (exec (\<lambda>w.
       let row = \<lparr>sh_id = fresh_id w, sh_tenant = tenantId, sh_branch = branchId, sh_cashier = cashierId,
         sh_status = ''open'', sh_opening = opening, sh_closing = None, sh_expected = None,
         sh_discrepancy = None, sh_notes = notes, sh_opened_at = t, sh_closed_at = None, sh_deleted = False\<rparr>
       in (Inr row, w\<lparr>shifts := shifts w @ [row]\<rparr>))))"

definition shifts_close ::
  "string \<Rightarrow> string \<Rightarrow> number \<Rightarrow> number \<Rightarrow> number \<Rightarrow> ('w pos_scheme, shift_row) io" where
  "shifts_close sid tenantId closing expected disc =
     bindE now (\<lambda>t. orError (exec (\<lambda>w.
       let hit = (\<lambda>s. sh_id s = sid \<and> sh_tenant s = tenantId);
           new = (\<lambda>s. s\<lparr>sh_status := ''closed'', sh_closing := Some closing, sh_expected := Some expected,
             sh_discrepancy := Some disc, sh_closed_at := Some t\<rparr>)
       in case single (map new (filter hit (shifts w))) of
            Inl e \<Rightarrow> (Inl e, w)
          | Inr s \<Rightarrow> (Inr s, w\<lparr>shifts := update_where hit new (shifts w)\<rparr>))))"

definition completed_of :: "string \<Rightarrow> string \<Rightarrow> order_row \<Rightarrow> bool" where
  "completed_of sid tenantId o1 = (o_shift o1 = Some sid \<and> o_tenant o1 = Some tenantId \<and> o_status o1 = ''completed'')"

definition order_view :: "order_row \<Rightarrow> shift_invoice" where
  "order_view o1 = \<lparr>inv_total = o_total o1, inv_method = (case o_method o1 of None \<Rightarrow> [] | Some m \<Rightarrow> m),
     inv_cash = o_cash o1, inv_card = o_card o1\<rparr>"

definition getShiftInvoices :: "string \<Rightarrow> string \<Rightarrow> ('w pos_scheme, shift_invoice list) io" where
  "getShiftInvoices sid tenantId = orElse []
     (query (\<lambda>w. Inr (map order_view (filter (completed_of sid tenantId) (orders w)))))"

definition expense_view :: "expense_row \<Rightarrow> shift_expense" where
  "expense_view e = \<lparr>exp_amount = ex_amount e, exp_status = ex_status e\<rparr>"

definition getShiftExpenses :: "string \<Rightarrow> string \<Rightarrow> ('w pos_scheme, shift_expense list) io" where
  "getShiftExpenses sid tenantId = orElse []
     (query (\<lambda>w. Inr (map expense_view
        (filter (\<lambda>e. ex_shift e = Some sid \<and> ex_tenant e = tenantId) (expenses w)))))"

text \<open>Newest first: the first row with the largest opening time.\<close>

definition newest :: "shift_row list \<Rightarrow> shift_row option" where
  "newest ss = (case ss of [] \<Rightarrow> None | _ \<Rightarrow>
     find (\<lambda>s. sh_opened_at s = Max (set (map sh_opened_at ss))) ss)"

definition findCurrentByBranch :: "string \<Rightarrow> string \<Rightarrow> ('w pos_scheme, shift_row option) io" where
  "findCurrentByBranch branchId tenantId = orElse None (query (\<lambda>w. Inr (newest
     (filter (\<lambda>s. sh_tenant s = tenantId \<and> sh_branch s = branchId \<and> sh_status s = ''open'' \<and> \<not> sh_deleted s)
       (shifts w)))))"

section \<open>ShiftsService\<close>

definition shift_json :: "shift_row \<Rightarrow> json" where
  "shift_json s = JObj [(''id'', JStr (sh_id s)), (''cashier_id'', JStr (sh_cashier s)),
     (''branch_id'', JStr (sh_branch s)), (''status'', JStr (sh_status s)),
     (''opening_cash'', JNum (sh_opening s))]"

definition openShift ::
  "string \<Rightarrow> number \<Rightarrow> string option \<Rightarrow> string \<Rightarrow> string \<Rightarrow> string \<Rightarrow> string \<Rightarrow> string \<Rightarrow> ('w pos_scheme, shift_row) io" where
  "openShift branchId openCash notes tenantId actorId actorRole ip device =
     bindE (shifts_findOpenByUser actorId tenantId) (\<lambda>existing.
     bindE (lift (validateNoDoubleShift (existing \<noteq> None))) (\<lambda>_.
     bindE (shifts_create tenantId branchId actorId openCash notes) (\<lambda>shift.
     bindE (audit_log ((entry (Some tenantId) actorId (Some actorRole) ''shift.open'' ''shift''
       (Some (sh_id shift)) JNull (shift_json shift))\<lparr>a_ip := Some ip, a_device := Some device\<rparr>)) (\<lambda>_.
     bindE (notify actorId ''shift_opened'') (\<lambda>_.
     ret shift)))))"

definition closeShift ::
  "string \<Rightarrow> number \<Rightarrow> string \<Rightarrow> string \<Rightarrow> string \<Rightarrow> string \<Rightarrow> string \<Rightarrow> ('w pos_scheme, shift_row \<times> shift_summary) io" where
  "closeShift shiftId closeCash tenantId actorId actorRole ip device =
     bindE (shifts_findById shiftId tenantId) (\<lambda>found. case found of
       None \<Rightarrow> throw (not_found ''Shift not found'')
     | Some shift \<Rightarrow>
       bindE (require (sh_status shift \<noteq> ''closed'') (bad_request ''Shift already closed'')) (\<lambda>_.
       bindE (require (sh_cashier shift = actorId) (bad_request ''Not your shift'')) (\<lambda>_.
       bindE (getShiftInvoices shiftId tenantId) (\<lambda>invoices.
       bindE (getShiftExpenses shiftId tenantId) (\<lambda>exps.
       let summary = buildShiftSummary (sh_opening shift) closeCash invoices exps in
       bindE (shifts_close shiftId tenantId closeCash (expectedCash summary) (discrepancy summary)) (\<lambda>closed.
       bindE (audit_log ((entry (Some tenantId) actorId (Some actorRole) ''shift.close'' ''shift''
         (Some shiftId) (shift_json shift) (shift_json closed))\<lparr>a_ip := Some ip, a_device := Some device\<rparr>)) (\<lambda>_.
       bindE (notify actorId ''shift_closed'') (\<lambda>_.
       ret (closed, summary)))))))))"

definition logDrawerOpen ::
  "string \<Rightarrow> string \<Rightarrow> string \<Rightarrow> string \<Rightarrow> string \<Rightarrow> ('w pos_scheme, string) io" where
  "logDrawerOpen tenantId actorId actorRole ip device =
     bindE (shifts_findOpenByUser actorId tenantId) (\<lambda>found. case found of
       None \<Rightarrow> throw (bad_request ''No open shift - open a shift before opening the drawer'')
     | Some shift \<Rightarrow>
       bindE now (\<lambda>t.
       bindE (audit_log ((entry (Some tenantId) actorId (Some actorRole) ''pos.drawer_opened'' ''shift''
         (Some (sh_id shift)) JNull (JObj [(''branch_id'', JStr (sh_branch shift)),
           (''opened_at'', JNum (of_int t))]))\<lparr>a_ip := Some ip, a_device := Some device\<rparr>)) (\<lambda>_.
       ret (sh_id shift))))"

definition getCurrentShift :: "string \<Rightarrow> string \<Rightarrow> string option \<Rightarrow> ('w pos_scheme, shift_row option) io" where
  "getCurrentShift tenantId actorId branchId =
     (if truthy branchId then findCurrentByBranch (the branchId) tenantId
      else shifts_findOpenByUser actorId tenantId)"

definition assertOpenSession :: "string \<Rightarrow> string option \<Rightarrow> ('w pos_scheme, unit) io" where
  "assertOpenSession tenantId shiftId =
     (if \<not> truthy shiftId
      then throw (bad_request ''NO_ACTIVE_CASH_SESSION: no cash register session id was provided'')
      else bindE (shifts_findById (the shiftId) tenantId) (\<lambda>shift.
        require (case shift of None \<Rightarrow> False | Some s \<Rightarrow> sh_status s = ''open'')
          (bad_request ''NO_ACTIVE_CASH_SESSION: cash register session is not open'')))"

definition getShiftSummary :: "string \<Rightarrow> string \<Rightarrow> ('w pos_scheme, shift_row \<times> shift_summary) io" where
  "getShiftSummary shiftId tenantId =
     bindE (shifts_findById shiftId tenantId) (\<lambda>found. case found of
       None \<Rightarrow> throw (not_found ''Shift not found'')
     | Some shift \<Rightarrow>
       bindE (getShiftInvoices shiftId tenantId) (\<lambda>invoices.
       bindE (getShiftExpenses shiftId tenantId) (\<lambda>exps.
       ret (shift, buildShiftSummary (sh_opening shift) (nullish (sh_closing shift) 0) invoices exps))))"

section \<open>One open session per cashier\<close>

text \<open>What every write to the shifts does, whatever fails.\<close>

definition open_count :: "string \<Rightarrow> string \<Rightarrow> 'w pos_scheme \<Rightarrow> nat" where
  "open_count c t w = length (filter (open_by c t) (shifts w))"

interpretation sh: beside_permissions shifts
  by unfold_locales simp_all

lemma keeps_shift_reads [keep_rules]:
  "keeps shifts (shifts_findOpenByUser c t)" "keeps shifts (shifts_findById i t)"
  "keeps shifts (getShiftInvoices i t)" "keeps shifts (getShiftExpenses i t)"
  "keeps shifts (audit_log e)" "keeps shifts (findCurrentByBranch b t)"
  unfolding shifts_findOpenByUser_def shifts_findById_def getShiftInvoices_def getShiftExpenses_def
    findCurrentByBranch_def
  by (intro keep_rules sh.keeps_query sh.keeps_infra)+

lemma keeps_notify [keep_rules]: "keeps shifts (notify u k)"
  unfolding notify_def by (intro keep_rules sh.keeps_statement) simp

lemma assertOpenSession_keeps: "keeps shifts (assertOpenSession t i)"
  unfolding assertOpenSession_def by (intro keep_rules)

text \<open>A cashier with an open session cannot open another while the lookup works.  If the
  cashier has exactly one open session in the tenant and the database does not fail, \<^verbatim>\<open>openShift\<close>
  throws and leaves all sessions as they are; without one it opens exactly one, with the
  counted cash, and the session passes \<^verbatim>\<open>assertOpenSession\<close> if its identifier is fresh.\<close>

theorem openShift_single:
  assumes "\<forall>n. fault w n = None"
  shows "(open_count a t w = 1 \<longrightarrow>
      fst (openShift b cash notes t a role ip dev w) = Inl (bad_request ''A shift is already open for this cashier'') \<and>
      shifts (snd (openShift b cash notes t a role ip dev w)) = shifts w) \<and>
    (open_count a t w = 0 \<longrightarrow>
      open_count a t (snd (openShift b cash notes t a role ip dev w)) = 1 \<and>
      (\<exists>s. fst (openShift b cash notes t a role ip dev w) = Inr s \<and> sh_opening s = cash \<and>
        (sh_id s \<noteq> [] \<and> sh_id s \<notin> sh_id ` set (shifts w) \<longrightarrow>
         fst (assertOpenSession t (Some (sh_id s)) (snd (openShift b cash notes t a role ip dev w))) = Inr ())))"
proof (intro conjI impI)
  assume "open_count a t w = 1"
  then obtain s where s: "filter (open_by a t) (shifts w) = [s]"
    by (auto simp: open_count_def length_Suc_conv)
  then show "fst (openShift b cash notes t a role ip dev w) =
      Inl (bad_request ''A shift is already open for this cashier'')"
    "shifts (snd (openShift b cash notes t a role ip dev w)) = shifts w"
    using assms by (simp_all add: openShift_def shifts_findOpenByUser_def orElse_def query_def exec_def
        io_defs validateNoDoubleShift_def Let_def)
next
  assume "open_count a t w = 0"
  then have none: "filter (open_by a t) (shifts w) = []" by (simp add: open_count_def)
  let ?r = "openShift b cash notes t a role ip dev w"
  let ?s = "\<lparr>sh_id = uuid w (Suc (calls w)), sh_tenant = t, sh_branch = b, sh_cashier = a,
         sh_status = ''open'', sh_opening = cash, sh_closing = None, sh_expected = None,
         sh_discrepancy = None, sh_notes = notes, sh_opened_at = clock w (Suc (calls w)), sh_closed_at = None, sh_deleted = False\<rparr>"
  have run: "fst ?r = Inr ?s" "shifts (snd ?r) = shifts w @ [?s]" "fault (snd ?r) = fault w"
    using assms none by (simp_all add: openShift_def shifts_findOpenByUser_def shifts_create_def notify_def
        statement_def audit_log_def now_def orElse_def orThrow_def orError_def query_def exec_def
        io_defs validateNoDoubleShift_def fresh_id_def Let_def)
  show "open_count a t (snd ?r) = 1" using none by (simp add: open_count_def run open_by_def)
  have "fst (assertOpenSession t (Some (sh_id ?s)) (snd ?r)) = Inr ()"
    if "sh_id ?s \<noteq> [] \<and> sh_id ?s \<notin> sh_id ` set (shifts w)"
  proof -
    have "filter (\<lambda>s. sh_id s = sh_id ?s \<and> sh_tenant s = t \<and> \<not> sh_deleted s) (shifts (snd ?r)) = [?s]"
    proof -
      have "sh_id x \<noteq> sh_id ?s" if "x \<in> set (shifts w)" for x
        using that \<open>sh_id ?s \<noteq> [] \<and> sh_id ?s \<notin> sh_id ` set (shifts w)\<close> by (metis image_eqI)
      then show ?thesis by (auto simp: run filter_empty_conv)
    qed
    then show ?thesis
      using that assms run(3) by (simp add: assertOpenSession_def shifts_findById_def orElse_def query_def
          exec_def io_defs Let_def)
  qed
  then show "\<exists>s. fst ?r = Inr s \<and> sh_opening s = cash \<and>
        (sh_id s \<noteq> [] \<and> sh_id s \<notin> sh_id ` set (shifts w) \<longrightarrow>
         fst (assertOpenSession t (Some (sh_id s)) (snd ?r)) = Inr ())"
    using run(1) by auto
qed

definition demo_shift :: "string \<Rightarrow> shift_row" where
  "demo_shift i = \<lparr>sh_id = i, sh_tenant = ''t'', sh_branch = ''b'', sh_cashier = ''u'', sh_status = ''open'',
     sh_opening = 100, sh_closing = None, sh_expected = None, sh_discrepancy = None, sh_notes = None,
     sh_opened_at = 0, sh_closed_at = None, sh_deleted = False\<rparr>"

theorem openShift_single_witness:
  "open_count ''u'' ''t'' (snd (openShift ''b'' 100 None ''t'' ''u'' ''cashier'' ''ip'' ''dev'' demo_pos)) = 1"
proof -
  have "open_count ''u'' ''t'' demo_pos = 0" by (simp add: open_count_def demo_pos_def catalog.extend_def)
  then show ?thesis
    using openShift_single [of demo_pos "''u''" "''t''" "''b''" 100 None "''cashier''" "''ip''" "''dev''"]
    by (simp add: demo_pos_no_fault)
qed

text \<open>The guard against a second session is lost when its lookup fails.  \<^verbatim>\<open>findOpenByUser\<close> drops
  the error of its query, so that both a failed call and a cashier who already has two open
  sessions (for which \<^verbatim>\<open>maybeSingle\<close> reports an error) look like no session at all: \<^verbatim>\<open>openShift\<close>
  then opens one more.\<close>

theorem openShift_guard_lost:
  assumes "\<forall>n. n \<noteq> calls w \<longrightarrow> fault w n = None" "fault w (calls w) \<noteq> None \<or> 2 \<le> open_count a t w"
  shows "(\<exists>s. fst (openShift b cash notes t a role ip dev w) = Inr s) \<and>
    open_count a t (snd (openShift b cash notes t a role ip dev w)) = Suc (open_count a t w)"
proof -
  have none: "(case fault w (calls w) of Some e \<Rightarrow> None
      | None \<Rightarrow> (case maybeSingle (filter (open_by a t) (shifts w)) of Inl e \<Rightarrow> None | Inr x \<Rightarrow> x)) = None"
    using assms(2) by (auto simp: open_count_def maybeSingle_def split: option.split list.split)
  have "shifts_findOpenByUser a t w = (Inr None, w\<lparr>calls := Suc (calls w)\<rparr>)"
    using none by (auto simp: shifts_findOpenByUser_def orElse_def query_def exec_def io_defs Let_def
        split: option.splits sum.splits)
  then show ?thesis
    using assms(1)
    by (simp add: openShift_def shifts_create_def notify_def statement_def audit_log_def now_def
        orThrow_def orError_def query_def exec_def io_defs validateNoDoubleShift_def fresh_id_def Let_def
        open_count_def open_by_def)
qed

theorem openShift_guard_lost_witness:
  "open_count ''u'' ''t'' (snd (openShift ''b'' 0 None ''t'' ''u'' ''cashier'' ''ip'' ''dev''
     (demo_pos\<lparr>shifts := [demo_shift ''s1'', demo_shift ''s2'']\<rparr>))) = 3"
proof -
  let ?w = "demo_pos\<lparr>shifts := [demo_shift ''s1'', demo_shift ''s2'']\<rparr>"
  have "open_count ''u'' ''t'' ?w = 2" by (simp add: open_count_def open_by_def demo_shift_def)
  then show ?thesis
    using openShift_guard_lost [of ?w "''u''" "''t''" "''b''" 0 None "''cashier''" "''ip''" "''dev''"]
    by (simp add: demo_pos_no_fault)
qed

section \<open>Closing\<close>

definition closed_as :: "number \<Rightarrow> number \<Rightarrow> number \<Rightarrow> int \<Rightarrow> shift_row \<Rightarrow> shift_row" where
  "closed_as closing expected disc t s = s\<lparr>sh_status := ''closed'', sh_closing := Some closing,
     sh_expected := Some expected, sh_discrepancy := Some disc, sh_closed_at := Some t\<rparr>"

text \<open>C19. Only its own cashier closes an open session, and closing touches no other session, whatever
  calls fail.  After \<^verbatim>\<open>closeShift\<close> either no session has changed, or there was one session with
  that identifier in the tenant, open (not closed), not deleted and of the acting cashier, and
  it is now closed with the counted cash and the discrepancy counted minus expected.\<close>

theorem closeShift_guarded:
  "shifts (snd (closeShift sid cash t a role ip dev w)) = shifts w \<or>
   (\<exists>s expected ts. filter (\<lambda>s. sh_id s = sid \<and> sh_tenant s = t \<and> \<not> sh_deleted s) (shifts w) = [s] \<and>
      sh_cashier s = a \<and> sh_status s \<noteq> ''closed'' \<and>
      shifts (snd (closeShift sid cash t a role ip dev w)) =
        update_where (\<lambda>s. sh_id s = sid \<and> sh_tenant s = t)
          (closed_as cash expected (fsub cash expected) ts) (shifts w))"
  (is "?P (snd (closeShift sid cash t a role ip dev w))")
proof -
  define P :: "'a pos_scheme \<Rightarrow> bool" where "P = ?P"
  let ?Q = "\<lambda>_. P"
  have same: "shifts v = shifts w \<Longrightarrow> P v" for v by (simp add: P_def)
  have find: "wp (shifts_findById sid t) (\<lambda>r w'. shifts w' = shifts w \<and> (\<forall>s. r = Some s \<longrightarrow>
      filter (\<lambda>s. sh_id s = sid \<and> sh_tenant s = t \<and> \<not> sh_deleted s) (shifts w) = [s])) ?Q w"
    unfolding shifts_findById_def
    by (auto simp: wp_rules split: option.split sum.split dest!: maybeSingle_SomeD)
  have close: "wp (bindE (shifts_close sid t cash e d) m) ?Q ?Q v"
    if "shifts v = shifts w" "filter (\<lambda>s. sh_id s = sid \<and> sh_tenant s = t \<and> \<not> sh_deleted s) (shifts w) = [s]"
      "sh_cashier s = a" "sh_status s \<noteq> ''closed''" "d = fsub cash e" "\<And>c. keeps shifts (m c)" for s e d v m
  proof (rule wp_bind [where R = ?Q])
    show "wp (shifts_close sid t cash e d) ?Q ?Q v"
      using that(1-5) unfolding shifts_close_def P_def closed_as_def [abs_def]
      by (auto simp: wp_rules Let_def split: option.split sum.split)
    show "P v' \<Longrightarrow> wp (m c) ?Q ?Q v'" for c v'
      by (rule wp_mono [OF keeps_wp [OF that(6) refl]]) (auto simp: P_def)
  qed
  have disc: "discrepancy (buildShiftSummary o1 c is es) = fsub c (expectedCash (buildShiftSummary o1 c is es))"
    for o1 c "is" es by (simp add: buildShiftSummary_def Let_def)
  have "wp (closeShift sid cash t a role ip dev) ?Q ?Q w"
    unfolding closeShift_def Let_def
    apply (rule wp_bind, rule wp_mono [OF find], assumption, assumption)
    apply (simp add: wp_case_option wp_throw same split: option.split, intro allI impI)
    apply (simp add: wp_bindE [of "require _ _"] wp_require same)
    apply (intro impI)
    apply (rule wp_bind_keep [where v = shifts], intro keep_rules)
     apply (rule wp_bind_keep [where v = shifts], intro keep_rules)
      apply (rule close)
           apply simp
          apply blast
         apply assumption
        apply assumption
       apply (rule disc)
      apply (intro keep_rules)
     apply (simp_all add: same)
    done
  then show ?thesis by (simp add: wp_snd P_def)
qed

text \<open>C18. A closed session states the right discrepancy.  If no call fails, \<^verbatim>\<open>closeShift\<close> on the
  cashier's open session returns a summary of exactly the completed orders and the expenses of
  that session, and the discrepancy it stores, rounded to hundredths, is the counted cash minus
  (opening cash + cash taken - approved expenses) of these orders and expenses.  Orders may be
  paid by any method: only those in cash, and the cash part of split ones, are cash taken.  The
  amounts are whole hundredths, there are at most 500 orders and expenses, and cash taken,
  approved expenses, opening and counted cash are each within \<open>subtotal_bound\<close>.  When the read of
  the orders fails, the session closes as if there were none (\<open>failed_read_is_empty\<close>).\<close>

theorem closeShift_reconciles:
  assumes "\<forall>n. fault w n = None" "filter (\<lambda>s. sh_id s = sid \<and> sh_tenant s = t) (shifts w) = [s]"
    and "\<not> sh_deleted s" "sh_status s \<noteq> ''closed''" "sh_cashier s = a"
    and "xs = map order_view (filter (completed_of sid t) (orders w))"
    and "es = map expense_view (filter (\<lambda>e. ex_shift e = Some sid \<and> ex_tenant e = t) (expenses w))"
    and "\<forall>i\<in>set xs. whole_order i" "\<forall>e\<in>set es. whole_expense e"
    and "length xs + length es \<le> 500" "(\<Sum>i\<leftarrow>xs. cash_part i) \<le> subtotal_bound"
    and "(\<Sum>e\<leftarrow>es. approved_part e) \<le> subtotal_bound"
    and "0 \<le> op" "op \<le> subtotal_bound" "0 \<le> cl" "cl \<le> subtotal_bound" "sh_opening s = cents op"
  shows "\<exists>closed d. fst (closeShift sid (cents cl) t a role ip dev w) =
      Inr (closed, buildShiftSummary (cents op) (cents cl) xs es) \<and>
    sh_status closed = ''closed'' \<and> sh_discrepancy closed = Some d \<and>
    to_cents d = cl - (op + (\<Sum>i\<leftarrow>xs. cash_part i) - (\<Sum>e\<leftarrow>es. approved_part e))"
proof -
  have one: "filter (\<lambda>s. sh_id s = sid \<and> sh_tenant s = t \<and> \<not> sh_deleted s) (shifts w) = [s]"
  proof -
    have "filter (\<lambda>s. sh_id s = sid \<and> sh_tenant s = t \<and> \<not> sh_deleted s) (shifts w) =
        filter (\<lambda>s. \<not> sh_deleted s) (filter (\<lambda>s. sh_id s = sid \<and> sh_tenant s = t) (shifts w))"
      by (auto intro: filter_cong)
    then show ?thesis using assms(2,3) by simp
  qed
  let ?sum = "buildShiftSummary (cents op) (cents cl) xs es"
  have "to_cents (discrepancy ?sum) = cl - (op + (\<Sum>i\<leftarrow>xs. cash_part i) - (\<Sum>e\<leftarrow>es. approved_part e))"
    using discrepancy_exact [OF assms(8-16)] .
  moreover have "\<exists>closed. fst (closeShift sid (cents cl) t a role ip dev w) = Inr (closed, ?sum) \<and>
      sh_status closed = ''closed'' \<and> sh_discrepancy closed = Some (discrepancy ?sum)"
    using assms(1,2,4-7,17) one
    by (simp add: closeShift_def shifts_findById_def shifts_close_def getShiftInvoices_def getShiftExpenses_def
        notify_def statement_def audit_log_def now_def orElse_def orThrow_def orError_def query_def exec_def
        io_defs Let_def)
  ultimately show ?thesis by blast
qed

text \<open>Three orders, in cash, by mada and split, and an approved expense: two riyals are missing.\<close>

definition shift_order :: "string \<Rightarrow> int \<Rightarrow> int option \<Rightarrow> order_row" where
  "shift_order m n c = order_payload.extend \<lparr>o_branch = ''b'', o_shift = Some ''s1'', o_cashier = ''u'', o_customer = None,
     o_status = ''completed'', o_subtotal = cents n, o_discount = 0, o_tax = 0, o_total = cents n, o_method = Some m,
     o_notes = None, o_coupon = None, o_attempt = None, o_cash = map_option cents c, o_card = None, o_held = False,
     o_visibility = None, o_held_by = None, o_held_at = None\<rparr> \<lparr>o_id = m, o_tenant = Some ''t'', o_deleted_at = None\<rparr>"

definition shift_cost :: expense_row where
  "shift_cost = \<lparr>ex_id = ''e'', ex_tenant = ''t'', ex_branch = ''b'', ex_shift = Some ''s1'', ex_template = None,
     ex_category = None, ex_requested_by = ''u'', ex_approved_by = Some ''m'', ex_title = ''ice'', ex_amount = cents 500,
     ex_notes = None, ex_photo = None, ex_type = ''one_time'', ex_recurrence = None, ex_status = ''approved'',
     ex_created = 0, ex_expires = 0, ex_resolved = Some 0, ex_deleted = False\<rparr>"

definition demo_till :: "unit pos_scheme" where
  "demo_till = demo_pos\<lparr>shifts := [(demo_shift ''s1'')\<lparr>sh_opening := cents 10000\<rparr>],
     orders := [shift_order ''cash'' 4600 None, shift_order ''mada'' 2000 None, shift_order ''split'' 3000 (Some 1000)],
     expenses := [shift_cost]\<rparr>"

theorem closeShift_reconciles_witness:
  "\<exists>closed d. fst (closeShift ''s1'' (cents 14900) ''t'' ''u'' ''cashier'' ''ip'' ''dev'' demo_till) =
    Inr (closed, buildShiftSummary (cents 10000) (cents 14900)
      (map order_view [shift_order ''cash'' 4600 None, shift_order ''mada'' 2000 None, shift_order ''split'' 3000 (Some 1000)])
      [expense_view shift_cost]) \<and>
    sh_status closed = ''closed'' \<and> sh_discrepancy closed = Some d \<and> to_cents d = - 200"
proof -
  let ?os = "[shift_order ''cash'' 4600 None, shift_order ''mada'' 2000 None, shift_order ''split'' 3000 (Some 1000)]"
  let ?s = "(demo_shift ''s1'')\<lparr>sh_opening := cents 10000\<rparr>"
  note d = shift_order_def order_payload.defs shift_cost_def order_view_def expense_view_def completed_of_def subtotal_bound_def
  have rows: "map order_view ?os = map order_view (filter (completed_of ''s1'' ''t'') (orders demo_till))"
    "[expense_view shift_cost] = map expense_view (filter (\<lambda>e. ex_shift e = Some ''s1'' \<and> ex_tenant e = ''t'') (expenses demo_till))"
    by (simp_all add: demo_till_def d)
  have parts: "map cash_part (map order_view ?os) = [4600, 0, 1000]" "map approved_part [expense_view shift_cost] = [500]"
    by (simp_all add: d cash_part_def approved_part_def nullish_def money_bound_def)
  have orders: "\<forall>i\<in>set (map order_view ?os). whole_order i" "\<forall>e\<in>set [expense_view shift_cost]. whole_expense e"
    by (auto simp: d whole_order_def whole_expense_def intro: exI [of _ 4600] exI [of _ 2000] exI [of _ 3000] exI [of _ 1000] exI [of _ 500])
  have open_shift: "filter (\<lambda>s. sh_id s = ''s1'' \<and> sh_tenant s = ''t'') (shifts demo_till) = [?s]"
    "\<forall>n. fault demo_till n = None" "\<not> sh_deleted ?s" "sh_status ?s \<noteq> ''closed''" "sh_cashier ?s = ''u''" "sh_opening ?s = cents 10000"
    by (simp_all add: demo_till_def demo_shift_def demo_pos_no_fault)
  show ?thesis
    using closeShift_reconciles [OF open_shift(2,1,3-5) rows orders _ _ _ _ _ _ _ open_shift(6), of 14900 "''cashier''" "''ip''" "''dev''"]
    unfolding parts by (simp add: subtotal_bound_def)
qed

text \<open>A failing read of the orders counts as no orders: the session closes all the same.\<close>

lemma failed_read_is_empty:
  "fault w (calls w) = Some e \<Longrightarrow> fst (getShiftInvoices sid t w) = Inr []"
  by (simp add: getShiftInvoices_def orElse_def query_def exec_def io_defs Let_def)

end
