(* ===== verification/Loyalty.thy ===== *)
theory Loyalty
  imports PosTables
begin

text \<open>
  The loyalty programme (\<^verbatim>\<open>core/loyalty\<close>): the SQL function \<^verbatim>\<open>fn_adjust_loyalty_points\<close> of migration
  069, \<^verbatim>\<open>LoyaltyService\<close> with its direct and its pooled path, and the tiers.  The row level
  security policies behind the pooled path are not modelled: the code's own tenant check is what
  the theorems rest on.
\<close>

section \<open>Tiers\<close>

record tier_dto =
  td_name :: "string option"
  td_min :: "number option"
  td_multiplier :: "number option"
  td_sort :: "int option"

definition scoped :: "string option \<Rightarrow> string \<Rightarrow> bool" where
  "scoped tenant rowTenant = (truthy tenant \<longrightarrow> tenant = Some rowTenant)"

definition tiers_findAll :: "string option \<Rightarrow> ('w pos_scheme, tier_row list) io" where
  "tiers_findAll tenant = orThrow (query (\<lambda>w. Inr (sort_key ti_min
     (filter (\<lambda>t. \<not> ti_deleted t \<and> scoped tenant (ti_tenant t)) (loyalty_tiers w)))))"

definition tiers_findById :: "string option \<Rightarrow> string \<Rightarrow> ('w pos_scheme, tier_row option) io" where
  "tiers_findById tenant tid = orThrow (query (\<lambda>w. maybeSingle
     (filter (\<lambda>t. \<not> ti_deleted t \<and> scoped tenant (ti_tenant t) \<and> ti_id t = tid) (loyalty_tiers w))))"

text \<open>\<^verbatim>\<open>order(..., { ascending: false }).limit(1)\<close>: of equal thresholds the first.\<close>

definition findMatchingTier :: "string \<Rightarrow> number \<Rightarrow> ('w pos_scheme, tier_row option) io" where
  "findMatchingTier tenantId lifetimePoints = orThrow (query (\<lambda>w.
     let ok = filter (\<lambda>t. ti_tenant t = tenantId \<and> \<not> ti_deleted t \<and> ti_min t \<le> lifetimePoints) (loyalty_tiers w)
     in Inr (find (\<lambda>t. \<forall>u\<in>set ok. ti_min u \<le> ti_min t) ok)))"

text \<open>The constraints of the table: \<^verbatim>\<open>CHECK\<close>s, and names unique among the live tiers of a tenant.\<close>

definition tier_check :: "tier_row list \<Rightarrow> tier_row \<Rightarrow> db_error option" where
  "tier_check others t =
     (if ti_min t < 0 \<or> ti_multiplier t \<le> 0 then Some check_violation
      else if \<not> ti_deleted t \<and> (\<exists>u\<in>set others. \<not> ti_deleted u \<and> ti_tenant u = ti_tenant t \<and> ti_name u = ti_name t)
      then Some unique_violation else None)"

definition duplicate_as :: "string \<Rightarrow> exn \<Rightarrow> exn" where
  "duplicate_as msg e = (if isUniqueViolation e then bad_request msg else e)"

definition tiers_create :: "string option \<Rightarrow> tier_dto \<Rightarrow> ('w pos_scheme, tier_row) io" where
  "tiers_create tenant dto = catchE (statement (\<lambda>w. case tenant of
       None \<Rightarrow> (Inl not_null_violation, w)
     | Some t \<Rightarrow>
       let row = \<lparr>ti_id = fresh_id w, ti_tenant = t, ti_name = nullish (td_name dto) [],
             ti_min = nullish (td_min dto) 0, ti_multiplier = nullish (td_multiplier dto) 1,
             ti_sort = nullish (td_sort dto) 0, ti_deleted = False\<rparr>
       in case tier_check (loyalty_tiers w) row of
            Some e \<Rightarrow> (Inl e, w)
          | None \<Rightarrow> (Inr row, w\<lparr>loyalty_tiers := loyalty_tiers w @ [row]\<rparr>)))
     (\<lambda>e. throw (duplicate_as ''A tier with this name already exists'' e))"

definition tier_update :: "tier_dto \<Rightarrow> tier_row \<Rightarrow> tier_row" where
  "tier_update dto t = t\<lparr>ti_name := nullish (td_name dto) (ti_name t), ti_min := nullish (td_min dto) (ti_min t),
     ti_multiplier := nullish (td_multiplier dto) (ti_multiplier t), ti_sort := nullish (td_sort dto) (ti_sort t)\<rparr>"

definition tiers_update :: "string option \<Rightarrow> string \<Rightarrow> tier_dto \<Rightarrow> ('w pos_scheme, tier_row) io" where
  "tiers_update tenant tid dto = catchE (statement (\<lambda>w.
       let hit = (\<lambda>t. ti_id t = tid \<and> tenant = Some (ti_tenant t)) in
       case single (map (tier_update dto) (filter hit (loyalty_tiers w))) of
         Inl e \<Rightarrow> (Inl e, w)
       | Inr t \<Rightarrow> (case tier_check (filter (\<lambda>u. ti_id u \<noteq> tid) (loyalty_tiers w)) t of
           Some e \<Rightarrow> (Inl e, w)
         | None \<Rightarrow> (Inr t, w\<lparr>loyalty_tiers := update_where hit (tier_update dto) (loyalty_tiers w)\<rparr>))))
     (\<lambda>e. throw (duplicate_as ''A tier with this name already exists'' e))"

definition tiers_softDelete :: "string option \<Rightarrow> string \<Rightarrow> ('w pos_scheme, unit) io" where
  "tiers_softDelete tenant tid = statement (\<lambda>w. (Inr (), w\<lparr>loyalty_tiers :=
     update_where (\<lambda>t. ti_id t = tid \<and> tenant = Some (ti_tenant t)) (\<lambda>t. t\<lparr>ti_deleted := True\<rparr>) (loyalty_tiers w)\<rparr>))"

definition tier_update_handler :: "string option \<Rightarrow> string \<Rightarrow> tier_dto \<Rightarrow> ('w pos_scheme, tier_row) io" where
  "tier_update_handler tenant tid dto = bindE (tiers_findById tenant tid) (\<lambda>existing.
     bindE (require (existing \<noteq> None) (not_found ''Loyalty tier not found'')) (\<lambda>_. tiers_update tenant tid dto))"

definition tier_remove_handler :: "string option \<Rightarrow> string \<Rightarrow> ('w pos_scheme, string) io" where
  "tier_remove_handler tenant tid = bindE (tiers_findById tenant tid) (\<lambda>existing.
     bindE (require (existing \<noteq> None) (not_found ''Loyalty tier not found'')) (\<lambda>_.
     bindE (tiers_softDelete tenant tid) (\<lambda>_. ret ''Loyalty tier deleted'')))"

section \<open>LoyaltyService\<close>

record loyalty_settings =
  points_per_currency :: number
  redemption_value :: number
  loyalty_on :: bool

text \<open>\<^verbatim>\<open>0.01\<close> is the double \<^term>\<open>cents 1\<close>.\<close>

definition getSettings :: "string \<Rightarrow> ('w pos_scheme, loyalty_settings) io" where
  "getSettings tenantId =
     bindE (query (\<lambda>w. maybeSingle (filter (\<lambda>t. t_id t = tenantId) (tenants w)))) (\<lambda>r. ret (case r of
       Inr (Some d) \<Rightarrow> \<lparr>points_per_currency = nullish (t_points_per_currency d) 1,
         redemption_value = nullish (t_redemption_value d) (cents 1), loyalty_on = nullish (t_loyalty_enabled d) True\<rparr>
     | _ \<Rightarrow> \<lparr>points_per_currency = 1, redemption_value = cents 1, loyalty_on = True\<rparr>))"

definition calculatePointsEarned :: "number \<Rightarrow> loyalty_settings \<Rightarrow> number" where
  "calculatePointsEarned amountSpent s = of_int \<lfloor>fmul amountSpent (points_per_currency s)\<rfloor>"

definition calculateRedemptionValue :: "number \<Rightarrow> loyalty_settings \<Rightarrow> number" where
  "calculateRedemptionValue points s = round2 (fmul points (redemption_value s))"

definition customer_of :: "string \<Rightarrow> string \<Rightarrow> customer_row \<Rightarrow> bool" where
  "customer_of tenantId customerId c = (c_id c = customerId \<and> c_tenant c = tenantId)"

definition assertCustomerInTenant :: "string \<Rightarrow> string \<Rightarrow> ('w pos_scheme, unit) io" where
  "assertCustomerInTenant tenantId customerId =
     bindE (orError (query (\<lambda>w. maybeSingle (filter (customer_of tenantId customerId) (customers w))))) (\<lambda>d.
     require (d \<noteq> None) (bad_request ''Customer not found''))"

definition adjustable :: "string \<Rightarrow> number \<Rightarrow> customer_row \<Rightarrow> bool" where
  "adjustable customerId delta c = (c_id c = customerId \<and> 0 \<le> c_points c + delta)"

definition adjusted :: "number \<Rightarrow> customer_row \<Rightarrow> customer_row" where
  "adjusted delta c = c\<lparr>c_points := c_points c + delta, c_lifetime := c_lifetime c + max delta 0\<rparr>"

definition fn_adjust_loyalty_points ::
  "string \<Rightarrow> number \<Rightarrow> 'w pos_scheme \<Rightarrow> (db_error + customer_row list) \<times> 'w pos_scheme" where
  "fn_adjust_loyalty_points customerId delta w =
     (Inr (map (adjusted delta) (filter (adjustable customerId delta) (customers w))),
      w\<lparr>customers := update_where (adjustable customerId delta) (adjusted delta) (customers w)\<rparr>)"

definition awardPoints :: "string \<Rightarrow> string \<Rightarrow> number \<Rightarrow> ('w pos_scheme, unit) io" where
  "awardPoints tenantId customerId points =
     (if points \<le> 0 then ret () else
      bindE (assertCustomerInTenant tenantId customerId) (\<lambda>_.
      bindE (exec (fn_adjust_loyalty_points customerId points)) (\<lambda>_. ret ())))"

definition redeemPoints :: "string \<Rightarrow> string \<Rightarrow> number \<Rightarrow> ('w pos_scheme, unit) io" where
  "redeemPoints tenantId customerId points =
     (if points \<le> 0 then ret () else
      bindE (assertCustomerInTenant tenantId customerId) (\<lambda>_.
      bindE (orError (exec (fn_adjust_loyalty_points customerId (- points)))) (\<lambda>rows.
      require (rows \<noteq> []) (bad_request ''Insufficient loyalty points balance''))))"

definition getTierMultiplier :: "string \<Rightarrow> string \<Rightarrow> ('w pos_scheme, number) io" where
  "getTierMultiplier tenantId customerId =
     bindE (query (\<lambda>w. single (filter (customer_of tenantId customerId) (customers w)))) (\<lambda>r. case r of
       Inl e \<Rightarrow> ret 1
     | Inr d \<Rightarrow> bindE (findMatchingTier tenantId (c_lifetime d)) (\<lambda>tier.
         ret (case tier of None \<Rightarrow> 1 | Some t \<Rightarrow> ti_multiplier t)))"

definition getBalance :: "string \<Rightarrow> string \<Rightarrow> ('w pos_scheme, number) io" where
  "getBalance tenantId customerId =
     bindE (query (\<lambda>w. single (filter (customer_of tenantId customerId) (customers w)))) (\<lambda>r.
     ret (case r of Inl e \<Rightarrow> 0 | Inr d \<Rightarrow> c_points d))"

subsection \<open>The pooled path\<close>

definition assertCustomerInTenantPooled :: "string \<Rightarrow> string \<Rightarrow> ('w pos_scheme, unit) io" where
  "assertCustomerInTenantPooled tenantId customerId =
     bindE (statement (\<lambda>w. (Inr (filter (customer_of tenantId customerId) (customers w)), w))) (\<lambda>rows.
     require (rows \<noteq> []) (bad_request ''Customer not found''))"

definition getBalancePooled :: "string \<Rightarrow> string \<Rightarrow> ('w pos_scheme, number) io" where
  "getBalancePooled tenantId customerId = runInTenantContext
     (bindE (statement (\<lambda>w. (Inr (filter (customer_of tenantId customerId) (customers w)), w))) (\<lambda>rows.
      ret (case rows of [] \<Rightarrow> 0 | c # _ \<Rightarrow> c_points c)))"

definition awardPointsPooled :: "string \<Rightarrow> string \<Rightarrow> number \<Rightarrow> ('w pos_scheme, unit) io" where
  "awardPointsPooled tenantId customerId points =
     (if points \<le> 0 then ret () else runInTenantContext
      (bindE (assertCustomerInTenantPooled tenantId customerId) (\<lambda>_.
       bindE (statement (fn_adjust_loyalty_points customerId points)) (\<lambda>_. ret ()))))"

definition redeemPointsPooled :: "string \<Rightarrow> string \<Rightarrow> number \<Rightarrow> ('w pos_scheme, unit) io" where
  "redeemPointsPooled tenantId customerId points =
     (if points \<le> 0 then ret () else runInTenantContext
      (bindE (assertCustomerInTenantPooled tenantId customerId) (\<lambda>_.
       bindE (statement (fn_adjust_loyalty_points customerId (- points))) (\<lambda>rows.
       require (rows \<noteq> []) (bad_request ''Insufficient loyalty points balance'')))))"

section \<open>The ledger of points\<close>

text \<open>What may happen to one customer while a tenant moves points.\<close>

definition customer_moves :: "string \<Rightarrow> customer_row \<Rightarrow> customer_row \<Rightarrow> bool" where
  "customer_moves t c c' \<longleftrightarrow> c_id c' = c_id c \<and> c_tenant c' = c_tenant c \<and> c_deleted c' = c_deleted c \<and>
     (c_tenant c \<noteq> t \<longrightarrow> c' = c) \<and> c_lifetime c \<le> c_lifetime c' \<and>
     (0 \<le> c_points c \<longrightarrow> 0 \<le> c_points c') \<and>
     c_points c' - c_points c \<le> c_lifetime c' - c_lifetime c"

definition ledger_effect :: "string \<Rightarrow> customer_row list \<Rightarrow> customer_row list \<Rightarrow> bool" where
  "ledger_effect t cs cs' = list_all2 (customer_moves t) cs cs'"

lemma customer_moves_refl [simp]: "customer_moves t c c"
  by (simp add: customer_moves_def)

lemma customer_moves_trans: "customer_moves t a b \<Longrightarrow> customer_moves t b c \<Longrightarrow> customer_moves t a c"
  by (auto simp: customer_moves_def)

lemma ledger_effect_refl [simp]: "ledger_effect t cs cs"
  by (simp add: ledger_effect_def list_all2_same)

lemma ledger_effect_trans: "ledger_effect t as bs \<Longrightarrow> ledger_effect t bs cs \<Longrightarrow> ledger_effect t as cs"
  unfolding ledger_effect_def by (rule list_all2_trans [OF customer_moves_trans])

lemma ledger_effect_ids: "ledger_effect t cs cs' \<Longrightarrow> map c_id cs' = map c_id cs"
  unfolding ledger_effect_def by (induction rule: list_all2_induct) (simp_all add: customer_moves_def)

lemma adjusted_moves: "0 \<le> c_points c + d \<Longrightarrow> c_tenant c = t \<Longrightarrow> customer_moves t c (adjusted d c)"
  by (simp add: customer_moves_def adjusted_def max_def)

lemma adjust_effect:
  assumes "distinct (map c_id cs)" "filter (customer_of t cid) cs \<noteq> []"
  shows "ledger_effect t cs (update_where (adjustable cid d) (adjusted d) cs)"
proof -
  obtain c where c: "c \<in> set cs" "c_id c = cid" "c_tenant c = t"
    using assms(2) by (auto simp: customer_of_def filter_empty_conv)
  have "c_tenant x = t" if "x \<in> set cs" "c_id x = cid" for x
    using assms(1) c that by (metis distinct_map inj_onD)
  then show ?thesis
    by (auto simp: ledger_effect_def update_where_def list_all2_map2 list_all2_same adjustable_def
        intro: adjusted_moves)
qed

lemma wp_assertCustomerInTenant:
  "wp (assertCustomerInTenant t cid)
     (\<lambda>_ v. customers v = customers w \<and> filter (customer_of t cid) (customers w) \<noteq> [])
     (\<lambda>_ v. customers v = customers w) w"
  by (auto simp: assertCustomerInTenant_def wp_rules split: option.split sum.split dest!: maybeSingle_SomeD)

lemma wp_adjust:
  assumes "distinct (map c_id (customers w))" "filter (customer_of t cid) (customers w) \<noteq> []"
    and "customers v = customers w"
  shows "wp (exec (fn_adjust_loyalty_points cid d)) (\<lambda>_ v'. ledger_effect t (customers w) (customers v')) E v"
  using adjust_effect [OF assms(1,2)] assms(3)
  by (simp add: wp_rules fn_adjust_loyalty_points_def split: option.split)

text \<open>Both paths, whatever fails.\<close>

lemma move_direct:
  fixes w :: "'w pos_scheme"
  assumes "distinct (map c_id (customers w))" "\<And>r. keeps customers (k r)"
  shows "wp (bindE (assertCustomerInTenant t cid) (\<lambda>_. bindE (exec (fn_adjust_loyalty_points cid d)) k))
     (\<lambda>_ v. ledger_effect t (customers w) (customers v)) (\<lambda>_ v. ledger_effect t (customers w) (customers v)) w"
proof (rule wp_bind [where R = "\<lambda>_ v. customers v = customers w \<and> filter (customer_of t cid) (customers w) \<noteq> []"])
  show "wp (assertCustomerInTenant t cid)
     (\<lambda>_ v. customers v = customers w \<and> filter (customer_of t cid) (customers w) \<noteq> [])
     (\<lambda>_ v. ledger_effect t (customers w) (customers v)) w"
    by (rule wp_mono [OF wp_assertCustomerInTenant]) auto
next
  fix u and v :: "'w pos_scheme" assume v: "customers v = customers w \<and> filter (customer_of t cid) (customers w) \<noteq> []"
  show "wp (bindE (exec (fn_adjust_loyalty_points cid d)) k)
     (\<lambda>_ v. ledger_effect t (customers w) (customers v)) (\<lambda>_ v. ledger_effect t (customers w) (customers v)) v"
    by (rule wp_bind [OF wp_adjust], rule assms, use v in blast, use v in blast,
        rule wp_mono [OF keeps_wp [OF assms(2) refl]]) auto
qed

lemma award_effect:
  assumes "distinct (map c_id (customers w))"
  shows "ledger_effect t (customers w) (customers (snd (awardPoints t cid p w)))"
proof (cases "p \<le> 0")
  case False
  then have "wp (awardPoints t cid p) (\<lambda>_ v. ledger_effect t (customers w) (customers v))
      (\<lambda>_ v. ledger_effect t (customers w) (customers v)) w"
    unfolding awardPoints_def by (simp, intro move_direct [OF assms] keep_rules)
  then show ?thesis by (simp add: wp_snd)
qed (simp add: awardPoints_def ret_def)

lemma bind_orError:
  "bindE (orError m) f = bindE m (\<lambda>r. bindE (case r of Inl e \<Rightarrow> throw (Err (message e)) | Inr x \<Rightarrow> ret x) f)"
  by (rule ext) (auto simp: orError_def bindE_def split: prod.split sum.split)

lemma bind_statement:
  "bindE (statement m) f = bindE (exec m) (\<lambda>r. bindE (case r of Inl e \<Rightarrow> throw (Db e) | Inr x \<Rightarrow> ret x) f)"
  by (rule ext) (auto simp: statement_def orThrow_def bindE_def split: prod.split sum.split)

lemma redeem_effect:
  assumes "distinct (map c_id (customers w))"
  shows "ledger_effect t (customers w) (customers (snd (redeemPoints t cid p w)))"
proof (cases "p \<le> 0")
  case False
  have "wp (redeemPoints t cid p) (\<lambda>_ v. ledger_effect t (customers w) (customers v))
      (\<lambda>_ v. ledger_effect t (customers w) (customers v)) w"
    unfolding redeemPoints_def bind_orError using False
    by (simp, intro move_direct [OF assms] keep_rules)
  then show ?thesis by (simp add: wp_snd)
qed (simp add: redeemPoints_def ret_def)

lemma move_pooled:
  fixes w :: "'w pos_scheme"
  assumes "distinct (map c_id (customers w))" "\<And>r. keeps customers (k r)"
  shows "wp (runInTenantContext (bindE (assertCustomerInTenantPooled t cid)
       (\<lambda>_. bindE (statement (fn_adjust_loyalty_points cid d)) k)))
     (\<lambda>_ v. ledger_effect t (customers w) (customers v)) (\<lambda>_ v. ledger_effect t (customers w) (customers v)) w"
proof (rule runInTenantContext_atomic)
  fix v :: "'w pos_scheme" assume "v = w\<lparr>calls := calls v\<rparr>"
  then have same: "customers v = customers w" by (metis pos.select_convs(5) pos.surjective net.update_convs(1))
  have check: "wp (assertCustomerInTenantPooled t cid)
      (\<lambda>_ u. customers u = customers w \<and> filter (customer_of t cid) (customers w) \<noteq> []) (\<lambda>_ _. True) v"
    by (simp add: assertCustomerInTenantPooled_def wp_rules same split: option.split)
  show "wp (bindE (assertCustomerInTenantPooled t cid) (\<lambda>_. bindE (statement (fn_adjust_loyalty_points cid d)) k))
      (\<lambda>_ u. \<forall>n. ledger_effect t (customers w) (customers (u\<lparr>calls := n\<rparr>))) (\<lambda>_ _. True) v"
  proof (rule wp_bind [OF check])
    fix u :: "'w pos_scheme" assume u: "customers u = customers w \<and> filter (customer_of t cid) (customers w) \<noteq> []"
    show "wp (bindE (statement (fn_adjust_loyalty_points cid d)) k)
        (\<lambda>_ u. \<forall>n. ledger_effect t (customers w) (customers (u\<lparr>calls := n\<rparr>))) (\<lambda>_ _. True) u"
      unfolding bind_statement
      by (rule wp_bind [OF wp_adjust], rule assms, use u in blast, use u in blast,
          rule wp_mono [OF keeps_wp [where f = customers, OF _ refl]], intro keep_rules assms(2)) auto
  qed
qed simp

lemma pooled_effect:
  assumes "distinct (map c_id (customers w))"
  shows "ledger_effect t (customers w) (customers (snd (awardPointsPooled t cid p w)))"
    "ledger_effect t (customers w) (customers (snd (redeemPointsPooled t cid p w)))"
proof -
  let ?J = "\<lambda>v. ledger_effect t (customers w) (customers v)"
  have "wp (awardPointsPooled t cid p) (\<lambda>_. ?J) (\<lambda>_. ?J) w" "wp (redeemPointsPooled t cid p) (\<lambda>_. ?J) (\<lambda>_. ?J) w"
    unfolding awardPointsPooled_def redeemPointsPooled_def wp_if
    by (auto simp: wp_ret intro!: move_pooled [OF assms] keep_rules)
  then show "?J (snd (awardPointsPooled t cid p w))" "?J (snd (redeemPointsPooled t cid p w))"
    by (simp_all add: wp_snd)
qed

text \<open>Any sequence of awards and redemptions in one tenant, on either path, successful or not.\<close>

inductive loyalty_step :: "string \<Rightarrow> 'w pos_scheme \<Rightarrow> 'w pos_scheme \<Rightarrow> bool" for t where
  award: "awardPoints t c p w = (r, w') \<Longrightarrow> loyalty_step t w w'"
| redeem: "redeemPoints t c p w = (r, w') \<Longrightarrow> loyalty_step t w w'"
| award_pooled: "awardPointsPooled t c p w = (r, w') \<Longrightarrow> loyalty_step t w w'"
| redeem_pooled: "redeemPointsPooled t c p w = (r, w') \<Longrightarrow> loyalty_step t w w'"

lemma loyalty_step_effect:
  "loyalty_step t w w' \<Longrightarrow> distinct (map c_id (customers w)) \<Longrightarrow> ledger_effect t (customers w) (customers w')"
  by (induction rule: loyalty_step.induct) (metis snd_conv award_effect redeem_effect pooled_effect)+

text \<open>C20. Points are never overdrawn and never leave their tenant, whatever is awarded and redeemed,
  on the direct or the pooled path, and whatever calls fail.  If customers have distinct
  identifiers, then after any sequence of these calls in tenant t every customer is still there;
  customers of other tenants are untouched; a balance that was not negative is not negative; the
  lifetime total never falls; and a balance never grows by more than the lifetime total.\<close>

theorem ledger_sound:
  assumes "(loyalty_step t)\<^sup>*\<^sup>* w w'" "distinct (map c_id (customers w))"
  shows "ledger_effect t (customers w) (customers w')"
  using assms
proof (induction rule: rtranclp_induct)
  case (step v u)
  then show ?case using loyalty_step_effect ledger_effect_trans ledger_effect_ids by metis
qed simp

lemma only_customer:
  assumes "distinct (map c_id cs)" "c \<in> set cs" "customer_of t cid c"
  shows "filter (customer_of t cid) cs = [c]"
    and "filter (adjustable cid d) cs = (if 0 \<le> c_points c + d then [c] else [])"
    and "\<And>x. x \<in> set cs \<Longrightarrow> c_id x = cid \<Longrightarrow> x = c"
proof -
  show uniq: "x = c" if "x \<in> set cs" "c_id x = cid" for x
    using assms that by (metis customer_of_def distinct_map inj_onD)
  have one: "filter Q cs = [c]" if "\<And>x. x \<in> set cs \<Longrightarrow> Q x \<longleftrightarrow> x = c" for Q
  proof -
    have "filter Q cs = filter (\<lambda>x. x = c) cs" using that by (auto intro: filter_cong)
    moreover have "length (filter (\<lambda>x. x = c) cs) = 1" "set (filter (\<lambda>x. x = c) cs) = {c}"
      using assms(1,2) distinct_map [of c_id cs] by (auto simp: distinct_length_filter)
    ultimately show ?thesis by (cases "filter (\<lambda>x. x = c) cs") auto
  qed
  show "filter (customer_of t cid) cs = [c]"
    using assms(3) uniq by (intro one) (auto simp: customer_of_def)
  show "filter (adjustable cid d) cs = (if 0 \<le> c_points c + d then [c] else [])"
    using assms(3) uniq by (auto intro!: one simp: adjustable_def customer_of_def filter_empty_conv)
qed

lemmas run_defs = runInTenantContext_def rollback_def silent_def statement_def orThrow_def orError_def
  query_def exec_def io_defs Let_def

lemma run_redeem_unknown:
  assumes "\<And>n. fault w n = None" "filter (customer_of t cid) (customers w) = []" "\<not> p \<le> 0"
  shows "redeemPoints t cid p w = (Inl (bad_request ''Customer not found''), w\<lparr>calls := calls w + 1\<rparr>)"
    and "pg_pool w \<Longrightarrow>
      redeemPointsPooled t cid p w = (Inl (bad_request ''Customer not found''), w\<lparr>calls := calls w + 5\<rparr>)"
  using assms by (simp_all add: redeemPoints_def redeemPointsPooled_def assertCustomerInTenant_def
      assertCustomerInTenantPooled_def run_defs)

lemma run_redeem_known:
  assumes "\<And>n. fault w n = None" "filter (customer_of t cid) (customers w) = [c]" "\<not> p \<le> 0"
    and "filter (adjustable cid (- p)) (customers w) = (if p \<le> c_points c then [c] else [])"
    and "update_where (adjustable cid (- p)) (adjusted (- p)) (customers w) = cs"
  shows "redeemPoints t cid p w = (if p \<le> c_points c then Inr () else
        Inl (bad_request ''Insufficient loyalty points balance''), w\<lparr>calls := calls w + 2, customers := cs\<rparr>)"
    and "pg_pool w \<Longrightarrow> redeemPointsPooled t cid p w = (if p \<le> c_points c then
        (Inr (), w\<lparr>calls := calls w + 6, customers := cs\<rparr>) else
        (Inl (bad_request ''Insufficient loyalty points balance''), w\<lparr>calls := calls w + 6\<rparr>))"
  using assms by (simp_all add: redeemPoints_def redeemPointsPooled_def assertCustomerInTenant_def
      assertCustomerInTenantPooled_def fn_adjust_loyalty_points_def run_defs)

text \<open>C21. Redemption is exact, and the pooled path does what the direct one does.  If nothing fails
  and identifiers are distinct, redeeming p > 0 points succeeds exactly if the customer is in the
  tenant and has at least p points; then the balance is smaller by p and the lifetime total as
  before, and otherwise nothing changes.\<close>

theorem redeem_exact:
  assumes "\<forall>n. fault w n = None" "pg_pool w" "distinct (map c_id (customers w))" "0 < p"
  shows "(fst (redeemPoints t cid p w) = Inr () \<longleftrightarrow>
      (\<exists>c\<in>set (customers w). customer_of t cid c \<and> p \<le> c_points c)) \<and>
    customers (snd (redeemPoints t cid p w)) = (if fst (redeemPoints t cid p w) = Inr ()
      then update_where (\<lambda>c. c_id c = cid) (\<lambda>c. c\<lparr>c_points := c_points c - p\<rparr>) (customers w)
      else customers w) \<and>
    fst (redeemPointsPooled t cid p w) = fst (redeemPoints t cid p w) \<and>
    customers (snd (redeemPointsPooled t cid p w)) = customers (snd (redeemPoints t cid p w))"
proof -
  have p: "\<not> p \<le> 0" using assms(4) by simp
  have nofault: "fault w n = None" for n using assms(1) by blast
  show ?thesis
  proof (cases "\<exists>c\<in>set (customers w). customer_of t cid c")
    case False
    then have none: "filter (customer_of t cid) (customers w) = []" by (auto simp: filter_empty_conv)
    show ?thesis
      using False by (auto simp: run_redeem_unknown [OF nofault none p] assms(2))
  next
    case True
    then obtain c where c: "c \<in> set (customers w)" "customer_of t cid c" by blast
    note only = only_customer [OF assms(3) c]
    let ?cs = "if p \<le> c_points c then update_where (\<lambda>c. c_id c = cid) (\<lambda>c. c\<lparr>c_points := c_points c - p\<rparr>) (customers w)
       else customers w"
    have same: "update_where (adjustable cid (- p)) (adjusted (- p)) (customers w) = ?cs"
      using only(3) assms(4) by (auto simp: update_where_def adjustable_def adjusted_def max_def intro!: map_idI)
    have adj: "filter (adjustable cid (- p)) (customers w) = (if p \<le> c_points c then [c] else [])"
      by (simp add: only(2))
    have ok: "(\<exists>c\<in>set (customers w). customer_of t cid c \<and> p \<le> c_points c) \<longleftrightarrow> p \<le> c_points c"
      using only(3) c unfolding customer_of_def by metis
    show ?thesis
      unfolding ok run_redeem_known [OF nofault only(1) p adj same] run_redeem_known(2) [OF nofault only(1) p adj same assms(2)]
      by simp
  qed
qed

theorem ledger_sound_witness:
  "ledger_effect ''t'' (customers demo_pos)
     (customers (snd (redeemPointsPooled ''t'' ''c'' 60 (snd (awardPoints ''t'' ''c'' 30 demo_pos)))))"
  by (rule ledger_sound [OF rtranclp_trans [OF r_into_rtranclp r_into_rtranclp]],
      rule loyalty_step.award, rule surjective_pairing, rule loyalty_step.redeem_pooled, rule surjective_pairing)
     (simp add: demo_pos_def catalog.extend_def)

theorem redeem_exact_witness:
  "fst (redeemPoints ''t'' ''c'' 60 demo_pos) = Inr () \<and>
   customers (snd (redeemPointsPooled ''t'' ''c'' 60 demo_pos)) =
     [\<lparr>c_id = ''c'', c_tenant = ''t'', c_points = 40, c_lifetime = 250, c_deleted = False\<rparr>]"
proof -
  have "customers demo_pos = [\<lparr>c_id = ''c'', c_tenant = ''t'', c_points = 100, c_lifetime = 250, c_deleted = False\<rparr>]"
    "pg_pool demo_pos" by (simp_all add: demo_pos_def catalog.extend_def)
  then show ?thesis
    using redeem_exact [of demo_pos 60 "''t''" "''c''"]
    by (simp add: demo_pos_no_fault customer_of_def update_where_def)
qed

end
