(* ===== verification/Coupons.thy ===== *)
theory Coupons
  imports Loyalty
begin

text \<open>
  \<^verbatim>\<open>modules/coupons\<close>: the repository with the constraints of migration 068, the SQL function
  \<^verbatim>\<open>fn_redeem_coupon\<close>, and \<^verbatim>\<open>CouponsService\<close>.
\<close>

section \<open>Strings and numbers in messages\<close>

text \<open>
  \<^verbatim>\<open>toUpperCase\<close> on code units below 256.  Two of them, the micro sign and y with diaeresis, have
  an upper case outside this range; they are kept.
\<close>

definition upper_char :: "char \<Rightarrow> string" where
  "upper_char c = (let n = of_char c :: nat in
     if 97 \<le> n \<and> n \<le> 122 \<or> 224 \<le> n \<and> n \<le> 254 \<and> n \<noteq> 247 then [char_of (n - 32)]
     else if n = 223 then ''SS'' else [c])"

definition toUpperCase :: "string \<Rightarrow> string" where
  "toUpperCase s = concat (map upper_char s)"

text \<open>
  A number in a template literal, for numbers written without exponent (from one millionth up to
  2 to the 53rd, or 0): the fewest decimals that round to the same double.
\<close>

fun decimals_from :: "nat \<Rightarrow> nat \<Rightarrow> number \<Rightarrow> nat" where
  "decimals_from 0 k x = k"
| "decimals_from (Suc fuel) k x =
     (if fl (of_int (rne (x * 10 ^ k)) / 10 ^ k) = x then k else decimals_from fuel (Suc k) x)"

fun digits :: "nat \<Rightarrow> nat \<Rightarrow> string" where
  "digits 0 n = []"
| "digits (Suc k) n = digits k (n div 10) @ [char_of (48 + n mod 10)]"

definition number_str :: "number \<Rightarrow> string" where
  "number_str x = (let y = \<bar>x\<bar>; k = decimals_from 25 0 y; n = nat (rne (y * 10 ^ k)) in
     (if x < 0 then ''-'' else []) @ nat_str (n div 10 ^ k) @
     (if k = 0 then [] else ''.'' @ digits k (n mod 10 ^ k)))"

lemma number_str_examples:
  "number_str 50 = ''50''" "number_str (fl (1999 / 100)) = ''19.99''" "number_str (fl (1 / 10)) = ''0.1''"
  by code_simp+

section \<open>CouponsRepository\<close>

text \<open>
  In an update an absent field keeps its column.  \<open>Some None\<close> is an explicit \<^verbatim>\<open>null\<close>, which the
  validation lets through for the optional columns.
\<close>

record create_coupon =
  nc_code :: string
  nc_type :: discount_type
  nc_value :: number
  nc_max_discount :: "number option"
  nc_min_order :: "number option"
  nc_max_uses :: "int option"
  nc_from :: "int option"
  nc_to :: "int option"

record update_coupon =
  uc_code :: "string option"
  uc_type :: "discount_type option"
  uc_value :: "number option"
  uc_max_discount :: "number option option"
  uc_min_order :: "number option option"
  uc_max_uses :: "int option option"
  uc_from :: "int option option"
  uc_to :: "int option option"
  uc_active :: "bool option"

definition live_coupon :: "string option \<Rightarrow> coupon_row \<Rightarrow> bool" where
  "live_coupon tenant c = (\<not> cp_deleted c \<and> scoped tenant (cp_tenant c))"

definition coupons_findAll :: "string option \<Rightarrow> ('w pos_scheme, coupon_row list) io" where
  "coupons_findAll tenant = orThrow (query (\<lambda>w. Inr (rev (filter (live_coupon tenant) (coupons w)))))"

definition coupons_findById :: "string option \<Rightarrow> string \<Rightarrow> ('w pos_scheme, coupon_row option) io" where
  "coupons_findById tenant cid = orThrow (query (\<lambda>w.
     maybeSingle (filter (\<lambda>c. live_coupon tenant c \<and> cp_id c = cid) (coupons w))))"

definition findByCode :: "string option \<Rightarrow> string \<Rightarrow> ('w pos_scheme, coupon_row option) io" where
  "findByCode tenant c = orThrow (query (\<lambda>w.
     maybeSingle (filter (\<lambda>r. live_coupon tenant r \<and> cp_code r = toUpperCase c) (coupons w))))"

definition coupon_check :: "coupon_row list \<Rightarrow> coupon_row \<Rightarrow> db_error option" where
  "coupon_check others c =
     (if cp_value c \<le> 0 \<or> (\<exists>m. cp_max_discount c = Some m \<and> m \<le> 0) \<or>
         (\<exists>m. cp_min_order c = Some m \<and> m < 0) \<or> (\<exists>n. cp_max_uses c = Some n \<and> n \<le> 0)
      then Some check_violation
      else if \<not> cp_deleted c \<and> (\<exists>d\<in>set others. \<not> cp_deleted d \<and> cp_tenant d = cp_tenant c \<and>
         toUpperCase (cp_code d) = toUpperCase (cp_code c))
      then Some unique_violation else None)"

definition repo_coupon_create :: "string option \<Rightarrow> create_coupon \<Rightarrow> ('w pos_scheme, coupon_row) io" where
  "repo_coupon_create tenant dto = catchE (statement (\<lambda>w. case tenant of
       None \<Rightarrow> (Inl not_null_violation, w)
     | Some t \<Rightarrow>
       let row = \<lparr>cp_id = fresh_id w, cp_tenant = t, cp_code = nc_code dto, cp_type = nc_type dto,
             cp_value = nc_value dto, cp_max_discount = nc_max_discount dto, cp_min_order = nc_min_order dto,
             cp_max_uses = nc_max_uses dto, cp_used = 0, cp_from = nc_from dto, cp_to = nc_to dto,
             cp_active = True, cp_deleted = False\<rparr>
       in case coupon_check (coupons w) row of
            Some e \<Rightarrow> (Inl e, w)
          | None \<Rightarrow> (Inr row, w\<lparr>coupons := coupons w @ [row]\<rparr>)))
     (\<lambda>e. throw (duplicate_as ''A coupon with this code already exists'' e))"

definition coupon_update :: "update_coupon \<Rightarrow> coupon_row \<Rightarrow> coupon_row" where
  "coupon_update dto c = c\<lparr>cp_code := nullish (uc_code dto) (cp_code c), cp_type := nullish (uc_type dto) (cp_type c),
     cp_value := nullish (uc_value dto) (cp_value c),
     cp_max_discount := nullish (uc_max_discount dto) (cp_max_discount c),
     cp_min_order := nullish (uc_min_order dto) (cp_min_order c),
     cp_max_uses := nullish (uc_max_uses dto) (cp_max_uses c),
     cp_from := nullish (uc_from dto) (cp_from c), cp_to := nullish (uc_to dto) (cp_to c),
     cp_active := nullish (uc_active dto) (cp_active c)\<rparr>"

definition repo_coupon_update :: "string option \<Rightarrow> string \<Rightarrow> update_coupon \<Rightarrow> ('w pos_scheme, coupon_row) io" where
  "repo_coupon_update tenant cid dto = catchE (statement (\<lambda>w.
       let hit = (\<lambda>c. cp_id c = cid \<and> tenant = Some (cp_tenant c)) in
       case single (map (coupon_update dto) (filter hit (coupons w))) of
         Inl e \<Rightarrow> (Inl e, w)
       | Inr c \<Rightarrow> (case coupon_check (filter (\<lambda>d. cp_id d \<noteq> cid) (coupons w)) c of
           Some e \<Rightarrow> (Inl e, w)
         | None \<Rightarrow> (Inr c, w\<lparr>coupons := update_where hit (coupon_update dto) (coupons w)\<rparr>))))
     (\<lambda>e. throw (duplicate_as ''A coupon with this code already exists'' e))"

definition repo_coupon_softDelete :: "string option \<Rightarrow> string \<Rightarrow> ('w pos_scheme, unit) io" where
  "repo_coupon_softDelete tenant cid = statement (\<lambda>w. (Inr (), w\<lparr>coupons :=
     update_where (\<lambda>c. cp_id c = cid \<and> tenant = Some (cp_tenant c))
       (\<lambda>c. c\<lparr>cp_deleted := True, cp_active := False\<rparr>) (coupons w)\<rparr>))"

definition redeemable :: "string \<Rightarrow> coupon_row \<Rightarrow> bool" where
  "redeemable cid c = (cp_id c = cid \<and> cp_active c \<and> \<not> cp_deleted c \<and>
     (case cp_max_uses c of None \<Rightarrow> True | Some n \<Rightarrow> cp_used c < n))"

definition used_once :: "coupon_row \<Rightarrow> coupon_row" where
  "used_once c = c\<lparr>cp_used := cp_used c + 1\<rparr>"

definition fn_redeem_coupon :: "string \<Rightarrow> 'w pos_scheme \<Rightarrow> (db_error + int list) \<times> 'w pos_scheme" where
  "fn_redeem_coupon cid w = (Inr (map (cp_used \<circ> used_once) (filter (redeemable cid) (coupons w))),
     w\<lparr>coupons := update_where (redeemable cid) used_once (coupons w)\<rparr>)"

definition repo_coupon_redeem :: "string \<Rightarrow> ('w pos_scheme, int option) io" where
  "repo_coupon_redeem cid = bindE (statement (fn_redeem_coupon cid)) (\<lambda>rows.
     ret (case rows of [] \<Rightarrow> None | n # _ \<Rightarrow> Some n))"

section \<open>CouponsService\<close>

definition coupon_create :: "string option \<Rightarrow> create_coupon \<Rightarrow> ('w pos_scheme, coupon_row) io" where
  "coupon_create tenant dto = bindE (findByCode tenant (nc_code dto)) (\<lambda>existing.
     bindE (require (existing = None) (bad_request ''A coupon with this code already exists'')) (\<lambda>_.
     repo_coupon_create tenant (dto\<lparr>nc_code := toUpperCase (nc_code dto)\<rparr>)))"

definition coupon_update_service :: "string option \<Rightarrow> string \<Rightarrow> update_coupon \<Rightarrow> ('w pos_scheme, coupon_row) io" where
  "coupon_update_service tenant cid dto = bindE (coupons_findById tenant cid) (\<lambda>existing.
     bindE (require (existing \<noteq> None) (not_found ''Coupon not found'')) (\<lambda>_. repo_coupon_update tenant cid dto))"

definition coupon_remove :: "string option \<Rightarrow> string \<Rightarrow> ('w pos_scheme, string) io" where
  "coupon_remove tenant cid = bindE (coupons_findById tenant cid) (\<lambda>existing.
     bindE (require (existing \<noteq> None) (not_found ''Coupon not found'')) (\<lambda>_.
     bindE (repo_coupon_softDelete tenant cid) (\<lambda>_. ret ''Coupon deleted'')))"

definition coupon_validate :: "string option \<Rightarrow> string \<Rightarrow> number \<Rightarrow> ('w pos_scheme, coupon_row) io" where
  "coupon_validate tenant c amount = bindE (findByCode tenant c) (\<lambda>found. case found of
       None \<Rightarrow> throw (bad_request ''Invalid coupon code'')
     | Some coupon \<Rightarrow>
       bindE (require (cp_active coupon) (bad_request ''This coupon is no longer active'')) (\<lambda>_.
       bindE now (\<lambda>t.
       bindE (require (case cp_from coupon of None \<Rightarrow> True | Some f \<Rightarrow> \<not> f > t)
         (bad_request ''This coupon is not valid yet'')) (\<lambda>_.
       bindE (require (case cp_to coupon of None \<Rightarrow> True | Some u \<Rightarrow> \<not> u < t)
         (bad_request ''This coupon has expired'')) (\<lambda>_.
       bindE (require (case cp_max_uses coupon of None \<Rightarrow> True | Some n \<Rightarrow> \<not> cp_used coupon \<ge> n)
         (bad_request ''This coupon has reached its usage limit'')) (\<lambda>_.
       bindE (require (case cp_min_order coupon of None \<Rightarrow> True | Some m \<Rightarrow> \<not> (m \<noteq> 0 \<and> amount < m))
         (bad_request (''This coupon requires a minimum order of '' @
            number_str (nullish (cp_min_order coupon) 0)))) (\<lambda>_.
       ret coupon)))))))"

definition calculateDiscount :: "coupon_row \<Rightarrow> number \<Rightarrow> number" where
  "calculateDiscount coupon amount =
     (let raw = (case cp_type coupon of
            Percentage \<Rightarrow> applyPercentageDiscount amount (cp_value coupon)
          | Fixed \<Rightarrow> applyFixedDiscount amount (cp_value coupon));
          capped = (case cp_max_discount coupon of
            None \<Rightarrow> raw | Some m \<Rightarrow> if m = 0 then raw else checkMaxDiscount raw m)
      in checkMaxDiscount capped amount)"

text \<open>Best effort: a lost race and a failure are only logged.\<close>

definition coupon_redeem :: "string \<Rightarrow> ('w pos_scheme, unit) io" where
  "coupon_redeem couponId = catchE (bindE (repo_coupon_redeem couponId) (\<lambda>_. ret ())) (\<lambda>_. ret ())"

text \<open>The preview a cashier asks for.\<close>

definition coupon_preview ::
  "string option \<Rightarrow> string \<Rightarrow> number \<Rightarrow> ('w pos_scheme, string \<times> discount_type \<times> number \<times> number) io" where
  "coupon_preview tenant c amount = bindE (coupon_validate tenant c amount) (\<lambda>coupon.
     ret (cp_code coupon, cp_type coupon, cp_value coupon, calculateDiscount coupon amount))"

section \<open>The discount\<close>

lemma checkMaxDiscount_cents:
  "\<bar>D\<bar> \<le> money_bound \<Longrightarrow> \<bar>M\<bar> \<le> money_bound \<Longrightarrow> checkMaxDiscount (cents D) (cents M) = cents (min D M)"
  by (cases "D \<le> M") (simp_all add: checkMaxDiscount_def min_def cents_le_iff)

lemma applyFixedDiscount_cents:
  "\<bar>D\<bar> \<le> money_bound \<Longrightarrow> \<bar>M\<bar> \<le> money_bound \<Longrightarrow> applyFixedDiscount (cents D) (cents M) = cents (min D M)"
  by (cases "D \<le> M") (auto simp: applyFixedDiscount_def min_def cents_le_iff)

lemma raw_nonneg:
  assumes "0 \<le> x" "0 \<le> v"
  shows "0 \<le> applyPercentageDiscount x v" "0 \<le> applyFixedDiscount x v" "0 \<le> checkMaxDiscount x v"
  using assms by (auto simp: applyPercentageDiscount_def applyFixedDiscount_def checkMaxDiscount_def
      intro!: round2_nonneg fdiv_nonneg fmul_nonneg)

lemma checkMax_between:
  assumes "0 \<le> x" "0 \<le> S" "S \<le> money_bound"
  obtains D where "0 \<le> D" "D \<le> S" "checkMaxDiscount x (cents S) = cents D"
  unfolding checkMaxDiscount_def
  by (rule round2_between [of "min x (cents S)" "cents S" S "1 / 8192"])
     (use assms cents_nonneg near_cents [of S] in auto)

lemma coupon_discount_whole:
  assumes "0 \<le> S" "S \<le> money_bound" "0 \<le> cp_value c"
    and "case cp_max_discount c of None \<Rightarrow> True | Some m \<Rightarrow> 0 \<le> m"
  shows "\<exists>D. calculateDiscount c (cents S) = cents D \<and> 0 \<le> D \<and> D \<le> S \<and>
    (\<forall>M. 0 < M \<and> M \<le> money_bound \<and> cp_max_discount c = Some (cents M) \<longrightarrow> D \<le> M) \<and>
    (\<forall>V. 0 \<le> V \<and> V \<le> money_bound \<and> cp_type c = Fixed \<and> cp_value c = cents V \<and> cp_max_discount c = None
       \<longrightarrow> D = min V S)"
proof -
  have S: "\<bar>S\<bar> \<le> money_bound" "0 \<le> cents S" using assms(1,2) by (auto simp: cents_nonneg)
  let ?raw = "case cp_type c of Percentage \<Rightarrow> applyPercentageDiscount (cents S) (cp_value c)
    | Fixed \<Rightarrow> applyFixedDiscount (cents S) (cp_value c)"
  let ?cap = "case cp_max_discount c of None \<Rightarrow> ?raw | Some m \<Rightarrow> if m = 0 then ?raw else checkMaxDiscount ?raw m"
  have raw: "0 \<le> ?raw" using raw_nonneg [OF S(2) assms(3)] by (simp split: discount_type.split)
  have cap: "0 \<le> ?cap" using raw raw_nonneg(3) [OF raw] assms(4) by (cases "cp_max_discount c") auto
  have calc: "calculateDiscount c (cents S) = checkMaxDiscount ?cap (cents S)" by (simp add: calculateDiscount_def Let_def)
  obtain D where D: "0 \<le> D" "D \<le> S" "calculateDiscount c (cents S) = cents D"
    unfolding calc using checkMax_between [OF cap assms(1,2)] by blast
  have "D \<le> M" if M: "0 < M" "M \<le> money_bound" "cp_max_discount c = Some (cents M)" for M
  proof -
    have M': "\<bar>M\<bar> \<le> money_bound" "0 < cents M" using M cents_less_iff [of 0 M] by auto
    obtain K where K: "0 \<le> K" "K \<le> M" "checkMaxDiscount ?raw (cents M) = cents K"
      using checkMax_between [OF raw, of M] M by auto
    have "cents D = cents (min K S)"
      unfolding D(3) [symmetric] calc using M(3) M' K S M(2)
      by (simp add: checkMaxDiscount_cents)
    then have "D = min K S" using cents_inject [of D "min K S"] D S K M(2) by auto
    then show ?thesis using K(2) by simp
  qed
  moreover have "D = min V S" if V: "0 \<le> V" "V \<le> money_bound" "cp_type c = Fixed" "cp_value c = cents V"
    "cp_max_discount c = None" for V
  proof -
    have "cents D = cents (min S V)"
      unfolding D(3) [symmetric] calc using V S by (simp add: applyFixedDiscount_cents checkMaxDiscount_cents min_def)
    then show ?thesis using cents_inject [of D "min S V"] D S V by (auto simp: min_def)
  qed
  ultimately show ?thesis using D by blast
qed

text \<open>A coupon never takes more than the invoice.  For every coupon the table admits (also a
  percentage above a hundred) and a subtotal of S hundredths, \<^verbatim>\<open>calculateDiscount\<close> is a whole number
  of hundredths between 0 and S, at most the coupon's maximum when that is a whole number of
  hundredths, and exactly min V S for an uncapped fixed coupon of V hundredths.\<close>

theorem coupon_discount_range:
  assumes "0 \<le> S" "S \<le> money_bound" "0 \<le> cp_value c"
    and "case cp_max_discount c of None \<Rightarrow> True | Some m \<Rightarrow> 0 \<le> m"
  shows "\<exists>D. calculateDiscount c (cents S) = cents D \<and> 0 \<le> D \<and> D \<le> S \<and>
    (\<forall>M. 0 < M \<and> M \<le> money_bound \<and> cp_max_discount c = Some (cents M) \<longrightarrow> D \<le> M) \<and>
    (\<forall>V. 0 \<le> V \<and> V \<le> money_bound \<and> cp_type c = Fixed \<and> cp_value c = cents V \<and> cp_max_discount c = None
       \<longrightarrow> D = min V S)"
  using assms by (rule coupon_discount_whole)

definition demo_coupon :: coupon_row where
  "demo_coupon = \<lparr>cp_id = ''cp'', cp_tenant = ''t'', cp_code = ''SAVE5'', cp_type = Fixed, cp_value = cents 500,
        cp_max_discount = None, cp_min_order = Some (cents 1000), cp_max_uses = Some 1, cp_used = 0,
        cp_from = None, cp_to = None, cp_active = True, cp_deleted = False\<rparr>"

theorem coupon_discount_range_witness:
  "calculateDiscount demo_coupon (cents 1999) = cents 500"
proof -
  have "0 \<le> cp_value demo_coupon" by (simp add: demo_coupon_def cents_nonneg)
  then obtain D where D: "calculateDiscount demo_coupon (cents 1999) = cents D"
    "\<forall>V. 0 \<le> V \<and> V \<le> money_bound \<and> cp_value demo_coupon = cents V \<longrightarrow> D = min V 1999"
    using coupon_discount_range [of 1999 demo_coupon] by (auto simp: demo_coupon_def money_bound_def)
  have "D = min 500 1999" using D(2) [rule_format, of 500] by (simp add: demo_coupon_def money_bound_def)
  then show ?thesis using D(1) by simp
qed

section \<open>Validation\<close>

definition coupon_holds :: "int \<Rightarrow> number \<Rightarrow> coupon_row \<Rightarrow> bool" where
  "coupon_holds t amount c \<longleftrightarrow> cp_active c \<and> (\<forall>f. cp_from c = Some f \<longrightarrow> f \<le> t) \<and>
     (\<forall>u. cp_to c = Some u \<longrightarrow> t \<le> u) \<and> (\<forall>n. cp_max_uses c = Some n \<longrightarrow> cp_used c < n) \<and>
     (\<forall>m. cp_min_order c = Some m \<and> m \<noteq> 0 \<longrightarrow> m \<le> amount)"

lemma coupon_validate_iff:
  "coupons (snd (coupon_validate tn k amount w)) = coupons w \<and>
   (fst (coupon_validate tn k amount w) = Inr c \<longleftrightarrow>
      fault w (calls w) = None \<and>
      filter (\<lambda>r. live_coupon tn r \<and> cp_code r = toUpperCase k) (coupons w) = [c] \<and>
      coupon_holds (clock w (Suc (calls w))) amount c)"
proof (cases "fault w (calls w) = None \<and>
    (\<exists>d. filter (\<lambda>r. live_coupon tn r \<and> cp_code r = toUpperCase k) (coupons w) = [d])")
  case True
  then obtain d where "filter (\<lambda>r. live_coupon tn r \<and> cp_code r = toUpperCase k) (coupons w) = [d]" by blast
  then show ?thesis
    using True by (auto simp: coupon_validate_def findByCode_def now_def run_defs coupon_holds_def not_less not_le
        split: option.split)
next
  case False
  have "\<nexists>d. maybeSingle (filter (\<lambda>r. live_coupon tn r \<and> cp_code r = toUpperCase k) (coupons w)) = Inr (Some d)
      \<and> fault w (calls w) = None"
    using False maybeSingle_SomeD by metis
  then show ?thesis
    using False by (auto simp: coupon_validate_def findByCode_def run_defs split: option.splits sum.splits)
qed

text \<open>Validation accepts exactly the usable coupon.  \<^verbatim>\<open>validate\<close> writes nothing.  If it returns a
  coupon, then, whatever else failed, that is the one live coupon of the tenant with the given
  code in upper case, it is active, the time is within its validity, it is below its usage limit
  and the amount reaches its minimum; and if the lookup does not fail, it returns every such
  coupon.\<close>

theorem coupon_validate_exact:
  "coupons (snd (coupon_validate tn k amount w)) = coupons w \<and>
   (fst (coupon_validate tn k amount w) = Inr c \<longleftrightarrow>
      fault w (calls w) = None \<and>
      filter (\<lambda>r. live_coupon tn r \<and> cp_code r = toUpperCase k) (coupons w) = [c] \<and>
      coupon_holds (clock w (Suc (calls w))) amount c)"
  by (rule coupon_validate_iff)

section \<open>The usage limit\<close>

definition within_limit :: "coupon_row \<Rightarrow> bool" where
  "within_limit c = (case cp_max_uses c of None \<Rightarrow> True | Some n \<Rightarrow> cp_used c \<le> n)"

text \<open>
  One row against the table before: its use count is within its limit, or it is the count of a row
  with the same identifier that was there already.
\<close>

definition counted_within :: "coupon_row list \<Rightarrow> coupon_row \<Rightarrow> bool" where
  "counted_within cs c \<longleftrightarrow> within_limit c \<or> (\<exists>d\<in>set cs. cp_id d = cp_id c \<and> cp_used d = cp_used c)"

text \<open>Any sequence of the operations on coupons, with any arguments, successful or not, and the states it visits.\<close>

inductive coupon_step :: "'w pos_scheme \<Rightarrow> 'w pos_scheme \<Rightarrow> bool" where
  create: "coupon_create tn dto w = (r, w') \<Longrightarrow> coupon_step w w'"
| update: "coupon_update_service tn cid dto w = (r, w') \<Longrightarrow> coupon_step w w'"
| remove: "coupon_remove tn cid w = (r, w') \<Longrightarrow> coupon_step w w'"
| redeem: "coupon_redeem cid w = (r, w') \<Longrightarrow> coupon_step w w'"

inductive visits :: "'w pos_scheme \<Rightarrow> 'w pos_scheme list \<Rightarrow> 'w pos_scheme \<Rightarrow> bool" where
  start: "visits w [w] w"
| step: "visits w us v \<Longrightarrow> coupon_step v u \<Longrightarrow> visits w (us @ [u]) u"

text \<open>What the writes do to the table.\<close>

definition counts_kept :: "coupon_row list \<Rightarrow> 'w pos_scheme \<Rightarrow> bool" where
  "counts_kept cs w \<longleftrightarrow> list_all (counted_within cs) (coupons w)"

interpretation cp: view coupons
  by unfold_locales simp

lemma counts_kept_refl: "coupons w = cs \<Longrightarrow> counts_kept cs w"
  by (auto simp: counts_kept_def counted_within_def list_all_iff)

lemma counts_update:
  "(\<And>c. P c \<Longrightarrow> c \<in> set cs \<Longrightarrow> counted_within cs (f c)) \<Longrightarrow> list_all (counted_within cs) (update_where P f cs)"
  by (auto simp: list_all_iff set_update_where counted_within_def)

lemma counts_statement:
  assumes "coupons w = cs" "\<And>v. coupons v = cs \<Longrightarrow> counts_kept cs (snd (f v))"
  shows "wp (statement f) (\<lambda>_. counts_kept cs) (\<lambda>_. counts_kept cs) w"
  using assms(1) assms(2) [of "w\<lparr>calls := Suc (calls w)\<rparr>"]
  by (auto simp: wp_rules counts_kept_refl split: option.split prod.split sum.split)

lemma counts_create: "coupons w = cs \<Longrightarrow> wp (repo_coupon_create tn dto) (\<lambda>_. counts_kept cs) (\<lambda>_. counts_kept cs) w"
  unfolding repo_coupon_create_def wp_catchE wp_throw
  by (rule counts_statement)
     (auto simp: counts_kept_def Let_def counted_within_def within_limit_def coupon_check_def list_all_iff split: option.split)

lemma counts_repo_update:
  "coupons w = cs \<Longrightarrow> wp (repo_coupon_update tn cid dto) (\<lambda>_. counts_kept cs) (\<lambda>_. counts_kept cs) w"
  unfolding repo_coupon_update_def wp_catchE wp_throw
  by (rule counts_statement)
     (auto simp: counts_kept_def Let_def list_all_iff set_update_where coupon_update_def counted_within_def
       split: option.split sum.split)

lemma counts_softDelete: "coupons w = cs \<Longrightarrow> wp (repo_coupon_softDelete tn cid) (\<lambda>_. counts_kept cs) (\<lambda>_. counts_kept cs) w"
  unfolding repo_coupon_softDelete_def
  by (rule counts_statement) (auto simp: counts_kept_def counted_within_def intro!: counts_update)

lemma counts_redeem: "coupons w = cs \<Longrightarrow> wp (statement (fn_redeem_coupon cid)) (\<lambda>_. counts_kept cs) (\<lambda>_. counts_kept cs) w"
  by (rule counts_statement)
     (auto simp: counts_kept_def counted_within_def within_limit_def fn_redeem_coupon_def redeemable_def used_once_def
       list_all_iff set_update_where split: option.splits)

lemma keeps_coupon_reads [keep_rules]:
  "keeps coupons (findByCode tn k)" "keeps coupons (coupons_findById tn cid)"
  unfolding findByCode_def coupons_findById_def by (intro keep_rules cp.keeps_query)+

lemma coupon_step_counts:
  assumes "coupon_step w w'" shows "list_all (counted_within (coupons w)) (coupons w')"
proof -
  let ?J = "\<lambda>_. counts_kept (coupons w)"
  note same = counts_kept_refl
  have c: "wp (coupon_create tn dto) ?J ?J w" for tn dto
    unfolding coupon_create_def
    apply (rule wp_bind_keep [where v = coupons], intro keep_rules)
     apply (rule wp_bind_keep [where v = coupons], intro keep_rules)
      apply (rule counts_create)
      apply (simp_all add: same)
    done
  have u: "wp (coupon_update_service tn cid dto) ?J ?J w" for tn cid dto
    unfolding coupon_update_service_def
    apply (rule wp_bind_keep [where v = coupons], intro keep_rules)
     apply (rule wp_bind_keep [where v = coupons], intro keep_rules)
      apply (rule counts_repo_update)
      apply (simp_all add: same)
    done
  have d: "wp (coupon_remove tn cid) ?J ?J w" for tn cid
    unfolding coupon_remove_def
    apply (rule wp_bind_keep [where v = coupons], intro keep_rules)
     apply (rule wp_bind_keep [where v = coupons], intro keep_rules)
      apply (rule wp_bind [OF counts_softDelete])
       apply (simp_all add: same wp_ret)
    done
  have r: "wp (coupon_redeem cid) ?J ?J w" for cid
    unfolding coupon_redeem_def repo_coupon_redeem_def wp_catchE wp_bindE wp_ret by (rule counts_redeem [OF refl])
  have "counts_kept (coupons w) w'" using assms by cases (metis snd_conv wp_snd c u d r)+
  then show ?thesis by (simp add: counts_kept_def)
qed

text \<open>C22. No coupon is used more often than the limit in force allows, whatever coupons are created,
  updated, removed and redeemed in any order and with any arguments, and whatever calls fail.  From
  a state in which no coupon exceeds its limit, the use count of every coupon in every reachable
  state is one that this coupon had, within its limit, in a state that was visited.  So a redemption
  never passes the limit, and a coupon that exceeds its limit is one whose limit an update lowered
  below the uses it had before, which the service accepts.\<close>

theorem usage_limit_kept:
  assumes "visits w us v" "list_all within_limit (coupons w)" "c \<in> set (coupons v)"
  shows "\<exists>u\<in>set us. \<exists>d\<in>set (coupons u). cp_id d = cp_id c \<and> cp_used d = cp_used c \<and> within_limit d"
  using assms
proof (induction arbitrary: c rule: visits.induct)
  case (start w)
  then show ?case by (auto simp: list_all_iff)
next
  case (step w us v u)
  show ?case
  proof (cases "within_limit c")
    case False
    then obtain d where "d \<in> set (coupons v)" "cp_id d = cp_id c" "cp_used d = cp_used c"
      using coupon_step_counts [OF step.hyps(2)] step.prems(2) by (auto simp: list_all_iff counted_within_def)
    then show ?thesis using step.IH [OF step.prems(1)] by fastforce
  qed (use step.prems(2) in auto)
qed

text \<open>A limit lowered to one after two uses: the count of two was reached within the limit before.\<close>

definition demo_lower :: update_coupon where
  "demo_lower = \<lparr>uc_code = None, uc_type = None, uc_value = None, uc_max_discount = None,
     uc_min_order = None, uc_max_uses = Some (Some 1), uc_from = None, uc_to = None, uc_active = None\<rparr>"

definition demo_two :: pos where
  "demo_two = demo_pos\<lparr>coupons := map (\<lambda>c. c\<lparr>cp_max_uses := Some 2\<rparr>) (coupons demo_pos)\<rparr>"

definition demo_used :: pos where
  "demo_used = snd (coupon_redeem ''cp'' (snd (coupon_redeem ''cp'' demo_two)))"

definition demo_lowered :: pos where
  "demo_lowered = snd (coupon_update_service (Some ''t'') ''cp'' demo_lower demo_used)"

lemma demo_limits:
  "list_all within_limit (coupons demo_two)"
  "map (\<lambda>c. (cp_id c, cp_used c, cp_max_uses c)) (coupons demo_lowered) = [(''cp'', 2, Some 1)]"
   apply (simp add: demo_two_def demo_pos_def catalog.extend_def within_limit_def)
  apply (simp add: demo_lowered_def demo_used_def demo_two_def demo_lower_def coupon_redeem_def repo_coupon_redeem_def
      fn_redeem_coupon_def redeemable_def used_once_def coupon_update_service_def coupons_findById_def
      repo_coupon_update_def coupon_update_def coupon_check_def live_coupon_def scoped_def run_defs update_where_def
      demo_pos_no_fault demo_pos_def demo_shop_def catalog.extend_def)
  done

theorem usage_limit_kept_witness:
  "\<exists>us c u d. visits demo_two us demo_lowered \<and> c \<in> set (coupons demo_lowered) \<and> cp_used c = 2 \<and> cp_max_uses c = Some 1 \<and>
     u \<in> set us \<and> d \<in> set (coupons u) \<and> cp_id d = ''cp'' \<and> cp_used d = 2 \<and> within_limit d"
proof -
  let ?w1 = "snd (coupon_redeem ''cp'' demo_two)"
  have steps: "coupon_step demo_two ?w1" "coupon_step ?w1 demo_used" "coupon_step demo_used demo_lowered"
    by (rule coupon_step.redeem, rule surjective_pairing,
        unfold demo_used_def, rule coupon_step.redeem, rule surjective_pairing,
        unfold demo_lowered_def demo_used_def, rule coupon_step.update, rule surjective_pairing)
  have run: "visits demo_two (((([demo_two] @ [?w1]) @ [demo_used]) @ [demo_lowered])) demo_lowered"
    by (rule visits.step [OF visits.step [OF visits.step [OF visits.start steps(1)] steps(2)] steps(3)])
  have "\<exists>c\<in>set (coupons demo_lowered). cp_id c = ''cp'' \<and> cp_used c = 2 \<and> cp_max_uses c = Some 1"
    using demo_limits(2) by (auto simp: map_eq_Cons_conv)
  then obtain c where c: "c \<in> set (coupons demo_lowered)" "cp_id c = ''cp''" "cp_used c = 2" "cp_max_uses c = Some 1" by blast
  obtain u d where "u \<in> set ((([demo_two] @ [?w1]) @ [demo_used]) @ [demo_lowered])" "d \<in> set (coupons u)"
    "cp_id d = cp_id c" "cp_used d = cp_used c" "within_limit d"
    using usage_limit_kept [OF run demo_limits(1) c(1)] by blast
  with run c show ?thesis by (metis (no_types, lifting))
qed

section \<open>A changed code\<close>

definition lower_case :: "char \<Rightarrow> bool" where
  "lower_case c = (let n = of_char c :: nat in 97 \<le> n \<and> n \<le> 122)"

lemma no_lower_case: "c \<in> set (toUpperCase s) \<Longrightarrow> \<not> lower_case c"
  by (auto simp: toUpperCase_def upper_char_def lower_case_def Let_def split: if_splits)

lemma single_update:
  "single (map f (filter P cs)) = Inr c \<Longrightarrow> (\<exists>r. c = f r) \<and> c \<in> set (update_where P f cs)"
proof -
  assume "single (map f (filter P cs)) = Inr c"
  then have m: "map f (filter P cs) = [c]" by (rule single_InrD)
  then obtain r where r: "filter P cs = [r]" "c = f r" by (cases "filter P cs") auto
  then show ?thesis using filter_oneD [OF r(1)] by (auto simp: set_update_where image_iff)
qed

lemma update_writes:
  assumes "uc_code dto = Some s"
  shows "wp (repo_coupon_update tn cid dto) (\<lambda>c v. cp_code c = s \<and> c \<in> set (coupons v)) (\<lambda>_ _. True) w"
proof -
  have "cp_code (coupon_update dto r) = s" for r by (simp add: coupon_update_def assms)
  then show ?thesis unfolding repo_coupon_update_def
    by (auto simp: wp_rules Let_def split: option.split sum.split dest!: single_update)
qed

text \<open>A code changed to lower case can no longer be used.  \<^verbatim>\<open>update\<close> stores the new code as it was
  typed, while every lookup is by upper case: after a successful update to a code with a
  lower-case letter no code a customer enters ever validates that coupon.\<close>

theorem updated_code_lost:
  assumes "coupon_update_service tn cid dto w = (Inr c, w')" "uc_code dto = Some s" "\<exists>ch\<in>set s. lower_case ch"
  shows "cp_code c = s \<and> c \<in> set (coupons w') \<and>
    (\<forall>tn' k amount (v :: 'a pos_scheme) v'. coupon_validate tn' k amount v \<noteq> (Inr c, v'))"
proof -
  have "wp (coupon_update_service tn cid dto) (\<lambda>c v. cp_code c = s \<and> c \<in> set (coupons v)) (\<lambda>_ _. True) w"
    unfolding coupon_update_service_def
    apply (rule wp_bind [where R = "\<lambda>_ _. True"], simp add: wp_def split: prod.split sum.split)
    apply (rule wp_bind [where R = "\<lambda>_ _. True"], simp add: wp_require)
    apply (rule update_writes [OF assms(2)])
    done
  then have "cp_code c = s" "c \<in> set (coupons w')" using assms(1) by (auto simp: wp_def)
  moreover have "coupon_validate tn' k amount v \<noteq> (Inr c, v')" for tn' k amount and v v' :: "'a pos_scheme"
  proof
    assume "coupon_validate tn' k amount v = (Inr c, v')"
    moreover have "wp (coupon_validate tn' k amount) (\<lambda>c _. cp_code c = toUpperCase k) (\<lambda>_ _. True) v"
      by (auto simp: coupon_validate_def findByCode_def wp_rules split: option.split sum.split dest!: maybeSingle_SomeD filter_oneD)
    ultimately have "cp_code c = toUpperCase k" by (simp add: wp_def)
    then show False using assms(3) \<open>cp_code c = s\<close> no_lower_case by auto
  qed
  ultimately show ?thesis by blast
qed

definition demo_rename :: update_coupon where
  "demo_rename = \<lparr>uc_code = Some ''save6'', uc_type = None, uc_value = None, uc_max_discount = None,
     uc_min_order = None, uc_max_uses = None, uc_from = None, uc_to = None, uc_active = None\<rparr>"

theorem updated_code_lost_witness:
  "\<exists>c w'. coupon_update_service (Some ''t'') ''cp'' demo_rename demo_pos = (Inr c, w') \<and> cp_code c = ''save6'' \<and>
     (\<forall>(v :: pos) v'. coupon_validate (Some ''t'') ''save6'' 100 v \<noteq> (Inr c, v'))"
proof -
  have "case fst (coupon_update_service (Some ''t'') ''cp'' demo_rename demo_pos) of Inl e \<Rightarrow> False | Inr c \<Rightarrow> True"
    by (simp add: coupon_update_service_def coupons_findById_def repo_coupon_update_def run_defs demo_pos_no_fault
        demo_pos_def catalog.extend_def live_coupon_def scoped_def coupon_check_def coupon_update_def demo_rename_def demo_shop_def)
  then obtain c w' where run: "coupon_update_service (Some ''t'') ''cp'' demo_rename demo_pos = (Inr c, w')"
    by (cases "coupon_update_service (Some ''t'') ''cp'' demo_rename demo_pos") (auto split: sum.splits)
  have "\<exists>ch\<in>set ''save6''. lower_case ch" by (simp add: lower_case_def)
  then have "cp_code c = ''save6'' \<and> c \<in> set (coupons w') \<and>
      (\<forall>tn' k amount (v :: pos) v'. coupon_validate tn' k amount v \<noteq> (Inr c, v'))"
    by (intro updated_code_lost [OF run]) (simp_all add: demo_rename_def)
  then show ?thesis using run by blast
qed

end
