(* ===== verification/InvoicesRepo.thy ===== *)
theory InvoicesRepo
  imports Shifts Coupons
begin

text \<open>
  \<^verbatim>\<open>InvoicesRepository\<close> (\<^verbatim>\<open>modules/invoices/repositories\<close>) and the one-query methods of other
  repositories that a sale uses.  Of the constraints of \<^verbatim>\<open>orders\<close> the ones of migration 187 are
  written out: \<^verbatim>\<open>sale_attempt_id\<close> is required, and unique in a tenant.  The SQL functions for
  accounting, stock, ownership and serials are recorded in \<open>journal\<close> and \<open>stock_log\<close>; the reversal of
  a posting fails for an order that has none or was reversed.
\<close>

section \<open>Orders and their lines\<close>

definition orders_scope :: "string option \<Rightarrow> order_row \<Rightarrow> bool" where
  "orders_scope tenant r = (truthy tenant \<longrightarrow> o_tenant r = tenant)"

definition order_check :: "order_row list \<Rightarrow> order_row \<Rightarrow> db_error option" where
  "order_check rs r =
     (if o_tenant r = None \<or> o_attempt r = None then Some not_null_violation
      else if \<exists>p\<in>set rs. o_tenant p = o_tenant r \<and> o_attempt p = o_attempt r then Some unique_violation
      else None)"

definition insert_order ::
  "string option \<Rightarrow> order_payload \<Rightarrow> 'w pos_scheme \<Rightarrow> (db_error + string) \<times> 'w pos_scheme" where
  "insert_order tenant p w =
     (let row = order_payload.extend p \<lparr>o_id = fresh_id w, o_tenant = tenant, o_deleted_at = None\<rparr>
      in case order_check (orders w) row of
           Some e \<Rightarrow> (Inl e, w)
         | None \<Rightarrow> (Inr (fresh_id w), w\<lparr>orders := orders w @ [row]\<rparr>))"

definition invoices_create :: "string option \<Rightarrow> order_payload \<Rightarrow> ('w pos_scheme, string) io" where
  "invoices_create tenant p = statement (insert_order tenant p)"

text \<open>A line as the service hands it over; the catalogue price is absent for a held order.\<close>

record new_line = invoice_item +
  nl_official :: "number option"

record pooled_item = invoice_item +
  pl_official :: number
  pl_override :: "override_data option"

definition line_row :: "string \<Rightarrow> string \<Rightarrow> number option \<Rightarrow> 'i invoice_item_scheme \<Rightarrow> order_item_row" where
  "line_row rid orderId official it = \<lparr>oi_id = rid, oi_order = orderId, oi_item = item_id it, oi_name = item_name it,
     oi_qty = quantity it, oi_price = unit_price it, oi_total = fmul (quantity it) (unit_price it),
     oi_variant = variant_id it, oi_variant_name = variant_name it, oi_official = official\<rparr>"

text \<open>One statement inserts all lines; the k-th row gets the identifier of the call with k appended.\<close>

definition insertItems :: "string \<Rightarrow> new_line list \<Rightarrow> ('w pos_scheme, string list) io" where
  "insertItems orderId ls = catchE
     (statement (\<lambda>w.
       let rows = map (\<lambda>(k, it). line_row (fresh_id w @ nat_str k) orderId (nl_official it) it) (enumerate 0 ls)
       in (Inr (map oi_id rows), w\<lparr>order_items := order_items w @ rows\<rparr>)))
     (\<lambda>e. throw (if isForeignKeyViolation e then not_found ''Unknown item_id or variant_id'' else e))"

definition override_row ::
  "string option \<Rightarrow> order_payload \<Rightarrow> string \<Rightarrow> string \<Rightarrow> pooled_item \<Rightarrow> override_data \<Rightarrow> override_audit_row" where
  "override_row tenant p orderId lineId it d = \<lparr>oa_tenant = tenant, oa_branch = o_branch p, oa_order = orderId,
     oa_order_item = lineId, oa_actor = o_cashier p, oa_item = item_id it, oa_data = d\<rparr>"

definition insert_pooled_line ::
  "string option \<Rightarrow> order_payload \<Rightarrow> string \<Rightarrow> pooled_item \<Rightarrow> ('w pos_scheme, unit) io" where
  "insert_pooled_line tenant p orderId it =
     bindE (statement (\<lambda>w. (Inr (fresh_id w),
       w\<lparr>order_items := order_items w @ [line_row (fresh_id w) orderId (Some (pl_official it)) it]\<rparr>))) (\<lambda>lineId.
     case pl_override it of
       None \<Rightarrow> ret ()
     | Some d \<Rightarrow> statement (\<lambda>w. (Inr (),
         w\<lparr>override_audits := override_audits w @ [override_row tenant p orderId lineId it d]\<rparr>)))"

definition post_sales_order :: "string \<Rightarrow> ('w pos_scheme, unit) io" where
  "post_sales_order orderId = statement (\<lambda>w. (Inr (), w\<lparr>journal := journal w @ [Posted orderId]\<rparr>))"

definition createWithItemsPooled ::
  "string option \<Rightarrow> order_payload \<Rightarrow> pooled_item list \<Rightarrow> ('w pos_scheme, string) io" where
  "createWithItemsPooled tenant p ls = runInTenantContext
     (bindE (statement (insert_order tenant p)) (\<lambda>orderId.
      bindE (forEach ls (insert_pooled_line tenant p orderId)) (\<lambda>_.
      bindE (post_sales_order orderId) (\<lambda>_.
      ret orderId))))"

section \<open>Lookups\<close>

definition findBySaleAttemptId :: "string option \<Rightarrow> string \<Rightarrow> ('w pos_scheme, order_row option) io" where
  "findBySaleAttemptId tenant attempt = orThrow (query (\<lambda>w. maybeSingle
     (filter (\<lambda>r. orders_scope tenant r \<and> o_attempt r = Some attempt) (orders w))))"

definition invoices_findById ::
  "string option \<Rightarrow> string \<Rightarrow> ('w pos_scheme, (order_row \<times> order_item_row list) option) io" where
  "invoices_findById tenant oid =
     bindE (orThrow (query (\<lambda>w. maybeSingle
       (filter (\<lambda>r. orders_scope tenant r \<and> o_id r = oid) (orders w))))) (\<lambda>found. case found of
       None \<Rightarrow> ret None
     | Some order \<Rightarrow>
       bindE (orThrow (query (\<lambda>w. Inr (filter (\<lambda>l. oi_order l = oid) (order_items w))))) (\<lambda>ls.
       ret (Some (order, ls))))"

definition getBranchDefaultWarehouse :: "string \<Rightarrow> ('w pos_scheme, string option) io" where
  "getBranchDefaultWarehouse branchId =
     bindE (query (\<lambda>w. single (filter (\<lambda>b. b_id b = branchId) (branches w)))) (\<lambda>r.
     ret (case r of Inl e \<Rightarrow> None | Inr b \<Rightarrow> b_warehouse b))"

section \<open>Cancelling\<close>

text \<open>\<^verbatim>\<open>String.prototype.includes\<close>.\<close>

fun contains_str :: "string \<Rightarrow> string \<Rightarrow> bool" where
  "contains_str [] p \<longleftrightarrow> p = []"
| "contains_str (c # cs) p \<longleftrightarrow> take (length p) (c # cs) = p \<or> contains_str cs p"

definition exn_message :: "exn \<Rightarrow> string" where
  "exn_message e = (case e of Http _ m _ \<Rightarrow> m | Db d \<Rightarrow> message d | Err m \<Rightarrow> m)"

definition cancelled :: "order_row \<Rightarrow> order_row" where
  "cancelled r = r\<lparr>o_status := ''cancelled''\<rparr>"

text \<open>
  \<^verbatim>\<open>fn_reverse_sales_order\<close> (migration 184): it raises for an order that was never posted, and
  \<^verbatim>\<open>fn_reverse_journal_entry\<close>, to which it delegates, for a posting that was reversed already.  The
  dash of the first message is written as two hyphens.  What else can make the statement fail, a
  closed period for one, is a failing call.
\<close>

definition reverse_sales_order :: "string \<Rightarrow> ('w pos_scheme, unit) io" where
  "reverse_sales_order orderId = statement (\<lambda>w.
     if Posted orderId \<notin> set (journal w) then
       (Inl \<lparr>code = Some ''P0001'', message = ''No Accounting posting found for order '' @ orderId @ '' -- nothing to reverse''\<rparr>, w)
     else if Reversed orderId \<in> set (journal w) then
       (Inl \<lparr>code = Some ''P0001'', message = ''Only posted journal entries can be reversed''\<rparr>, w)
     else (Inr (), w\<lparr>journal := journal w @ [Reversed orderId]\<rparr>))"

text \<open>The statement that the \<^verbatim>\<open>catch\<close> swallows has failed, so the transaction is aborted and nothing of it stays.\<close>

definition cancelPooled :: "string option \<Rightarrow> string \<Rightarrow> ('w pos_scheme, string) io" where
  "cancelPooled tenant oid = runAbortable
     (bindE (statement (\<lambda>w.
        let hit = (\<lambda>r. o_id r = oid \<and> tenant \<noteq> None \<and> o_tenant r = tenant)
        in (Inr (filter hit (orders w)), w\<lparr>orders := update_where hit cancelled (orders w)\<rparr>))) (\<lambda>rows.
      bindE (require (rows \<noteq> []) (not_found ''Order not found'')) (\<lambda>_.
      bindE (catchE (bindE (reverse_sales_order oid) (\<lambda>_. ret False))
        (\<lambda>e. if \<not> contains_str (exn_message e) ''nothing to reverse'' then throw e else ret True)) (\<lambda>aborted.
      ret (oid, aborted)))))"

lemma contains_str_suffix: "contains_str (xs @ p) p"
proof (induction xs)
  case Nil
  then show ?case by (cases p) auto
qed simp

definition invoices_cancel :: "string option \<Rightarrow> string \<Rightarrow> ('w pos_scheme, string) io" where
  "invoices_cancel tenant oid = statement (\<lambda>w.
     let hit = (\<lambda>r. o_id r = oid \<and> orders_scope tenant r)
     in case single (filter hit (orders w)) of
          Inl e \<Rightarrow> (Inl e, w)
        | Inr r \<Rightarrow> (Inr (o_id r), w\<lparr>orders := update_where hit cancelled (orders w)\<rparr>))"

section \<open>Held orders\<close>

definition findHeldOrders :: "string option \<Rightarrow> string \<Rightarrow> string \<Rightarrow> ('w pos_scheme, order_row list) io" where
  "findHeldOrders tenant branchId actorId = orThrow (query (\<lambda>w. Inr (rev (sort_key (\<lambda>r. nullish (o_held_at r) 0)
     (filter (\<lambda>r. o_held r \<and> o_deleted_at r = None \<and> o_branch r = branchId \<and>
        (o_visibility r = Some ''all_cashiers'' \<or> o_held_by r = Some actorId) \<and> orders_scope tenant r) (orders w))))))"

definition repo_updateHeldVisibility ::
  "string option \<Rightarrow> string \<Rightarrow> string \<Rightarrow> ('w pos_scheme, (string \<times> string) option) io" where
  "repo_updateHeldVisibility tenant oid vis = statement (\<lambda>w.
     let hit = (\<lambda>r. o_id r = oid \<and> o_held r \<and> orders_scope tenant r)
     in case maybeSingle (filter hit (orders w)) of
          Inl e \<Rightarrow> (Inl e, w)
        | Inr None \<Rightarrow> (Inr None, w)
        | Inr (Some r) \<Rightarrow> (Inr (Some (o_id r, vis)),
            w\<lparr>orders := update_where hit (\<lambda>r. r\<lparr>o_visibility := Some vis\<rparr>) (orders w)\<rparr>))"

definition repo_cancelHeldOrder :: "string option \<Rightarrow> string \<Rightarrow> ('w pos_scheme, string option) io" where
  "repo_cancelHeldOrder tenant oid = bindE now (\<lambda>t. statement (\<lambda>w.
     let hit = (\<lambda>r. o_id r = oid \<and> o_held r \<and> orders_scope tenant r)
     in case maybeSingle (filter hit (orders w)) of
          Inl e \<Rightarrow> (Inl e, w)
        | Inr None \<Rightarrow> (Inr None, w)
        | Inr (Some r) \<Rightarrow> (Inr (Some (o_id r)),
            w\<lparr>orders := update_where hit (\<lambda>r. r\<lparr>o_deleted_at := Some t, o_held := False\<rparr>) (orders w)\<rparr>)))"

section \<open>What a sale asks of other repositories\<close>

definition deductStockForSale ::
  "string \<Rightarrow> string \<Rightarrow> string \<Rightarrow> string \<Rightarrow> (string \<times> string option \<times> number) list \<Rightarrow> ('w pos_scheme, unit) io" where
  "deductStockForSale tenantId warehouseId orderId actorId its = statement (\<lambda>w.
     (Inr (), w\<lparr>stock_log := stock_log w @ [Deducted tenantId warehouseId orderId actorId its]\<rparr>))"

definition reverseSaleStockDeduction :: "string \<Rightarrow> ('w pos_scheme, unit) io" where
  "reverseSaleStockDeduction orderId = statement (\<lambda>w. (Inr (), w\<lparr>stock_log := stock_log w @ [Restocked orderId]\<rparr>))"

definition checkHolds :: "string \<Rightarrow> string \<Rightarrow> (string \<times> string option) list \<Rightarrow> ('w pos_scheme, string list) io" where
  "checkHolds tenantId warehouseId its = statement (\<lambda>w. (Inr (held_names w tenantId warehouseId its), w))"

definition checkExpiredBatches ::
  "string \<Rightarrow> string \<Rightarrow> (string \<times> string option) list \<Rightarrow> ('w pos_scheme, string list) io" where
  "checkExpiredBatches tenantId warehouseId its = statement (\<lambda>w. (Inr (expired_names w tenantId warehouseId its), w))"

definition consumeForSale :: "string \<Rightarrow> string \<Rightarrow> string option \<Rightarrow> number \<Rightarrow> ('w pos_scheme, number) io" where
  "consumeForSale warehouseId itemId variantId qty = statement (\<lambda>w. (Inr (owned w itemId),
     w\<lparr>stock_log := stock_log w @ [OwnershipConsumed warehouseId itemId variantId qty]\<rparr>))"

definition serials_sell :: "string \<Rightarrow> string \<Rightarrow> number option \<Rightarrow> ('w pos_scheme, unit) io" where
  "serials_sell serialId orderId warranty = catchE
     (statement (\<lambda>w. (Inr (), w\<lparr>stock_log := stock_log w @ [SerialSold serialId orderId warranty]\<rparr>)))
     (\<lambda>e. throw (if contains_str (exn_message e) ''is not in_stock'' then Http Conflict (exn_message e) [] else e))"

definition returnSerial :: "string \<Rightarrow> ('w pos_scheme, unit) io" where
  "returnSerial serialId = catchE
     (statement (\<lambda>w. (Inr (), w\<lparr>stock_log := stock_log w @ [SerialReturned serialId]\<rparr>)))
     (\<lambda>e. throw (if contains_str (exn_message e) ''is not sold'' then Http Conflict (exn_message e) [] else e))"

definition findSoldByOrder :: "string \<Rightarrow> ('w pos_scheme, string list) io" where
  "findSoldByOrder orderId = statement (\<lambda>w. (Inr (sold_serials w orderId), w))"

definition getTaxRate :: "string \<Rightarrow> ('w pos_scheme, number) io" where
  "getTaxRate tenantId =
     bindE (query (\<lambda>w. single (filter (\<lambda>t. t_id t = tenantId \<and> \<not> t_deleted t) (tenants w)))) (\<lambda>r.
     ret (case r of Inl e \<Rightarrow> 0 | Inr t \<Rightarrow> nullish (t_tax_rate t) 0))"

definition customers_findById :: "string option \<Rightarrow> string \<Rightarrow> ('w pos_scheme, customer_row) io" where
  "customers_findById tenant cid =
     bindE (orThrow (query (\<lambda>w. maybeSingle
       (filter (\<lambda>c. \<not> c_deleted c \<and> scoped tenant (c_tenant c) \<and> c_id c = cid) (customers w))))) (\<lambda>found.
     case found of None \<Rightarrow> throw (not_found ''Customer not found'') | Some c \<Rightarrow> ret c)"

end
