(* ===== verification/Invoices.thy ===== *)
theory Invoices
  imports InvoicesRepo
begin

text \<open>
  \<^verbatim>\<open>InvoicesService\<close> (\<^verbatim>\<open>modules/invoices/invoices.service.ts\<close>).  \<^verbatim>\<open>create\<close> is split at its own
  joints: \<open>validate_sale\<close> is everything before the first write, then the points are redeemed, the
  order is written, and \<open>after_sale\<close> is the bookkeeping that must not stop a sale.  Reads that the
  code starts together run here one after the other, and a promise it does not await runs where
  it is started; logging and metrics are left out.
\<close>

section \<open>Requests\<close>

record invoice_line = invoice_item +
  li_serial :: "string option"
  li_warranty :: "number option"
  li_reason :: "string option"

record create_invoice =
  ci_attempt :: string
  ci_items :: "invoice_line list"
  ci_discount :: "discount_input option"
  ci_customer :: "string option"
  ci_method :: string
  ci_tendered :: "number option"
  ci_cash :: "number option"
  ci_card :: "number option"
  ci_notes :: "string option"
  ci_redeem :: "number option"
  ci_coupon :: "string option"

text \<open>A number that is absent or zero is falsy.\<close>

definition nonzero :: "number option \<Rightarrow> bool" where
  "nonzero v = (case v of None \<Rightarrow> False | Some x \<Rightarrow> x \<noteq> 0)"

section \<open>Before the first write\<close>

definition check_attempt :: "string \<Rightarrow> string \<Rightarrow> ('w pos_scheme, unit) io" where
  "check_attempt t attempt = bindE (findBySaleAttemptId (Some t) attempt) (\<lambda>existing. case existing of
     None \<Rightarrow> ret ()
   | Some r \<Rightarrow> throw (Http Conflict ''This sale was already created'' [(''order_id'', o_id r)]))"

definition loyalty_discount :: "string \<Rightarrow> create_invoice \<Rightarrow> loyalty_settings \<Rightarrow> ('w pos_scheme, number) io" where
  "loyalty_discount t dto settings =
     (if \<not> nonzero (ci_redeem dto) then ret 0 else
      bindE (require (loyalty_on settings) (bad_request ''Loyalty program is disabled for this tenant'')) (\<lambda>_.
      bindE (require (truthy (ci_customer dto)) (bad_request ''customer_id required to redeem loyalty points'')) (\<lambda>_.
      bindE (gets config) (\<lambda>flag.
      bindE (if flag ''POOLED_LOYALTY_WRITES_ENABLED''
             then getBalancePooled t (the (ci_customer dto)) else getBalance t (the (ci_customer dto))) (\<lambda>balance.
      bindE (require (\<not> balance < the (ci_redeem dto)) (bad_request ''Insufficient loyalty points balance'')) (\<lambda>_.
      ret (calculateRedemptionValue (the (ci_redeem dto)) settings)))))))"

definition reason_code :: "rejection \<Rightarrow> string" where
  "reason_code c = (case c of
     ItemOrVariantNotFound \<Rightarrow> ''item_or_variant_not_found''
   | OfficialPriceZeroIncrease \<Rightarrow> ''official_price_zero_increase_not_supported''
   | NoEffectiveRole \<Rightarrow> ''no_effective_role''
   | NoEffectivePolicy \<Rightarrow> ''no_effective_policy''
   | PermissionDenied \<Rightarrow> ''permission_denied''
   | DiscountNotAllowed \<Rightarrow> ''discount_not_allowed''
   | IncreaseNotAllowed \<Rightarrow> ''increase_not_allowed''
   | LimitExceeded \<Rightarrow> ''limit_exceeded''
   | ReasonRequired \<Rightarrow> ''reason_required''
   | ZeroPriceNotAllowed \<Rightarrow> ''zero_price_not_allowed''
   | CombineWithDiscountNotAllowed \<Rightarrow> ''combine_with_discount_not_allowed'')"

definition rejection_exn :: "string \<Rightarrow> rejection \<Rightarrow> exn" where
  "rejection_exn itemId c =
     (if c = ItemOrVariantNotFound
      then Http NotFound ''Item or variant not found'' [(''item_id'', itemId), (''reasonCode'', reason_code c)]
      else Http BadRequest ''Price override rejected'' [(''item_id'', itemId), (''reasonCode'', reason_code c)])"

text \<open>
  The loop over the lines carries the cached role, whether an override was approved, and the
  lines so far, each with its resolved price and the result it got.  \<open>None\<close> is a cache that is
  not filled yet.
\<close>

record resolved =
  rs_role :: "effective_role option option"
  rs_any :: bool
  rs_lines :: "(invoice_line \<times> price_result) list"

definition line_input ::
  "string \<Rightarrow> string \<Rightarrow> string \<Rightarrow> bool \<Rightarrow> effective_role option option \<Rightarrow> invoice_line \<Rightarrow> price_input" where
  "line_input cashierId t branchId hasDiscount role it = \<lparr>pi_user = cashierId, pi_tenant = t, pi_branch = branchId,
     pi_item = item_id it, pi_variant = variant_id it, pi_requested = unit_price it, pi_reason = li_reason it,
     pi_invoice_discount = hasDiscount, pi_role = role\<rparr>"

definition resolve_line ::
  "string \<Rightarrow> string \<Rightarrow> string \<Rightarrow> bool \<Rightarrow> resolved \<Rightarrow> invoice_line \<Rightarrow> ('w pos_scheme, resolved) io" where
  "resolve_line cashierId t branchId hasDiscount s it =
     bindE (resolvePrice (line_input cashierId t branchId hasDiscount (rs_role s) it)) (\<lambda>res. case res of
       ApprovedOverride d \<Rightarrow> ret \<lparr>rs_role = (case rs_role s of None \<Rightarrow> Some (Some (od_role d)) | Some r \<Rightarrow> Some r),
         rs_any = True, rs_lines = rs_lines s @ [(it\<lparr>unit_price := od_approved d\<rparr>, res)]\<rparr>
     | RejectedPrice _ _ c _ \<Rightarrow> throw (rejection_exn (item_id it) c)
     | NoOverride p \<Rightarrow> ret (s\<lparr>rs_lines := rs_lines s @ [(it\<lparr>unit_price := p\<rparr>, res)]\<rparr>))"

definition resolve_lines ::
  "string \<Rightarrow> string \<Rightarrow> string \<Rightarrow> create_invoice \<Rightarrow> ('w pos_scheme, resolved) io" where
  "resolve_lines cashierId t branchId dto =
     foldE (ci_items dto) \<lparr>rs_role = None, rs_any = False, rs_lines = []\<rparr>
       (resolve_line cashierId t branchId (ci_discount dto \<noteq> None))"

definition official_of :: "price_result \<Rightarrow> number" where
  "official_of res = (case res of NoOverride p \<Rightarrow> p | ApprovedOverride d \<Rightarrow> od_official d | RejectedPrice p _ _ _ \<Rightarrow> p)"

definition override_of :: "price_result \<Rightarrow> override_data option" where
  "override_of res = (case res of ApprovedOverride d \<Rightarrow> Some d | _ \<Rightarrow> None)"

definition coupon_discount ::
  "string \<Rightarrow> create_invoice \<Rightarrow> number \<Rightarrow> ('w pos_scheme, coupon_row option \<times> number) io" where
  "coupon_discount t dto amount =
     (if \<not> truthy (ci_coupon dto) then ret (None, 0) else
      bindE (coupon_validate (Some t) (the (ci_coupon dto)) amount) (\<lambda>coupon.
      ret (Some coupon, calculateDiscount coupon amount)))"

text \<open>Tax and total are computed again with all discounts together.\<close>

definition combine_discounts ::
  "invoice_line built_invoice \<Rightarrow> number \<Rightarrow> number \<Rightarrow> number \<Rightarrow> invoice_line built_invoice" where
  "combine_discounts manual loyaltyDiscount couponDiscount taxRate =
     (let combined = min (fadd (fadd (discount_amount manual) loyaltyDiscount) couponDiscount) (subtotal manual);
          tax = applyTax (subtotal manual) combined taxRate
      in \<lparr>items = items manual, subtotal = subtotal manual, discount_amount = combined, tax_amount = tax,
          total = calculateTotal (subtotal manual) combined tax\<rparr>)"

definition check_payment :: "create_invoice \<Rightarrow> number \<Rightarrow> exn + unit" where
  "check_payment dto tot =
     (if ci_method dto = ''cash'' then
        (if \<not> nonzero (ci_tendered dto) then Inl (bad_request ''cash_tendered required for cash payment'')
         else case processCashPayment tot (the (ci_tendered dto)) of Inl e \<Rightarrow> Inl e | Inr _ \<Rightarrow> Inr ())
      else if ci_method dto = ''split'' then
        (case (ci_cash dto, ci_card dto) of
           (Some cashAmount, Some cardAmount) \<Rightarrow>
             (case processSplitPayment tot cashAmount cardAmount of
                Inl e \<Rightarrow> Inl e
              | Inr _ \<Rightarrow>
                  if cashAmount < 0 \<or> cardAmount < 0 then Inl (bad_request ''cash_amount and card_amount must not be negative'')
                  else let splitSum = round2 (fadd cashAmount cardAmount) in
                    if splitSum \<noteq> tot
                    then Inl (bad_request (''cash_amount + card_amount ('' @ number_str splitSum @
                      '') must equal the payable amount ('' @ number_str tot @ '') exactly''))
                    else Inr ())
         | _ \<Rightarrow> Inl (bad_request ''cash_amount and card_amount required for split payment''))
      else if ci_method dto = ''tab'' \<and> \<not> truthy (ci_customer dto)
      then Inl (bad_request ''customer_id required for tab (open account) payment'')
      else Inr ())"

record prepared =
  pr_lines :: "(invoice_line \<times> price_result) list"
  pr_built :: "invoice_line built_invoice"
  pr_coupon :: "coupon_row option"
  pr_tax_rate :: number
  pr_settings :: loyalty_settings
  pr_pooled :: bool

definition validate_sale ::
  "string \<Rightarrow> create_invoice \<Rightarrow> string \<Rightarrow> string \<Rightarrow> string option \<Rightarrow> ('w pos_scheme, prepared) io" where
  "validate_sale t dto cashierId branchId shiftId =
     bindE (check_attempt t (ci_attempt dto)) (\<lambda>_.
     bindE (assertOpenSession t shiftId) (\<lambda>_.
     bindE (whenE (truthy (ci_customer dto))
       (bindE (customers_findById (Some t) (the (ci_customer dto))) (\<lambda>_. ret ()))) (\<lambda>_.
     bindE (if t \<noteq> [] then getTaxRate t else ret 0) (\<lambda>taxRate.
     bindE (getSettings t) (\<lambda>settings.
     bindE (loyalty_discount t dto settings) (\<lambda>loyaltyDiscount.
     bindE (resolve_lines cashierId t branchId dto) (\<lambda>s.
     bindE (gets config) (\<lambda>flag.
     let usePooledWrite = flag ''POOLED_INVOICE_WRITES_ENABLED'' in
     bindE (require (\<not> (rs_any s \<and> \<not> usePooledWrite)) (Http BadRequest
       ''Price override requires the atomic (pooled) write path, which is not enabled''
       [(''reasonCode'', ''price_override_requires_atomic_write_path'')])) (\<lambda>_.
     let manual = buildInvoice (map fst (rs_lines s)) (ci_discount dto) taxRate in
     bindE (coupon_discount t dto (subtotal manual)) (\<lambda>(coupon, couponDiscount).
     let built = combine_discounts manual loyaltyDiscount couponDiscount taxRate in
     bindE (lift (check_payment dto (total built))) (\<lambda>_.
     ret \<lparr>pr_lines = rs_lines s, pr_built = built, pr_coupon = coupon, pr_tax_rate = taxRate,
       pr_settings = settings, pr_pooled = usePooledWrite\<rparr>)))))))))))"

section \<open>The writes\<close>

definition redeem_for_sale :: "string \<Rightarrow> create_invoice \<Rightarrow> ('w pos_scheme, unit) io" where
  "redeem_for_sale t dto =
     (if \<not> nonzero (ci_redeem dto) then ret () else
      bindE (gets config) (\<lambda>flag.
      if flag ''POOLED_LOYALTY_WRITES_ENABLED''
      then redeemPointsPooled t (the (ci_customer dto)) (the (ci_redeem dto))
      else redeemPoints t (the (ci_customer dto)) (the (ci_redeem dto))))"

definition sale_payload ::
  "create_invoice \<Rightarrow> string \<Rightarrow> string \<Rightarrow> string option \<Rightarrow> prepared \<Rightarrow> order_payload" where
  "sale_payload dto cashierId branchId shiftId pr = \<lparr>o_branch = branchId, o_shift = shiftId, o_cashier = cashierId,
     o_customer = ci_customer dto, o_status = ''completed'', o_subtotal = subtotal (pr_built pr),
     o_discount = discount_amount (pr_built pr), o_tax = tax_amount (pr_built pr), o_total = total (pr_built pr),
     o_method = Some (ci_method dto), o_notes = ci_notes dto, o_coupon = map_option cp_code (pr_coupon pr),
     o_attempt = Some (ci_attempt dto), o_cash = (if ci_method dto = ''split'' then ci_cash dto else None),
     o_card = (if ci_method dto = ''split'' then ci_card dto else None), o_held = False, o_visibility = None,
     o_held_by = None, o_held_at = None\<rparr>"

definition pooled_line :: "invoice_line \<times> price_result \<Rightarrow> pooled_item" where
  "pooled_line l = invoice_item.extend (invoice_item.truncate (fst l))
     \<lparr>pl_official = official_of (snd l), pl_override = override_of (snd l)\<rparr>"

definition plain_line :: "invoice_line \<times> price_result \<Rightarrow> new_line" where
  "plain_line l = invoice_item.extend (invoice_item.truncate (fst l)) \<lparr>nl_official = Some (official_of (snd l))\<rparr>"

text \<open>A regular expression without anchors, ignoring the case of ASCII letters.\<close>

definition lower_char :: "char \<Rightarrow> char" where
  "lower_char c = (let n = of_char c :: nat in if 65 \<le> n \<and> n \<le> 90 then char_of (n + 32) else c)"

definition accounting_phrases :: "string list" where
  "accounting_phrases = [''accounting owner'', ''accounting book'', ''no account assigned'',
     ''already been posted to accounting'', ''unrecognized payment_method'', ''no cash_amount/card_amount'',
     ''totals do not reconcile'', ''fiscal period'']"

definition is_accounting_message :: "string \<Rightarrow> bool" where
  "is_accounting_message m = list_ex (contains_str (map lower_char m)) accounting_phrases"

definition write_failed :: "string \<Rightarrow> create_invoice \<Rightarrow> exn \<Rightarrow> ('w pos_scheme, string) io" where
  "write_failed t dto err =
     bindE (if isUniqueViolation err then findBySaleAttemptId (Some t) (ci_attempt dto) else ret None) (\<lambda>existing.
     case existing of
       Some r \<Rightarrow> throw (Http Conflict ''This sale was already created'' [(''order_id'', o_id r)])
     | None \<Rightarrow>
         if is_accounting_message (exn_message err)
         then throw (Http BadRequest ''Accounting posting failed - sale was not created''
           [(''reasonCode'', ''accounting_posting_failed''), (''detail'', exn_message err)])
         else throw err)"

definition write_sale ::
  "string \<Rightarrow> create_invoice \<Rightarrow> string \<Rightarrow> string \<Rightarrow> string option \<Rightarrow> prepared \<Rightarrow> ('w pos_scheme, string) io" where
  "write_sale t dto cashierId branchId shiftId pr =
     (let payload = sale_payload dto cashierId branchId shiftId pr in
      catchE
        (if pr_pooled pr
         then createWithItemsPooled (Some t) payload (map pooled_line (pr_lines pr))
         else bindE (invoices_create (Some t) payload) (\<lambda>oid.
              bindE (insertItems oid (map plain_line (pr_lines pr))) (\<lambda>_. ret oid)))
        (write_failed t dto))"

section \<open>After the sale is written\<close>

text \<open>\<^verbatim>\<open>[a, b].filter(Boolean).join(' | ')\<close> with \<^verbatim>\<open>a\<close> possibly null.\<close>

definition add_warning :: "string option \<Rightarrow> string \<Rightarrow> string option" where
  "add_warning v m = Some (join '' | '' (filter (\<lambda>s. s \<noteq> []) ((case v of None \<Rightarrow> [] | Some s \<Rightarrow> [s]) @ [m])))"

definition sold_items :: "invoice_line list \<Rightarrow> (string \<times> string option) list" where
  "sold_items ls = map (\<lambda>it. (item_id it, variant_id it)) ls"

definition quality_advice :: "string \<Rightarrow> string \<Rightarrow> invoice_line list \<Rightarrow> ('w pos_scheme, string option) io" where
  "quality_advice t warehouseId ls = catchE (bindE (checkHolds t warehouseId (sold_items ls)) (\<lambda>held. ret
     (if held \<noteq> [] then Some (''Sold item(s) under active quality hold: '' @ join '', '' (uniq held)) else None)))
     (\<lambda>_. ret None)"

definition expiry_advice ::
  "string \<Rightarrow> string \<Rightarrow> invoice_line list \<Rightarrow> string option \<Rightarrow> ('w pos_scheme, string option) io" where
  "expiry_advice t warehouseId ls warn = catchE (bindE (checkExpiredBatches t warehouseId (sold_items ls)) (\<lambda>expired. ret
     (if expired \<noteq> []
      then add_warning warn (''Sold item(s) with expired batch stock: '' @ join '', '' (uniq expired)) else warn)))
     (\<lambda>_. ret warn)"

definition ownership_advice :: "string \<Rightarrow> invoice_line list \<Rightarrow> string option \<Rightarrow> ('w pos_scheme, string option) io" where
  "ownership_advice warehouseId ls warn = catchE
     (bindE (foldE ls [] (\<lambda>names it.
        bindE (consumeForSale warehouseId (item_id it) (variant_id it) (quantity it)) (\<lambda>consumed.
        ret (if consumed > 0 then names @ [item_name it] else names)))) (\<lambda>names. ret
     (if names \<noteq> []
      then add_warning warn (''Sold item(s) held under non-company ownership: '' @ join '', '' (uniq names)) else warn)))
     (\<lambda>_. ret warn)"

definition stock_deduction ::
  "string \<Rightarrow> string \<Rightarrow> string \<Rightarrow> string \<Rightarrow> invoice_line list \<Rightarrow> string option \<Rightarrow> ('w pos_scheme, string option) io" where
  "stock_deduction t warehouseId orderId cashierId ls warn = catchE
     (bindE (deductStockForSale t warehouseId orderId cashierId
        (map (\<lambda>it. (item_id it, variant_id it, quantity it)) ls)) (\<lambda>_. ret warn))
     (\<lambda>e. bindE (notify cashierId ''inventory_stock_deduction_failed'') (\<lambda>_. ret (add_warning warn (exn_message e))))"

definition stock_after_sale ::
  "string \<Rightarrow> string \<Rightarrow> string \<Rightarrow> string \<Rightarrow> invoice_line list \<Rightarrow> ('w pos_scheme, string option) io" where
  "stock_after_sale t branchId orderId cashierId ls =
     bindE (getBranchDefaultWarehouse branchId) (\<lambda>wh.
     if \<not> truthy wh then ret None else
     bindE (quality_advice t (the wh) ls) (\<lambda>w1.
     bindE (expiry_advice t (the wh) ls w1) (\<lambda>w2.
     bindE (ownership_advice (the wh) ls w2) (\<lambda>w3.
     stock_deduction t (the wh) orderId cashierId ls w3))))"

definition serials_after_sale ::
  "string \<Rightarrow> invoice_line list \<Rightarrow> string option \<Rightarrow> ('w pos_scheme, string option) io" where
  "serials_after_sale orderId ls warn = foldE ls warn (\<lambda>v it.
     if \<not> truthy (li_serial it) then ret v else
     catchE (bindE (serials_sell (the (li_serial it)) orderId (li_warranty it)) (\<lambda>_. ret v))
       (\<lambda>e. ret (add_warning v (''Serial '' @ the (li_serial it) @ '': '' @ exn_message e))))"

definition points_after_sale ::
  "string \<Rightarrow> create_invoice \<Rightarrow> prepared \<Rightarrow> ('w pos_scheme, unit) io" where
  "points_after_sale t dto pr =
     whenE (truthy (ci_customer dto) \<and> loyalty_on (pr_settings pr))
      (let basePoints = calculatePointsEarned (total (pr_built pr)) (pr_settings pr) in
       bindE (getTierMultiplier t (the (ci_customer dto))) (\<lambda>tierMultiplier.
       let pointsEarned = of_int \<lfloor>fmul basePoints tierMultiplier\<rfloor> in
       bindE (gets config) (\<lambda>flag.
       ignoring (if flag ''POOLED_LOYALTY_WRITES_ENABLED''
         then awardPointsPooled t (the (ci_customer dto)) pointsEarned
         else awardPoints t (the (ci_customer dto)) pointsEarned))))"

definition invalidateList :: "string \<Rightarrow> ('w pos_scheme, unit) io" where
  "invalidateList t = cache_delByPrefix (''invoices:list:tenant:'' @ t @ '':'')"

record sale_result =
  sr_id :: string
  sr_total :: number
  sr_tax_rate :: number
  sr_warning :: "string option"

definition after_sale ::
  "string \<Rightarrow> create_invoice \<Rightarrow> string \<Rightarrow> string \<Rightarrow> string \<Rightarrow> string \<Rightarrow> string \<Rightarrow> prepared \<Rightarrow> string \<Rightarrow>
   ('w pos_scheme, sale_result) io" where
  "after_sale t dto cashierId actorRole branchId ip device pr orderId =
     bindE (audit_log ((entry (Some t) cashierId (Some actorRole) ''invoice.create'' ''invoice'' (Some orderId) JNull
       (JObj [(''total'', JNum (total (pr_built pr))), (''payment_method'', JStr (ci_method dto)),
         (''tax_rate'', JNum (pr_tax_rate pr))]))\<lparr>a_ip := Some ip, a_device := Some device\<rparr>)) (\<lambda>_.
     bindE (case pr_coupon pr of None \<Rightarrow> ret () | Some c \<Rightarrow> coupon_redeem (cp_id c)) (\<lambda>_.
     bindE (stock_after_sale t branchId orderId cashierId (items (pr_built pr))) (\<lambda>w1.
     bindE (serials_after_sale orderId (items (pr_built pr)) w1) (\<lambda>w2.
     bindE (points_after_sale t dto pr) (\<lambda>_.
     bindE (notify cashierId ''payment_success'') (\<lambda>_.
     bindE (invalidateList t) (\<lambda>_.
     ret \<lparr>sr_id = orderId, sr_total = total (pr_built pr), sr_tax_rate = pr_tax_rate pr, sr_warning = w2\<rparr>)))))))"

section \<open>InvoicesService\<close>

definition invoice_create ::
  "string \<Rightarrow> create_invoice \<Rightarrow> string \<Rightarrow> string \<Rightarrow> string \<Rightarrow> string option \<Rightarrow> string \<Rightarrow> string \<Rightarrow>
   ('w pos_scheme, sale_result) io" where
  "invoice_create t dto cashierId actorRole branchId shiftId ip device =
     bindE (validate_sale t dto cashierId branchId shiftId) (\<lambda>pr.
     bindE (redeem_for_sale t dto) (\<lambda>_.
     bindE (write_sale t dto cashierId branchId shiftId pr) (\<lambda>orderId.
     after_sale t dto cashierId actorRole branchId ip device pr orderId)))"

definition invoice_findById ::
  "string option \<Rightarrow> string \<Rightarrow> ('w pos_scheme, order_row \<times> order_item_row list) io" where
  "invoice_findById tenant oid = bindE (invoices_findById tenant oid) (\<lambda>found. case found of
     None \<Rightarrow> throw (not_found ''Invoice not found'') | Some r \<Rightarrow> ret r)"

definition restock_serials :: "string \<Rightarrow> ('w pos_scheme, unit) io" where
  "restock_serials oid = ignoring (bindE (findSoldByOrder oid) (\<lambda>ss. forEach ss (\<lambda>s. ignoring (returnSerial s))))"

definition invoice_cancel ::
  "string option \<Rightarrow> string \<Rightarrow> string option \<Rightarrow> string \<Rightarrow> string \<Rightarrow> string \<Rightarrow> string \<Rightarrow> ('w pos_scheme, string) io" where
  "invoice_cancel tenant oid why actorId actorRole ip device =
     bindE (invoice_findById tenant oid) (\<lambda>(before, _).
     bindE (require (o_status before \<noteq> ''cancelled'') (bad_request ''Invoice already cancelled'')) (\<lambda>_.
     bindE (gets config) (\<lambda>flag.
     bindE (if flag ''POOLED_INVOICE_WRITES_ENABLED'' then cancelPooled tenant oid else invoices_cancel tenant oid) (\<lambda>_.
     bindE (audit_log ((entry tenant actorId (Some actorRole) ''invoice.cancel'' ''invoice'' (Some oid)
       (JObj [(''status'', JStr (o_status before)), (''total'', JNum (o_total before))])
       (JObj [(''status'', JStr ''cancelled''), (''reason'', js_opt_str why)]))
         \<lparr>a_ip := Some ip, a_device := Some device\<rparr>)) (\<lambda>_.
     bindE (ignoring (reverseSaleStockDeduction oid)) (\<lambda>_.
     bindE (restock_serials oid) (\<lambda>_.
     bindE (invalidateList (nullish tenant ''null'')) (\<lambda>_.
     ret oid))))))))"

record hold_order =
  ho_branch :: string
  ho_shift :: "string option"
  ho_customer :: "string option"
  ho_items :: "invoice_item list"
  ho_notes :: "string option"
  ho_visibility :: "string option"

definition hold_payload :: "hold_order \<Rightarrow> string \<Rightarrow> int \<Rightarrow> order_payload" where
  "hold_payload dto actorId t =
     (let sub = foldl (\<lambda>sum it. fadd sum (fmul (quantity it) (unit_price it))) 0 (ho_items dto) in
      \<lparr>o_branch = ho_branch dto, o_shift = ho_shift dto, o_cashier = actorId, o_customer = ho_customer dto,
       o_status = ''pending'', o_subtotal = sub, o_discount = 0, o_tax = 0, o_total = sub, o_method = None,
       o_notes = ho_notes dto, o_coupon = None, o_attempt = None, o_cash = None, o_card = None, o_held = True,
       o_visibility = Some (nullish (ho_visibility dto) ''self''), o_held_by = Some actorId, o_held_at = Some t\<rparr>)"

definition holdOrder ::
  "string option \<Rightarrow> hold_order \<Rightarrow> string \<Rightarrow> string \<Rightarrow> ('w pos_scheme, (order_row \<times> order_item_row list) option) io" where
  "holdOrder tenant dto actorId actorRole =
     bindE now (\<lambda>t.
     bindE (invoices_create tenant (hold_payload dto actorId t)) (\<lambda>oid.
     bindE (insertItems oid (map (\<lambda>it. invoice_item.extend it \<lparr>nl_official = None\<rparr>) (ho_items dto))) (\<lambda>_.
     bindE (audit_log (entry tenant actorId (Some actorRole) ''invoice.hold'' ''invoice'' (Some oid) JNull
       (JObj [(''branch_id'', JStr (ho_branch dto)), (''items_count'', JNum (of_nat (length (ho_items dto)))),
         (''subtotal'', JNum (o_subtotal (hold_payload dto actorId t)))]))) (\<lambda>_.
     invoices_findById tenant oid))))"

definition getHeldOrder :: "string option \<Rightarrow> string \<Rightarrow> ('w pos_scheme, order_row \<times> order_item_row list) io" where
  "getHeldOrder tenant oid = bindE (invoices_findById tenant oid) (\<lambda>found. case found of
     None \<Rightarrow> throw (not_found ''Held order not found'')
   | Some r \<Rightarrow> if o_held (fst r) then ret r else throw (not_found ''Held order not found''))"

definition updateHeldVisibility :: "string option \<Rightarrow> string \<Rightarrow> string \<Rightarrow> ('w pos_scheme, string \<times> string) io" where
  "updateHeldVisibility tenant oid vis = bindE (repo_updateHeldVisibility tenant oid vis) (\<lambda>updated. case updated of
     None \<Rightarrow> throw (not_found ''Held order not found'') | Some r \<Rightarrow> ret r)"

definition cancelHeldOrder :: "string option \<Rightarrow> string \<Rightarrow> string \<Rightarrow> string \<Rightarrow> ('w pos_scheme, string) io" where
  "cancelHeldOrder tenant oid actorId actorRole = bindE (repo_cancelHeldOrder tenant oid) (\<lambda>cancelled.
     bindE (require (cancelled \<noteq> None) (not_found ''Held order not found'')) (\<lambda>_.
     bindE (audit_log (entry tenant actorId (Some actorRole) ''invoice.hold_cancel'' ''invoice'' (Some oid) JNull JNull)) (\<lambda>_.
     ret oid)))"

end
