(* ===== verification/InvoiceSafety.thy ===== *)
theory InvoiceSafety
  imports Invoices
begin

text \<open>
  The theorems about sales.  First what each part of \<^verbatim>\<open>create\<close> leaves alone, then what a sale
  that got past the validation can rely on, what the pooled path writes, and the invariants of
  the table of orders.
\<close>

section \<open>What the parts leave alone\<close>

text \<open>
  The interface between the sale and everything it calls before its first write: a view that
  caches, the audit log and the memo of role identifiers do not show in.  Reads keep it, and so
  does a transaction whose body keeps it.
\<close>

locale beside_sale = beside_permissions v for v :: "'w pos_scheme \<Rightarrow> 'v"
begin

lemma keeps_transaction: assumes "keeps v m" shows "keeps v (runInTenantContext m)"
proof -
  have "wp (runInTenantContext m) (\<lambda>_ u. v u = v w) (\<lambda>_ u. v u = v w) w" for w
  proof (rule runInTenantContext_atomic)
    fix u :: "'w pos_scheme" assume "u = w\<lparr>calls := calls u\<rparr>"
    then have "v u = v w" by (metis counts)
    then show "wp m (\<lambda>_ w'. \<forall>n. v (w'\<lparr>calls := n\<rparr>) = v w) (\<lambda>_ _. True) u"
      by (intro wp_mono [OF keeps_wp [OF assms]]) (auto simp: counts)
  qed (simp add: counts)
  then show ?thesis unfolding keeps_def wp_snd by blast
qed

lemma keeps_resolvePrice: "keeps v (resolvePrice inp)"
  unfolding resolvePrice_def resolveOfficialPrice_def resolveEffectiveRole_def resolveEffectivePolicy_def
  by (intro keep_rules keeps_query keeps_hasPermissionForUser)

lemma keeps_resolve_lines: "keeps v (resolve_lines c t b dto)"
  unfolding resolve_lines_def resolve_line_def by (intro keep_rules keeps_resolvePrice keeps_foldE) 
    (auto split: price_result.split intro!: keep_rules)

lemma keeps_sale_reads:
  "keeps v (findBySaleAttemptId tn a)" "keeps v (assertOpenSession t i)" "keeps v (customers_findById tn c)"
  "keeps v (getTaxRate t)" "keeps v (getSettings t)" "keeps v (getBalance t c)" "keeps v (getBalancePooled t c)"
  "keeps v (coupon_validate tn k amount)" "keeps v (getBranchDefaultWarehouse b)"
  "keeps v (findMatchingTier t lp)" "keeps v (getTierMultiplier t c)"
  unfolding findBySaleAttemptId_def assertOpenSession_def shifts_findById_def customers_findById_def getTaxRate_def
    getSettings_def getBalance_def getBalancePooled_def coupon_validate_def findByCode_def getBranchDefaultWarehouse_def
    findMatchingTier_def getTierMultiplier_def
  by (intro keep_rules keeps_query keeps_transaction keeps_statement; simp)+

lemma keeps_validate_sale: "keeps v (validate_sale t dto c b s)"
  unfolding validate_sale_def check_attempt_def loyalty_discount_def coupon_discount_def Let_def
  by (intro keep_rules keeps_sale_reads keeps_resolve_lines)

end

section \<open>What the validation establishes\<close>

text \<open>Every table a sale reads or writes, the flags and the faults.\<close>

definition sale_world where
  "sale_world w = (price_tables w, shifts w, (orders w, order_items w, override_audits w, journal w),
     (customers w, tenants w, coupons w, loyalty_tiers w, stock_log w), config w, pg_pool w)"

interpretation world: beside_sale sale_world
  by unfold_locales (simp_all add: sale_world_def price_tables_def)

lemma wp_step:
  assumes "keeps v m" "wp m (\<lambda>x _. P x) (\<lambda>_ _. True) u"
    "\<And>x u'. v u' = v u \<Longrightarrow> P x \<Longrightarrow> wp (f x) Q E u'" "\<And>e u'. v u' = v u \<Longrightarrow> E e u'"
  shows "wp (bindE m f) Q E u"
  unfolding wp_bindE
  by (rule wp_mono [OF wp_conj [OF keeps_wp [OF assms(1) refl] assms(2)]]) (use assms(3,4) in auto)

lemma world_eq:
  "sale_world u = sale_world w \<Longrightarrow> price_tables u = price_tables w \<and> shifts u = shifts w \<and> orders u = orders w \<and>
   customers u = customers w \<and> coupons u = coupons w \<and> config u = config w \<and> joined_roles u = joined_roles w \<and>
   is_official u = is_official w \<and> tenant_policies u = tenant_policies w"
  using price_tables_eq [of u w] by (simp add: sale_world_def)

definition line_priced ::
  "'w pos_scheme \<Rightarrow> string \<Rightarrow> string \<Rightarrow> string \<Rightarrow> bool \<Rightarrow> invoice_line \<Rightarrow> invoice_line \<times> price_result \<Rightarrow> bool" where
  "line_priced w cashierId t branchId hasDiscount it l \<longleftrightarrow> fst l = it \<and> (case snd l of
     NoOverride p \<Rightarrow> is_official w (item_id it) (variant_id it) t p \<and> unit_price it = p
   | ApprovedOverride d \<Rightarrow>
       is_official w (item_id it) (variant_id it) t (od_official d) \<and> od_approved d = unit_price it \<and>
       unit_price it \<noteq> od_official d \<and> pick_role (joined_roles w cashierId) = Some (od_role d) \<and>
       merge_policy (tenant_policies w t) branchId (er_roleId (od_role d)) = Some (od_policy d) \<and>
       permits (od_policy d) (line_input cashierId t branchId hasDiscount None it) (od_official d)
   | RejectedPrice _ _ _ _ \<Rightarrow> False)"

definition role_ok :: "'w pos_scheme \<Rightarrow> string \<Rightarrow> effective_role option option \<Rightarrow> bool" where
  "role_ok w cashierId r \<longleftrightarrow> r = None \<or> (\<exists>x. r = Some (Some x) \<and> pick_role (joined_roles w cashierId) = Some x)"

lemma line_priced_sound:
  assumes "price_sound w (line_input c t b disc r it) res" "role_ok w c r"
  shows "(\<forall>p. res = NoOverride p \<longrightarrow> line_priced w c t b disc it (it\<lparr>unit_price := p\<rparr>, res)) \<and>
    (\<forall>d. res = ApprovedOverride d \<longrightarrow> line_priced w c t b disc it (it\<lparr>unit_price := od_approved d\<rparr>, res) \<and>
      pick_role (joined_roles w c) = Some (od_role d))"
  using assms by (auto simp: price_sound_def line_priced_def line_input_def role_ok_def permits_def Let_def)

lemma resolve_line_sound:
  fixes u w :: "'w pos_scheme"
  assumes "sale_world u = sale_world w" "role_ok w c (rs_role s)"
  shows "wp (resolve_line c t b disc s it) (\<lambda>s' _. role_ok w c (rs_role s') \<and>
     (\<exists>l. rs_lines s' = rs_lines s @ [l] \<and> line_priced w c t b disc it l \<and>
        rs_any s' = (rs_any s \<or> override_of (snd l) \<noteq> None))) (\<lambda>_ _. True) u"
  unfolding resolve_line_def
proof (rule wp_step [OF world.keeps_resolvePrice])
  let ?i = "line_input c t b disc (rs_role s) it"
  show "wp (resolvePrice ?i) (\<lambda>res _. price_sound u ?i res) (\<lambda>_ _. True) u"
    by (rule wp_mono [OF resolvePrice_wp]) auto
  fix res and v :: "'w pos_scheme" assume "price_sound u ?i res"
  then have "price_sound w ?i res"
    using world_eq [OF assms(1)] by (cases res) (auto simp: price_sound_def)
  note l = line_priced_sound [OF this assms(2)]
  show "wp (case res of
       ApprovedOverride d \<Rightarrow> ret \<lparr>rs_role = (case rs_role s of None \<Rightarrow> Some (Some (od_role d)) | Some r \<Rightarrow> Some r),
         rs_any = True, rs_lines = rs_lines s @ [(it\<lparr>unit_price := od_approved d\<rparr>, res)]\<rparr>
     | RejectedPrice _ _ k _ \<Rightarrow> throw (rejection_exn (item_id it) k)
     | NoOverride p \<Rightarrow> ret (s\<lparr>rs_lines := rs_lines s @ [(it\<lparr>unit_price := p\<rparr>, res)]\<rparr>))
    (\<lambda>s' _. role_ok w c (rs_role s') \<and> (\<exists>l. rs_lines s' = rs_lines s @ [l] \<and> line_priced w c t b disc it l \<and>
        rs_any s' = (rs_any s \<or> override_of (snd l) \<noteq> None))) (\<lambda>_ _. True) v"
    using l assms(2) by (cases res) (auto simp: wp_ret wp_throw override_of_def role_ok_def split: option.split)
qed simp

lemma resolve_lines_sound:
  fixes u w :: "'w pos_scheme"
  assumes "sale_world u = sale_world w" "role_ok w c (rs_role s)"
  shows "wp (foldE its s (resolve_line c t b disc)) (\<lambda>s' _. \<exists>ls. rs_lines s' = rs_lines s @ ls \<and>
     list_all2 (line_priced w c t b disc) its ls \<and>
     (rs_any s' \<longleftrightarrow> rs_any s \<or> (\<exists>l\<in>set ls. override_of (snd l) \<noteq> None))) (\<lambda>_ _. True) u"
  using assms
proof (induction its arbitrary: s u)
  case (Cons it its)
  have k: "keeps sale_world (resolve_line c t b disc s it)"
    unfolding resolve_line_def
    by (rule keeps_bindE, rule world.keeps_resolvePrice) (auto split: price_result.split intro!: keep_rules)
  show ?case unfolding foldE.simps
  proof (rule wp_step [OF k resolve_line_sound [OF Cons.prems]])
    fix s1 :: resolved and v :: "'w pos_scheme"
    assume "sale_world v = sale_world u" and s1: "role_ok w c (rs_role s1) \<and> (\<exists>l. rs_lines s1 = rs_lines s @ [l] \<and>
       line_priced w c t b disc it l \<and> rs_any s1 = (rs_any s \<or> override_of (snd l) \<noteq> None))"
    then obtain l where l: "rs_lines s1 = rs_lines s @ [l]" "line_priced w c t b disc it l"
      "rs_any s1 = (rs_any s \<or> override_of (snd l) \<noteq> None)" by blast
    have "wp (foldE its s1 (resolve_line c t b disc)) (\<lambda>s' _. \<exists>ls. rs_lines s' = rs_lines s1 @ ls \<and>
       list_all2 (line_priced w c t b disc) its ls \<and>
       (rs_any s' \<longleftrightarrow> rs_any s1 \<or> (\<exists>l\<in>set ls. override_of (snd l) \<noteq> None))) (\<lambda>_ _. True) v"
      using Cons.IH \<open>sale_world v = sale_world u\<close> Cons.prems(1) s1 by simp
    then show "wp (foldE its s1 (resolve_line c t b disc)) (\<lambda>s' _. \<exists>ls. rs_lines s' = rs_lines s @ ls \<and>
       list_all2 (line_priced w c t b disc) (it # its) ls \<and>
       (rs_any s' \<longleftrightarrow> rs_any s \<or> (\<exists>l\<in>set ls. override_of (snd l) \<noteq> None))) (\<lambda>_ _. True) v"
    proof (rule wp_mono)
      fix s' :: resolved and x :: "'w pos_scheme"
      assume "\<exists>ls. rs_lines s' = rs_lines s1 @ ls \<and> list_all2 (line_priced w c t b disc) its ls \<and>
       (rs_any s' \<longleftrightarrow> rs_any s1 \<or> (\<exists>l\<in>set ls. override_of (snd l) \<noteq> None))"
      then obtain ls where "rs_lines s' = rs_lines s1 @ ls" "list_all2 (line_priced w c t b disc) its ls"
       "rs_any s' \<longleftrightarrow> rs_any s1 \<or> (\<exists>l\<in>set ls. override_of (snd l) \<noteq> None)" by blast
      then show "\<exists>ls. rs_lines s' = rs_lines s @ ls \<and> list_all2 (line_priced w c t b disc) (it # its) ls \<and>
       (rs_any s' \<longleftrightarrow> rs_any s \<or> (\<exists>l\<in>set ls. override_of (snd l) \<noteq> None))"
        by (intro exI [of _ "l # ls"]) (auto simp: l)
    qed
  qed simp
qed (simp add: wp_ret)

text \<open>The other checks, each seen from the state it starts in.\<close>

definition attempt_new :: "'w pos_scheme \<Rightarrow> string \<Rightarrow> string \<Rightarrow> bool" where
  "attempt_new w t attempt \<longleftrightarrow> (\<forall>r\<in>set (orders w). orders_scope (Some t) r \<longrightarrow> o_attempt r \<noteq> Some attempt)"

definition session_open :: "'w pos_scheme \<Rightarrow> string \<Rightarrow> string option \<Rightarrow> bool" where
  "session_open w t shiftId \<longleftrightarrow> (\<exists>s\<in>set (shifts w). Some (sh_id s) = shiftId \<and> sh_tenant s = t \<and>
     sh_status s = ''open'' \<and> \<not> sh_deleted s)"

definition live_customer :: "'w pos_scheme \<Rightarrow> string \<Rightarrow> string option \<Rightarrow> bool" where
  "live_customer w t cid \<longleftrightarrow> (\<exists>c\<in>set (customers w). Some (c_id c) = cid \<and> scoped (Some t) (c_tenant c) \<and> \<not> c_deleted c)"

definition redemption_ok ::
  "'w pos_scheme \<Rightarrow> string \<Rightarrow> create_invoice \<Rightarrow> loyalty_settings \<Rightarrow> number \<Rightarrow> bool" where
  "redemption_ok w t dto settings d \<longleftrightarrow>
     (if nonzero (ci_redeem dto) then loyalty_on settings \<and> truthy (ci_customer dto) \<and>
        d = calculateRedemptionValue (the (ci_redeem dto)) settings \<and>
        (the (ci_redeem dto) \<le> 0 \<or> (\<exists>c\<in>set (customers w). customer_of t (the (ci_customer dto)) c \<and>
           the (ci_redeem dto) \<le> c_points c))
      else d = 0)"

definition coupon_ok ::
  "'w pos_scheme \<Rightarrow> string \<Rightarrow> create_invoice \<Rightarrow> number \<Rightarrow> coupon_row option \<Rightarrow> number \<Rightarrow> bool" where
  "coupon_ok w t dto amount coupon d \<longleftrightarrow>
     (if truthy (ci_coupon dto) then \<exists>c\<in>set (coupons w). coupon = Some c \<and> live_coupon (Some t) c \<and>
        cp_code c = toUpperCase (the (ci_coupon dto)) \<and> (\<exists>ts. coupon_holds ts amount c) \<and>
        d = calculateDiscount c amount
      else coupon = None \<and> d = 0)"

lemma attempt_sound: "wp (check_attempt t a) (\<lambda>_ _. attempt_new u t a) (\<lambda>_ _. True) u"
  by (auto simp: check_attempt_def findBySaleAttemptId_def wp_rules attempt_new_def split: option.split sum.split
      dest!: maybeSingle_NoneD simp: filter_empty_conv)

lemma session_sound: "wp (assertOpenSession t i) (\<lambda>_ _. session_open u t i) (\<lambda>_ _. True) u"
proof (cases i)
  case None
  then show ?thesis by (simp add: assertOpenSession_def wp_rules)
next
  case (Some j)
  have "session_open u t i" if "filter (\<lambda>s. sh_id s = j \<and> sh_tenant s = t \<and> \<not> sh_deleted s) (shifts u) = [s]"
    "sh_status s = ''open''" for s
    using filter_oneD [OF that(1)] that(2) by (auto simp: session_open_def Some)
  then show ?thesis
    by (auto simp: assertOpenSession_def shifts_findById_def wp_rules Some split: option.split sum.split
        dest!: maybeSingle_SomeD)
qed

lemma customer_sound:
  "wp (customers_findById (Some t) c) (\<lambda>_ _. live_customer u t (Some c)) (\<lambda>_ _. True) u"
  by (auto simp: customers_findById_def wp_rules live_customer_def split: option.split sum.split
      dest!: maybeSingle_SomeD filter_oneD)

lemma balance_sound:
  "wp (getBalance t c) (\<lambda>b _. b = 0 \<or> (\<exists>x\<in>set (customers u). customer_of t c x \<and> c_points x = b)) (\<lambda>_ _. True) u"
  by (auto simp: getBalance_def wp_rules split: option.split sum.split dest!: single_InrD filter_oneD)

lemma pooled_balance_sound:
  "wp (getBalancePooled t c) (\<lambda>b _. b = 0 \<or> (\<exists>x\<in>set (customers u). customer_of t c x \<and> c_points x = b)) (\<lambda>_ _. True) u"
  unfolding getBalancePooled_def
proof (rule runInTenantContext_atomic)
  fix v assume v: "v = u\<lparr>calls := calls v\<rparr>"
  have c: "customers v = customers u" by (subst v) simp
  have head: "case filter (customer_of t c) (customers u) of [] \<Rightarrow> True
    | x # _ \<Rightarrow> \<exists>y\<in>set (customers u). customer_of t c y \<and> c_points y = c_points x"
  proof (cases "filter (customer_of t c) (customers u)")
    case (Cons x xs)
    have "x \<in> set (filter (customer_of t c) (customers u))" by (simp add: Cons)
    then have "x \<in> set (customers u)" "customer_of t c x" by simp_all
    then show ?thesis by (auto simp: Cons)
  qed simp
  then show "wp (bindE (statement (\<lambda>w. (Inr (filter (customer_of t c) (customers w)), w))) (\<lambda>rows.
      ret (case rows of [] \<Rightarrow> 0 | c # _ \<Rightarrow> c_points c)))
     (\<lambda>b _. \<forall>n::nat. b = 0 \<or> (\<exists>x\<in>set (customers u). customer_of t c x \<and> c_points x = b)) (\<lambda>_ _. True) v"
    using head by (cases "filter (customer_of t c) (customers u)") (simp_all add: wp_rules c split: option.split)
qed simp

lemma redemption_sound: "wp (loyalty_discount t dto s) (\<lambda>d _. redemption_ok u t dto s d) (\<lambda>_ _. True) u"
proof (cases "nonzero (ci_redeem dto)")
  case True
  show ?thesis unfolding loyalty_discount_def using True
    by (auto simp: wp_rules redemption_ok_def not_less intro!: wp_mono [OF balance_sound] wp_mono [OF pooled_balance_sound])
qed (simp add: loyalty_discount_def wp_rules redemption_ok_def)

lemma coupon_sound:
  "wp (coupon_discount t dto amount) (\<lambda>x _. coupon_ok u t dto amount (fst x) (snd x)) (\<lambda>_ _. True) u"
proof (cases "truthy (ci_coupon dto)")
  case True
  have "wp (coupon_validate (Some t) (the (ci_coupon dto)) amount) (\<lambda>c _. coupon_ok u t dto amount (Some c)
      (calculateDiscount c amount)) (\<lambda>_ _. True) u"
  proof (rule wpI)
    fix c v assume "coupon_validate (Some t) (the (ci_coupon dto)) amount u = (Inr c, v)"
    then have "fst (coupon_validate (Some t) (the (ci_coupon dto)) amount u) = Inr c" by simp
    then have f: "filter (\<lambda>r. live_coupon (Some t) r \<and> cp_code r = toUpperCase (the (ci_coupon dto))) (coupons u) = [c]"
      and h: "coupon_holds (clock u (Suc (calls u))) amount c" by (simp_all add: coupon_validate_iff)
    show "coupon_ok u t dto amount (Some c) (calculateDiscount c amount)"
      using filter_oneD [OF f] h True by (auto simp: coupon_ok_def)
  qed simp
  then show ?thesis unfolding coupon_discount_def using True by (simp add: wp_rules)
qed (simp add: coupon_discount_def wp_rules coupon_ok_def)

text \<open>What a request that passes the validation can rely on, and what it will be charged.\<close>

definition sale_ok ::
  "'w pos_scheme \<Rightarrow> string \<Rightarrow> create_invoice \<Rightarrow> string \<Rightarrow> string \<Rightarrow> string option \<Rightarrow> prepared \<Rightarrow> bool" where
  "sale_ok w t dto cashierId branchId shiftId pr \<longleftrightarrow>
     attempt_new w t (ci_attempt dto) \<and> session_open w t shiftId \<and>
     (truthy (ci_customer dto) \<longrightarrow> live_customer w t (ci_customer dto)) \<and>
     list_all2 (line_priced w cashierId t branchId (ci_discount dto \<noteq> None)) (ci_items dto) (pr_lines pr) \<and>
     pr_pooled pr = config w ''POOLED_INVOICE_WRITES_ENABLED'' \<and>
     (pr_pooled pr \<or> (\<forall>l\<in>set (pr_lines pr). override_of (snd l) = None)) \<and>
     (\<exists>ld cd. redemption_ok w t dto (pr_settings pr) ld \<and>
        coupon_ok w t dto (calculateSubtotal (ci_items dto)) (pr_coupon pr) cd \<and>
        pr_built pr = combine_discounts (buildInvoice (ci_items dto) (ci_discount dto) (pr_tax_rate pr))
          ld cd (pr_tax_rate pr)) \<and>
     check_payment dto (total (pr_built pr)) = Inr ()"

lemma priced_items: "list_all2 (line_priced w c t b disc) its ls \<Longrightarrow> map fst ls = its"
  by (induction rule: list_all2_induct) (simp_all add: line_priced_def)

lemma world_facts:
  "sale_world u = sale_world w \<Longrightarrow> attempt_new u = attempt_new w"
  "sale_world u = sale_world w \<Longrightarrow> session_open u = session_open w"
  "sale_world u = sale_world w \<Longrightarrow> live_customer u = live_customer w"
  "sale_world u = sale_world w \<Longrightarrow> redemption_ok u = redemption_ok w"
  "sale_world u = sale_world w \<Longrightarrow> coupon_ok u = coupon_ok w"
  by (simp_all add: fun_eq_iff attempt_new_def session_open_def live_customer_def redemption_ok_def coupon_ok_def
      sale_world_def)

lemma validate_sale_sound:
  "wp (validate_sale t dto c b s) (\<lambda>pr u. sale_world u = sale_world w \<and> sale_ok w t dto c b s pr)
     (\<lambda>_ u. sale_world u = sale_world w) w"
proof -
  let ?V = sale_world
  have attempt: "keeps ?V (check_attempt t a)" for a
    unfolding check_attempt_def by (intro keep_rules world.keeps_sale_reads)
  have cust: "keeps ?V (whenE (truthy (ci_customer dto)) (bindE (customers_findById (Some t) (the (ci_customer dto))) (\<lambda>_. ret ())))"
    by (intro keep_rules world.keeps_sale_reads)
  have cust_sound: "wp (whenE (truthy (ci_customer dto)) (bindE (customers_findById (Some t) (the (ci_customer dto))) (\<lambda>_. ret ())))
      (\<lambda>_ _. truthy (ci_customer dto) \<longrightarrow> live_customer u t (ci_customer dto)) (\<lambda>_ _. True) u" for u :: "'a pos_scheme"
    by (cases "ci_customer dto") (auto simp: wp_rules intro!: wp_mono [OF customer_sound])
  have tax: "keeps ?V (if t \<noteq> [] then getTaxRate t else ret 0)" by (intro keep_rules world.keeps_sale_reads)
  have loyal: "keeps ?V (loyalty_discount t dto st)" for st
    unfolding loyalty_discount_def by (intro keep_rules world.keeps_sale_reads)
  have coup: "keeps ?V (coupon_discount t dto am)" for am
    unfolding coupon_discount_def by (intro keep_rules world.keeps_sale_reads)
  have any: "wp m (\<lambda>_ _. True) (\<lambda>_ _. True) u" for m :: "('a pos_scheme, 'x) io" and u
    by (simp add: wp_def split: prod.split sum.split)
  have lines: "wp (resolve_lines c t b dto) (\<lambda>s' _. list_all2 (line_priced w c t b (ci_discount dto \<noteq> None)) (ci_items dto) (rs_lines s') \<and>
      (rs_any s' \<longleftrightarrow> (\<exists>l\<in>set (rs_lines s'). override_of (snd l) \<noteq> None))) (\<lambda>_ _. True) u"
    if "sale_world u = sale_world w" for u :: "'a pos_scheme"
    unfolding resolve_lines_def
    by (rule wp_mono [OF resolve_lines_sound [OF that]]) (auto simp: role_ok_def)
  show ?thesis
    unfolding validate_sale_def Let_def
    apply (rule wp_step [OF attempt attempt_sound])
     apply (rule wp_step [OF world.keeps_sale_reads(2) session_sound])
      apply (rule wp_step [OF cust cust_sound])
       apply (rule wp_step [OF tax any])
        apply (rule wp_step [OF world.keeps_sale_reads(5) any])
         apply (rule wp_step [OF loyal redemption_sound])
          apply (rule wp_step [OF world.keeps_resolve_lines lines])
            apply simp
           apply (simp only: wp_bindE [of "gets _"] wp_gets wp_bindE [of "require _ _"] wp_require)
           apply (simp only: split: if_split)
           apply (intro conjI impI refl)
           apply (rule wp_step [OF coup coupon_sound])
            apply (simp only: wp_bindE [of "lift _"] wp_lift wp_case_prod wp_ret split: prod.split sum.split)
            subgoal premises prems for x1 u1 x2 u2 x3 u3 rate u4 settings u5 ld u6 rs u7 cp u8
            proof -
              note W = prems(1,3,5,7,9,11,13,16)
              have its: "map fst (rs_lines rs) = ci_items dto" using prems(14) priced_items by blast
              have sub: "subtotal (buildInvoice (map fst (rs_lines rs)) (ci_discount dto) rate) = calculateSubtotal (ci_items dto)"
                by (simp add: buildInvoice_def Let_def its)
              have "session_open w t s" "truthy (ci_customer dto) \<longrightarrow> live_customer w t (ci_customer dto)"
                "redemption_ok w t dto settings ld" "coupon_ok w t dto (calculateSubtotal (ci_items dto)) (fst cp) (snd cp)"
                "config u7 = config w"
                using prems(4,6,12,17) world_facts(2) [OF W(1)] world_facts(3) [OF W(2)] world_facts(4) [OF W(5)]
                  world_facts(5) [OF W(7)] world_eq [OF W(7)] by (simp_all add: sub)
              then show ?thesis using prems(2,14,15) by (auto simp: sale_ok_def its) blast+
            qed
           apply simp_all
    done
qed

section \<open>What is written\<close>

definition sale_books where
  "sale_books w = (orders w, order_items w, override_audits w, journal w)"

interpretation books: beside_sale sale_books
  by unfold_locales (simp_all add: sale_books_def)

lemma world_books: "sale_world u = sale_world w \<Longrightarrow> sale_books u = sale_books w"
  by (simp add: sale_world_def sale_books_def)

lemma books_points [keep_rules]:
  "keeps sale_books (redeemPoints t c p)" "keeps sale_books (awardPoints t c p)"
  "keeps sale_books (redeemPointsPooled t c p)" "keeps sale_books (awardPointsPooled t c p)"
  unfolding redeemPoints_def awardPoints_def redeemPointsPooled_def awardPointsPooled_def
    assertCustomerInTenant_def assertCustomerInTenantPooled_def
  by (intro keep_rules books.keeps_query books.keeps_exec books.keeps_statement books.keeps_transaction;
      simp add: fn_adjust_loyalty_points_def sale_books_def)+

lemma books_redeem: "keeps sale_books (redeem_for_sale t dto)"
  unfolding redeem_for_sale_def by (intro keep_rules)

lemma books_coupon [keep_rules]: "keeps sale_books (coupon_redeem c)"
  unfolding coupon_redeem_def repo_coupon_redeem_def
  by (intro keep_rules books.keeps_statement) (simp add: fn_redeem_coupon_def sale_books_def)

lemma books_notify [keep_rules]: "keeps sale_books (notify u k)"
  unfolding notify_def by (intro keep_rules books.keeps_statement) (simp add: sale_books_def)

lemma books_stock [keep_rules]:
  "keeps sale_books (stock_after_sale t b i c ls)" "keeps sale_books (serials_after_sale i ls v)"
  unfolding stock_after_sale_def quality_advice_def expiry_advice_def ownership_advice_def stock_deduction_def
    serials_after_sale_def checkHolds_def checkExpiredBatches_def consumeForSale_def deductStockForSale_def
    serials_sell_def
  by (intro keep_rules books.keeps_sale_reads books.keeps_statement; simp add: sale_books_def)+

lemma books_after_sale: "keeps sale_books (after_sale t dto c role b ip dev pr i)"
  unfolding after_sale_def points_after_sale_def invalidateList_def Let_def
  by (intro keep_rules books.keeps_infra books.keeps_sale_reads)

text \<open>The rows of a sale.\<close>

definition sale_row ::
  "string \<Rightarrow> create_invoice \<Rightarrow> string \<Rightarrow> string \<Rightarrow> string option \<Rightarrow> prepared \<Rightarrow> string \<Rightarrow> order_row" where
  "sale_row t dto cashierId branchId shiftId pr orderId = order_payload.extend
     (sale_payload dto cashierId branchId shiftId pr) \<lparr>o_id = orderId, o_tenant = Some t, o_deleted_at = None\<rparr>"

definition sale_line :: "string \<Rightarrow> string \<Rightarrow> invoice_line \<times> price_result \<Rightarrow> order_item_row" where
  "sale_line orderId lineId l = line_row lineId orderId (Some (official_of (snd l))) (fst l)"

definition sale_audit ::
  "string \<Rightarrow> string \<Rightarrow> string \<Rightarrow> string \<Rightarrow> string \<Rightarrow> invoice_line \<times> price_result \<Rightarrow> override_audit_row list" where
  "sale_audit t cashierId branchId orderId lineId l = (case override_of (snd l) of
     None \<Rightarrow> []
   | Some d \<Rightarrow> [\<lparr>oa_tenant = Some t, oa_branch = branchId, oa_order = orderId, oa_order_item = lineId,
       oa_actor = cashierId, oa_item = item_id (fst l), oa_data = d\<rparr>])"

definition sale_written ::
  "'w pos_scheme \<Rightarrow> 'w pos_scheme \<Rightarrow> string \<Rightarrow> create_invoice \<Rightarrow> string \<Rightarrow> string \<Rightarrow> string option \<Rightarrow> prepared \<Rightarrow>
   string \<Rightarrow> bool" where
  "sale_written w v t dto cashierId branchId shiftId pr orderId \<longleftrightarrow>
     orders v = orders w @ [sale_row t dto cashierId branchId shiftId pr orderId] \<and>
     (\<exists>ids. length ids = length (pr_lines pr) \<and>
        order_items v = order_items w @ map2 (sale_line orderId) ids (pr_lines pr) \<and>
        override_audits v = override_audits w @
          concat (map2 (sale_audit t cashierId branchId orderId) ids (pr_lines pr))) \<and>
     journal v = journal w @ [Posted orderId]"

lemma sale_written_books:
  "sale_books w = sale_books w' \<Longrightarrow> sale_books v = sale_books v' \<Longrightarrow>
   sale_written w v t dto c b s pr i = sale_written w' v' t dto c b s pr i"
  by (simp add: sale_written_def sale_books_def)

lemma pooled_line_parts [simp]:
  "pl_official (pooled_line l) = official_of (snd l)" "pl_override (pooled_line l) = override_of (snd l)"
  "line_row i oid off (pooled_line l) = line_row i oid off (fst l)" "item_id (pooled_line l) = item_id (fst l)"
  by (simp_all add: pooled_line_def invoice_item.defs line_row_def)

lemma payload_parts [simp]:
  "o_branch (sale_payload dto c b s pr) = b" "o_cashier (sale_payload dto c b s pr) = c"
  "o_attempt (sale_payload dto c b s pr) = Some (ci_attempt dto)"
  by (simp_all add: sale_payload_def)

lemma insert_lines:
  fixes u :: "'w pos_scheme"
  shows "wp (forEach (map pooled_line ls) (insert_pooled_line (Some t) (sale_payload dto c b s pr) oid))
    (\<lambda>_ v. orders v = orders u \<and> journal v = journal u \<and> (\<exists>ids. length ids = length ls \<and>
       order_items v = order_items u @ map2 (sale_line oid) ids ls \<and>
       override_audits v = override_audits u @ concat (map2 (sale_audit t c b oid) ids ls))) (\<lambda>_ _. True) u"
proof (induction ls arbitrary: u)
  case (Cons l ls)
  have one: "wp (insert_pooled_line (Some t) (sale_payload dto c b s pr) oid (pooled_line l))
    (\<lambda>_ v. orders v = orders u \<and> journal v = journal u \<and> (\<exists>i.
       order_items v = order_items u @ [sale_line oid i l] \<and>
       override_audits v = override_audits u @ sale_audit t c b oid i l)) (\<lambda>_ _. True) u"
    by (auto simp: insert_pooled_line_def wp_rules sale_line_def sale_audit_def override_row_def split: option.split)
  show ?case unfolding list.map forEach.simps
  proof (rule wp_bind [OF one])
    fix x and v :: "'w pos_scheme"
    assume "orders v = orders u \<and> journal v = journal u \<and> (\<exists>i. order_items v = order_items u @ [sale_line oid i l] \<and>
       override_audits v = override_audits u @ sale_audit t c b oid i l)"
    then obtain i where v: "orders v = orders u" "journal v = journal u"
      "order_items v = order_items u @ [sale_line oid i l]"
      "override_audits v = override_audits u @ sale_audit t c b oid i l" by blast
    show "wp (forEach (map pooled_line ls) (insert_pooled_line (Some t) (sale_payload dto c b s pr) oid))
      (\<lambda>_ v. orders v = orders u \<and> journal v = journal u \<and> (\<exists>ids. length ids = length (l # ls) \<and>
         order_items v = order_items u @ map2 (sale_line oid) ids (l # ls) \<and>
         override_audits v = override_audits u @ concat (map2 (sale_audit t c b oid) ids (l # ls)))) (\<lambda>_ _. True) v"
    proof (rule wp_mono [OF Cons.IH], elim conjE exE)
      fix y ids and x :: "'w pos_scheme"
      assume "orders x = orders v" "journal x = journal v" "length ids = length ls"
        "order_items x = order_items v @ map2 (sale_line oid) ids ls"
        "override_audits x = override_audits v @ concat (map2 (sale_audit t c b oid) ids ls)"
      then show "orders x = orders u \<and> journal x = journal u \<and> (\<exists>ids. length ids = length (l # ls) \<and>
         order_items x = order_items u @ map2 (sale_line oid) ids (l # ls) \<and>
         override_audits x = override_audits u @ concat (map2 (sale_audit t c b oid) ids (l # ls)))"
        by (intro conjI exI [of _ "i # ids"]) (simp_all add: v)
    qed simp
  qed
qed (simp add: wp_ret)

lemma pooled_write:
  fixes w :: "'w pos_scheme"
  shows "wp (createWithItemsPooled (Some t) (sale_payload dto c b s pr) (map pooled_line (pr_lines pr)))
    (\<lambda>oid v. sale_written w v t dto c b s pr oid) (\<lambda>_ v. sale_books v = sale_books w) w"
  unfolding createWithItemsPooled_def
proof (rule runInTenantContext_atomic)
  fix u :: "'w pos_scheme" assume "u = w\<lparr>calls := calls u\<rparr>"
  then have u: "sale_books u = sale_books w" by (metis books.counts)
  let ?lines = "\<lambda>oid. forEach (map pooled_line (pr_lines pr)) (insert_pooled_line (Some t) (sale_payload dto c b s pr) oid)"
  have rest: "wp (bindE (?lines oid) (\<lambda>_. bindE (post_sales_order oid) (\<lambda>_. ret oid)))
      (\<lambda>oid v. sale_written u v t dto c b s pr oid) (\<lambda>_ _. True) x"
    if "orders x = orders u @ [sale_row t dto c b s pr oid]" "order_items x = order_items u"
      "override_audits x = override_audits u" "journal x = journal u" for oid and x :: "'w pos_scheme"
    by (rule wp_bind [OF insert_lines])
       (auto simp: post_sales_order_def wp_rules sale_written_def that split: option.split)
  have "wp (bindE (statement (insert_order (Some t) (sale_payload dto c b s pr)))
      (\<lambda>oid. bindE (?lines oid) (\<lambda>_. bindE (post_sales_order oid) (\<lambda>_. ret oid))))
      (\<lambda>oid v. sale_written u v t dto c b s pr oid) (\<lambda>_ _. True) u"
    unfolding wp_bindE [of "statement _"] wp_statement
    by (auto simp: insert_order_def Let_def sale_row_def intro!: rest split: option.split)
  then show "wp (bindE (statement (insert_order (Some t) (sale_payload dto c b s pr)))
      (\<lambda>oid. bindE (?lines oid) (\<lambda>_. bindE (post_sales_order oid) (\<lambda>_. ret oid))))
      (\<lambda>oid v. \<forall>n. sale_written w (v\<lparr>calls := n\<rparr>) t dto c b s pr oid) (\<lambda>_ _. True) u"
    by (rule wp_mono) (metis sale_written_books u books.counts)+
qed (simp add: sale_books_def)

lemma write_failed_keeps: "keeps sale_books (write_failed t dto e)"
  unfolding write_failed_def by (intro keep_rules books.keeps_sale_reads)

lemma write_failed_throws: "wp (write_failed t dto e) (\<lambda>_ _. False) (\<lambda>_ v. sale_books v = sale_books w) w"
proof -
  have "wp (write_failed t dto e) (\<lambda>_ _. False) (\<lambda>_ _. True) w"
    by (auto simp: write_failed_def findBySaleAttemptId_def wp_rules split: option.split sum.split)
  from wp_conj [OF this keeps_wp [OF write_failed_keeps refl]] show ?thesis by (rule wp_mono) auto
qed

lemma write_sale_pooled:
  fixes w :: "'w pos_scheme"
  assumes "pr_pooled pr"
  shows "wp (write_sale t dto c b s pr) (\<lambda>oid v. sale_written w v t dto c b s pr oid)
    (\<lambda>_ v. sale_books v = sale_books w) w"
  unfolding write_sale_def Let_def
proof (simp add: assms, rule wp_catch [OF pooled_write])
  fix e and v :: "'w pos_scheme" assume "sale_books v = sale_books w"
  then show "wp (write_failed t dto e) (\<lambda>oid v. sale_written w v t dto c b s pr oid) (\<lambda>_ v. sale_books v = sale_books w) v"
    by (intro wp_mono [OF write_failed_throws [of _ _ _ v]]) auto
qed

section \<open>Bookkeeping that cannot stop a sale\<close>

locale best_effort =
  fixes act :: "('w pos_scheme, 'a) io"
  assumes never_throws: "total_io act"
    and keeps_books: "keeps sale_books act"
begin

lemma andThen:
  assumes "\<And>x v. sale_books v = sale_books w \<Longrightarrow> wp (f x) Q E v"
  shows "wp (bindE act f) Q E w"
  by (rule total_bind [OF never_throws keeps_books assms])

end

lemma total_steps:
  "total_io (audit_log e)" "total_io (coupon_redeem i)" "total_io (notify u k)" "total_io (invalidateList t)"
  "total_io (stock_after_sale t b i c ls)" "total_io (serials_after_sale i ls v)"
  unfolding audit_log_def coupon_redeem_def notify_def invalidateList_def cache_delByPrefix_def stock_after_sale_def
    quality_advice_def expiry_advice_def ownership_advice_def stock_deduction_def getBranchDefaultWarehouse_def
    serials_after_sale_def
  by (intro total_rules)+

interpretation audit: best_effort "audit_log e" for e
  by unfold_locales (intro total_steps books.keeps_infra)+

interpretation redeem: best_effort "case cp of None \<Rightarrow> ret () | Some c \<Rightarrow> coupon_redeem (cp_id c)" for cp
  by unfold_locales (intro total_rules total_steps keep_rules)+

interpretation stock: best_effort "stock_after_sale t b i c ls" for t b i c ls
  by unfold_locales (intro total_steps keep_rules)+

interpretation serials: best_effort "serials_after_sale i ls v" for i ls v
  by unfold_locales (intro total_steps keep_rules)+

interpretation alert: best_effort "notify u k" for u k
  by unfold_locales (intro total_steps keep_rules)+

interpretation invalidate: best_effort "invalidateList t" for t
  by unfold_locales (rule total_steps, unfold invalidateList_def, intro books.keeps_infra)

lemma points_throw_only_with_customer:
  "wp (points_after_sale t dto pr) (\<lambda>_ v. sale_books v = sale_books w)
     (\<lambda>_ v. sale_books v = sale_books w \<and> truthy (ci_customer dto)) w"
proof -
  have k: "keeps sale_books (points_after_sale t dto pr)"
    unfolding points_after_sale_def Let_def by (intro keep_rules books.keeps_sale_reads)
  have "wp (points_after_sale t dto pr) (\<lambda>_ _. True) (\<lambda>_ _. truthy (ci_customer dto)) w"
    by (cases "truthy (ci_customer dto)")
       (auto simp: points_after_sale_def wp_whenE wp_def split: prod.split sum.split)
  from wp_conj [OF this keeps_wp [OF k refl]] show ?thesis by (rule wp_mono) auto
qed

lemma after_sale_result:
  fixes w :: "'w pos_scheme"
  shows "wp (after_sale t dto c role b ip dev pr i)
    (\<lambda>res v. sale_books v = sale_books w \<and> sr_id res = i \<and> sr_total res = total (pr_built pr))
    (\<lambda>_ v. sale_books v = sale_books w \<and> truthy (ci_customer dto)) w"
  unfolding after_sale_def
  apply (rule audit.andThen, rule redeem.andThen, rule stock.andThen, rule serials.andThen)
  apply (rule wp_bind [where R = "\<lambda>_ v. sale_books v = sale_books w"])
   apply (rule wp_mono [OF points_throw_only_with_customer], simp, simp)
  apply (rule alert.andThen, rule invalidate.andThen)
  apply (simp add: wp_ret)
  done

section \<open>Sales\<close>

text \<open>C1. A sale is all or nothing on the pooled path, whatever calls fail.  With pooled writes on,
  \<^verbatim>\<open>create\<close> either throws and leaves orders, lines, override audit and journal as they were, or
  the request passed every check (a new attempt, an open session, a known customer, official or
  approved prices, redeemable points, a valid coupon, a sufficient payment) and exactly one
  completed order was added with one line per item, one audit row per approved override and its
  journal entry, all with the amounts that were checked.  Even then it can throw, but only for a
  request with a customer; otherwise it returns the order and its total.\<close>

theorem pooled_sale_atomic:
  fixes w :: "'w pos_scheme"
  assumes "config w ''POOLED_INVOICE_WRITES_ENABLED''" "invoice_create t dto c role b s ip dev w = (r, v)"
  shows "(sale_books v = sale_books w \<and> (\<exists>e. r = Inl e)) \<or>
    (\<exists>pr oid. sale_ok w t dto c b s pr \<and> sale_written w v t dto c b s pr oid \<and>
       (case r of Inl e \<Rightarrow> truthy (ci_customer dto) | Inr res \<Rightarrow> sr_id res = oid \<and> sr_total res = total (pr_built pr)))"
proof -
  let ?Q = "\<lambda>res v. \<exists>pr. sale_ok w t dto c b s pr \<and> sale_written w v t dto c b s pr (sr_id res) \<and>
      sr_total res = total (pr_built pr)"
  let ?E = "\<lambda>e v. sale_books v = sale_books w \<or>
      (\<exists>pr oid. sale_ok w t dto c b s pr \<and> sale_written w v t dto c b s pr oid \<and> truthy (ci_customer dto))"
  have after: "wp (after_sale t dto c role b ip dev pr oid) ?Q ?E u"
    if "sale_ok w t dto c b s pr" "sale_written w u t dto c b s pr oid" for pr oid u
  proof (rule wp_mono [OF after_sale_result])
    show "?Q res x" if "sale_books x = sale_books u \<and> sr_id res = oid \<and> sr_total res = total (pr_built pr)" for res x
      using that \<open>sale_ok w t dto c b s pr\<close> \<open>sale_written w u t dto c b s pr oid\<close> sale_written_books [OF refl, of x u w] by metis
    show "?E e x" if "sale_books x = sale_books u \<and> truthy (ci_customer dto)" for e x
      using that \<open>sale_ok w t dto c b s pr\<close> \<open>sale_written w u t dto c b s pr oid\<close> sale_written_books [OF refl, of x u w] by metis
  qed
  have wr: "wp (bindE (write_sale t dto c b s pr) (after_sale t dto c role b ip dev pr)) ?Q ?E u"
    if "sale_ok w t dto c b s pr" "sale_books u = sale_books w" for pr u
  proof (rule wp_bind [where R = "\<lambda>oid x. sale_written w x t dto c b s pr oid"])
    have "pr_pooled pr" using that(1) assms(1) by (simp add: sale_ok_def)
    then show "wp (write_sale t dto c b s pr) (\<lambda>oid x. sale_written w x t dto c b s pr oid) ?E u"
      using sale_written_books [OF that(2) [symmetric] refl] that(2)
      by (intro wp_mono [OF write_sale_pooled]) metis+
    show "wp (after_sale t dto c role b ip dev pr oid) ?Q ?E x" if "sale_written w x t dto c b s pr oid" for oid x
      using after \<open>sale_ok w t dto c b s pr\<close> that .
  qed
  have "wp (invoice_create t dto c role b s ip dev) ?Q ?E w"
    unfolding invoice_create_def
  proof (rule wp_bind [where R = "\<lambda>pr u. sale_world u = sale_world w \<and> sale_ok w t dto c b s pr"])
    show "wp (validate_sale t dto c b s) (\<lambda>pr u. sale_world u = sale_world w \<and> sale_ok w t dto c b s pr) ?E w"
      by (rule wp_mono [OF validate_sale_sound]) (auto dest: world_books)
    fix pr and u :: "'w pos_scheme" assume u: "sale_world u = sale_world w \<and> sale_ok w t dto c b s pr"
    then have ub: "sale_books u = sale_books w" by (auto dest: world_books)
    show "wp (bindE (redeem_for_sale t dto) (\<lambda>_. bindE (write_sale t dto c b s pr)
        (after_sale t dto c role b ip dev pr))) ?Q ?E u"
      by (rule wp_bind_keep [OF books_redeem]) (use u ub wr in auto)
  qed
  then show ?thesis using assms(2) by (auto simp: wp_def split: sum.splits)
qed

text \<open>A sale on the small shop.\<close>

definition demo_day :: pos where
  "demo_day = demo_pos\<lparr>shifts := [demo_shift ''s1'']\<rparr>"

definition demo_sale :: create_invoice where
  "demo_sale = \<lparr>ci_attempt = ''a1'',
     ci_items = [\<lparr>item_id = ''i'', item_name = ''Tea'', variant_id = None, variant_name = None,
       quantity = 2, unit_price = 20, li_serial = None, li_warranty = None, li_reason = None\<rparr>],
     ci_discount = None, ci_customer = Some ''c'', ci_method = ''card'', ci_tendered = None, ci_cash = None,
     ci_card = None, ci_notes = None, ci_redeem = Some 60, ci_coupon = None\<rparr>"

lemmas demo_defs = demo_pos_def demo_shop_def catalog.defs demo_day_def demo_sale_def demo_shift_def

lemma combined_items [simp]: "items (combine_discounts (buildInvoice ls d r) ld cd r') = ls"
  by (simp add: combine_discounts_def buildInvoice_def Let_def)

lemmas demo_runs = validate_sale_def check_attempt_def findBySaleAttemptId_def assertOpenSession_def shifts_findById_def
  customers_findById_def getTaxRate_def getSettings_def loyalty_discount_def getBalancePooled_def resolve_lines_def
  resolve_line_def resolvePrice_def line_input_def resolveOfficialPrice_def coupon_discount_def check_payment_def
  nonzero_def customer_of_def scoped_def orElse_def run_defs demo_defs

definition demo_walk_in :: create_invoice where
  "demo_walk_in = demo_sale\<lparr>ci_customer := None, ci_redeem := None\<rparr>"

lemma demo_validates:
  "\<exists>pr u. validate_sale ''t'' demo_sale ''u'' ''b'' (Some ''s1'') demo_day = (Inr pr, u) \<and>
     pr_pooled pr \<and> pr_tax_rate pr = 3 / 20 \<and> redemption_value (pr_settings pr) = 1 / 100"
  by (simp add: demo_runs)

lemmas demo_writes = invoice_create_def redeem_for_sale_def write_sale_def sale_payload_def
  createWithItemsPooled_def insert_order_def order_check_def insert_pooled_line_def pooled_line_def override_of_def
  post_sales_order_def after_sale_def audit_log_def stock_after_sale_def getBranchDefaultWarehouse_def
  serials_after_sale_def points_after_sale_def notify_def invalidateList_def now_def fresh_id_def cache_delByPrefix_def
  order_payload.defs invoice_item.defs

lemma demo_sells:
  "\<exists>res. fst (invoice_create ''t'' demo_walk_in ''u'' ''cashier'' ''b'' (Some ''s1'') ''ip'' ''dev'' demo_day) = Inr res"
  by (simp add: demo_runs demo_writes demo_walk_in_def)

theorem pooled_sale_atomic_witness:
  "\<exists>pr oid. sale_ok demo_day ''t'' demo_walk_in ''u'' ''b'' (Some ''s1'') pr \<and>
     sale_written demo_day (snd (invoice_create ''t'' demo_walk_in ''u'' ''cashier'' ''b'' (Some ''s1'') ''ip'' ''dev'' demo_day))
       ''t'' demo_walk_in ''u'' ''b'' (Some ''s1'') pr oid"
proof -
  obtain res v where run:
    "invoice_create ''t'' demo_walk_in ''u'' ''cashier'' ''b'' (Some ''s1'') ''ip'' ''dev'' demo_day = (Inr res, v)"
    using demo_sells by (metis fst_conv surj_pair)
  have "config demo_day ''POOLED_INVOICE_WRITES_ENABLED''" by (simp add: demo_defs)
  from pooled_sale_atomic [OF this run] show ?thesis by (auto simp: run)
qed

end
