(* ===== verification/Sales.thy ===== *)
theory Sales
  imports InvoiceSafety
begin

text \<open>
  What holds of sales from outside: nothing is written for a request that fails a check, an
  attempt is never sold twice, the stored amounts add up to the hundredth; and how cancelling and
  holding behave.
\<close>

section \<open>Nothing is written before the checks\<close>

text \<open>C2. Nothing is written unless every check has passed, on either path and whatever calls fail.  If
  after \<^verbatim>\<open>create\<close> any table of the sale differs (orders, lines, audit, journal, points, coupons,
  stock), then the validation had returned, and what it returned is sound: the attempt was new,
  the session open, each line's price the official one or an override the cashier's role and
  policy permit, overrides only with pooled writes, the redeemed points within the balance, the
  coupon usable, the payment sufficient.\<close>

theorem sale_needs_approval:
  fixes w :: "'w pos_scheme"
  assumes "sale_world (snd (invoice_create t dto c role b s ip dev w)) \<noteq> sale_world w"
  shows "\<exists>pr. fst (validate_sale t dto c b s w) = Inr pr \<and> sale_ok w t dto c b s pr"
proof (cases "validate_sale t dto c b s w")
  case (Pair r u)
  have wp: "wp (validate_sale t dto c b s) (\<lambda>pr u. sale_world u = sale_world w \<and> sale_ok w t dto c b s pr)
     (\<lambda>_ u. sale_world u = sale_world w) w" by (rule validate_sale_sound)
  show ?thesis
  proof (cases r)
    case (Inl e)
    then have "invoice_create t dto c role b s ip dev w = (Inl e, u)" by (simp add: invoice_create_def bindE_def Pair)
    moreover have "sale_world u = sale_world w" using wp_run_throw [OF wp] Pair Inl by simp
    ultimately show ?thesis using assms by simp
  next
    case (Inr pr)
    then show ?thesis using wp_run [OF wp] Pair by simp
  qed
qed

section \<open>An attempt is sold once\<close>

text \<open>A resubmitted sale changes nothing.  If the tenant has an order with the attempt identifier and
  the lookup works, \<^verbatim>\<open>create\<close> answers with a conflict that names this order, after that one query
  and without any other effect.\<close>

theorem resubmission_conflict:
  assumes "filter (\<lambda>r. orders_scope (Some t) r \<and> o_attempt r = Some (ci_attempt dto)) (orders w) = [r]"
    and "fault w (calls w) = None"
  shows "invoice_create t dto c role b s ip dev w =
    (Inl (Http Conflict ''This sale was already created'' [(''order_id'', o_id r)]), w\<lparr>calls := Suc (calls w)\<rparr>)"
  using assms
  by (simp add: invoice_create_def validate_sale_def check_attempt_def findBySaleAttemptId_def orThrow_def query_def
      exec_def io_defs Let_def)

subsection \<open>The key of an order\<close>

definition attempt_key :: "order_row \<Rightarrow> string option \<times> string option" where
  "attempt_key r = (o_tenant r, o_attempt r)"

definition attempts_unique :: "'w pos_scheme \<Rightarrow> bool" where
  "attempts_unique w \<longleftrightarrow> distinct (map attempt_key (orders w))"

interpretation attempts: beside_sale attempts_unique
  by unfold_locales (simp_all add: attempts_unique_def)

lemma order_check_new: "order_check rs r = None \<Longrightarrow> attempt_key r \<notin> attempt_key ` set rs"
proof
  assume none: "order_check rs r = None" and "attempt_key r \<in> attempt_key ` set rs"
  then obtain p where "p \<in> set rs" "o_tenant p = o_tenant r" "o_attempt p = o_attempt r"
    by (auto simp: attempt_key_def)
  then have c: "(\<exists>p\<in>set rs. o_tenant p = o_tenant r \<and> o_attempt p = o_attempt r) = True" by blast
  show False using none unfolding order_check_def c by (simp split: if_splits)
qed

lemma attempts_insert [preserve_rules]: "preserves attempts_unique (statement (insert_order tn p))"
proof (rule preserves_statement)
  fix w :: "'w pos_scheme" assume w: "attempts_unique w"
  let ?row = "order_payload.extend p \<lparr>o_id = fresh_id w, o_tenant = tn, o_deleted_at = None\<rparr>"
  show "attempts_unique (snd (insert_order tn p w))"
  proof (cases "order_check (orders w) ?row")
    case None
    then show ?thesis using order_check_new [OF None] w by (simp add: insert_order_def Let_def attempts_unique_def)
  qed (simp add: insert_order_def Let_def w)
qed (simp add: attempts_unique_def)

lemma attempts_update:
  assumes "\<And>r. attempt_key (f r) = attempt_key r"
  shows "attempts_unique (w\<lparr>orders := update_where P f (orders w)\<rparr>) = attempts_unique w"
  by (simp add: attempts_unique_def map_update_where assms)

interpretation ords: beside_sale orders
  by unfold_locales simp_all

lemma attempts_from_orders: "keeps orders m \<Longrightarrow> preserves attempts_unique m"
  by (rule preserves_keeps, erule keeps_part) (simp add: attempts_unique_def)

lemma attempts_from_books: "keeps sale_books m \<Longrightarrow> preserves attempts_unique m"
  by (rule attempts_from_orders, erule keeps_part [where g = fst]) (simp add: sale_books_def)

lemma orders_keep:
  "keeps orders (insertItems i ls)" "keeps orders (post_sales_order i)"
  "keeps orders (insert_pooled_line tn p i it)" "keeps orders (reverseSaleStockDeduction i)"
  "keeps orders (restock_serials i)" "keeps orders (invoices_findById tn i)"
  "keeps orders (reverse_sales_order i)" "keeps orders (audit_log e)" "keeps orders (invalidateList t)"
  unfolding insertItems_def post_sales_order_def insert_pooled_line_def reverseSaleStockDeduction_def
    restock_serials_def findSoldByOrder_def returnSerial_def invoices_findById_def reverse_sales_order_def invalidateList_def
  by (intro keep_rules ords.keeps_infra ords.keeps_statement ords.keeps_query; simp add: Let_def)+

lemma attempts_cancel [preserve_rules]:
  "preserves attempts_unique (invoices_cancel tn i)" "preserves attempts_unique (cancelPooled tn i)"
  "preserves attempts_unique (repo_updateHeldVisibility tn i x)" "preserves attempts_unique (repo_cancelHeldOrder tn i)"
proof -
  have same: "attempt_key (cancelled r) = attempt_key r" "attempt_key (r\<lparr>o_visibility := vis\<rparr>) = attempt_key r"
    "attempt_key (r\<lparr>o_deleted_at := ts, o_held := h\<rparr>) = attempt_key r" for r vis ts h
    by (simp_all add: attempt_key_def cancelled_def)
  show "preserves attempts_unique (invoices_cancel tn i)"
    unfolding invoices_cancel_def
    by (rule preserves_statement)
       (simp_all add: attempts_update same Let_def attempts.counts split: sum.split)
  show "preserves attempts_unique (repo_updateHeldVisibility tn i x)"
    unfolding repo_updateHeldVisibility_def
    by (rule preserves_statement)
       (simp_all add: attempts_update same Let_def attempts.counts split: sum.split option.split)
  show "preserves attempts_unique (repo_cancelHeldOrder tn i)"
    unfolding repo_cancelHeldOrder_def
    by (intro preserve_rules preserves_keeps [OF keeps_now] preserves_statement)
       (simp_all add: attempts_update same Let_def attempts.counts split: sum.split option.split)
  show "preserves attempts_unique (cancelPooled tn i)"
    unfolding cancelPooled_def
    by (intro preserves_abortable preserve_rules attempts_from_orders [OF orders_keep(7)] preserves_keeps keep_rules
          preserves_statement)
       (simp_all add: attempts_update same Let_def attempts.counts)
qed

text \<open>Any sequence of requests on invoices, by any user of any tenant, successful or not.\<close>

inductive invoice_step :: "'w pos_scheme \<Rightarrow> 'w pos_scheme \<Rightarrow> bool" where
  create: "invoice_create t dto c role b s ip dev w = (r, w') \<Longrightarrow> invoice_step w w'"
| cancel: "invoice_cancel tn i why a role ip dev w = (r, w') \<Longrightarrow> invoice_step w w'"
| hold: "holdOrder tn held a role w = (r, w') \<Longrightarrow> invoice_step w w'"
| visibility: "updateHeldVisibility tn i vis w = (r, w') \<Longrightarrow> invoice_step w w'"
| cancel_held: "cancelHeldOrder tn i a role w = (r, w') \<Longrightarrow> invoice_step w w'"

lemma attempts_create: "preserves attempts_unique (invoice_create t dto c role b s ip dev)"
  unfolding invoice_create_def write_sale_def createWithItemsPooled_def invoices_create_def Let_def
  by (intro preserve_rules preserves_transaction
      preserves_keeps [OF attempts.keeps_validate_sale] attempts_from_books [OF books_redeem]
      attempts_from_books [OF books_after_sale] attempts_from_books [OF write_failed_keeps]
      attempts_from_orders orders_keep keep_rules attempts.counts)

lemmas preserves_leaves = orders_keep [THEN attempts_from_orders]

lemma attempts_handlers:
  "preserves attempts_unique (invoice_cancel tn i why a role ip dev)"
  "preserves attempts_unique (holdOrder tn held a role)"
  "preserves attempts_unique (updateHeldVisibility tn i vis)"
  "preserves attempts_unique (cancelHeldOrder tn i a role)"
proof -
  have quiet: "keeps orders (ignoring (reverseSaleStockDeduction i))" by (intro keep_rules orders_keep)
  show "preserves attempts_unique (invoice_cancel tn i why a role ip dev)"
    unfolding invoice_cancel_def invoice_findById_def
    by (intro preserve_rules preserves_leaves quiet [THEN attempts_from_orders])
  show "preserves attempts_unique (holdOrder tn held a role)"
    unfolding holdOrder_def invoices_create_def by (intro preserve_rules preserves_leaves)
  show "preserves attempts_unique (updateHeldVisibility tn i vis)"
    unfolding updateHeldVisibility_def by (intro preserve_rules)
  show "preserves attempts_unique (cancelHeldOrder tn i a role)"
    unfolding cancelHeldOrder_def by (intro preserve_rules preserves_leaves)
qed

lemma attempts_step: "invoice_step w w' \<Longrightarrow> attempts_unique w \<Longrightarrow> attempts_unique w'"
  by (induction rule: invoice_step.induct)
     (rule preservesD [OF attempts_create] preservesD [OF attempts_handlers(1)] preservesD [OF attempts_handlers(2)]
        preservesD [OF attempts_handlers(3)] preservesD [OF attempts_handlers(4)]; assumption)+

text \<open>C4. One attempt, one order.  Starting from orders with distinct attempt identifiers in each tenant,
  no sequence of sales, cancellations and operations on held orders, by anybody, in any order and
  with any failing calls, leads to two orders of one tenant with the same attempt identifier.\<close>

theorem one_order_per_attempt:
  assumes "invoice_step\<^sup>*\<^sup>* w w'" "distinct (map attempt_key (orders w))"
  shows "distinct (map attempt_key (orders w'))"
proof -
  have "attempts_unique w'" using assms(1)
    by (induction rule: rtranclp_induct) (auto simp: attempts_unique_def assms(2) intro: attempts_step [unfolded attempts_unique_def])
  then show ?thesis by (simp add: attempts_unique_def)
qed

section \<open>Holding an order\<close>

text \<open>C28. Holding an order never works.  \<^verbatim>\<open>holdOrder\<close> inserts an order without \<^verbatim>\<open>sale_attempt_id\<close>, a column
  that migration 187 made required and left without a default: whatever the request and the
  state, it throws (the violation itself unless the call fails before), and orders and lines stay
  as they are.\<close>

theorem holdOrder_always_fails:
  "\<exists>e. holdOrder tn held a role w = (Inl e, w\<lparr>calls := Suc (calls w)\<rparr>) \<and>
     (fault w (calls w) = None \<longrightarrow> e = Db not_null_violation)"
  by (auto simp: holdOrder_def invoices_create_def hold_payload_def insert_order_def order_check_def order_payload.defs
      statement_def orThrow_def now_def exec_def io_defs Let_def split: option.split)

section \<open>The amounts of a sale\<close>

lemma redemption_cents:
  assumes "0 \<le> fmul p r" "fmul p r \<le> cents subtotal_bound"
  obtains L where "0 \<le> L" "L \<le> subtotal_bound" "round2 (fmul p r) = cents L"
proof (rule round2_between [OF assms])
  show "near (cents subtotal_bound) subtotal_bound (1 / 8192)"
    by (rule near_cents) (simp add: subtotal_bound_def money_bound_def)
qed (simp_all add: subtotal_bound_def money_bound_def that)

text \<open>The three discounts are added in doubles and not rounded; the noise stays below a thousandth.\<close>

lemma combined_near:
  assumes "0 \<le> D1" "D1 \<le> subtotal_bound" "0 \<le> D2" "D2 \<le> subtotal_bound" "0 \<le> D3" "D3 \<le> subtotal_bound"
    and "0 \<le> S" "S \<le> subtotal_bound"
  shows "near (min (fadd (fadd (cents D1) (cents D2)) (cents D3)) (cents S)) (min (D1 + D2 + D3) S) (1 / 1000)"
proof -
  have "near (fadd (cents D1) (cents D2)) (D1 + D2) (1 / 8192 + 1 / 8192 + 1 / 8192)"
    using assms by (intro near_fadd near_cents) (auto simp: subtotal_bound_def money_bound_def)
  then have "near (fadd (fadd (cents D1) (cents D2)) (cents D3)) (D1 + D2 + D3)
      (1 / 8192 + 1 / 8192 + 1 / 8192 + 1 / 8192 + 1 / 8192)"
    using assms by (intro near_fadd near_cents) (auto simp: subtotal_bound_def money_bound_def)
  moreover have "near (cents S) S (1 / 8192 + 1 / 8192 + 1 / 8192 + 1 / 8192 + 1 / 8192)"
    using assms by (intro near_mono [OF near_cents]) (auto simp: subtotal_bound_def money_bound_def)
  ultimately show ?thesis by (intro near_mono [OF near_min]) auto
qed

lemma combine_exact:
  assumes "0 \<le> S" "S \<le> subtotal_bound" "0 \<le> D1" "D1 \<le> S" "0 \<le> D2" "D2 \<le> subtotal_bound" "0 \<le> D3" "D3 \<le> S"
    and "0 \<le> rate" "rate \<le> 1" "subtotal m = cents S" "discount_amount m = cents D1"
  shows "\<exists>D T. total (combine_discounts m (cents D2) (cents D3) rate) = cents (S - D + T) \<and>
    tax_amount (combine_discounts m (cents D2) (cents D3) rate) = cents T \<and>
    to_cents (discount_amount (combine_discounts m (cents D2) (cents D3) rate)) = D \<and>
    D = min (D1 + D2 + D3) S \<and> 0 \<le> D \<and> 0 \<le> T \<and> T \<le> S - D"
proof -
  let ?d = "min (fadd (fadd (cents D1) (cents D2)) (cents D3)) (cents S)"
  let ?D = "min (D1 + D2 + D3) S"
  have S: "S \<le> money_bound" using assms(2) by (simp add: subtotal_bound_def money_bound_def)
  have D: "0 \<le> ?D" "?D \<le> S" using assms by auto
  have n: "near ?d ?D (1 / 1000)" using assms by (intro combined_near) auto
  obtain T where T: "0 \<le> T" "T \<le> S - ?D" "applyTax (cents S) ?d rate = cents T"
    by (rule applyTax_range [OF D S n min.cobounded2 assms(9,10)])
  have tot: "calculateTotal (cents S) d (cents T) = cents (S - D + T)"
    if "near d D (1 / 1000)" "0 \<le> D" "D \<le> S" "T \<le> S - D" for d D
    using that T(1) assms(1,2) by (intro calculateTotal_exact) (auto simp: subtotal_bound_def money_bound_def)
  have "calculateTotal (cents S) ?d (cents T) = cents (S - ?D + T)"
    by (rule tot [OF n D T(2)])
  moreover have "to_cents ?d = ?D" using n by (rule to_cents_near) simp
  ultimately show ?thesis
    using T D(1) by (intro exI [of _ ?D] exI [of _ T]) (simp add: combine_discounts_def Let_def assms(11,12))
qed

text \<open>C3. The amounts of a sale add up to the hundredth.  For a request that passes the validation, with
  whole lines, a valid discount, a tax rate between 0 and 1 and points worth at most the bound:
  the stored total is subtotal - discount + tax in hundredths, where the discount is the manual
  one, the points and the coupon together but at most the subtotal; cash tendered covers the
  total, and the two parts of a split payment, rounded together, are exactly the total.\<close>

theorem sale_adds_up:
  assumes "validate_sale t dto c b s w = (Inr pr, u)"
    and "\<forall>it\<in>set (ci_items dto). whole_line it" "length (ci_items dto) \<le> 500"
    and "(\<Sum>it\<leftarrow>ci_items dto. line_cents it) \<le> subtotal_bound"
    and "\<forall>d. ci_discount dto = Some d \<longrightarrow> valid_discount d" "0 \<le> pr_tax_rate pr" "pr_tax_rate pr \<le> 1"
    and "\<forall>p. ci_redeem dto = Some p \<longrightarrow> 0 \<le> fmul p (redemption_value (pr_settings pr)) \<and>
      fmul p (redemption_value (pr_settings pr)) \<le> cents subtotal_bound"
    and "\<forall>cp\<in>set (coupons w). 0 \<le> cp_value cp \<and> (case cp_max_discount cp of None \<Rightarrow> True | Some m \<Rightarrow> 0 \<le> m)"
  shows "\<exists>S D T. S = (\<Sum>it\<leftarrow>ci_items dto. line_cents it) \<and> subtotal (pr_built pr) = cents S \<and>
    to_cents (discount_amount (pr_built pr)) = D \<and> tax_amount (pr_built pr) = cents T \<and>
    total (pr_built pr) = cents (S - D + T) \<and> 0 \<le> D \<and> D \<le> S \<and> 0 \<le> T \<and> T \<le> S - D \<and>
    (ci_method dto = ''cash'' \<longrightarrow> (\<exists>x. ci_tendered dto = Some x \<and> cents (S - D + T) \<le> x)) \<and>
    (ci_method dto = ''split'' \<longrightarrow> (\<exists>x y. ci_cash dto = Some x \<and> ci_card dto = Some y \<and>
       0 \<le> x \<and> 0 \<le> y \<and> round2 (fadd x y) = cents (S - D + T)))"
proof -
  define S where "S = (\<Sum>it\<leftarrow>ci_items dto. line_cents it)"
  have sub: "calculateSubtotal (ci_items dto) = cents S"
    using calculateSubtotal_sum [OF assms(2-4)] by (simp add: S_def)
  have S: "0 \<le> S" "S \<le> subtotal_bound"
    using assms(2,4) by (auto simp: S_def line_cents_nonneg intro!: sum_list_nonneg)
  obtain D1 where D1: "0 \<le> D1" "D1 \<le> S" "applyDiscount (cents S) (ci_discount dto) = cents D1"
    using applyDiscount_range [OF S assms(5)] by blast
  have "sale_ok w t dto c b s pr" using wp_run [OF validate_sale_sound assms(1)] by blast
  then obtain ld cd where ok: "redemption_ok w t dto (pr_settings pr) ld"
    "coupon_ok w t dto (cents S) (pr_coupon pr) cd" "check_payment dto (total (pr_built pr)) = Inr ()"
    "pr_built pr = combine_discounts (buildInvoice (ci_items dto) (ci_discount dto) (pr_tax_rate pr)) ld cd (pr_tax_rate pr)"
    unfolding sale_ok_def sub by blast
  obtain D2 where D2: "0 \<le> D2" "D2 \<le> subtotal_bound" "ld = cents D2"
  proof (cases "nonzero (ci_redeem dto)")
    case True
    then obtain p where p: "ci_redeem dto = Some p" by (auto simp: nonzero_def split: option.splits)
    have "ld = round2 (fmul p (redemption_value (pr_settings pr)))"
      using ok(1) True by (simp add: redemption_ok_def p calculateRedemptionValue_def)
    then show ?thesis using redemption_cents assms(8) p that by metis
  next
    case False
    then show ?thesis using that [of 0] ok(1) by (simp add: redemption_ok_def subtotal_bound_def)
  qed
  have Sm: "S \<le> money_bound" using S by (simp add: subtotal_bound_def money_bound_def)
  obtain D3 where D3: "0 \<le> D3" "D3 \<le> S" "cd = cents D3"
  proof (cases "truthy (ci_coupon dto)")
    case True
    then obtain cp where "cp \<in> set (coupons w)" "cd = calculateDiscount cp (cents S)"
      using ok(2) by (auto simp: coupon_ok_def)
    then show ?thesis using coupon_discount_whole [OF S(1) Sm, of cp] assms(9) that by metis
  next
    case False
    then show ?thesis using that [of 0] ok(2) S by (simp add: coupon_ok_def)
  qed
  let ?m = "buildInvoice (ci_items dto) (ci_discount dto) (pr_tax_rate pr)"
  have m: "subtotal ?m = cents S" "discount_amount ?m = cents D1" by (simp_all add: buildInvoice_def Let_def sub D1)
  obtain D T where DT: "total (pr_built pr) = cents (S - D + T)" "tax_amount (pr_built pr) = cents T"
    "to_cents (discount_amount (pr_built pr)) = D" "D = min (D1 + D2 + D3) S" "0 \<le> D" "0 \<le> T" "T \<le> S - D"
    using combine_exact [OF S D1(1,2) D2(1,2) D3(1,2) assms(6,7) m] unfolding ok(4) D2(3) D3(3) by blast
  have sub': "subtotal (pr_built pr) = cents S" unfolding ok(4) by (simp add: combine_discounts_def Let_def m)
  have pay: "(ci_method dto = ''cash'' \<longrightarrow> (\<exists>x. ci_tendered dto = Some x \<and> total (pr_built pr) \<le> x)) \<and>
    (ci_method dto = ''split'' \<longrightarrow> (\<exists>x y. ci_cash dto = Some x \<and> ci_card dto = Some y \<and>
       0 \<le> x \<and> 0 \<le> y \<and> round2 (fadd x y) = total (pr_built pr)))"
    using ok(3) by (auto simp: check_payment_def nonzero_def processCashPayment_def processSplitPayment_def Let_def not_less
        split: if_splits option.splits sum.splits)
  show ?thesis
    by (rule exI [of _ S], rule exI [of _ D], rule exI [of _ T])
       (use DT sub' pay in \<open>auto simp: S_def\<close>)
qed

section \<open>Points and a failing write\<close>

text \<open>A redemption that returns has taken the points, on either path.\<close>

lemma redeem_taken:
  fixes u :: "'w pos_scheme"
  assumes "redeem_for_sale t dto u = (Inr (), v)" "ci_redeem dto = Some p" "0 < p" "ci_customer dto = Some cid"
  shows "customers v = update_where (adjustable cid (- p)) (adjusted (- p)) (customers u) \<and>
    filter (adjustable cid (- p)) (customers u) \<noteq> []"
proof -
  let ?Q = "\<lambda>_ x. customers x = update_where (adjustable cid (- p)) (adjusted (- p)) (customers u) \<and>
    filter (adjustable cid (- p)) (customers u) \<noteq> []"
  have pooled: "wp (redeemPointsPooled t cid p) ?Q (\<lambda>_ _. True) u"
  proof -
    have "wp (bindE (assertCustomerInTenantPooled t cid) (\<lambda>_. bindE (statement (fn_adjust_loyalty_points cid (- p)))
        (\<lambda>rows. require (rows \<noteq> []) (bad_request ''Insufficient loyalty points balance''))))
      (\<lambda>x y. \<forall>n. ?Q x (y\<lparr>calls := n\<rparr>)) (\<lambda>_ _. True) x" if "x = u\<lparr>calls := calls x\<rparr>" for x :: "'w pos_scheme"
    proof -
      have c: "customers x = customers u" by (subst that) simp
      show ?thesis
        by (auto simp: assertCustomerInTenantPooled_def wp_rules fn_adjust_loyalty_points_def c split: option.split)
    qed
    from runInTenantContext_atomic [OF this, where E = "\<lambda>_ _. True"]
    show ?thesis using assms(3) by (simp add: redeemPointsPooled_def)
  qed
  have direct: "wp (redeemPoints t cid p) ?Q (\<lambda>_ _. True) u"
    using assms(3) by (auto simp: redeemPoints_def assertCustomerInTenant_def wp_rules fn_adjust_loyalty_points_def
        split: option.split sum.split)
  have "wp (redeem_for_sale t dto) ?Q (\<lambda>_ _. True) u"
    using direct pooled assms(2-4) by (simp add: redeem_for_sale_def nonzero_def wp_rules)
  from wp_run [OF this assms(1)] show ?thesis .
qed

interpretation pts: beside_sale customers
  by unfold_locales simp_all

lemma write_keeps_points: "keeps customers (write_sale t dto c b s pr)"
  unfolding write_sale_def createWithItemsPooled_def invoices_create_def insertItems_def insert_pooled_line_def
    post_sales_order_def write_failed_def Let_def
  by (intro keep_rules pts.keeps_transaction pts.keeps_statement pts.keeps_sale_reads;
      simp add: insert_order_def Let_def split: option.split)

text \<open>C26. Redeemed points are lost when the order is not written.  With pooled writes the points are taken in a transaction
  of their own before the order is inserted.  If the insertion then throws, \<^verbatim>\<open>create\<close> throws, no
  order, line, audit row or journal entry exists, and yet the customer's balance
  is lower by the redeemed points.\<close>

theorem redeemed_points_lost:
  fixes w :: "'w pos_scheme"
  assumes "validate_sale t dto c b s w = (Inr pr, u)" "redeem_for_sale t dto u = (Inr (), v)"
    and "write_sale t dto c b s pr v = (Inl e, x)" "config w ''POOLED_INVOICE_WRITES_ENABLED''"
    and "ci_redeem dto = Some p" "0 < p" "ci_customer dto = Some cid"
  shows "invoice_create t dto c role b s ip dev w = (Inl e, x) \<and> sale_books x = sale_books w \<and>
    customers x = update_where (adjustable cid (- p)) (adjusted (- p)) (customers w) \<and>
    (\<exists>k\<in>set (customers w). c_id k = cid \<and> p \<le> c_points k)"
proof -
  have ok: "sale_world u = sale_world w" "sale_ok w t dto c b s pr"
    using wp_run [OF validate_sale_sound assms(1)] by blast+
  then have "pr_pooled pr" using assms(4) by (simp add: sale_ok_def)
  from wp_run_throw [OF write_sale_pooled [OF this] assms(3)] have "sale_books x = sale_books v" .
  moreover have "sale_books v = sale_books u"
    using wp_run [OF keeps_wp [OF books_redeem refl] assms(2)] .
  ultimately have same: "sale_books x = sale_books w" using world_books [OF ok(1)] by simp
  have "customers x = customers v"
    using wp_run_throw [OF keeps_wp [OF write_keeps_points refl] assms(3)] .
  moreover have "customers u = customers w" using world_eq [OF ok(1)] by simp
  moreover note redeem_taken [OF assms(2,5-7)]
  ultimately show ?thesis
    using same by (auto simp: invoice_create_def bindE_def assms(1-3) filter_empty_conv adjustable_def)
qed

section \<open>Cancelling\<close>

definition cancel_books where
  "cancel_books w = (sale_books w, customers w, coupons w, config w, fault w)"

interpretation cancel: beside_sale cancel_books
  by unfold_locales (simp_all add: cancel_books_def sale_books_def)










section \<open>Cancelling what was never posted\<close>

definition shop_books where
  "shop_books w = (orders w, journal w, stock_log w, sold_serials w, fault w)"

interpretation shop: beside_sale shop_books
  by unfold_locales (simp_all add: shop_books_def)

lemma shop_invalidate: "keeps shop_books (invalidateList n)"
  unfolding invalidateList_def by (rule shop.keeps_infra)

lemma unposted_cancelPooled:
  fixes w :: "'w pos_scheme"
  assumes "\<forall>n. fault w n = None" "pg_pool w" "r \<in> set (orders w)" "o_id r = oid" "o_tenant r = Some t" "Posted oid \<notin> set (journal w)"
  shows "wp (cancelPooled (Some t) oid) (\<lambda>x u. x = oid \<and> shop_books u = shop_books w) (\<lambda>_ _. False) w"
proof -
  let ?hit = "\<lambda>r. o_id r = oid \<and> o_tenant r = Some t"
  have some: "filter ?hit (orders w) \<noteq> []" using assms(3-5) by (auto simp: filter_empty_conv)
  have says: "contains_str (''No Accounting posting found for order '' @ oid @ '' -- nothing to reverse'') ''nothing to reverse''"
    using contains_str_suffix [of "''No Accounting posting found for order '' @ oid @ '' -- ''" "''nothing to reverse''"] by simp
  show ?thesis
    unfolding cancelPooled_def runAbortable_def reverse_sales_order_def Let_def
    using assms(1,2,6) some says by (simp add: wp_rules shop_books_def exn_message_def del: append_Cons append.simps contains_str.simps)
qed

lemma serials_returned:
  fixes w :: "'w pos_scheme"
  assumes "\<forall>n. fault w n = None"
  shows "wp (forEach ss (\<lambda>s. ignoring (returnSerial s)))
    (\<lambda>_ u. orders u = orders w \<and> journal u = journal w \<and> stock_log u = stock_log w @ map SerialReturned ss) (\<lambda>_ _. False) w"
  using assms
proof (induction ss arbitrary: w)
  case (Cons s ss)
  have "wp (ignoring (returnSerial s)) (\<lambda>_ u. orders u = orders w \<and> journal u = journal w \<and> (\<forall>n. fault u n = None) \<and>
      stock_log u = stock_log w @ [SerialReturned s]) (\<lambda>_ _. False) w"
    using Cons.prems by (simp add: ignoring_def returnSerial_def wp_rules)
  then show ?case unfolding forEach.simps
  proof (rule wp_bind)
    fix x and u :: "'w pos_scheme"
    assume u: "orders u = orders w \<and> journal u = journal w \<and> (\<forall>n. fault u n = None) \<and> stock_log u = stock_log w @ [SerialReturned s]"
    then show "wp (forEach ss (\<lambda>s. ignoring (returnSerial s))) (\<lambda>_ u. orders u = orders w \<and> journal u = journal w \<and>
        stock_log u = stock_log w @ map SerialReturned (s # ss)) (\<lambda>_ _. False) u"
      by (intro wp_mono [OF Cons.IH]) auto
  qed
qed (simp add: wp_rules)

lemma stock_returned:
  fixes w :: "'w pos_scheme"
  assumes "\<forall>n. fault w n = None"
  shows "wp (ignoring (reverseSaleStockDeduction oid)) (\<lambda>_ v. wp (restock_serials oid)
    (\<lambda>_ u. orders u = orders w \<and> journal u = journal w \<and>
      stock_log u = stock_log w @ Restocked oid # map SerialReturned (sold_serials w oid)) (\<lambda>_ _. False) v) (\<lambda>_ _. False) w"
proof -
  have "wp (restock_serials oid) (\<lambda>_ u. orders u = orders w \<and> journal u = journal w \<and>
      stock_log u = stock_log w @ Restocked oid # map SerialReturned (sold_serials w oid)) (\<lambda>_ _. False)
      (w\<lparr>calls := k, stock_log := stock_log w @ [Restocked oid]\<rparr>)" (is "wp _ ?P _ _") for k
  proof -
    have "wp (forEach (sold_serials w oid) (\<lambda>s. ignoring (returnSerial s))) ?P (\<lambda>_. ?P ())
        (w\<lparr>stock_log := stock_log w @ [Restocked oid], calls := Suc k\<rparr>)"
      by (rule wp_mono [OF serials_returned]) (use assms in auto)
    then show ?thesis
      using assms by (simp add: restock_serials_def wp_ignoring findSoldByOrder_def wp_rules)
  qed
  then show ?thesis using assms by (simp add: wp_ignoring reverseSaleStockDeduction_def wp_statement)
qed

text \<open>C40. Cancelling an order that was never posted gives the stock back and does not cancel.  With pooled
  writes and no failing call, \<^verbatim>\<open>cancel\<close> of an order of the tenant that is not cancelled, and for which
  no posting exists, answers with its identifier as for a success; the orders, that one included,
  and the journal are as before, and yet the stock the sale took and its serials are returned.
  The order can be cancelled again, and then \<^verbatim>\<open>fn_reverse_sale_stock_deduction\<close> is called again.\<close>

theorem unposted_cancel_restocks:
  fixes w :: "'w pos_scheme"
  assumes "\<forall>n. fault w n = None" "config w ''POOLED_INVOICE_WRITES_ENABLED''" "pg_pool w" "t \<noteq> []"
    and "filter (\<lambda>p. orders_scope (Some t) p \<and> o_id p = oid) (orders w) = [p]" "o_status p \<noteq> ''cancelled''"
    and "Posted oid \<notin> set (journal w)"
  shows "\<exists>v. invoice_cancel (Some t) oid why a role ip dev w = (Inr oid, v) \<and> orders v = orders w \<and> journal v = journal w \<and>
    stock_log v = stock_log w @ Restocked oid # map SerialReturned (sold_serials w oid)"
proof -
  let ?Q = "\<lambda>x v. x = oid \<and> orders v = orders w \<and> journal v = journal w \<and>
    stock_log v = stock_log w @ Restocked oid # map SerialReturned (sold_serials w oid)"
  have p: "p \<in> set (orders w)" "o_id p = oid" "o_tenant p = Some t"
    using filter_oneD [OF assms(5)] assms(4) by (auto simp: orders_scope_def truthy_def)
  have find: "wp (invoice_findById (Some t) oid) (\<lambda>x u. fst x = p \<and> config u = config w \<and> pg_pool u \<and> shop_books u = shop_books w)
      (\<lambda>_ _. False) w"
    using assms(1,3,5) by (simp add: invoice_findById_def invoices_findById_def wp_rules shop_books_def)
  have rest: "wp (bindE (audit_log en) (\<lambda>_. bindE (ignoring (reverseSaleStockDeduction oid)) (\<lambda>_.
      bindE (restock_serials oid) (\<lambda>_. bindE (invalidateList n) (\<lambda>_. ret oid))))) ?Q (\<lambda>_ _. False) u"
    if u: "shop_books u = shop_books w" for en n and u :: "'w pos_scheme"
  proof (rule total_bind [OF total_steps(1) shop.keeps_infra(5)])
    fix v :: "'w pos_scheme" assume "shop_books v = shop_books u"
    then have v: "orders v = orders w" "journal v = journal w" "stock_log v = stock_log w" "sold_serials v = sold_serials w"
      "\<forall>n. fault v n = None" using u assms(1) by (simp_all add: shop_books_def)
    have last: "wp (bindE (invalidateList n) (\<lambda>_. ret oid)) ?Q (\<lambda>_ _. False) y"
      if "orders y = orders w \<and> journal y = journal w \<and> stock_log y = stock_log w @ Restocked oid # map SerialReturned (sold_serials w oid)"
      for y :: "'w pos_scheme"
      using that by (intro total_bind [OF total_steps(4) shop_invalidate]) (simp add: wp_ret shop_books_def)
    show "wp (bindE (ignoring (reverseSaleStockDeduction oid)) (\<lambda>_. bindE (restock_serials oid) (\<lambda>_.
        bindE (invalidateList n) (\<lambda>_. ret oid)))) ?Q (\<lambda>_ _. False) v"
      unfolding wp_bindE [of "ignoring _"] wp_bindE [of "restock_serials _"]
      using stock_returned [OF v(5), of oid]
      by (rule wp_mono) (auto elim!: wp_mono intro: last simp: v)
  qed
  have "wp (invoice_cancel (Some t) oid why a role ip dev) ?Q (\<lambda>_ _. False) w"
    unfolding invoice_cancel_def
  proof (rule wp_bind [OF find])
    fix x :: "order_row \<times> order_item_row list" and u :: "'w pos_scheme"
    assume u: "fst x = p \<and> config u = config w \<and> pg_pool u \<and> shop_books u = shop_books w"
    obtain before ls where before: "x = (before, ls)" by (cases x)
    have u': "\<forall>n. fault u n = None" "pg_pool u" "p \<in> set (orders u)" "Posted oid \<notin> set (journal u)"
      using u assms(1,7) p by (simp_all add: shop_books_def)
    have "wp (bindE (cancelPooled (Some t) oid) (\<lambda>_.
        bindE (audit_log en) (\<lambda>_. bindE (ignoring (reverseSaleStockDeduction oid)) (\<lambda>_.
        bindE (restock_serials oid) (\<lambda>_. bindE (invalidateList n) (\<lambda>_. ret oid)))))) ?Q (\<lambda>_ _. False) u" for en n
      by (rule wp_bind [OF unposted_cancelPooled [OF u'(1-3) p(2,3) u'(4)]]) (use rest u in auto)
    then show "wp (case x of (before, _) \<Rightarrow>
       bindE (require (o_status before \<noteq> ''cancelled'') (bad_request ''Invoice already cancelled'')) (\<lambda>_.
       bindE (gets config) (\<lambda>flag.
       bindE (if flag ''POOLED_INVOICE_WRITES_ENABLED'' then cancelPooled (Some t) oid else invoices_cancel (Some t) oid) (\<lambda>_.
       bindE (audit_log ((entry (Some t) a (Some role) ''invoice.cancel'' ''invoice'' (Some oid)
         (JObj [(''status'', JStr (o_status before)), (''total'', JNum (o_total before))])
         (JObj [(''status'', JStr ''cancelled''), (''reason'', js_opt_str why)]))
           \<lparr>a_ip := Some ip, a_device := Some dev\<rparr>)) (\<lambda>_.
       bindE (ignoring (reverseSaleStockDeduction oid)) (\<lambda>_.
       bindE (restock_serials oid) (\<lambda>_.
       bindE (invalidateList (nullish (Some t) ''null'')) (\<lambda>_.
       ret oid)))))))) ?Q (\<lambda>_ _. False) u"
      using u assms(2,6) by (simp add: before wp_bindE [of "require _ _"] wp_require wp_bindE [of "gets _"] wp_gets)
  qed
  then show ?thesis by (auto simp: wp_def split: prod.splits sum.splits)
qed

section \<open>On the small shop\<close>

lemma demo_order_written:
  "sale_world (snd (invoice_create ''t'' demo_walk_in ''u'' ''cashier'' ''b'' (Some ''s1'') ''ip'' ''dev'' demo_day)) \<noteq> sale_world demo_day"
  by (simp add: demo_runs demo_writes demo_walk_in_def sale_world_def)

theorem sale_needs_approval_witness:
  "\<exists>pr. fst (validate_sale ''t'' demo_walk_in ''u'' ''b'' (Some ''s1'') demo_day) = Inr pr \<and>
     sale_ok demo_day ''t'' demo_walk_in ''u'' ''b'' (Some ''s1'') pr"
  by (rule sale_needs_approval [OF demo_order_written])

definition demo_order :: order_row where
  "demo_order = order_payload.extend \<lparr>o_branch = ''b'', o_shift = Some ''s1'', o_cashier = ''u'', o_customer = None,
     o_status = ''completed'', o_subtotal = 40, o_discount = 0, o_tax = 6, o_total = 46, o_method = Some ''card'',
     o_notes = None, o_coupon = None, o_attempt = Some ''a1'', o_cash = None, o_card = None, o_held = False,
     o_visibility = None, o_held_by = None, o_held_at = None\<rparr> \<lparr>o_id = ''o1'', o_tenant = Some ''t'', o_deleted_at = None\<rparr>"

lemmas demo_order_defs = demo_order_def order_payload.defs orders_scope_def

theorem resubmission_conflict_witness:
  "fst (invoice_create ''t'' demo_sale ''u'' ''cashier'' ''b'' (Some ''s1'') ''ip'' ''dev'' (demo_day\<lparr>orders := [demo_order]\<rparr>)) =
     Inl (Http Conflict ''This sale was already created'' [(''order_id'', ''o1'')])"
  by (subst resubmission_conflict [where r = demo_order]) (simp_all add: demo_order_defs demo_defs)

theorem one_order_per_attempt_witness:
  "distinct (map attempt_key (orders (snd (invoice_create ''t'' demo_sale ''u'' ''cashier'' ''b'' (Some ''s1'') ''ip'' ''dev''
     (snd (invoice_create ''t'' demo_walk_in ''u'' ''cashier'' ''b'' (Some ''s1'') ''ip'' ''dev'' demo_day))))))"
  by (rule one_order_per_attempt [of demo_day, OF rtranclp_trans [OF r_into_rtranclp r_into_rtranclp]],
      rule invoice_step.create, rule surjective_pairing, rule invoice_step.create, rule surjective_pairing)
     (simp add: demo_defs)

definition demo_hold :: hold_order where
  "demo_hold = \<lparr>ho_branch = ''b'', ho_shift = Some ''s1'', ho_customer = None, ho_items = [], ho_notes = None,
     ho_visibility = None\<rparr>"

theorem holdOrder_always_fails_witness:
  "fst (holdOrder (Some ''t'') demo_hold ''u'' ''cashier'' demo_day) = Inl (Db not_null_violation)"
proof -
  have "fault demo_day (calls demo_day) = None" by (simp add: demo_defs)
  then show ?thesis using holdOrder_always_fails [of "Some ''t''" demo_hold "''u''" "''cashier''" demo_day] by auto
qed

theorem redeemed_points_lost_witness:
  "\<exists>x e. invoice_create ''t'' demo_sale ''u'' ''cashier'' ''b'' (Some ''s1'') ''ip'' ''dev''
       (demo_day\<lparr>fault := (\<lambda>n. if n = 20 then Some not_null_violation else None)\<rparr>) = (Inl e, x) \<and>
     orders x = [] \<and> map c_points (customers x) = [40]"
proof -
  let ?w = "demo_day\<lparr>fault := (\<lambda>n. if n = 20 then Some not_null_violation else None)\<rparr>"
  have "\<exists>pr u v e x. validate_sale ''t'' demo_sale ''u'' ''b'' (Some ''s1'') ?w = (Inr pr, u) \<and>
     redeem_for_sale ''t'' demo_sale u = (Inr (), v) \<and>
     write_sale ''t'' demo_sale ''u'' ''b'' (Some ''s1'') pr v = (Inl e, x)"
    by (simp add: demo_runs demo_writes redeemPointsPooled_def assertCustomerInTenantPooled_def
        fn_adjust_loyalty_points_def adjustable_def adjusted_def write_failed_def)
  then obtain pr u v e x where run: "validate_sale ''t'' demo_sale ''u'' ''b'' (Some ''s1'') ?w = (Inr pr, u)"
    "redeem_for_sale ''t'' demo_sale u = (Inr (), v)"
    "write_sale ''t'' demo_sale ''u'' ''b'' (Some ''s1'') pr v = (Inl e, x)" by blast
  have dto: "config ?w ''POOLED_INVOICE_WRITES_ENABLED''" "ci_redeem demo_sale = Some 60" "ci_customer demo_sale = Some ''c''"
    by (simp_all add: demo_defs)
  have w: "orders ?w = []" "customers ?w = customers demo_pos" by (simp_all add: demo_defs)
  have "invoice_create ''t'' demo_sale ''u'' ''cashier'' ''b'' (Some ''s1'') ''ip'' ''dev'' ?w = (Inl e, x)"
    "sale_books x = sale_books ?w"
    "customers x = update_where (adjustable ''c'' (- 60)) (adjusted (- 60)) (customers ?w)"
    using redeemed_points_lost [OF run dto(1,2) _ dto(3)] by simp_all
  then show ?thesis
    by (simp add: sale_books_def w) (simp add: demo_pos_def catalog.defs update_where_def adjustable_def adjusted_def)
qed

theorem sale_adds_up_witness:
  "\<exists>pr u D T. validate_sale ''t'' demo_sale ''u'' ''b'' (Some ''s1'') demo_day = (Inr pr, u) \<and>
     total (pr_built pr) = cents (4000 - D + T) \<and> 0 \<le> D \<and> D \<le> 4000 \<and> 0 \<le> T \<and> T \<le> 4000 - D"
proof -
  obtain pr u where run: "validate_sale ''t'' demo_sale ''u'' ''b'' (Some ''s1'') demo_day = (Inr pr, u)"
    and pr: "pr_tax_rate pr = 3 / 20" "redemption_value (pr_settings pr) = 1 / 100"
    using demo_validates by blast
  have c: "cents 2000 = 20" by code_simp
  have "to_cents 20 = 2000" by code_simp
  then have lines: "(\<Sum>it\<leftarrow>ci_items demo_sale. line_cents it) = 4000"
    by (simp add: demo_sale_def line_cents_def)
  have "whole_line it" if "unit_price it = cents 2000" "quantity it = of_int 2" for it :: invoice_line
    unfolding whole_line_def by (rule exI [of _ 2000], rule exI [of _ 2]) (simp add: that money_bound_def)
  then have whole: "\<forall>it\<in>set (ci_items demo_sale). whole_line it" by (simp add: demo_sale_def c)
  have worth: "0 \<le> fmul 60 (1 / 100) \<and> fmul 60 (1 / 100) \<le> cents subtotal_bound" by code_simp
  have "\<exists>S D T. S = (\<Sum>it\<leftarrow>ci_items demo_sale. line_cents it) \<and> subtotal (pr_built pr) = cents S \<and>
    to_cents (discount_amount (pr_built pr)) = D \<and> tax_amount (pr_built pr) = cents T \<and>
    total (pr_built pr) = cents (S - D + T) \<and> 0 \<le> D \<and> D \<le> S \<and> 0 \<le> T \<and> T \<le> S - D \<and>
    (ci_method demo_sale = ''cash'' \<longrightarrow> (\<exists>x. ci_tendered demo_sale = Some x \<and> cents (S - D + T) \<le> x)) \<and>
    (ci_method demo_sale = ''split'' \<longrightarrow> (\<exists>x y. ci_cash demo_sale = Some x \<and> ci_card demo_sale = Some y \<and>
       0 \<le> x \<and> 0 \<le> y \<and> round2 (fadd x y) = cents (S - D + T)))"
    using worth lines by (intro sale_adds_up [OF run whole])
      (simp_all add: pr subtotal_bound_def demo_sale_def, simp add: demo_defs)
  then show ?thesis using run unfolding lines by blast
qed

text \<open>An order that was not posted.\<close>

definition demo_unposted :: pos where
  "demo_unposted = demo_day\<lparr>orders := [demo_order], sold_serials := (\<lambda>_. [''n1''])\<rparr>"

theorem unposted_cancel_restocks_witness:
  "\<exists>v. invoice_cancel (Some ''t'') ''o1'' None ''u'' ''cashier'' ''ip'' ''dev'' demo_unposted = (Inr ''o1'', v) \<and>
     map o_status (orders v) = [''completed''] \<and> stock_log v = [Restocked ''o1'', SerialReturned ''n1'']"
proof -
  have "\<exists>v. invoice_cancel (Some ''t'') ''o1'' None ''u'' ''cashier'' ''ip'' ''dev'' demo_unposted = (Inr ''o1'', v) \<and>
      orders v = orders demo_unposted \<and> journal v = journal demo_unposted \<and>
      stock_log v = stock_log demo_unposted @ Restocked ''o1'' # map SerialReturned (sold_serials demo_unposted ''o1'')"
    by (rule unposted_cancel_restocks [where p = demo_order]) (simp_all add: demo_unposted_def demo_defs demo_order_defs)
  then show ?thesis by (auto simp: demo_unposted_def demo_defs demo_order_defs)
qed



end
