(* ===== verification/ItemCodes.thy ===== *)
theory ItemCodes
  imports Coupons "HOL-Library.Word"
begin

text \<open>
  The pure functions on codes: EAN-13 barcodes and SKUs (\<^verbatim>\<open>modules/items/utils/ean13.util.ts\<close>,
  \<^verbatim>\<open>sku.util.ts\<close>), the CSV parser of the imports (\<^verbatim>\<open>csv.util.ts\<close>), the escaping of labels
  (\<^verbatim>\<open>barcode-render.util.ts\<close>), and the normalization of scans (\<^verbatim>\<open>modules/scanner\<close>).
\<close>

section \<open>EAN-13\<close>

definition is_digit :: "char \<Rightarrow> bool" where
  "is_digit c = (let n = of_char c :: nat in 48 \<le> n \<and> n \<le> 57)"

definition digit_val :: "char \<Rightarrow> nat" where
  "digit_val c = of_char c - 48"

definition computeEan13CheckDigit :: "string \<Rightarrow> exn + string" where
  "computeEan13CheckDigit digits12 =
     (if \<not> (length digits12 = 12 \<and> list_all is_digit digits12)
      then Inl (Err ''EAN-13 payload must be exactly 12 digits'')
      else let sum = foldl (\<lambda>sum i. let digit = digit_val (digits12 ! i)
                 in sum + (if i mod 2 = 0 then digit else digit * 3)) 0 [0..<12];
               check = (10 - sum mod 10) mod 10
           in Inr (nat_str check))"

definition padStart :: "nat \<Rightarrow> char \<Rightarrow> string \<Rightarrow> string" where
  "padStart n c s = replicate (n - length s) c @ s"

text \<open>\<^verbatim>\<open>(hash * 31 + c) >>> 0\<close>: the product stays below 2 to the 37th, so the double is exact.\<close>

definition tenant_hash :: "string \<Rightarrow> nat" where
  "tenant_hash tenantId = foldl (\<lambda>hash c. (hash * 31 + of_char c) mod 2 ^ 32) 0 tenantId"

definition generateEan13ForTenant :: "string \<Rightarrow> nat \<Rightarrow> exn + string" where
  "generateEan13ForTenant tenantId sequence =
     (let tenantPrefix = padStart 4 CHR ''0'' (nat_str (tenant_hash tenantId mod 10000));
          seqPart = padStart 8 CHR ''0'' (nat_str (sequence mod 100000000));
          payload = tenantPrefix @ seqPart
      in case computeEan13CheckDigit payload of Inl e \<Rightarrow> Inl e | Inr c \<Rightarrow> Inr (payload @ c))"

definition formatProductSku :: "nat \<Rightarrow> string" where
  "formatProductSku sequence = padStart 7 CHR ''0'' (nat_str (sequence mod 10000000))"

definition formatVariantSku :: "string \<Rightarrow> nat \<Rightarrow> string" where
  "formatVariantSku parentSku sequence = parentSku @ ''-'' @ padStart 2 CHR ''0'' (nat_str (sequence mod 100))"

section \<open>CSV\<close>

text \<open>\<^verbatim>\<open>split(/\\r\\n|\\n/)\<close>, with the line so far as accumulator.\<close>

fun split_lines :: "string \<Rightarrow> string \<Rightarrow> string list" where
  "split_lines cur [] = [cur]"
| "split_lines cur (c # cs) =
     (if c = CHR 0x0A then cur # split_lines [] cs
      else if c = CHR 0x0D \<and> cs \<noteq> [] \<and> hd cs = CHR 0x0A then cur # split_lines [] (tl cs)
      else split_lines (cur @ [c]) cs)"

text \<open>The loop of \<^verbatim>\<open>parseCsvLine\<close>: whether inside quotes, the field so far, the fields so far.\<close>

fun csv_loop :: "bool \<Rightarrow> string \<Rightarrow> string list \<Rightarrow> string \<Rightarrow> string list" where
  "csv_loop inQuotes current result [] = result @ [current]"
| "csv_loop inQuotes current result (c # cs) =
     (if inQuotes then
        (if c = CHR 0x22 \<and> cs \<noteq> [] \<and> hd cs = CHR 0x22
         then csv_loop True (current @ [CHR 0x22]) result (tl cs)
         else if c = CHR 0x22 then csv_loop False current result cs
         else csv_loop True (current @ [c]) result cs)
      else if c = CHR 0x22 then csv_loop True current result cs
      else if c = CHR '','' then csv_loop False [] (result @ [current]) cs
      else csv_loop False (current @ [c]) result cs)"

definition parseCsvLine :: "string \<Rightarrow> string list" where
  "parseCsvLine line = csv_loop False [] [] line"

text \<open>\<^verbatim>\<open>toLowerCase\<close> on code units below 256.\<close>

definition toLowerCase :: "string \<Rightarrow> string" where
  "toLowerCase s = map (\<lambda>c. let n = of_char c :: nat in
     if 65 \<le> n \<and> n \<le> 90 \<or> 192 \<le> n \<and> n \<le> 222 \<and> n \<noteq> 215 then char_of (n + 32) else c) s"

definition csv_row :: "string list \<Rightarrow> string list \<Rightarrow> (string \<rightharpoonup> string)" where
  "csv_row header values = foldl (\<lambda>row (i, key).
     row(key \<mapsto> trim (if i < length values then values ! i else []))) Map.empty (enumerate 0 header)"

definition parseCsv :: "string \<Rightarrow> (string \<rightharpoonup> string) list" where
  "parseCsv content =
     (let ls = filter (\<lambda>line. trim line \<noteq> []) (split_lines [] content)
      in if ls = [] then [] else
         let header = map (\<lambda>h. toLowerCase (trim h)) (parseCsvLine (hd ls))
         in map (\<lambda>line. csv_row header (parseCsvLine line)) (tl ls))"

section \<open>Labels and scans\<close>

definition replace_char :: "char \<Rightarrow> string \<Rightarrow> string \<Rightarrow> string" where
  "replace_char a s v = concat (map (\<lambda>c. if c = a then s else [c]) v)"

definition escapeXml :: "string \<Rightarrow> string" where
  "escapeXml value = replace_char CHR 0x22 ''&quot;'' (replace_char CHR ''>'' ''&gt;''
     (replace_char CHR ''<'' ''&lt;'' (replace_char CHR ''&'' ''&amp;'' value)))"

text \<open>\<^verbatim>\<open>replace(/\\s+/g, ' ')\<close>.\<close>

function collapse_spaces :: "string \<Rightarrow> string" where
  "collapse_spaces [] = []"
| "collapse_spaces (c # cs) =
     (if js_space c then CHR '' '' # collapse_spaces (dropWhile js_space cs) else c # collapse_spaces cs)"
  by pat_completeness auto
termination by (relation "measure length") (simp_all add: le_imp_less_Suc length_dropWhile_le)

definition normalizeScanValue :: "string \<Rightarrow> string" where
  "normalizeScanValue rawValue = toUpperCase (collapse_spaces (trim rawValue))"

definition alnum :: "char \<Rightarrow> bool" where
  "alnum c = (let n = of_char c :: nat in 65 \<le> n \<and> n \<le> 90 \<or> 97 \<le> n \<and> n \<le> 122 \<or> 48 \<le> n \<and> n \<le> 57)"

definition stripAimPrefix :: "string \<Rightarrow> string \<times> string option" where
  "stripAimPrefix value = (case value of
     c # a # b # rest \<Rightarrow> if c = CHR '']'' \<and> alnum a \<and> alnum b then (rest, Some [c, a, b]) else (value, None)
   | _ \<Rightarrow> (value, None))"

section \<open>Digits\<close>

lemma digit_char [simp]:
  "d < 10 \<Longrightarrow> is_digit (char_of (48 + d))" "d < 10 \<Longrightarrow> digit_val (char_of (48 + d)) = d"
  by (simp_all add: is_digit_def digit_val_def)

definition parse_nat :: "string \<Rightarrow> nat" where
  "parse_nat s = foldl (\<lambda>n c. n * 10 + digit_val c) 0 s"

lemma nat_str_digits: "list_all is_digit (nat_str n)"
  by (induction n rule: nat_str.induct) (subst nat_str.simps, simp)

lemma parse_nat_str: "parse_nat (nat_str n) = n"
  by (induction n rule: nat_str.induct) (subst nat_str.simps, simp add: parse_nat_def)

lemma nat_str_length: "n < 10 ^ k \<Longrightarrow> 0 < k \<Longrightarrow> length (nat_str n) \<le> k"
proof (induction k arbitrary: n)
  case (Suc k)
  show ?case
  proof (cases "n < 10")
    case False
    then have "0 < k" using Suc.prems(1) by (cases k) auto
    moreover have "n div 10 < 10 ^ k" using Suc.prems(1) by (simp add: less_mult_imp_div_less)
    ultimately have "length (nat_str (n div 10)) \<le> k" by (rule Suc.IH [rotated])
    then show ?thesis using False by (subst nat_str.simps) simp
  qed (subst nat_str.simps, simp)
qed simp

lemma parse_pad: "parse_nat (padStart k CHR ''0'' s) = parse_nat s"
proof -
  have "foldl (\<lambda>n c. n * 10 + digit_val c) 0 (replicate m CHR ''0'') = 0" for m
    by (induction m) (simp_all add: digit_val_def)
  then show ?thesis by (simp add: parse_nat_def padStart_def)
qed

lemma pad_digits: "list_all is_digit s \<Longrightarrow> list_all is_digit (padStart k CHR ''0'' s)"
  by (auto simp: padStart_def list_all_iff set_replicate_conv_if is_digit_def)

lemma pad_number:
  assumes "0 < k"
  shows "length (padStart k CHR ''0'' (nat_str (n mod 10 ^ k))) = k"
    "list_all is_digit (padStart k CHR ''0'' (nat_str (n mod 10 ^ k)))"
    "parse_nat (padStart k CHR ''0'' (nat_str (n mod 10 ^ k))) = n mod 10 ^ k"
proof -
  show "length (padStart k CHR ''0'' (nat_str (n mod 10 ^ k))) = k"
    using nat_str_length [of "n mod 10 ^ k" k] assms by (simp add: padStart_def)
qed (simp_all only: pad_digits nat_str_digits parse_pad parse_nat_str)

section \<open>The check digit\<close>

definition ean13_sum :: "string \<Rightarrow> nat" where
  "ean13_sum s = (\<Sum>i<length s. (if even i then 1 else 3) * digit_val (s ! i))"

text \<open>
  The reference: a code is valid under the GS1 rule if its digits, weighted 1 and 3 in turn, add up
  to a multiple of ten.  It does not use the program.
\<close>

definition gs1_valid :: "string \<Rightarrow> bool" where
  "gs1_valid s \<longleftrightarrow> length s = 13 \<and> list_all is_digit s \<and> (\<Sum>i<13. (if even i then 1 else 3) * digit_val (s ! i)) mod 10 = 0"

text \<open>The check of the program: the last digit is the one \<open>computeEan13CheckDigit\<close> computes from the others.\<close>

definition valid_ean13 :: "string \<Rightarrow> bool" where
  "valid_ean13 s \<longleftrightarrow> length s = 13 \<and> list_all is_digit s \<and> computeEan13CheckDigit (take 12 s) = Inr (drop 12 s)"

lemma foldl_sum: "foldl (\<lambda>sum i. sum + f i) a [0..<n] = a + (\<Sum>i<n. f i :: nat)"
  by (induction n) simp_all

lemma check_digit_eq:
  assumes "length s = 12" "list_all is_digit s"
  shows "computeEan13CheckDigit s = Inr (nat_str ((10 - ean13_sum s mod 10) mod 10))"
proof -
  have "(\<lambda>sum i. let digit = digit_val (s ! i) in sum + (if i mod 2 = 0 then digit else digit * 3)) =
      (\<lambda>sum i. sum + (if even i then 1 else 3) * digit_val (s ! i))"
    by (simp add: fun_eq_iff Let_def even_iff_mod_2_eq_zero)
  then have "foldl (\<lambda>sum i. let digit = digit_val (s ! i) in sum + (if i mod 2 = 0 then digit else digit * 3)) 0 [0..<12]
      = ean13_sum s"
    using assms(1) by (simp only: foldl_sum ean13_sum_def)
  then show ?thesis using assms by (simp add: computeEan13CheckDigit_def Let_def)
qed

lemma one_digit: "n < 10 \<Longrightarrow> nat_str n = [char_of (48 + n)]"
  by (subst nat_str.simps) simp

lemma digit_inverse: "is_digit c \<Longrightarrow> char_of (48 + digit_val c) = c"
  by (simp add: is_digit_def digit_val_def Let_def)

lemma digit_val_less: "is_digit c \<Longrightarrow> digit_val c < 10"
  by (auto simp: is_digit_def digit_val_def Let_def)

lemma sum_snoc: "ean13_sum (s @ [c]) = ean13_sum s + (if even (length s) then 1 else 3) * digit_val c"
  by (simp add: ean13_sum_def nth_append)

text \<open>The arithmetic of the check, on numbers alone.\<close>

lemma check_arith:
  assumes "(d :: nat) < 10"
  shows "d = (10 - m mod 10) mod 10 \<longleftrightarrow> (m + d) mod 10 = 0"
proof -
  have "(m + d) mod 10 = (m mod 10 + d) mod 10" by (simp add: mod_simps)
  moreover have "d = (10 - r) mod 10 \<longleftrightarrow> (r + d) mod 10 = 0" if "r < 10" for r
    using that assms by (cases "r = 0"; cases "r + d < 10") (auto simp: le_mod_geq)
  ultimately show ?thesis by simp
qed

lemma weight_cancel:
  fixes x y a :: nat
  assumes "x < 10" "y < 10"
  shows "(x + a) mod 10 = 0 \<Longrightarrow> (y + a) mod 10 = 0 \<Longrightarrow> x = y"
    and "(3 * x + a) mod 10 = 0 \<Longrightarrow> (3 * y + a) mod 10 = 0 \<Longrightarrow> x = y"
proof -
  assume "(x + a) mod 10 = 0" "(y + a) mod 10 = 0"
  then obtain k l where "x + a = 10 * k" "y + a = 10 * l" by (auto simp: mod_eq_0_iff_dvd elim!: dvdE)
  then have "x + 10 * l = y + 10 * k" by linarith
  then show "x = y" using assms by presburger
next
  assume "(3 * x + a) mod 10 = 0" "(3 * y + a) mod 10 = 0"
  then obtain k l where "3 * x + a = 10 * k" "3 * y + a = 10 * l" by (auto simp: mod_eq_0_iff_dvd elim!: dvdE)
  then have "3 * x + 10 * l = 3 * y + 10 * k" by linarith
  then show "x = y" using assms by presburger
qed

lemma swap_cancel:
  fixes x y a :: nat
  shows "(x + (3 * y + a)) mod 10 = 0 \<Longrightarrow> (y + (3 * x + a)) mod 10 = 0 \<Longrightarrow> x mod 5 = y mod 5"
    and "(3 * x + (y + a)) mod 10 = 0 \<Longrightarrow> (3 * y + (x + a)) mod 10 = 0 \<Longrightarrow> x mod 5 = y mod 5"
proof -
  have same: "x mod 5 = y mod 5" if "y + 5 * l = x + 5 * k" for k l
    using that by (metis mod_mult_self2)
  show "x mod 5 = y mod 5" if z: "(x + (3 * y + a)) mod 10 = 0" "(y + (3 * x + a)) mod 10 = 0"
  proof -
    obtain k l where "x + (3 * y + a) = 10 * k" "y + (3 * x + a) = 10 * l" using z by (auto simp: mod_eq_0_iff_dvd elim!: dvdE)
    then show ?thesis by (intro same [of l k]) linarith
  qed
  show "x mod 5 = y mod 5" if z: "(3 * x + (y + a)) mod 10 = 0" "(3 * y + (x + a)) mod 10 = 0"
  proof -
    obtain k l where "3 * x + (y + a) = 10 * k" "3 * y + (x + a) = 10 * l" using z by (auto simp: mod_eq_0_iff_dvd elim!: dvdE)
    then show ?thesis by (intro same [of k l]) linarith
  qed
qed

lemma valid_ean13_iff:
  "valid_ean13 s \<longleftrightarrow> length s = 13 \<and> list_all is_digit s \<and> ean13_sum s mod 10 = 0"
proof (cases "length s = 13 \<and> list_all is_digit s")
  case True
  then obtain p c where s: "s = p @ [c]" "length p = 12" by (cases s rule: rev_cases) auto
  then have d: "list_all is_digit p" "is_digit c" using True by simp_all
  define k where "k = (10 - ean13_sum p mod 10) mod 10"
  have k: "k < 10" by (simp add: k_def)
  have "valid_ean13 s \<longleftrightarrow> nat_str k = [c]"
    using True s by (simp add: valid_ean13_def check_digit_eq [OF s(2) d(1)] k_def)
  also have "\<dots> \<longleftrightarrow> digit_val c = k"
    using digit_inverse [OF d(2)] digit_char(2) [OF k] one_digit [OF k] by (metis list.inject)
  also have "\<dots> \<longleftrightarrow> (ean13_sum p + digit_val c) mod 10 = 0"
    unfolding k_def by (rule check_arith [OF digit_val_less [OF d(2)]])
  also have "ean13_sum p + digit_val c = ean13_sum s" by (simp add: s sum_snoc)
  finally show ?thesis using True by simp
qed (auto simp: valid_ean13_def)

text \<open>The check of the program is the GS1 rule.\<close>

lemma valid_ean13_gs1: "valid_ean13 s \<longleftrightarrow> gs1_valid s"
  by (auto simp: valid_ean13_iff gs1_valid_def ean13_sum_def)

text \<open>The prefix of a tenant is a polynomial in 31 of the characters of its identifier, in 32 bits.\<close>

lemma tenant_hash_poly: "tenant_hash t = (\<Sum>i<length t. of_char (t ! i) * 31 ^ (length t - Suc i)) mod 2 ^ 32"
proof (induction t rule: rev_induct)
  case (snoc c t)
  let ?s = "\<Sum>i<length t. of_char (t ! i) * 31 ^ (length t - Suc i) :: nat"
  have pow: "31 ^ (length t - i) = 31 ^ (length t - Suc i) * (31 :: nat)" if "i < length t" for i
    using that by (metis Suc_diff_Suc power_Suc2)
  have "(\<Sum>i<length t. of_char ((t @ [c]) ! i) * 31 ^ (length t - i)) = ?s * 31"
    unfolding sum_distrib_right by (rule sum.cong) (simp_all add: nth_append pow)
  then have "(\<Sum>i<length (t @ [c]). of_char ((t @ [c]) ! i) * 31 ^ (length (t @ [c]) - Suc i)) = ?s * 31 + of_char c" by simp
  moreover have "tenant_hash (t @ [c]) = (?s * 31 + of_char c) mod 2 ^ 32"
  proof -
    have "tenant_hash (t @ [c]) = (tenant_hash t * 31 + of_char c) mod 2 ^ 32" by (simp add: tenant_hash_def)
    then show ?thesis unfolding snoc.IH by (metis mod_add_left_eq mod_mult_left_eq)
  qed
  ultimately show ?case by simp
qed (simp add: tenant_hash_def)

text \<open>What \<^verbatim>\<open>generateEan13ForTenant\<close> returns, by its parts.\<close>

lemma generated_parts:
  obtains a b c where "generateEan13ForTenant t n = Inr (a @ b @ c)" "valid_ean13 (a @ b @ c)"
    and "length a = 4" "length b = 8" "parse_nat a = tenant_hash t mod 10000" "parse_nat b = n mod 100000000"
proof -
  define a where "a = padStart 4 CHR ''0'' (nat_str (tenant_hash t mod 10 ^ 4))"
  define b where "b = padStart 8 CHR ''0'' (nat_str (n mod 10 ^ 8))"
  note parts = pad_number [of 4 "tenant_hash t", folded a_def] pad_number [of 8 n, folded b_def]
  let ?c = "nat_str ((10 - ean13_sum (a @ b) mod 10) mod 10)"
  have check: "computeEan13CheckDigit (a @ b) = Inr ?c"
    using parts by (intro check_digit_eq) simp_all
  have c: "length ?c = 1" "list_all is_digit ?c" by (simp_all add: one_digit)
  have "generateEan13ForTenant t n = Inr (a @ b @ ?c)"
    using check by (simp add: generateEan13ForTenant_def Let_def a_def b_def)
  moreover have "valid_ean13 (a @ b @ ?c)" using parts c check by (simp add: valid_ean13_def)
  ultimately show ?thesis using parts by (intro that) simp_all
qed

lemma ean13_valid: "\<exists>code. generateEan13ForTenant t n = Inr code \<and> valid_ean13 code"
  by (rule generated_parts [of t n]) blast

text \<open>C29. A generated barcode is a valid EAN-13 code that gives its parts back.  It has 13 digits that satisfy
  the GS1 rule, with weights 1 and 3 in turn; the first four are the hash of the tenant, a 32-bit
  polynomial in 31, modulo 10000, and the next eight the sequence number modulo 100000000, so two
  sequence numbers that differ by a multiple of 100000000 give the same code.\<close>

theorem ean13_roundtrip:
  "\<exists>code. generateEan13ForTenant t n = Inr code \<and> gs1_valid code \<and>
     parse_nat (take 4 code) = (\<Sum>i<length t. of_char (t ! i) * 31 ^ (length t - Suc i)) mod 2 ^ 32 mod 10000 \<and>
     parse_nat (take 8 (drop 4 code)) = n mod 100000000"
  by (rule generated_parts [of t n]) (auto simp: valid_ean13_gs1 tenant_hash_poly)

text \<open>C30. The check digit detects every wrong digit, and every swap of neighbours unless they differ by
  five: of two valid codes neither is the other with one digit changed.\<close>

theorem ean13_detects:
  assumes "valid_ean13 s"
  shows "(\<forall>i<13. \<forall>d. valid_ean13 (s[i := d]) \<longrightarrow> s ! i = d) \<and>
    (\<forall>i<12. valid_ean13 (s[i := s ! Suc i, Suc i := s ! i]) \<longrightarrow>
       digit_val (s ! i) mod 5 = digit_val (s ! Suc i) mod 5)"
proof (intro conjI allI impI)
  have s: "length s = 13" "list_all is_digit s" "ean13_sum s mod 10 = 0" using assms by (simp_all add: valid_ean13_iff)
  let ?w = "\<lambda>i. if even i then 1 else 3 :: nat"
  show "s ! i = d" if i: "i < 13" and v: "valid_ean13 (s[i := d])" for i d
  proof -
    let ?A = "\<Sum>j\<in>{..<13} - {i}. ?w j * digit_val (s ! j)"
    have "ean13_sum s = ?w i * digit_val (s ! i) + ?A"
      using i by (simp add: ean13_sum_def s(1) sum.remove [of "{..<13}" i])
    moreover have "ean13_sum (s[i := d]) = ?w i * digit_val d + ?A"
      using i by (simp add: ean13_sum_def s(1) sum.remove [of "{..<13}" i])
    moreover have dig: "is_digit d" "is_digit (s ! i)"
      using v i s(1,2) by (auto simp: valid_ean13_iff list_all_length dest: spec [of _ i])
    ultimately have "digit_val (s ! i) = digit_val d"
      using s(3) v weight_cancel [of "digit_val (s ! i)" "digit_val d" ?A] digit_val_less [OF dig(1)] digit_val_less [OF dig(2)]
      by (cases "even i") (simp_all add: valid_ean13_iff)
    then show ?thesis using digit_inverse dig by metis
  qed
  show "digit_val (s ! i) mod 5 = digit_val (s ! Suc i) mod 5"
    if i: "i < 12" and v: "valid_ean13 (s[i := s ! Suc i, Suc i := s ! i])" for i
  proof -
    let ?A = "\<Sum>j\<in>{..<13} - {i} - {Suc i}. ?w j * digit_val (s ! j)"
    have "ean13_sum s = ?w i * digit_val (s ! i) + (?w (Suc i) * digit_val (s ! Suc i) + ?A)"
      using i by (simp add: ean13_sum_def s(1) sum.remove [of "{..<13}" i] sum.remove [of "{..<13} - {i}" "Suc i"])
    moreover have "ean13_sum (s[i := s ! Suc i, Suc i := s ! i]) =
        ?w i * digit_val (s ! Suc i) + (?w (Suc i) * digit_val (s ! i) + ?A)"
      using i by (simp add: ean13_sum_def s(1) sum.remove [of "{..<13}" i] sum.remove [of "{..<13} - {i}" "Suc i"]
          nth_list_update)
    ultimately show ?thesis
      using s(3) v swap_cancel [of "digit_val (s ! i)" "digit_val (s ! Suc i)" ?A]
      by (cases "even i") (simp_all add: valid_ean13_iff)
  qed
qed

text \<open>The hash is the one of 32-bit arithmetic.\<close>

lemma tenant_hash_word:
  "tenant_hash t = unat (foldl (\<lambda>h c. h * 31 + of_nat (of_char c)) (0 :: 32 word) t)"
proof (induction t rule: rev_induct)
  case (snoc c t)
  then show ?case
    by (simp add: tenant_hash_def unat_word_ariths unat_of_nat mod_simps)
qed (simp add: tenant_hash_def)

section \<open>Printing and parsing CSV\<close>

text \<open>The printer of the format: every field in quotes, a quote inside doubled.\<close>

definition csv_escape :: "string \<Rightarrow> string" where
  "csv_escape f = concat (map (\<lambda>c. if c = CHR 0x22 then [c, c] else [c]) f)"

definition csv_quote :: "string \<Rightarrow> string" where
  "csv_quote f = CHR 0x22 # csv_escape f @ [CHR 0x22]"

definition csv_line :: "string list \<Rightarrow> string" where
  "csv_line fs = join '','' (map csv_quote fs)"

definition csv_print :: "string list \<Rightarrow> string list list \<Rightarrow> string" where
  "csv_print header rows = join [CHR 0x0A] (map csv_line (header # rows))"

lemma csv_quoted:
  assumes "rest = [] \<or> hd rest \<noteq> CHR 0x22"
  shows "csv_loop True cur res (csv_escape f @ CHR 0x22 # rest) = csv_loop False (cur @ f) res rest"
  by (induction f arbitrary: cur) (use assms in \<open>auto simp: csv_escape_def\<close>)

lemma csv_loop_quote:
  "rest = [] \<or> hd rest \<noteq> CHR 0x22 \<Longrightarrow>
   csv_loop False [] res (csv_quote f @ rest) = csv_loop False f res rest"
  using csv_quoted [of rest "[]"] by (simp add: csv_quote_def)

lemma csv_loop_line: "fs \<noteq> [] \<Longrightarrow> csv_loop False [] res (csv_line fs) = res @ fs"
proof (induction fs arbitrary: res rule: list_nonempty_induct)
  case (single f)
  then show ?case using csv_loop_quote [of "[]" res f] by (simp add: csv_line_def)
next
  case (cons f fs)
  then obtain g gs where fs: "fs = g # gs" by (cases fs) auto
  have "csv_loop False [] res (csv_line (f # fs)) = csv_loop False f res (CHR '','' # csv_line fs)"
    using csv_loop_quote [of "CHR '','' # csv_line fs" res f] by (simp add: csv_line_def fs)
  also have "\<dots> = csv_loop False [] (res @ [f]) (csv_line fs)" by simp
  finally show ?case by (simp add: cons.IH)
qed

lemma parse_line: "fs \<noteq> [] \<Longrightarrow> parseCsvLine (csv_line fs) = fs"
  by (simp add: parseCsvLine_def csv_loop_line)

text \<open>A line of this format starts and ends with a quote and has the newlines of its fields.\<close>

lemma csv_line_ends:
  assumes "fs \<noteq> []" shows "csv_line fs \<noteq> []" "hd (csv_line fs) = CHR 0x22" "last (csv_line fs) = CHR 0x22"
proof -
  have "csv_line fs \<noteq> [] \<and> hd (csv_line fs) = CHR 0x22 \<and> last (csv_line fs) = CHR 0x22"
    using assms
  proof (induction fs rule: list_nonempty_induct)
    case (cons f fs)
    then obtain g gs where "fs = g # gs" by (cases fs) auto
    then show ?case using cons.IH by (simp add: csv_line_def csv_quote_def)
  qed (simp add: csv_line_def csv_quote_def)
  then show "csv_line fs \<noteq> []" "hd (csv_line fs) = CHR 0x22" "last (csv_line fs) = CHR 0x22" by blast+
qed

lemma set_csv_line: "set (csv_line fs) \<subseteq> \<Union> (set ` set fs) \<union> {CHR 0x22, CHR '',''}"
proof (induction fs)
  case (Cons f fs)
  then show ?case by (cases fs) (auto simp: csv_line_def csv_quote_def csv_escape_def split: if_splits)
qed (simp add: csv_line_def)

lemma split_line:
  assumes "CHR 0x0A \<notin> set l" "l \<noteq> []" "last l \<noteq> CHR 0x0D"
  shows "split_lines cur l = [cur @ l]" "split_lines cur (l @ CHR 0x0A # rest) = (cur @ l) # split_lines [] rest"
proof -
  have "split_lines cur l = [cur @ l] \<and> split_lines cur (l @ CHR 0x0A # rest) = (cur @ l) # split_lines [] rest"
    using assms(2,1,3)
  proof (induction l arbitrary: cur rule: list_nonempty_induct)
    case (cons c l)
    then obtain d l' where l: "l = d # l'" by (cases l) auto
    have "split_lines cur ((c # l) @ x) = split_lines (cur @ [c]) (l @ x)" for x
      unfolding append_Cons by (subst split_lines.simps(2)) (use cons.prems in \<open>auto simp: l simp del: split_lines.simps\<close>)
    from this [of "[]"] this [of "CHR 0x0A # rest"] show ?case
      using cons.IH [of "cur @ [c]"] cons.prems cons.hyps by (simp add: l del: split_lines.simps(2))
  qed simp
  then show "split_lines cur l = [cur @ l]" "split_lines cur (l @ CHR 0x0A # rest) = (cur @ l) # split_lines [] rest"
    by blast+
qed

lemma split_join:
  "ls \<noteq> [] \<Longrightarrow> \<forall>l\<in>set ls. CHR 0x0A \<notin> set l \<and> l \<noteq> [] \<and> last l \<noteq> CHR 0x0D \<Longrightarrow>
   split_lines [] (join [CHR 0x0A] ls) = ls"
proof (induction ls rule: list_nonempty_induct)
  case (cons l ls)
  then obtain k ks where ls: "ls = k # ks" by (cases ls) auto
  have "split_lines [] (l @ CHR 0x0A # join [CHR 0x0A] ls) = ([] @ l) # split_lines [] (join [CHR 0x0A] ls)"
    using cons.prems by (intro split_line) auto
  then show ?case using cons.IH cons.prems by (simp add: ls)
qed (simp add: split_line)

lemma update_before: "z h = None \<Longrightarrow> m(h \<mapsto> v) ++ z = m ++ z(h \<mapsto> v)"
  by (auto simp: fun_eq_iff map_add_def split: option.split)

lemma csv_row_fold:
  assumes "distinct hs"
  shows "foldl (\<lambda>row (i, key). row(key \<mapsto> g i)) m (enumerate k hs) = m ++ map_of (zip hs (map g [k..<k + length hs]))"
  using assms
proof (induction hs arbitrary: m k)
  case (Cons h hs)
  let ?z = "zip hs (map g [Suc k..<Suc k + length hs])"
  have up: "[k..<k + length (h # hs)] = k # [Suc k..<Suc k + length hs]"
    using upt_conv_Cons [of k "k + length (h # hs)"] by (simp del: upt_Suc)
  have "map_of ?z h = None" using Cons.prems by (auto simp: map_of_eq_None_iff dest: set_zip_leftD)
  then have "m(h \<mapsto> g k) ++ map_of ?z = m ++ (map_of ?z)(h \<mapsto> g k)" by (rule update_before)
  also have "(map_of ?z)(h \<mapsto> g k) = map_of (zip (h # hs) (map g [k..<k + length (h # hs)]))"
    unfolding up by simp
  moreover have "foldl (\<lambda>row (i, key). row(key \<mapsto> g i)) (m(h \<mapsto> g k)) (enumerate (Suc k) hs) =
      m(h \<mapsto> g k) ++ map_of ?z"
    by (rule Cons.IH) (use Cons.prems in simp)
  ultimately show ?case by (simp only: enumerate_simps foldl_Cons prod.case)
qed simp

lemma csv_row_zip:
  assumes "distinct header" "length values = length header" "\<forall>v\<in>set values. trim v = v"
  shows "csv_row header values = map_of (zip header values)"
proof -
  have "map (\<lambda>i. trim (if i < length values then values ! i else [])) [0..<length header] = values"
    using assms(2,3) by (intro nth_equalityI) simp_all
  then show ?thesis
    using csv_row_fold [OF assms(1), of "\<lambda>i. trim (if i < length values then values ! i else [])" Map.empty 0]
    by (simp add: csv_row_def)
qed

text \<open>C31. The CSV parser reads back what the format can say.  For distinct column names in lower case
  and rows of values, none with a newline or white space at its ends (but with commas, quotes and
  anything else inside), parsing the quoted text gives, for every row, exactly its values under
  the names.\<close>

theorem csv_roundtrip:
  assumes "header \<noteq> []" "distinct header" "\<forall>h\<in>set header. toLowerCase (trim h) = h \<and> CHR 0x0A \<notin> set h"
    and "\<forall>r\<in>set rows. length r = length header \<and> (\<forall>v\<in>set r. trim v = v \<and> CHR 0x0A \<notin> set v)"
  shows "parseCsv (csv_print header rows) = map (\<lambda>r. map_of (zip header r)) rows"
proof -
  let ?ls = "map csv_line (header # rows)"
  have ne: "fs \<noteq> []" if "fs \<in> set (header # rows)" for fs using that assms(1,4) by auto
  have nl: "CHR 0x0A \<notin> set (csv_line fs)" if "fs \<in> set (header # rows)" for fs
    using set_csv_line [of fs] that assms(3,4) by auto
  have "split_lines [] (csv_print header rows) = ?ls"
    unfolding csv_print_def by (rule split_join) (use nl csv_line_ends [OF ne] in auto)
  moreover have "trim l \<noteq> []" if l: "l \<in> set ?ls" for l
  proof -
    obtain fs where fs: "fs \<in> set (header # rows)" "l = csv_line fs" using l unfolding set_map by blast
    then have "CHR 0x22 \<in> set l" using csv_line_ends [OF ne [OF fs(1)]] by (metis hd_in_set)
    moreover have "\<not> js_space CHR 0x22" by (simp add: js_space_def)
    ultimately show ?thesis by (auto simp: trim_Nil_iff)
  qed
  ultimately have ls: "filter (\<lambda>l. trim l \<noteq> []) (split_lines [] (csv_print header rows)) = ?ls"
    by (simp add: filter_id_conv)
  have head: "map (\<lambda>h. toLowerCase (trim h)) (parseCsvLine (csv_line header)) = header"
    using assms(1,3) by (simp add: parse_line map_idI)
  have "csv_row header (parseCsvLine (csv_line r)) = map_of (zip header r)" if "r \<in> set rows" for r
    using ne [of r] that assms(2,4) by (simp add: parse_line csv_row_zip)
  then show ?thesis unfolding parseCsv_def ls Let_def by (simp add: head)
qed

theorem csv_roundtrip_witness:
  "parseCsv (csv_print [''item_id'', ''barcode''] [[''a,b'', [CHR 0x22]]]) =
     [[''item_id'' \<mapsto> ''a,b'', ''barcode'' \<mapsto> [CHR 0x22]]]"
proof -
  have "trim ''item_id'' = ''item_id''" "trim ''barcode'' = ''barcode''" "trim ''a,b'' = ''a,b''"
    "trim [CHR 0x22] = [CHR 0x22]" "toLowerCase ''item_id'' = ''item_id''" "toLowerCase ''barcode'' = ''barcode''"
    by code_simp+
  then show ?thesis
    using csv_roundtrip [of "[''item_id'', ''barcode'']" "[[''a,b'', [CHR 0x22]]]"] by (auto simp: fun_upd_twist)
qed

theorem ean13_detects_witness: "\<not> valid_ean13 ''4006381333932''"
proof -
  have "valid_ean13 ''4006381333931''" by code_simp
  note ean13_detects [OF this, THEN conjunct1, rule_format, of 12 "CHR ''2''"]
  then show ?thesis by auto
qed

end
