(* ===== verification/Barcodes.thy ===== *)
theory Barcodes
  imports ItemCodes InvoicesRepo
begin

text \<open>
  \<^verbatim>\<open>ItemBarcodesService\<close> and its repository (\<^verbatim>\<open>modules/items\<close>), with the table of migration 098, the
  sequence of migration 101 and the import of CSV files.  Long dashes in messages are written as
  hyphens.
\<close>

section \<open>Tables\<close>

record new_barcode =
  nb_item :: string
  nb_variant :: "string option"
  nb_code :: string
  nb_type :: "string option"
  nb_primary :: "bool option"

record barcode_row =
  bc_id :: string
  bc_tenant :: string
  bc_item :: string
  bc_variant :: "string option"
  bc_code :: string
  bc_type :: string
  bc_primary :: bool
  bc_deleted :: bool

text \<open>The sequence of a tenant is the number it hands out next.\<close>

record store = pos +
  barcodes :: "barcode_row list"
  barcode_seq :: "string \<Rightarrow> nat"

definition barcode_types :: "string list" where
  "barcode_types = [''UPC'', ''EAN'', ''GS1'', ''QR'']"

definition barcode_check :: "barcode_row list \<Rightarrow> barcode_row \<Rightarrow> db_error option" where
  "barcode_check rs r =
     (if bc_type r \<notin> set barcode_types then Some check_violation
      else if \<exists>p\<in>set rs. bc_tenant p = bc_tenant r \<and> bc_code p = bc_code r then Some unique_violation
      else None)"

section \<open>ItemBarcodesRepository\<close>

definition live_barcode :: "string \<Rightarrow> barcode_row \<Rightarrow> bool" where
  "live_barcode tenantId b = (\<not> bc_deleted b \<and> scoped (Some tenantId) (bc_tenant b))"

definition barcodes_findById :: "string \<Rightarrow> string \<Rightarrow> ('w store_scheme, barcode_row option) io" where
  "barcodes_findById i tenantId = orThrow (query (\<lambda>w. maybeSingle
     (filter (\<lambda>b. live_barcode tenantId b \<and> bc_id b = i) (barcodes w))))"

definition lookupByBarcode :: "string \<Rightarrow> string \<Rightarrow> ('w store_scheme, barcode_row option) io" where
  "lookupByBarcode c tenantId = orThrow (query (\<lambda>w. maybeSingle
     (filter (\<lambda>b. live_barcode tenantId b \<and> bc_code b = c) (barcodes w))))"

definition barcodes_create :: "string \<Rightarrow> new_barcode \<Rightarrow> ('w store_scheme, barcode_row) io" where
  "barcodes_create tenantId p = statement (\<lambda>w.
     let row = \<lparr>bc_id = fresh_id w, bc_tenant = tenantId, bc_item = nb_item p, bc_variant = nb_variant p,
       bc_code = nb_code p, bc_type = nullish (nb_type p) ''UPC'', bc_primary = nullish (nb_primary p) False,
       bc_deleted = False\<rparr>
     in case barcode_check (barcodes w) row of
          Some e \<Rightarrow> (Inl e, w)
        | None \<Rightarrow> (Inr row, w\<lparr>barcodes := barcodes w @ [row]\<rparr>))"

text \<open>A partial update: an outer \<open>None\<close> leaves the column, an inner one sets it to null.\<close>

record update_barcode =
  ub_variant :: "string option option"
  ub_code :: "string option"
  ub_type :: "string option"
  ub_primary :: "bool option"

definition barcode_patch :: "update_barcode \<Rightarrow> barcode_row \<Rightarrow> barcode_row" where
  "barcode_patch p b = b\<lparr>bc_variant := nullish (ub_variant p) (bc_variant b), bc_code := nullish (ub_code p) (bc_code b),
     bc_type := nullish (ub_type p) (bc_type b), bc_primary := nullish (ub_primary p) (bc_primary b)\<rparr>"

definition barcodes_patch :: "string \<Rightarrow> string \<Rightarrow> update_barcode \<Rightarrow> ('w store_scheme, barcode_row) io" where
  "barcodes_patch i tenantId p = statement (\<lambda>w.
     let hit = (\<lambda>b. bc_id b = i \<and> bc_tenant b = tenantId)
     in case single (filter hit (barcodes w)) of
          Inl e \<Rightarrow> (Inl e, w)
        | Inr b \<Rightarrow> (case barcode_check (filter (\<lambda>b. \<not> hit b) (barcodes w)) (barcode_patch p b) of
             Some e \<Rightarrow> (Inl e, w)
           | None \<Rightarrow> (Inr (barcode_patch p b),
               w\<lparr>barcodes := update_where hit (barcode_patch p) (barcodes w)\<rparr>)))"

definition barcodes_delete :: "string \<Rightarrow> string \<Rightarrow> ('w store_scheme, unit) io" where
  "barcodes_delete i tenantId = statement (\<lambda>w. (Inr (),
     w\<lparr>barcodes := filter (\<lambda>b. \<not> (bc_id b = i \<and> bc_tenant b = tenantId)) (barcodes w)\<rparr>))"

definition nextSequence :: "string \<Rightarrow> ('w store_scheme, nat) io" where
  "nextSequence tenantId = statement (\<lambda>w. (Inr (barcode_seq w tenantId),
     w\<lparr>barcode_seq := (barcode_seq w)(tenantId := barcode_seq w tenantId + 1)\<rparr>))"

text \<open>\<^verbatim>\<open>variantId ? eq(variantId) : is(null)\<close>.\<close>

definition of_variant :: "string option \<Rightarrow> barcode_row \<Rightarrow> bool" where
  "of_variant v b = (if truthy v then bc_variant b = v else bc_variant b = None)"

definition hasPrimaryForItem :: "string \<Rightarrow> string \<Rightarrow> string option \<Rightarrow> ('w store_scheme, bool) io" where
  "hasPrimaryForItem tenantId itemId variantId = orThrow (query (\<lambda>w. Inr (filter (\<lambda>b. bc_tenant b = tenantId \<and>
     bc_item b = itemId \<and> bc_primary b \<and> \<not> bc_deleted b \<and> of_variant variantId b) (barcodes w) \<noteq> [])))"

definition clearPrimaryForItem ::
  "string \<Rightarrow> string \<Rightarrow> string option \<Rightarrow> string option \<Rightarrow> ('w store_scheme, unit) io" where
  "clearPrimaryForItem tenantId itemId variantId exceptId = statement (\<lambda>w. (Inr (),
     w\<lparr>barcodes := update_where (\<lambda>b. bc_tenant b = tenantId \<and> bc_item b = itemId \<and> bc_primary b \<and>
        of_variant variantId b \<and> (truthy exceptId \<longrightarrow> Some (bc_id b) \<noteq> exceptId))
        (\<lambda>b. b\<lparr>bc_primary := False\<rparr>) (barcodes w)\<rparr>))"

section \<open>The reads of ItemsRepository\<close>

definition items_findById :: "string \<Rightarrow> string \<Rightarrow> ('w store_scheme, item_row option) io" where
  "items_findById i tenantId = orThrow (query (\<lambda>w. maybeSingle
     (filter (\<lambda>t. \<not> it_deleted t \<and> scoped (Some tenantId) (it_tenant t) \<and> it_id t = i) (catalog_items w))))"

definition findVariants :: "string \<Rightarrow> string \<Rightarrow> ('w store_scheme, variant_row list) io" where
  "findVariants itemId tenantId = orThrow (query (\<lambda>w. Inr
     (filter (\<lambda>v. va_item v = itemId \<and> va_tenant v = tenantId \<and> va_active v) (item_variants w))))"

section \<open>ItemBarcodesService\<close>

definition barcode_findById :: "string \<Rightarrow> string \<Rightarrow> ('w store_scheme, barcode_row) io" where
  "barcode_findById i tenantId = bindE (barcodes_findById i tenantId) (\<lambda>found. case found of
     None \<Rightarrow> throw (not_found ''Barcode not found'') | Some b \<Rightarrow> ret b)"

definition barcode_lookup :: "string \<Rightarrow> string \<Rightarrow> ('w store_scheme, barcode_row) io" where
  "barcode_lookup c tenantId = bindE (lookupByBarcode c tenantId) (\<lambda>found. case found of
     None \<Rightarrow> throw (not_found ''No item is linked to this barcode'') | Some b \<Rightarrow> ret b)"

definition assert_variant :: "string \<Rightarrow> string \<Rightarrow> string \<Rightarrow> ('w store_scheme, unit) io" where
  "assert_variant itemId tenantId variantId = bindE (findVariants itemId tenantId) (\<lambda>variants.
     require (\<exists>v\<in>set variants. va_id v = variantId) (not_found ''Variant not found for this item''))"

definition taken_as_conflict :: "exn \<Rightarrow> ('w store_scheme, 'a) io" where
  "taken_as_conflict e = throw (if isUniqueViolation e
     then Http Conflict ''This barcode is already assigned to another item'' [] else e)"

definition barcode_create :: "string \<Rightarrow> new_barcode \<Rightarrow> ('w store_scheme, barcode_row) io" where
  "barcode_create tenantId dto =
     bindE (items_findById (nb_item dto) tenantId) (\<lambda>item.
     bindE (require (item \<noteq> None) (not_found ''Item not found'')) (\<lambda>_.
     bindE (whenE (truthy (nb_variant dto)) (assert_variant (nb_item dto) tenantId (the (nb_variant dto)))) (\<lambda>_.
     bindE (whenE (nb_primary dto = Some True) (clearPrimaryForItem tenantId (nb_item dto) (nb_variant dto) None)) (\<lambda>_.
     catchE (barcodes_create tenantId dto) taken_as_conflict))))"

definition barcode_update :: "string \<Rightarrow> string \<Rightarrow> update_barcode \<Rightarrow> ('w store_scheme, barcode_row) io" where
  "barcode_update i tenantId dto =
     bindE (barcode_findById i tenantId) (\<lambda>existing.
     bindE (case ub_variant dto of Some (Some v) \<Rightarrow> assert_variant (bc_item existing) tenantId v | _ \<Rightarrow> ret ()) (\<lambda>_.
     bindE (whenE (ub_primary dto = Some True) (clearPrimaryForItem tenantId (bc_item existing)
       (nullish (ub_variant dto) (bc_variant existing)) (Some i))) (\<lambda>_.
     catchE (barcodes_patch i tenantId dto) taken_as_conflict)))"

definition barcode_remove :: "string \<Rightarrow> string \<Rightarrow> ('w store_scheme, unit) io" where
  "barcode_remove i tenantId = bindE (barcode_findById i tenantId) (\<lambda>_. barcodes_delete i tenantId)"

subsection \<open>Generated barcodes\<close>

definition MAX_GENERATE_ATTEMPTS :: nat where
  "MAX_GENERATE_ATTEMPTS = 5"

text \<open>The loop with the attempts that are left.\<close>

primrec generate_loop ::
  "nat \<Rightarrow> string \<Rightarrow> string \<Rightarrow> string option \<Rightarrow> bool \<Rightarrow> ('w store_scheme, barcode_row) io" where
  "generate_loop 0 tenantId itemId variantId alreadyHasPrimary = throw (Err
     (''Failed to generate a unique barcode for item '' @ itemId @ '' after '' @
      nat_str MAX_GENERATE_ATTEMPTS @ '' attempts''))"
| "generate_loop (Suc left) tenantId itemId variantId alreadyHasPrimary =
     bindE (nextSequence tenantId) (\<lambda>seq.
     bindE (lift (generateEan13ForTenant tenantId seq)) (\<lambda>barcode.
     catchE (barcodes_create tenantId \<lparr>nb_item = itemId, nb_variant = variantId, nb_code = barcode,
         nb_type = Some ''EAN'', nb_primary = Some (\<not> alreadyHasPrimary)\<rparr>)
       (\<lambda>e. if isUniqueViolation e then generate_loop left tenantId itemId variantId alreadyHasPrimary else throw e)))"

definition generateForItem :: "string \<Rightarrow> string \<Rightarrow> string option \<Rightarrow> ('w store_scheme, barcode_row) io" where
  "generateForItem tenantId itemId variantId =
     bindE (hasPrimaryForItem tenantId itemId variantId) (\<lambda>alreadyHasPrimary.
     generate_loop MAX_GENERATE_ATTEMPTS tenantId itemId variantId alreadyHasPrimary)"

subsection \<open>The import\<close>

record import_result =
  ir_row :: nat
  ir_status :: string
  ir_barcode :: "string option"
  ir_message :: "string option"

definition import_row :: "string \<Rightarrow> nat \<Rightarrow> (string \<rightharpoonup> string) \<Rightarrow> ('w store_scheme, import_result) io" where
  "import_row tenantId rowNum row =
     (if \<not> truthy (row ''item_id'') \<or> \<not> truthy (row ''barcode'')
      then ret \<lparr>ir_row = rowNum, ir_status = ''error'', ir_barcode = None,
        ir_message = Some ''Missing required column: item_id and barcode are both required''\<rparr>
      else
        let itemId = the (row ''item_id''); barcode = the (row ''barcode'');
            barcodeType = map_option toUpperCase (row ''barcode_type'')
        in if truthy barcodeType \<and> the barcodeType \<notin> set barcode_types
        then ret \<lparr>ir_row = rowNum, ir_status = ''error'', ir_barcode = None, ir_message = Some
          (''Invalid barcode_type \"'' @ the (row ''barcode_type'') @ ''\" - must be one of '' @ join '', '' barcode_types)\<rparr>
        else catchE
          (bindE (barcode_create tenantId \<lparr>nb_item = itemId,
              nb_variant = (if truthy (row ''variant_id'') then row ''variant_id'' else None), nb_code = barcode,
              nb_type = (if truthy barcodeType then barcodeType else None),
              nb_primary = Some (map_option toLowerCase (row ''is_primary'') = Some ''true'')\<rparr>) (\<lambda>b.
           ret \<lparr>ir_row = rowNum, ir_status = ''created'', ir_barcode = Some (bc_code b), ir_message = None\<rparr>))
          (\<lambda>e. ret \<lparr>ir_row = rowNum, ir_status = ''error'', ir_barcode = Some barcode,
             ir_message = Some (exn_message e)\<rparr>))"

definition importFromCsv :: "string \<Rightarrow> string \<Rightarrow> ('w store_scheme, import_result list \<times> nat \<times> nat) io" where
  "importFromCsv tenantId fileContent =
     bindE (foldE (enumerate 0 (parseCsv fileContent)) [] (\<lambda>results (i, row).
       bindE (import_row tenantId (i + 2) row) (\<lambda>r. ret (results @ [r])))) (\<lambda>results.
     ret (results, length (filter (\<lambda>r. ir_status r = ''created'') results),
       length (filter (\<lambda>r. ir_status r = ''error'') results)))"

section \<open>Every generated barcode is free, and found within five attempts\<close>

definition free_code :: "'w store_scheme \<Rightarrow> string \<Rightarrow> nat \<Rightarrow> bool" where
  "free_code w t n \<longleftrightarrow> (\<forall>b\<in>set (barcodes w). bc_tenant b = t \<longrightarrow> Inr (bc_code b) \<noteq> generateEan13ForTenant t n)"

text \<open>One attempt: the sequence advances; the insertion succeeds exactly if the code is free.\<close>

lemma generate_attempt:
  fixes w :: "'w store_scheme"
  assumes "\<forall>n. fault w n = None" "generateEan13ForTenant t (barcode_seq w t) = Inr c"
  shows "free_code w t (barcode_seq w t) \<Longrightarrow>
      \<exists>row w'. generate_loop (Suc left) t i v p w = (Inr row, w') \<and> bc_code row = c \<and> bc_primary row = (\<not> p) \<and>
        barcodes w' = barcodes w @ [row] \<and> barcode_seq w' t = barcode_seq w t + 1"
    and "\<not> free_code w t (barcode_seq w t) \<Longrightarrow>
      \<exists>w'. generate_loop (Suc left) t i v p w = generate_loop left t i v p w' \<and> barcodes w' = barcodes w \<and>
        fault w' = fault w \<and> barcode_seq w' t = barcode_seq w t + 1"
proof -
  have f: "fault w n = None" for n using assms(1) by blast
  show "\<exists>row w'. generate_loop (Suc left) t i v p w = (Inr row, w') \<and> bc_code row = c \<and> bc_primary row = (\<not> p) \<and>
        barcodes w' = barcodes w @ [row] \<and> barcode_seq w' t = barcode_seq w t + 1"
    if "free_code w t (barcode_seq w t)"
  proof -
    have "barcode_check (barcodes w) r = None" if "bc_tenant r = t" "bc_code r = c" "bc_type r = ''EAN''" for r
      using \<open>free_code w t (barcode_seq w t)\<close> that by (auto simp: free_code_def assms(2) barcode_check_def barcode_types_def)
    then show ?thesis
      by (simp add: nextSequence_def barcodes_create_def statement_def orThrow_def exec_def io_defs Let_def f assms(2))
  qed
  show "\<exists>w'. generate_loop (Suc left) t i v p w = generate_loop left t i v p w' \<and> barcodes w' = barcodes w \<and>
        fault w' = fault w \<and> barcode_seq w' t = barcode_seq w t + 1"
    if "\<not> free_code w t (barcode_seq w t)"
  proof -
    have "barcode_check (barcodes w) r = Some unique_violation" if "bc_tenant r = t" "bc_code r = c" "bc_type r = ''EAN''" for r
      using \<open>\<not> free_code w t (barcode_seq w t)\<close> that
      by (auto simp: free_code_def assms(2) barcode_check_def barcode_types_def)
    then show ?thesis
      by (intro exI [of _ "w\<lparr>barcode_seq := (barcode_seq w)(t := barcode_seq w t + 1), calls := Suc (Suc (calls w))\<rparr>"])
         (simp add: nextSequence_def barcodes_create_def statement_def orThrow_def exec_def io_defs Let_def f assms(2) isUniqueViolation_def unique_violation_def)
  qed
qed

lemma generate_loop_finds:
  fixes w :: "'w store_scheme"
  assumes "\<forall>n. fault w n = None" "k < left" "free_code w t (barcode_seq w t + k)"
  shows "\<exists>j\<le>k. free_code w t (barcode_seq w t + j) \<and> (\<exists>row w'. generate_loop left t i v p w = (Inr row, w') \<and>
     generateEan13ForTenant t (barcode_seq w t + j) = Inr (bc_code row) \<and> bc_primary row = (\<not> p) \<and>
     barcodes w' = barcodes w @ [row] \<and> barcode_seq w' t = barcode_seq w t + j + 1)"
  using assms
proof (induction left arbitrary: w k)
  case (Suc left)
  obtain c where c: "generateEan13ForTenant t (barcode_seq w t) = Inr c" using ean13_valid by blast
  show ?case
  proof (cases "free_code w t (barcode_seq w t)")
    case True
    then show ?thesis
      using generate_attempt(1) [OF Suc.prems(1) c True, of left i v p] by (intro exI [of _ 0]) (auto simp: c)
  next
    case False
    then obtain w' where w': "generate_loop (Suc left) t i v p w = generate_loop left t i v p w'"
      "barcodes w' = barcodes w" "fault w' = fault w" "barcode_seq w' t = barcode_seq w t + 1"
      using generate_attempt(2) [OF Suc.prems(1) c] by blast
    have same: "free_code w' t n = free_code w t n" for n by (simp add: free_code_def w'(2))
    obtain k' where k: "k = Suc k'" using False Suc.prems(3) by (cases k) auto
    have "\<exists>j\<le>k'. free_code w' t (barcode_seq w' t + j) \<and> (\<exists>row u. generate_loop left t i v p w' = (Inr row, u) \<and>
       generateEan13ForTenant t (barcode_seq w' t + j) = Inr (bc_code row) \<and> bc_primary row = (\<not> p) \<and>
       barcodes u = barcodes w' @ [row] \<and> barcode_seq u t = barcode_seq w' t + j + 1)"
      using Suc.prems by (intro Suc.IH) (simp_all add: w'(3,4) same k)
    then obtain j where "j \<le> k'" "free_code w t (barcode_seq w t + Suc j)"
      "\<exists>row u. generate_loop (Suc left) t i v p w = (Inr row, u) \<and>
       generateEan13ForTenant t (barcode_seq w t + Suc j) = Inr (bc_code row) \<and> bc_primary row = (\<not> p) \<and>
       barcodes u = barcodes w @ [row] \<and> barcode_seq u t = barcode_seq w t + Suc j + 1"
      unfolding w'(1,2,4) same by auto
    then show ?thesis by (intro exI [of _ "Suc j"]) (auto simp: k)
  qed
qed simp

text \<open>C32. Generating a barcode succeeds whenever one of the next five codes is free.  If no call fails and
  one of the five sequence numbers ahead gives a code the tenant does not use, \<^verbatim>\<open>generateForItem\<close>
  returns, after at most that many attempts, and adds exactly one barcode, with a free code of one
  of these numbers, primary if and only if the item or variant had no primary barcode.\<close>

theorem generateForItem_succeeds:
  fixes w :: "'w store_scheme"
  assumes "\<forall>n. fault w n = None" "k < 5" "free_code w t (barcode_seq w t + k)"
  shows "\<exists>j\<le>k. free_code w t (barcode_seq w t + j) \<and> (\<exists>row w'. generateForItem t i v w = (Inr row, w') \<and>
     generateEan13ForTenant t (barcode_seq w t + j) = Inr (bc_code row) \<and>
     bc_primary row = (\<not> (\<exists>b\<in>set (barcodes w). bc_tenant b = t \<and> bc_item b = i \<and> bc_primary b \<and> \<not> bc_deleted b \<and>
       of_variant v b)) \<and>
     barcodes w' = barcodes w @ [row] \<and> barcode_seq w' t = barcode_seq w t + j + 1)"
proof -
  let ?w = "w\<lparr>calls := Suc (calls w)\<rparr>"
  let ?p = "\<exists>b\<in>set (barcodes w). bc_tenant b = t \<and> bc_item b = i \<and> bc_primary b \<and> \<not> bc_deleted b \<and> of_variant v b"
  have f: "fault w n = None" for n using assms(1) by blast
  have has: "(filter (\<lambda>b. bc_tenant b = t \<and> bc_item b = i \<and> bc_primary b \<and> \<not> bc_deleted b \<and> of_variant v b) (barcodes w) \<noteq> [])
      = ?p" by (auto simp: filter_empty_conv)
  have run: "generateForItem t i v w = generate_loop 5 t i v ?p ?w"
    by (simp add: generateForItem_def hasPrimaryForItem_def MAX_GENERATE_ATTEMPTS_def orThrow_def query_def exec_def
        io_defs f has del: filter_empty_conv)
  have "\<exists>j\<le>k. free_code ?w t (barcode_seq ?w t + j) \<and> (\<exists>row w'. generate_loop 5 t i v ?p ?w = (Inr row, w') \<and>
     generateEan13ForTenant t (barcode_seq ?w t + j) = Inr (bc_code row) \<and> bc_primary row = (\<not> ?p) \<and>
     barcodes w' = barcodes ?w @ [row] \<and> barcode_seq w' t = barcode_seq ?w t + j + 1)"
    using assms by (intro generate_loop_finds) (simp_all add: free_code_def)
  then show ?thesis unfolding run by (simp add: free_code_def)
qed

section \<open>Importing\<close>

lemma import_row_total:
  "wp (import_row t n row) (\<lambda>r _. ir_row r = n \<and> (ir_status r = ''created'' \<or> ir_status r = ''error'')) (\<lambda>_ _. False) w"
proof -
  have any: "wp m (\<lambda>x v. True) (\<lambda>e v. True) w" for m :: "('a store_scheme, 'b) io" and w
    by (simp add: wp_def split: prod.split sum.split)
  show ?thesis
    unfolding import_row_def Let_def
    by (auto simp: wp_rules intro!: wp_mono [OF any])
qed

lemma import_loop:
  "wp (foldE (enumerate k rows) rs (\<lambda>results (i, row). bindE (import_row t (i + 2) row) (\<lambda>r. ret (results @ [r]))))
     (\<lambda>res _. \<exists>new. res = rs @ new \<and> map ir_row new = [k + 2..<k + 2 + length rows] \<and>
        (\<forall>r\<in>set new. ir_status r = ''created'' \<or> ir_status r = ''error'')) (\<lambda>_ _. False) w"
proof (induction rows arbitrary: k rs w)
  case (Cons row rows)
  show ?case
    unfolding enumerate_simps foldE.simps prod.case
    apply (simp only: wp_bindE wp_ret)
    apply (rule wp_mono [OF import_row_total])
     apply (rule wp_mono [OF Cons.IH])
      apply (auto simp: upt_conv_Cons simp del: upt_Suc)
    done
qed (simp add: wp_rules)

text \<open>C33. Every row of an imported file is reported once, in order, and one bad row never stops the
  others.  Whatever calls fail, \<^verbatim>\<open>importFromCsv\<close> returns, with one result for each row of the file,
  numbered from 2 as in a spreadsheet, and the two counts together are the number of rows.\<close>

theorem import_reports_every_row:
  "\<exists>results created errors. fst (importFromCsv t content w) = Inr (results, created, errors) \<and>
     map ir_row results = [2..<2 + length (parseCsv content)] \<and> created + errors = length (parseCsv content)"
proof -
  let ?rows = "parseCsv content"
  have count: "length (filter (\<lambda>r. ir_status r = ''created'') rs) + length (filter (\<lambda>r. ir_status r = ''error'') rs) = length rs"
    if "\<forall>r\<in>set rs. ir_status r = ''created'' \<or> ir_status r = ''error''" for rs
    using that by (induction rs) auto
  have "wp (importFromCsv t content) (\<lambda>(rs, c, e) _. map ir_row rs = [2..<2 + length ?rows] \<and> c + e = length ?rows) (\<lambda>_ _. False) w"
    unfolding importFromCsv_def wp_bindE
  proof (rule wp_mono [OF import_loop [where k = 0]])
    fix res and v :: "'a store_scheme"
    assume "\<exists>new. res = [] @ new \<and> map ir_row new = [0 + 2..<0 + 2 + length ?rows] \<and>
      (\<forall>r\<in>set new. ir_status r = ''created'' \<or> ir_status r = ''error'')"
    then have rows: "map ir_row res = [2..<2 + length ?rows]" and st: "\<forall>r\<in>set res. ir_status r = ''created'' \<or> ir_status r = ''error''"
      by (simp_all only: append_Nil add_0) auto
    have "length res = length ?rows" using arg_cong [OF rows, of length] by (simp del: upt_Suc)
    then show "wp (ret (res, length (filter (\<lambda>r. ir_status r = ''created'') res), length (filter (\<lambda>r. ir_status r = ''error'') res)))
        (\<lambda>(rs, c, e) _. map ir_row rs = [2..<2 + length ?rows] \<and> c + e = length ?rows) (\<lambda>_ _. False) v"
      using rows count [OF st] by (simp only: wp_ret prod.case simp_thms)
  qed
  then show ?thesis by (auto simp: wp_def split: prod.splits sum.splits)
qed

section \<open>The primary barcode\<close>

text \<open>C34. A duplicate barcode takes the primary flag from the barcodes of its item.  The flag of the old
  primary barcode is cleared before the insertion, in a call of its own; if the new barcode is
  already in use in the tenant, \<^verbatim>\<open>create\<close> answers with a conflict, and the item is left without
  any primary barcode.\<close>

theorem primary_lost_on_conflict:
  fixes w :: "'w store_scheme"
  assumes "\<forall>n. fault w n = None" "nb_primary dto = Some True" "nb_variant dto = None"
    and "filter (\<lambda>i. \<not> it_deleted i \<and> scoped (Some t) (it_tenant i) \<and> it_id i = nb_item dto) (catalog_items w) = [it]"
    and "nullish (nb_type dto) ''UPC'' \<in> set barcode_types"
    and "b \<in> set (barcodes w)" "bc_tenant b = t" "bc_code b = nb_code dto"
  shows "\<exists>w'. barcode_create t dto w =
      (Inl (Http Conflict ''This barcode is already assigned to another item'' []), w') \<and>
    (\<forall>r\<in>set (barcodes w'). bc_tenant r = t \<and> bc_item r = nb_item dto \<and> bc_variant r = None \<longrightarrow> \<not> bc_primary r)"
proof -
  have f: "fault w n = None" for n using assms(1) by blast
  let ?hit = "\<lambda>r. bc_tenant r = t \<and> bc_item r = nb_item dto \<and> bc_primary r \<and> bc_variant r = None"
  let ?bs = "update_where ?hit (\<lambda>r. r\<lparr>bc_primary := False\<rparr>) (barcodes w)"
  have "\<exists>r\<in>set ?bs. bc_tenant r = t \<and> bc_code r = nb_code dto"
  proof (cases "?hit b")
    case True
    then have "b\<lparr>bc_primary := False\<rparr> \<in> set ?bs" using assms(6) by (auto simp: set_update_where)
    then show ?thesis using assms(7,8) by (intro bexI) simp_all
  next
    case False
    then have "b \<in> set ?bs" using assms(6) by (auto simp: set_update_where)
    then show ?thesis using assms(7,8) by blast
  qed
  then have taken: "barcode_check ?bs r = Some unique_violation"
    if "bc_tenant r = t" "bc_code r = nb_code dto" "bc_type r \<in> set barcode_types" for r
    using that by (auto simp: barcode_check_def)
  let ?w = "w\<lparr>barcodes := ?bs, calls := Suc (Suc (Suc (calls w)))\<rparr>"
  have run: "barcode_create t dto w = (Inl (Http Conflict ''This barcode is already assigned to another item'' []), ?w)"
    by (simp add: barcode_create_def items_findById_def clearPrimaryForItem_def barcodes_create_def taken
        taken_as_conflict_def of_variant_def run_defs f assms(2-5) isUniqueViolation_def unique_violation_def)
  have bs: "barcodes ?w = ?bs" by simp
  have cleared: "\<forall>r\<in>set ?bs. bc_tenant r = t \<and> bc_item r = nb_item dto \<and> bc_variant r = None \<longrightarrow> \<not> bc_primary r"
    unfolding set_update_where by (intro ballI, elim imageE) (auto split: if_splits)
  show ?thesis by (rule exI [of _ ?w], rule conjI, rule run, subst bs, rule cleared)
qed

definition demo_store :: store where
  "demo_store = pos.extend demo_pos \<lparr>barcodes = [\<lparr>bc_id = ''b1'', bc_tenant = ''t'', bc_item = ''i'', bc_variant = None,
       bc_code = ''123'', bc_type = ''EAN'', bc_primary = True, bc_deleted = False\<rparr>],
     barcode_seq = (\<lambda>_. 1)\<rparr>"

lemmas demo_store_defs = demo_store_def demo_pos_def demo_shop_def catalog.defs pos.defs

theorem generateForItem_succeeds_witness:
  "\<exists>row w'. generateForItem ''t'' ''i'' None demo_store = (Inr row, w') \<and> \<not> bc_primary row \<and>
     barcodes w' = barcodes demo_store @ [row]"
proof -
  obtain c where c: "generateEan13ForTenant ''t'' 1 = Inr c" "valid_ean13 c" using ean13_valid by blast
  have "c \<noteq> ''123''" using c(2) by (auto simp: valid_ean13_def)
  then have "free_code demo_store ''t'' (barcode_seq demo_store ''t'' + 0)" 
    by (auto simp: free_code_def demo_store_defs c(1) simp del: One_nat_def)
  moreover have "\<forall>n. fault demo_store n = None" by (simp add: demo_store_defs)
  ultimately show ?thesis
    using generateForItem_succeeds [of demo_store 0 "''t''" "''i''" None] by (auto simp: demo_store_defs of_variant_def)
qed

theorem primary_lost_on_conflict_witness:
  "\<exists>w'. barcode_create ''t'' \<lparr>nb_item = ''i'', nb_variant = None, nb_code = ''123'', nb_type = None, nb_primary = Some True\<rparr>
      demo_store = (Inl (Http Conflict ''This barcode is already assigned to another item'' []), w') \<and>
    (\<forall>r\<in>set (barcodes w'). bc_tenant r = ''t'' \<and> bc_item r = ''i'' \<and> bc_variant r = None \<longrightarrow> \<not> bc_primary r)"
  using primary_lost_on_conflict [of demo_store "\<lparr>nb_item = ''i'', nb_variant = None, nb_code = ''123'', nb_type = None,
      nb_primary = Some True\<rparr>" "''t''" "hd (catalog_items demo_store)" "hd (barcodes demo_store)"]
  by (simp add: demo_store_defs scoped_def barcode_types_def)

end
