(* ===== verification/ScanAdapters.thy ===== *)
theory ScanAdapters
  imports ItemCodes
begin

text \<open>
  The adapters of scanning devices (\<^verbatim>\<open>modules/scanner/adapters\<close>): the lifecycle of \<^verbatim>\<open>BaseAdapter\<close> and
  the framing rules of the seven device types.  The transport belongs to the client: what its
  \<^verbatim>\<open>open\<close> and \<^verbatim>\<open>close\<close> do is an argument, \<open>None\<close> for success or the message of the error they throw.
  The handlers of \<^verbatim>\<open>onScan\<close> are the client's; a chunk gives the event that they receive.
\<close>

section \<open>Types\<close>

datatype device_type = UsbHid | Bluetooth | Camera | Zebra | Honeywell | Sunmi | Rfid

datatype adapter_state = Registered | Initialized | Connected | Streaming | Errored | Disconnected

datatype capability = Barcode1d | Barcode2d | RfidTags | CameraScan | BluetoothLink

datatype scan_type = BarcodeScan | RfidScan | ManualScan

datatype adapter_error_code =
  ConnectionFailed | NotConnected | ParseError | UnsupportedInput | DeviceTimeout | InvalidStateTransition

record adapter_error =
  ae_code :: adapter_error_code
  ae_message :: string
  ae_recoverable :: bool

record device_event =
  de_raw :: string
  de_type :: scan_type
  de_source :: string
  de_at :: int
  de_metadata :: "(string \<times> string) list"

text \<open>An adapter: its class, its state and the symbology of the last scan (Zebra and Honeywell).\<close>

record adapter =
  ad_device :: device_type
  ad_state :: adapter_state
  ad_symbology :: "string option"

fun device_name :: "device_type \<Rightarrow> string" where
  "device_name UsbHid = ''usb_hid''"
| "device_name Bluetooth = ''bluetooth''"
| "device_name Camera = ''camera''"
| "device_name Zebra = ''zebra''"
| "device_name Honeywell = ''honeywell''"
| "device_name Sunmi = ''sunmi''"
| "device_name Rfid = ''rfid''"

fun state_name :: "adapter_state \<Rightarrow> string" where
  "state_name Registered = ''registered''"
| "state_name Initialized = ''initialized''"
| "state_name Connected = ''connected''"
| "state_name Streaming = ''streaming''"
| "state_name Errored = ''error''"
| "state_name Disconnected = ''disconnected''"

section \<open>The registry\<close>

record adapter_descriptor =
  dd_device :: device_type
  dd_label :: string
  dd_capabilities :: "capability list"

fun getAdapterDescriptor :: "device_type \<Rightarrow> adapter_descriptor" where
  "getAdapterDescriptor UsbHid = \<lparr>dd_device = UsbHid, dd_label = ''USB HID Scanner'', dd_capabilities = [Barcode1d, Barcode2d]\<rparr>"
| "getAdapterDescriptor Bluetooth =
     \<lparr>dd_device = Bluetooth, dd_label = ''Bluetooth Scanner'', dd_capabilities = [Barcode1d, Barcode2d, BluetoothLink]\<rparr>"
| "getAdapterDescriptor Camera =
     \<lparr>dd_device = Camera, dd_label = ''Camera Scanner'', dd_capabilities = [Barcode1d, Barcode2d, CameraScan]\<rparr>"
| "getAdapterDescriptor Zebra = \<lparr>dd_device = Zebra, dd_label = ''Zebra Scanner'', dd_capabilities = [Barcode1d, Barcode2d]\<rparr>"
| "getAdapterDescriptor Honeywell =
     \<lparr>dd_device = Honeywell, dd_label = ''Honeywell Scanner'', dd_capabilities = [Barcode1d, Barcode2d]\<rparr>"
| "getAdapterDescriptor Sunmi =
     \<lparr>dd_device = Sunmi, dd_label = ''Sunmi Built-in Scanner'', dd_capabilities = [Barcode1d, Barcode2d]\<rparr>"
| "getAdapterDescriptor Rfid = \<lparr>dd_device = Rfid, dd_label = ''RFID Reader'', dd_capabilities = [RfidTags]\<rparr>"

text \<open>What the classes answer themselves.\<close>

fun capabilities :: "device_type \<Rightarrow> capability list" where
  "capabilities UsbHid = [Barcode1d, Barcode2d]"
| "capabilities Bluetooth = [Barcode1d, Barcode2d, BluetoothLink]"
| "capabilities Camera = [Barcode1d, Barcode2d, CameraScan]"
| "capabilities Zebra = [Barcode1d, Barcode2d]"
| "capabilities Honeywell = [Barcode1d, Barcode2d]"
| "capabilities Sunmi = [Barcode1d, Barcode2d]"
| "capabilities Rfid = [RfidTags]"

definition createAdapter :: "device_type \<Rightarrow> adapter" where
  "createAdapter d = \<lparr>ad_device = dd_device (getAdapterDescriptor d), ad_state = Initialized, ad_symbology = None\<rparr>"

section \<open>The lifecycle\<close>

fun VALID_TRANSITIONS :: "adapter_state \<Rightarrow> adapter_state list" where
  "VALID_TRANSITIONS Registered = [Initialized]"
| "VALID_TRANSITIONS Initialized = [Connected, Errored]"
| "VALID_TRANSITIONS Connected = [Streaming, Disconnected, Errored]"
| "VALID_TRANSITIONS Streaming = [Connected, Disconnected, Errored]"
| "VALID_TRANSITIONS Errored = [Initialized, Disconnected]"
| "VALID_TRANSITIONS Disconnected = [Initialized]"

definition transition :: "adapter_state \<Rightarrow> adapter \<Rightarrow> adapter_error + adapter" where
  "transition next_state a =
     (if next_state \<notin> set (VALID_TRANSITIONS (ad_state a))
      then Inl \<lparr>ae_code = InvalidStateTransition, ae_message = ''Cannot transition '' @ device_name (ad_device a) @
        '' adapter from \"'' @ state_name (ad_state a) @ ''\" to \"'' @ state_name next_state @ ''\"'', ae_recoverable = False\<rparr>
      else Inr (a\<lparr>ad_state := next_state\<rparr>))"

text \<open>An operation gives the error it throws, if any, and the adapter after it.\<close>

definition connect :: "string option \<Rightarrow> adapter \<Rightarrow> adapter_error option \<times> adapter" where
  "connect opened a =
     (let tried = (case opened of Some m \<Rightarrow> Inl m
        | None \<Rightarrow> (case transition Connected a of Inl e \<Rightarrow> Inl (ae_message e) | Inr b \<Rightarrow> Inr b))
      in case tried of
           Inr b \<Rightarrow> (None, b)
         | Inl m \<Rightarrow> (case transition Errored a of
             Inl e \<Rightarrow> (Some e, a)
           | Inr b \<Rightarrow> (Some \<lparr>ae_code = ConnectionFailed, ae_message = ''Failed to connect '' @ device_name (ad_device a) @
               '' adapter: '' @ m, ae_recoverable = True\<rparr>, b)))"

text \<open>An error of the transport's \<^verbatim>\<open>close\<close> is thrown as it is; it is written as a code of its own.\<close>

definition disconnect :: "string option \<Rightarrow> adapter \<Rightarrow> (string + adapter_error) option \<times> adapter" where
  "disconnect closing a = (case closing of
     Some m \<Rightarrow> (Some (Inl m), a)
   | None \<Rightarrow> (case transition Disconnected a of Inl e \<Rightarrow> (Some (Inr e), a) | Inr b \<Rightarrow> (None, b)))"

definition healthCheck :: "bool \<Rightarrow> adapter \<Rightarrow> bool \<times> adapter_state \<times> string option" where
  "healthCheck isOpen a =
     (let healthy = (isOpen \<and> (ad_state a = Connected \<or> ad_state a = Streaming))
      in (healthy, ad_state a, if healthy then None else Some (''transport.isOpen()='' @
        (if isOpen then ''true'' else ''false'') @ '', state='' @ state_name (ad_state a))))"

definition recover :: "string option \<Rightarrow> adapter \<Rightarrow> adapter_error option \<times> adapter" where
  "recover opened a =
     (if ad_state a \<noteq> Errored
      then (Some \<lparr>ae_code = InvalidStateTransition, ae_message = ''recover() is only valid from the error state'',
        ae_recoverable = False\<rparr>, a)
      else case transition Initialized a of Inl e \<Rightarrow> (Some e, a) | Inr b \<Rightarrow> connect opened b)"

section \<open>Framing\<close>

definition terminator :: "char \<Rightarrow> bool" where
  "terminator c = (c = CHR 0x0D \<or> c = CHR 0x0A \<or> c = CHR 0x09)"

definition strip_terminators :: "string \<Rightarrow> string" where
  "strip_terminators raw = rev (dropWhile terminator (rev raw))"

definition bluetooth_parse :: "string \<Rightarrow> string" where
  "bluetooth_parse raw =
     (let v1 = trim (strip_terminators raw);
          v2 = (if v1 \<noteq> [] \<and> hd v1 = CHR 0x02 then tl v1 else v1);
          v3 = (if v2 \<noteq> [] \<and> last v2 = CHR 0x03 then butlast v2 else v2)
      in trim v3)"

definition hex_digit :: "char \<Rightarrow> bool" where
  "hex_digit c = (let n = of_char c :: nat in 48 \<le> n \<and> n \<le> 57 \<or> 65 \<le> n \<and> n \<le> 70 \<or> 97 \<le> n \<and> n \<le> 102)"

text \<open>\<^verbatim>\<open>/[0-9A-Fa-f]{8,}/\<close> matches at the first place where a run of eight starts, and is greedy.\<close>

fun hex_run :: "string \<Rightarrow> string option" where
  "hex_run [] = None"
| "hex_run (c # cs) =
     (let run = takeWhile hex_digit (c # cs) in if 8 \<le> length run then Some run else hex_run cs)"

text \<open>\<open>None\<close> is the error that \<^verbatim>\<open>RfidAdapter\<close> throws.\<close>

definition parseInput :: "string \<Rightarrow> adapter \<Rightarrow> string option \<times> adapter" where
  "parseInput raw a = (case ad_device a of
     UsbHid \<Rightarrow> (Some (trim (strip_terminators raw)), a)
   | Bluetooth \<Rightarrow> (Some (bluetooth_parse raw), a)
   | Camera \<Rightarrow> (Some (trim raw), a)
   | Sunmi \<Rightarrow> (Some (trim raw), a)
   | Rfid \<Rightarrow> (map_option toUpperCase (hex_run raw), a)
   | _ \<Rightarrow> (let (v, sym) = stripAimPrefix (trim (strip_terminators raw))
          in (Some (trim v), a\<lparr>ad_symbology := sym\<rparr>)))"

definition defaultScanType :: "adapter \<Rightarrow> scan_type" where
  "defaultScanType a = (if RfidTags \<in> set (capabilities (ad_device a)) then RfidScan else BarcodeScan)"

definition base_normalizeOutput ::
  "int \<Rightarrow> string \<Rightarrow> (string \<times> string) list \<Rightarrow> adapter \<Rightarrow> adapter_error + device_event" where
  "base_normalizeOutput t parsed meta a =
     (if parsed = []
      then Inl \<lparr>ae_code = ParseError, ae_message = ''Cannot normalize an empty parsed value'', ae_recoverable = False\<rparr>
      else Inr \<lparr>de_raw = parsed, de_type = defaultScanType a, de_source = device_name (ad_device a), de_at = t,
        de_metadata = meta\<rparr>)"

definition normalizeOutput :: "int \<Rightarrow> string \<Rightarrow> (string \<times> string) list \<Rightarrow> adapter \<Rightarrow> adapter_error + device_event" where
  "normalizeOutput t parsed meta a = (case ad_device a of
     Rfid \<Rightarrow> base_normalizeOutput t parsed (meta @ [(''epc'', parsed)]) a
   | Zebra \<Rightarrow> base_normalizeOutput t parsed (meta @ (if truthy (ad_symbology a)
       then [(''aim_symbology'', the (ad_symbology a))] else [])) a
   | Honeywell \<Rightarrow> base_normalizeOutput t parsed (meta @ (if truthy (ad_symbology a)
       then [(''aim_symbology'', the (ad_symbology a))] else [])) a
   | _ \<Rightarrow> base_normalizeOutput t parsed meta a)"

text \<open>A chunk from the transport: the event that is emitted, if any.\<close>

definition handleRawChunk :: "int \<Rightarrow> string \<Rightarrow> adapter \<Rightarrow> device_event option \<times> adapter" where
  "handleRawChunk t chunk a =
     (if ad_state a \<noteq> Connected \<and> ad_state a \<noteq> Streaming then (None, a) else
      let a1 = (if ad_state a = Connected then (case transition Streaming a of Inl e \<Rightarrow> a | Inr b \<Rightarrow> b) else a);
          (parsed, a2) = parseInput chunk a1;
          event = (case parsed of None \<Rightarrow> None
            | Some p \<Rightarrow> (case normalizeOutput t p [] a2 of Inl e \<Rightarrow> None | Inr ev \<Rightarrow> Some ev))
      in (event, if ad_state a2 = Streaming then (case transition Connected a2 of Inl e \<Rightarrow> a2 | Inr b \<Rightarrow> b) else a2))"

section \<open>Lemmas\<close>

lemma registry_agrees: "dd_capabilities (getAdapterDescriptor d) = capabilities d \<and> dd_device (getAdapterDescriptor d) = d"
  by (cases d) simp_all

text \<open>Everything a client can do with an adapter, and every chunk its transport delivers.\<close>

inductive adapter_step :: "adapter \<Rightarrow> adapter \<Rightarrow> bool" where
  connected: "connect opened a = (e, b) \<Longrightarrow> adapter_step a b"
| disconnected: "disconnect closing a = (x, b) \<Longrightarrow> adapter_step a b"
| recovered: "recover opened a = (e, b) \<Longrightarrow> adapter_step a b"
| chunk: "handleRawChunk t c a = (ev, b) \<Longrightarrow> adapter_step a b"
| parsed: "parseInput c a = (p, b) \<Longrightarrow> adapter_step a b"

inductive_cases adapter_stepE: "adapter_step a b"

lemma parseInput_keeps: "ad_state (snd (parseInput c a)) = ad_state a" "ad_device (snd (parseInput c a)) = ad_device a"
  by (cases "ad_device a"; simp add: parseInput_def Let_def split: prod.split)+

lemma handleRawChunk_keeps:
  "ad_state a \<noteq> Streaming \<Longrightarrow> ad_state (snd (handleRawChunk t c a)) = ad_state a"
  "ad_device (snd (handleRawChunk t c a)) = ad_device a"
  using parseInput_keeps [of c "a\<lparr>ad_state := Streaming\<rparr>"] parseInput_keeps [of c a]
  by (auto simp: handleRawChunk_def Let_def transition_def split: prod.splits)

lemma adapter_step_state:
  assumes "adapter_step a b" "ad_state a \<in> {Initialized, Connected, Errored, Disconnected}"
  shows "ad_state b \<in> {Initialized, Connected, Errored, Disconnected} \<and> ad_device b = ad_device a \<and>
    (ad_state a = Disconnected \<longrightarrow> ad_state b = Disconnected)"
  using assms(1)
proof (cases rule: adapter_step.cases)
  case (chunk t c ev)
  then show ?thesis using assms(2) handleRawChunk_keeps(1) [of a t c] handleRawChunk_keeps(2) [of t c a] by auto
next
  case (parsed c p)
  then show ?thesis using assms(2) parseInput_keeps [of c a] by simp
qed (use assms(2) in \<open>auto simp: connect_def disconnect_def recover_def transition_def split: option.splits sum.splits if_splits\<close>)

text \<open>C35. An adapter that was disconnected stays dead.  The table of transitions lets it go back to
  \<^verbatim>\<open>initialized\<close>, but no operation does so: after \<^verbatim>\<open>disconnect\<close>, whatever the client calls and the
  transport delivers, the adapter stays disconnected, every \<^verbatim>\<open>connect\<close> throws an error of state
  transition although the transport was opened, and no chunk becomes an event.\<close>

theorem disconnected_for_good:
  assumes "adapter_step\<^sup>*\<^sup>* a b" "ad_state a = Disconnected"
  shows "ad_state b = Disconnected \<and> (\<exists>e. connect opened b = (Some e, b) \<and> ae_code e = InvalidStateTransition) \<and>
    handleRawChunk t c b = (None, b)"
proof -
  have "ad_state b = Disconnected" using assms
    by (induction rule: rtranclp_induct) (auto dest: adapter_step_state)
  then show ?thesis
    by (cases opened) (auto simp: connect_def transition_def handleRawChunk_def)
qed

text \<open>C36. A bad scan never costs the connection.  From its creation on, an adapter is at rest in one of
  four states of its lifecycle and never stays \<^verbatim>\<open>streaming\<close>; a chunk changes neither the state nor
  the device; only a connected adapter emits, and what it emits is not empty and carries the name
  of its device.\<close>

theorem adapter_lifecycle:
  assumes "adapter_step\<^sup>*\<^sup>* (createAdapter d) a"
  shows "ad_device a = d \<and> ad_state a \<in> {Initialized, Connected, Errored, Disconnected} \<and>
    (\<forall>t c. ad_state (snd (handleRawChunk t c a)) = ad_state a \<and>
      (\<forall>ev. fst (handleRawChunk t c a) = Some ev \<longrightarrow>
        ad_state a = Connected \<and> de_raw ev \<noteq> [] \<and> de_source ev = device_name d \<and> de_at ev = t))"
proof -
  have a: "ad_device a = d \<and> ad_state a \<in> {Initialized, Connected, Errored, Disconnected}" using assms
    by (induction rule: rtranclp_induct) (auto simp: createAdapter_def registry_agrees dest: adapter_step_state)
  have "ad_state a = Connected \<and> de_raw ev \<noteq> [] \<and> de_source ev = device_name d \<and> de_at ev = t"
    if "fst (handleRawChunk t c a) = Some ev" for t c ev
  proof -
    have dev: "ad_device (snd (parseInput c (a\<lparr>ad_state := Streaming\<rparr>))) = d"
      using parseInput_keeps(2) [of c "a\<lparr>ad_state := Streaming\<rparr>"] a by simp
    have "de_raw ev \<noteq> [] \<and> de_source ev = device_name d \<and> de_at ev = t"
      if "normalizeOutput t p [] x = Inr ev" "ad_device x = d" for p x
      using that by (cases d) (auto simp: normalizeOutput_def base_normalizeOutput_def split: if_splits)
    then show ?thesis
      using that a dev by (auto simp: handleRawChunk_def Let_def transition_def split: if_splits prod.splits option.splits sum.splits)
  qed
  then show ?thesis using a handleRawChunk_keeps(1) by auto
qed

theorem disconnected_for_good_witness:
  "\<exists>e. connect None (snd (disconnect None (snd (connect None (createAdapter Zebra))))) =
     (Some e, snd (disconnect None (snd (connect None (createAdapter Zebra))))) \<and> ae_code e = InvalidStateTransition"
proof -
  have "ad_state (snd (disconnect None (snd (connect None (createAdapter Zebra))))) = Disconnected" by code_simp
  from disconnected_for_good [OF rtranclp.rtrancl_refl this] show ?thesis by blast
qed

theorem adapter_lifecycle_witness:
  "ad_state (snd (handleRawChunk 0 ''junk'' (snd (connect None (createAdapter Rfid))))) = Connected"
proof -
  have "adapter_step (createAdapter Rfid) (snd (connect None (createAdapter Rfid)))"
    by (rule adapter_step.connected, rule surjective_pairing)
  moreover have "ad_state (snd (connect None (createAdapter Rfid))) = Connected" by code_simp
  ultimately show ?thesis using adapter_lifecycle [OF r_into_rtranclp] by metis
qed

text \<open>The payload of an RFID tag is the first run of eight hexadecimal digits, not the longest.\<close>

lemma hex_run_first: "hex_run ''00000000-1111111111'' = Some ''00000000''"
  by code_simp

lemma hex_run_sound: "hex_run s = Some r \<Longrightarrow> 8 \<le> length r \<and> (\<forall>c\<in>set r. hex_digit c)"
  by (induction s) (auto simp: Let_def dest: set_takeWhileD split: if_splits)

end
