(* ===== verification/Calendar.thy ===== *)
theory Calendar
  imports Main
begin

text \<open>
  The part of JavaScript's \<^verbatim>\<open>Date\<close> that the code computes with, after the ECMAScript standard: a time
  is a number of milliseconds since 1970, a day a number of days since then, a month counts from 0.
  The process runs in UTC, so that local time is UTC.
\<close>

section \<open>Days, months and years\<close>

definition MS_PER_DAY :: int where
  "MS_PER_DAY = 86400000"

definition is_leap :: "int \<Rightarrow> bool" where
  "is_leap y = (y mod 4 = 0 \<and> (y mod 100 \<noteq> 0 \<or> y mod 400 = 0))"

definition month_days :: "int \<Rightarrow> int \<Rightarrow> int" where
  "month_days y m = (if m = 1 then (if is_leap y then 29 else 28) else if m \<in> {3, 5, 8, 10} then 30 else 31)"

definition year_start :: "int \<Rightarrow> int" where
  "year_start y = 365 * (y - 1970) + (y - 1969) div 4 - (y - 1901) div 100 + (y - 1601) div 400"

definition month_start :: "int \<Rightarrow> int \<Rightarrow> int" where
  "month_start y m = sum_list (map (month_days y) [0..m - 1])"

text \<open>\<^verbatim>\<open>MakeDay\<close>: months and days out of range carry over.\<close>

definition make_day :: "int \<Rightarrow> int \<Rightarrow> int \<Rightarrow> int" where
  "make_day y m d = year_start (y + m div 12) + month_start (y + m div 12) (m mod 12) + d - 1"

definition year_of :: "int \<Rightarrow> int" where
  "year_of day =
     (let y = 1970 + day * 400 div 146097
      in if day < year_start y then y - 1 else if day < year_start (y + 1) then y else y + 1)"

definition month_of :: "int \<Rightarrow> int" where
  "month_of day = (let y = year_of day
     in int (length (filter (\<lambda>m. month_start y m \<le> day - year_start y) [1..11])))"

definition date_of :: "int \<Rightarrow> int" where
  "date_of day = (let y = year_of day in day - year_start y - month_start y (month_of day) + 1)"

text \<open>Sunday is 0.\<close>

definition weekday :: "int \<Rightarrow> int" where
  "weekday day = (day + 4) mod 7"

section \<open>Dates\<close>

definition day_of :: "int \<Rightarrow> int" where
  "day_of t = t div MS_PER_DAY"

definition setDate :: "int \<Rightarrow> int \<Rightarrow> int" where
  "setDate n t = make_day (year_of (day_of t)) (month_of (day_of t)) n * MS_PER_DAY + t mod MS_PER_DAY"

definition setMonth :: "int \<Rightarrow> int \<Rightarrow> int" where
  "setMonth m t = make_day (year_of (day_of t)) m (date_of (day_of t)) * MS_PER_DAY + t mod MS_PER_DAY"

text \<open>\<^verbatim>\<open>setHours(0, 0, 0, 0)\<close>.\<close>

definition midnight :: "int \<Rightarrow> int" where
  "midnight t = day_of t * MS_PER_DAY"

section \<open>The calendar is right\<close>

lemma div_next: "0 < k \<Longrightarrow> (x + 1) div k = x div k + (if (x + 1) mod k = 0 then 1 else (0 :: int))"
proof (cases "x mod k = k - 1")
  case True
  assume k: "0 < k"
  have "x + 1 = k * (x div k + 1) + 0" using True mult_div_mod_eq [of k x] by (simp only: distrib_left mult_1_right)
  from int_div_pos_eq [OF this order_refl k] int_mod_pos_eq [OF this order_refl k] show ?thesis by simp
next
  case False
  assume k: "0 < k"
  have r: "0 \<le> x mod k + 1" "x mod k + 1 < k" "0 \<le> x mod k"
    using k False pos_mod_sign [of k x] pos_mod_bound [of k x] by linarith+
  have "x + 1 = k * (x div k) + (x mod k + 1)" by simp
  from int_div_pos_eq [OF this r(1,2)] int_mod_pos_eq [OF this r(1,2)] show ?thesis using r by simp
qed

lemma year_start_next: "year_start (y + 1) = year_start y + (if is_leap y then 366 else 365)"
proof -
  have e: "y + 1 - 1969 = y - 1969 + 1" "y + 1 - 1901 = y - 1901 + 1" "y + 1 - 1601 = y - 1601 + 1" by simp_all
  have "y - 1969 + 1 = y + - 492 * 4" "y - 1901 + 1 = y + - 19 * 100" "y - 1601 + 1 = y + - 4 * 400" by simp_all
  then have m: "(y - 1969 + 1) mod 4 = y mod 4" "(y - 1901 + 1) mod 100 = y mod 100" "(y - 1601 + 1) mod 400 = y mod 400"
    by (simp_all only: mod_mult_self1)
  have s: "y mod 400 = 0 \<Longrightarrow> y mod 100 = 0" "y mod 100 = 0 \<Longrightarrow> y mod 4 = 0"
    unfolding mod_eq_0_iff_dvd by (erule dvd_trans [rotated], simp)+
  have d: "(y - 1969 + 1) div 4 = (y - 1969) div 4 + (if y mod 4 = 0 then 1 else 0)"
    "(y - 1901 + 1) div 100 = (y - 1901) div 100 + (if y mod 100 = 0 then 1 else 0)"
    "(y - 1601 + 1) div 400 = (y - 1601) div 400 + (if y mod 400 = 0 then 1 else 0)"
    by (simp_all only: div_next zero_less_numeral m)
  define a b c where "a = (y - 1969) div 4" and "b = (y - 1901) div 100" and "c = (y - 1601) div 400"
  show ?thesis
    unfolding year_start_def e d is_leap_def a_def [symmetric] b_def [symmetric] c_def [symmetric] using s
    by (cases "y mod 4 = 0"; cases "y mod 100 = 0"; cases "y mod 400 = 0") simp_all
qed

lemma year_start_mono: "x \<le> y \<Longrightarrow> year_start x \<le> year_start y"
  by (induction rule: int_ge_induct) (auto simp: year_start_next)

lemma div_bounds: "0 < k \<Longrightarrow> k * (x div k) \<le> x" "0 < k \<Longrightarrow> x < k * (x div k) + (k :: int)"
  using mult_div_mod_eq [of k x] pos_mod_sign [of k x] pos_mod_bound [of k x] by linarith+

lemma year_start_approx:
  "146097 * y - 287812290 \<le> 400 * year_start y" "400 * year_start y \<le> 146097 * y - 287809890"
proof -
  define a b c where "a = (y - 1969) div 4" and "b = (y - 1901) div 100" and "c = (y - 1601) div 400"
  have "4 * a \<le> y - 1969" "y - 1969 < 4 * a + 4" "100 * b \<le> y - 1901" "y - 1901 < 100 * b + 100"
    "400 * c \<le> y - 1601" "y - 1601 < 400 * c + 400"
    unfolding a_def b_def c_def by (simp_all only: div_bounds zero_less_numeral)
  then show "146097 * y - 287812290 \<le> 400 * year_start y" "400 * year_start y \<le> 146097 * y - 287809890"
    by (simp_all add: year_start_def a_def [symmetric] b_def [symmetric] c_def [symmetric] right_diff_distrib distrib_left)
qed

lemma year_of_bounds: "year_start (year_of day) \<le> day" "day < year_start (year_of day + 1)"
proof -
  define y where "y = 1970 + day * 400 div 146097"
  have "146097 * (day * 400 div 146097) \<le> day * 400" "day * 400 < 146097 * (day * 400 div 146097) + 146097"
    using div_bounds [of 146097 "day * 400"] by simp_all
  then have y: "146097 * y - 287811090 \<le> 400 * day" "400 * day < 146097 * y - 287664993"
    by (simp_all add: y_def)
  have "400 * year_start (y - 1) \<le> 400 * day" using year_start_approx(2) [of "y - 1"] y by (simp add: algebra_simps)
  moreover have "400 * day < 400 * year_start (y + 2)" using year_start_approx(1) [of "y + 2"] y by (simp add: algebra_simps)
  ultimately have "year_start (y - 1) \<le> day" "day < year_start (2 + y)" by (simp_all add: add.commute)
  then show "year_start (year_of day) \<le> day" "day < year_start (year_of day + 1)"
    by (auto simp: year_of_def Let_def y_def [symmetric])
qed

lemma year_of_unique: "year_start y \<le> day \<Longrightarrow> day < year_start (y + 1) \<Longrightarrow> year_of day = y"
  using year_of_bounds [of day] year_start_mono [of "y + 1" "year_of day"] year_start_mono [of "year_of day + 1" y]
  by (cases "year_of day < y"; cases "y < year_of day") auto

lemma months: "{0..11} = {0, 1, 2, 3, 4, 5, 6, 7, 8, 9, 10, 11 :: int}"
  unfolding set_upto [symmetric] by (simp add: upto.simps del: set_upto)

lemma month_start_values:
  "month_start y 0 = 0" "month_start y 1 = 31" "month_start y 2 = 59 + (if is_leap y then 1 else 0)"
  "month_start y 3 = 90 + (if is_leap y then 1 else 0)" "month_start y 4 = 120 + (if is_leap y then 1 else 0)"
  "month_start y 5 = 151 + (if is_leap y then 1 else 0)" "month_start y 6 = 181 + (if is_leap y then 1 else 0)"
  "month_start y 7 = 212 + (if is_leap y then 1 else 0)" "month_start y 8 = 243 + (if is_leap y then 1 else 0)"
  "month_start y 9 = 273 + (if is_leap y then 1 else 0)" "month_start y 10 = 304 + (if is_leap y then 1 else 0)"
  "month_start y 11 = 334 + (if is_leap y then 1 else 0)" "month_start y 12 = 365 + (if is_leap y then 1 else 0)"
  by (simp_all add: month_start_def month_days_def upto.simps)

lemma month_start_next: "0 \<le> m \<Longrightarrow> month_start y (m + 1) = month_start y m + month_days y m"
  by (simp add: month_start_def upto_rec2)

lemma month_days_bounds: "28 \<le> month_days y m" "month_days y m \<le> 31"
  by (auto simp: month_days_def)

lemma month_start_mono: "k \<le> m \<Longrightarrow> 0 \<le> k \<Longrightarrow> month_start y k \<le> month_start y m"
proof (induction rule: int_ge_induct)
  case (step i)
  then show ?case using month_start_next [of i y] month_days_bounds(1) [of y i] by simp
qed simp

lemma month_of_unique:
  assumes "year_of day = y" "0 \<le> m" "m \<le> 11" "month_start y m \<le> day - year_start y" "day - year_start y < month_start y (m + 1)"
  shows "month_of day = m"
proof -
  have "month_start y k \<le> day - year_start y \<longleftrightarrow> k \<le> m" if "1 \<le> k" for k
    using assms month_start_mono [of k m y] month_start_mono [of "m + 1" k y] that by (cases "k \<le> m") auto
  then have "filter (\<lambda>k. month_start y k \<le> day - year_start y) [1..11] = filter (\<lambda>k. k \<le> m) [1..11]"
    by (intro filter_cong) auto
  also have "\<dots> = [1..m]"
  proof (cases "m = 0")
    case False
    then have "[1..11] = [1..m] @ [m + 1..11]" using assms by (intro upto_split2) auto
    then show ?thesis by simp
  qed simp
  finally show ?thesis using assms(2) by (simp add: month_of_def assms(1) Let_def)
qed

lemma month_of_bounds:
  "0 \<le> month_of day" "month_of day \<le> 11"
  "month_start (year_of day) (month_of day) \<le> day - year_start (year_of day)"
  "day - year_start (year_of day) < month_start (year_of day) (month_of day + 1)"
proof -
  define y r where "y = year_of day" and "r = day - year_start y"
  have r: "0 \<le> r" "r < month_start y 12" using year_of_bounds [of day] by (auto simp: y_def r_def year_start_next month_start_values)
  have "\<exists>m. 0 \<le> m \<and> m \<le> 11 \<and> month_start y m \<le> r \<and> r < month_start y (m + 1)"
  proof (rule ccontr)
    assume n: "\<not> ?thesis"
    have "month_start y m \<le> r" if "0 \<le> m" "m \<le> 12" for m
      using that
    proof (induction rule: int_ge_induct)
      case base show ?case using r by (simp add: month_start_values)
    next
      case (step i) then show ?case using n by force
    qed
    from this [of 12] r show False by simp
  qed
  then obtain m where m: "0 \<le> m" "m \<le> 11" "month_start y m \<le> r" "r < month_start y (m + 1)" by blast
  then have "month_of day = m" by (intro month_of_unique [of day y]) (simp_all add: y_def r_def)
  then show "0 \<le> month_of day" "month_of day \<le> 11"
    "month_start (year_of day) (month_of day) \<le> day - year_start (year_of day)"
    "day - year_start (year_of day) < month_start (year_of day) (month_of day + 1)"
    using m by (simp_all add: y_def r_def)
qed

lemma date_of_bounds: "1 \<le> date_of day" "date_of day \<le> month_days (year_of day) (month_of day)"
  using month_of_bounds [of day] by (auto simp: date_of_def Let_def month_start_next)

text \<open>A date is read back from the day it makes, and every day has a date.\<close>

lemma make_day_parts:
  assumes "1 \<le> d" "d \<le> month_days (y + m div 12) (m mod 12)"
  shows "year_of (make_day y m d) = y + m div 12" "month_of (make_day y m d) = m mod 12"
    "date_of (make_day y m d) = d"
proof -
  define z n where "z = y + m div 12" and "n = m mod 12"
  have n: "0 \<le> n" "n \<le> 11" by (auto simp: n_def)
  have day: "make_day y m d = year_start z + month_start z n + d - 1" by (simp add: make_day_def z_def n_def)
  have "n \<in> {0..11}" using n by simp
  then have ms: "0 \<le> month_start z n" "month_start z (n + 1) \<le> month_start z 12"
    unfolding months by (auto simp: month_start_values)
  have d: "d \<le> month_days z n" using assms by (simp add: z_def n_def)
  have z: "year_of (make_day y m d) = z"
    using assms(1) d ms month_start_next [OF n(1), of z] unfolding day
    by (intro year_of_unique) (auto simp: year_start_next month_start_values)
  have m: "month_of (make_day y m d) = n"
    using assms(1) d n month_start_next [OF n(1), of z] by (intro month_of_unique [OF z]) (simp_all add: day)
  show "year_of (make_day y m d) = y + m div 12" "month_of (make_day y m d) = m mod 12" "date_of (make_day y m d) = d"
    using z m by (simp_all add: z_def [symmetric] n_def [symmetric]) (simp add: date_of_def Let_def day)
qed

lemma make_day_of: "make_day (year_of day) (month_of day) (date_of day) = day"
  using month_of_bounds(1,2) [of day] by (simp add: make_day_def date_of_def Let_def div_pos_pos_trivial)

section \<open>Moving a date\<close>

text \<open>Months numbered through: 12 times the year plus the month.\<close>

definition month_index :: "int \<Rightarrow> int" where
  "month_index day = 12 * year_of day + month_of day"

definition month_length :: "int \<Rightarrow> int" where
  "month_length i = month_days (i div 12) (i mod 12)"

lemma month_index_parts: "month_index day div 12 = year_of day" "month_index day mod 12 = month_of day"
  using month_of_bounds(1,2) [of day]
  by (auto simp: month_index_def intro!: div_mult_self4 [THEN trans] simp: div_pos_pos_trivial mod_pos_pos_trivial)

lemma month_length_bounds: "28 \<le> month_length i" "month_length i \<le> 31"
  using month_days_bounds by (simp_all add: month_length_def)

lemma date_of_le: "date_of day \<le> month_length (month_index day)"
  by (simp add: month_length_def month_index_parts date_of_bounds)

lemma make_day_index: "make_day y m d = make_day ((12 * y + m) div 12) ((12 * y + m) mod 12) d"
  by (simp add: make_day_def)

lemma make_day_month:
  assumes "1 \<le> d" "d \<le> month_length (12 * y + m)"
  shows "month_index (make_day y m d) = 12 * y + m" "date_of (make_day y m d) = d"
proof -
  have "d \<le> month_days (y + m div 12) (m mod 12)" using assms(2) by (simp add: month_length_def)
  note parts = make_day_parts [OF assms(1) this]
  show "month_index (make_day y m d) = 12 * y + m" "date_of (make_day y m d) = d"
    using parts mult_div_mod_eq [of 12 m] by (simp_all only: month_index_def) simp
qed

text \<open>The days of a month run on into the next one.\<close>

lemma make_day_carry: "make_day y m (month_length (12 * y + m) + d) = make_day y (m + 1) d"
proof -
  define z n where "z = y + m div 12" and "n = m mod 12"
  have n: "0 \<le> n" "n \<le> 11" by (auto simp: n_def)
  have len: "month_length (12 * y + m) = month_days z n" by (simp add: month_length_def z_def n_def)
  have left: "make_day y m (month_length (12 * y + m) + d) = year_start z + month_start z (n + 1) + d - 1"
    using month_start_next [OF n(1), of z] by (simp add: make_day_def len z_def [symmetric] n_def [symmetric])
  have m: "m = 12 * (m div 12) + n" by (simp add: n_def)
  show ?thesis
  proof (cases "n = 11")
    case True
    have "m + 1 = 12 * (m div 12 + 1) + 0" using m True by simp
    then have "(m + 1) div 12 = m div 12 + 1" "(m + 1) mod 12 = 0"
      by (metis int_div_pos_eq order_refl zero_less_numeral, metis int_mod_pos_eq order_refl zero_less_numeral)
    then have "make_day y (m + 1) d = year_start (z + 1) + d - 1"
      by (simp add: make_day_def z_def add.assoc month_start_values)
    then show ?thesis unfolding left by (simp add: True year_start_next month_start_values)
  next
    case False
    have "m + 1 = 12 * (m div 12) + (n + 1)" using m by simp
    then have "(m + 1) div 12 = m div 12" "(m + 1) mod 12 = n + 1"
      using int_div_pos_eq [of "m + 1" 12 "m div 12" "n + 1"] int_mod_pos_eq [of "m + 1" 12 "m div 12" "n + 1"] n False by simp_all
    then have "make_day y (m + 1) d = year_start z + month_start z (n + 1) + d - 1" by (simp add: make_day_def z_def)
    then show ?thesis unfolding left by simp
  qed
qed

lemma last_day: "date_of (make_day (year_of day) (month_of day + 1) 0) = month_length (month_index day)"
proof -
  have "make_day (year_of day) (month_of day + 1) 0 = make_day (year_of day) (month_of day) (month_length (month_index day))"
    using make_day_carry [of "year_of day" "month_of day" 0] by (simp add: month_index_def)
  then show ?thesis
    using make_day_month(2) [of "month_length (month_index day)" "year_of day" "month_of day"]
      month_length_bounds [of "month_index day"] by (simp add: month_index_def)
qed

lemma day_of_time: "0 \<le> r \<Longrightarrow> r < MS_PER_DAY \<Longrightarrow> day_of (d * MS_PER_DAY + r) = d"
  by (simp add: day_of_def MS_PER_DAY_def)

lemma time_of_day: "0 \<le> t mod MS_PER_DAY" "t mod MS_PER_DAY < MS_PER_DAY"
  by (simp_all add: MS_PER_DAY_def)

lemma time_split: "t = day_of t * MS_PER_DAY + t mod MS_PER_DAY"
  by (simp add: day_of_def)

lemma later_day: "day_of t < d \<Longrightarrow> t < d * MS_PER_DAY"
  by (simp add: day_of_def MS_PER_DAY_def)

text \<open>\<^verbatim>\<open>setDate\<close> counts from the first of the month, also beyond its end.\<close>

lemma day_of_setDate: "day_of (setDate (date_of (day_of t) + k) t) = day_of t + k"
proof -
  have "make_day (year_of (day_of t)) (month_of (day_of t)) (date_of (day_of t) + k) = day_of t + k"
    using make_day_of [of "day_of t"] by (simp add: make_day_def)
  then show ?thesis by (simp add: setDate_def day_of_time time_of_day)
qed

lemma setDate_plus: "setDate (date_of (day_of t) + k) t = t + k * MS_PER_DAY"
proof -
  have "make_day (year_of (day_of t)) (month_of (day_of t)) (date_of (day_of t) + k) = day_of t + k"
    using make_day_of [of "day_of t"] by (simp add: make_day_def)
  then show ?thesis using time_split [of t] by (simp add: setDate_def distrib_right)
qed

lemma setDate_month:
  assumes "1 \<le> n" "n \<le> month_length (month_index (day_of t))"
  shows "month_index (day_of (setDate n t)) = month_index (day_of t)" "date_of (day_of (setDate n t)) = n"
  using make_day_month [of n "year_of (day_of t)" "month_of (day_of t)"] assms
  by (simp_all add: setDate_def day_of_time time_of_day month_index_def)

text \<open>\<^verbatim>\<open>setMonth\<close> to the month after: where the day of the month does not exist there, it lands in the
  month after that.\<close>

lemma setMonth_next:
  "month_index (day_of (setMonth (month_of (day_of t) + 1) t)) = month_index (day_of t) +
     (if date_of (day_of t) \<le> month_length (month_index (day_of t) + 1) then 1 else 2)"
proof -
  define y m d where "y = year_of (day_of t)" and "m = month_of (day_of t)" and "d = date_of (day_of t)"
  have i: "month_index (day_of t) = 12 * y + m" by (simp add: month_index_def y_def m_def)
  have d: "1 \<le> d" "d \<le> 31" using date_of_bounds [of "day_of t"] month_days_bounds [of "year_of (day_of t)" "month_of (day_of t)"]
    by (auto simp: d_def)
  have day: "day_of (setMonth (m + 1) t) = make_day y (m + 1) d"
    by (simp add: setMonth_def day_of_time time_of_day y_def m_def d_def)
  show ?thesis
  proof (cases "d \<le> month_length (12 * y + (m + 1))")
    case True
    then show ?thesis using make_day_month(1) [OF d(1) True] day by (simp add: i m_def [symmetric] d_def [symmetric] add.assoc)
  next
    case False
    define k where "k = d - month_length (12 * y + (m + 1))"
    have "make_day y (m + 1) d = make_day y (m + 1 + 1) k"
      using make_day_carry [of y "m + 1" k] by (simp add: k_def)
    moreover have "1 \<le> k" "k \<le> month_length (12 * y + (m + 1 + 1))"
      using False d month_length_bounds [of "12 * y + (m + 1)"] month_length_bounds(1) [of "12 * y + (m + 1 + 1)"]
      by (simp_all add: k_def)
    ultimately show ?thesis
      using make_day_month(1) [of k y "m + 1 + 1"] False day by (simp add: i m_def [symmetric] d_def [symmetric] add.assoc)
  qed
qed

end
