(* ===== verification/Expenses.thy ===== *)
theory Expenses
  imports Shifts Calendar
begin

text \<open>
  Expenses, their templates and categories (\<^verbatim>\<open>modules/expenses\<close>): requests, approval, rejection,
  cancellation, expiry and the nightly creation from recurring templates, with the constraints of
  migrations 001 and 005; the status \<^verbatim>\<open>cancelled\<close>, which migration 001 does not list, is one that the
  deployed constraint admits according to \<^verbatim>\<open>STATUS.md\<close>.  The abstract specification is a life cycle of states per expense, and
  every operation refines it.  The counters of \<^verbatim>\<open>MetricsService\<close> and the log lines are left out.
\<close>

section \<open>Tables\<close>

record create_expense =
  ce_branch :: string
  ce_category :: string
  ce_amount :: number
  ce_description :: "string option"
  ce_type :: string
  ce_recurrence :: "string option"
  ce_photo :: "string option"
  ce_shift :: "string option"

record category_row =
  ec_id :: string
  ec_tenant :: string
  ec_name :: string
  ec_active :: bool
  ec_deleted :: bool

record template_row =
  te_id :: string
  te_tenant :: string
  te_name :: string
  te_amount :: "number option"
  te_hours :: int
  te_photo :: bool
  te_active :: bool
  te_pre_approved :: bool
  te_recurrence :: string
  te_day :: "int option"
  te_next :: "int option"
  te_deleted :: bool

record office = pos +
  expense_categories :: "category_row list"
  expense_templates :: "template_row list"

text \<open>
  The constraint as \<^verbatim>\<open>STATUS.md\<close> (section 21) says it stands: migration 001 has the first four, and
  \<^verbatim>\<open>cancelled\<close> was added to it later, by no migration of this repository.
\<close>

definition expense_statuses :: "string list" where
  "expense_statuses = [''pending'', ''approved'', ''rejected'', ''expired'', ''cancelled'']"

definition expense_types :: "string list" where
  "expense_types = [''one_time'', ''recurring'']"

definition recurrence_types :: "string list" where
  "recurrence_types = [''daily'', ''weekly'', ''monthly'', ''yearly'']"

text \<open>The primary key against the other rows, and the \<^verbatim>\<open>CHECK\<close> constraints.\<close>

definition expense_check :: "expense_row list \<Rightarrow> expense_row \<Rightarrow> db_error option" where
  "expense_check rs r =
     (if ex_status r \<notin> set expense_statuses \<or> ex_type r \<notin> set expense_types \<or>
         \<not> (case ex_recurrence r of None \<Rightarrow> True | Some k \<Rightarrow> k \<in> set recurrence_types) then Some check_violation
      else if \<exists>p\<in>set rs. ex_id p = ex_id r then Some unique_violation
      else None)"

definition insert_expense :: "expense_row \<Rightarrow> 'w office_scheme \<Rightarrow> (db_error + expense_row) \<times> 'w office_scheme" where
  "insert_expense r w = (case expense_check (expenses w) r of
     Some e \<Rightarrow> (Inl e, w) | None \<Rightarrow> (Inr r, w\<lparr>expenses := expenses w @ [r]\<rparr>))"

text \<open>\<^verbatim>\<open>update(...).eq('id').eq('tenant_id').select().single()\<close> with \<open>f\<close> for the new columns.\<close>

definition patch_expense ::
  "string \<Rightarrow> string \<Rightarrow> (expense_row \<Rightarrow> expense_row) \<Rightarrow> 'w office_scheme \<Rightarrow> (db_error + expense_row) \<times> 'w office_scheme" where
  "patch_expense i tenantId f w =
     (let hit = (\<lambda>e. ex_id e = i \<and> ex_tenant e = tenantId)
      in case single (filter hit (expenses w)) of
           Inl err \<Rightarrow> (Inl err, w)
         | Inr e \<Rightarrow> (case expense_check (filter (\<lambda>r. \<not> hit r) (expenses w)) (f e) of
             Some err \<Rightarrow> (Inl err, w)
           | None \<Rightarrow> (Inr (f e), w\<lparr>expenses := update_where hit f (expenses w)\<rparr>)))"

section \<open>ExpensesService\<close>

text \<open>The filters of the listing, each absent or set.\<close>

definition expense_getStats :: "string \<Rightarrow> string option \<Rightarrow> ('w office_scheme, expense_row list) io" where
  "expense_getStats tenantId branchId = orError (query (\<lambda>w. Inr (filter (\<lambda>e. ex_tenant e = tenantId \<and> \<not> ex_deleted e \<and>
     (truthy branchId \<longrightarrow> Some (ex_branch e) = branchId)) (expenses w))))"

definition sum_amounts :: "expense_row list \<Rightarrow> number" where
  "sum_amounts arr = foldl (\<lambda>s e. fadd s (ex_amount e)) 0 arr"

record expense_stats =
  st_total_count :: nat
  st_total_amount :: number
  st_approved_count :: nat
  st_approved_amount :: number
  st_pending_count :: nat
  st_pending_amount :: number
  st_rejected_count :: nat
  st_rejected_amount :: number

definition getStats :: "string \<Rightarrow> string option \<Rightarrow> ('w office_scheme, expense_stats) io" where
  "getStats tenantId branchId =
     bindE (expense_getStats tenantId branchId) (\<lambda>all.
     let approved = filter (\<lambda>e. ex_status e = ''approved'') all;
         pending = filter (\<lambda>e. ex_status e = ''pending'') all;
         rejected = filter (\<lambda>e. ex_status e = ''rejected'') all
     in ret \<lparr>st_total_count = length all, st_total_amount = sum_amounts approved,
       st_approved_count = length approved, st_approved_amount = sum_amounts approved,
       st_pending_count = length pending, st_pending_amount = sum_amounts pending,
       st_rejected_count = length rejected, st_rejected_amount = sum_amounts rejected\<rparr>)"

definition expense_findOne :: "string \<Rightarrow> string \<Rightarrow> ('w office_scheme, expense_row) io" where
  "expense_findOne i tenantId =
     bindE (query (\<lambda>w. single (filter (\<lambda>e. ex_id e = i \<and> ex_tenant e = tenantId \<and> \<not> ex_deleted e) (expenses w)))) (\<lambda>r.
     case r of Inl _ \<Rightarrow> throw (not_found ''Expense not found'') | Inr e \<Rightarrow> ret e)"

definition expense_create :: "create_expense \<Rightarrow> string \<Rightarrow> string \<Rightarrow> ('w office_scheme, expense_row) io" where
  "expense_create dto tenantId userId =
     bindE now (\<lambda>t.
     let expiryHours = 8760 in
     bindE (orError (exec (\<lambda>w. insert_expense
       \<lparr>ex_id = fresh_id w, ex_tenant = tenantId, ex_branch = ce_branch dto, ex_shift = ce_shift dto, ex_template = None,
        ex_category = Some (ce_category dto), ex_requested_by = userId, ex_approved_by = None,
        ex_title = nullish (ce_description dto) [], ex_amount = ce_amount dto, ex_notes = ce_description dto,
        ex_photo = ce_photo dto, ex_type = ce_type dto, ex_recurrence = ce_recurrence dto, ex_status = ''pending'',
        ex_created = t, ex_expires = t + expiryHours * 3600000, ex_resolved = None, ex_deleted = False\<rparr> w))) (\<lambda>data.
     bindE (notify userId ''expense.requested'') (\<lambda>_.
     ret data)))"

definition expense_approve :: "string \<Rightarrow> string \<Rightarrow> string \<Rightarrow> ('w office_scheme, expense_row) io" where
  "expense_approve i tenantId approverId =
     bindE (expense_findOne i tenantId) (\<lambda>expense.
     bindE (require (canApprove (ex_status expense) ''pending'')
       (bad_request (''Cannot approve expense with status: '' @ ex_status expense))) (\<lambda>_.
     bindE now (\<lambda>t.
     if isExpired t (ex_expires expense)
     then bindE (exec (\<lambda>w. (Inr (), w\<lparr>expenses := update_where (\<lambda>e. ex_id e = i \<and> ex_tenant e = tenantId)
              (\<lambda>e. e\<lparr>ex_status := ''expired''\<rparr>) (expenses w)\<rparr>))) (\<lambda>_.
       throw (bad_request ''Expense has expired and cannot be approved''))
     else
       let result = approve t approverId in
       bindE (orError (exec (patch_expense i tenantId (\<lambda>e. e\<lparr>ex_status := outcome_string (outcome result),
         ex_approved_by := Some (resolvedBy result), ex_resolved := Some (resolvedAt result)\<rparr>)))) (\<lambda>data.
       bindE (whenE (ex_requested_by expense \<noteq> []) (notify (ex_requested_by expense) ''expense.approved'')) (\<lambda>_.
       ret data)))))"

definition expense_reject :: "string \<Rightarrow> string \<Rightarrow> string \<Rightarrow> string \<Rightarrow> ('w office_scheme, expense_row) io" where
  "expense_reject i why tenantId approverId =
     bindE (expense_findOne i tenantId) (\<lambda>expense.
     bindE (require (canReject (ex_status expense) ''pending'')
       (bad_request (''Cannot reject expense with status: '' @ ex_status expense))) (\<lambda>_.
     bindE now (\<lambda>t.
     bindE (lift (reject t approverId why)) (\<lambda>result.
     let prefix = (if ex_status expense = ''approved'' then ''Approval Reversed'' else ''Rejected'');
         remark = prefix @ '': '' @ nullish (reason result) [] in
     bindE (orError (exec (patch_expense i tenantId (\<lambda>e. e\<lparr>ex_status := outcome_string (outcome result),
       ex_approved_by := Some (resolvedBy result), ex_resolved := Some (resolvedAt result),
       ex_notes := Some (if truthy (ex_notes expense) then the (ex_notes expense) @ '' | '' @ remark else remark)\<rparr>)))) (\<lambda>data.
     bindE (whenE (ex_requested_by expense \<noteq> []) (notify (ex_requested_by expense) ''expense.rejected'')) (\<lambda>_.
     ret data))))))"

definition expense_cancel :: "string \<Rightarrow> string \<Rightarrow> ('w office_scheme, expense_row) io" where
  "expense_cancel i tenantId =
     bindE (expense_findOne i tenantId) (\<lambda>expense.
     bindE (require (ex_status expense = ''pending'')
       (bad_request (''Cannot cancel expense with status: '' @ ex_status expense))) (\<lambda>_.
     bindE now (\<lambda>t.
     orError (exec (patch_expense i tenantId (\<lambda>e. e\<lparr>ex_status := ''cancelled'', ex_resolved := Some t\<rparr>))))))"

definition expireStaleExpenses :: "('w office_scheme, nat) io" where
  "expireStaleExpenses =
     bindE now (\<lambda>t.
     let stale = (\<lambda>e. ex_status e = ''pending'' \<and> ex_expires e < t) in
     orElse 0 (exec (\<lambda>w. (Inr (length (filter stale (expenses w))),
       w\<lparr>expenses := update_where stale (\<lambda>e. e\<lparr>ex_status := ''expired''\<rparr>) (expenses w)\<rparr>))))"

subsection \<open>Recurring expenses\<close>

text \<open>\<^verbatim>\<open>%\<close> of JavaScript takes the sign of the dividend.\<close>

definition js_rem :: "int \<Rightarrow> int \<Rightarrow> int" where
  "js_rem a b = (if a < 0 then - ((- a) mod b) else a mod b)"

definition calculateNextRun :: "string \<Rightarrow> int option \<Rightarrow> int \<Rightarrow> int" where
  "calculateNextRun recurrenceType recurrenceDay t =
     (if recurrenceType = ''daily'' then midnight (setDate (date_of (day_of t) + 1) t)
      else if recurrenceType = ''weekly'' then
        let targetDay = nullish recurrenceDay 0;
            currentDay = weekday (day_of t);
            daysUntil = (let d = js_rem (targetDay - currentDay + 7) 7 in if d = 0 then 7 else d)
        in midnight (setDate (date_of (day_of t) + daysUntil) t)
      else if recurrenceType = ''monthly'' then
        let targetDay = nullish recurrenceDay 1;
            next1 = setMonth (month_of (day_of t) + 1) t;
            last_day = date_of (make_day (year_of (day_of next1)) (month_of (day_of next1) + 1) 0)
        in midnight (setDate (min targetDay last_day) next1)
      else setDate (date_of (day_of t) + 1) t)"

text \<open>\<^verbatim>\<open>limit(1)\<close> without an order takes a row; here the first of the table.  A failed read gives no row.\<close>

definition first_branch :: "string \<Rightarrow> ('w office_scheme, string option) io" where
  "first_branch tenantId = orElse None (query (\<lambda>w. Inr (map_option b_id
     (find (\<lambda>b. b_tenant b = tenantId \<and> \<not> b_deleted b) (branches w)))))"

definition first_manager :: "string \<Rightarrow> ('w office_scheme, string option) io" where
  "first_manager tenantId = orElse None (query (\<lambda>w. Inr (map_option u_id
     (find (\<lambda>u. u_tenant u = Some tenantId \<and> (u_role u = ''owner'' \<or> u_role u = ''manager'') \<and> \<not> u_deleted u) (users w)))))"

definition template_due :: "int \<Rightarrow> template_row \<Rightarrow> bool" where
  "template_due t te \<longleftrightarrow> te_recurrence te \<noteq> ''none'' \<and> te_active te \<and> \<not> te_deleted te \<and>
     (case te_next te of None \<Rightarrow> False | Some n \<Rightarrow> n \<le> t)"

definition recurring_row :: "template_row \<Rightarrow> string \<Rightarrow> string \<Rightarrow> int \<Rightarrow> string \<Rightarrow> expense_row" where
  "recurring_row te branchId requestedBy t i =
     \<lparr>ex_id = i, ex_tenant = te_tenant te, ex_branch = branchId, ex_shift = None, ex_template = Some (te_id te),
      ex_category = None, ex_requested_by = requestedBy, ex_approved_by = None, ex_title = te_name te,
      ex_amount = nullish (te_amount te) 0,
      ex_notes = Some (''Auto-generated from recurring template: '' @ te_name te),
      ex_photo = None, ex_type = ''one_time'', ex_recurrence = None,
      ex_status = (if te_pre_approved te then ''approved'' else ''pending''), ex_created = t,
      ex_expires = t + te_hours te * 3600000, ex_resolved = (if te_pre_approved te then Some t else None),
      ex_deleted = False\<rparr>"

definition process_template :: "template_row \<Rightarrow> nat \<Rightarrow> ('w office_scheme, nat) io" where
  "process_template te created =
     bindE (first_branch (te_tenant te)) (\<lambda>branchId.
     if \<not> truthy branchId then ret created else
     bindE (first_manager (te_tenant te)) (\<lambda>requestedBy.
     if \<not> truthy requestedBy then ret created else
     bindE now (\<lambda>t.
     bindE (exec (\<lambda>w. insert_expense (recurring_row te (the branchId) (the requestedBy) t (fresh_id w)) w)) (\<lambda>inserted.
     case inserted of Inl _ \<Rightarrow> ret created | Inr _ \<Rightarrow>
     bindE now (\<lambda>t2.
     let next_run = calculateNextRun (te_recurrence te) (te_day te) t2 in
     bindE (exec (\<lambda>w. (Inr (), w\<lparr>expense_templates := update_where (\<lambda>r. te_id r = te_id te)
       (\<lambda>r. r\<lparr>te_next := Some next_run\<rparr>) (expense_templates w)\<rparr>))) (\<lambda>_.
     ret (created + 1)))))))"

definition processRecurringExpenses :: "('w office_scheme, nat) io" where
  "processRecurringExpenses =
     bindE now (\<lambda>t.
     bindE (query (\<lambda>w. Inr (filter (template_due t) (expense_templates w)))) (\<lambda>r.
     case r of Inl _ \<Rightarrow> ret 0
     | Inr templates \<Rightarrow> foldE templates 0 (\<lambda>created te.
         catchE (process_template te created) (\<lambda>_. ret created))))"

subsection \<open>Templates and categories\<close>

record new_template =
  nt_name :: string
  nt_amount :: "number option"
  nt_hours :: "int option"
  nt_photo :: "bool option"

text \<open>In a partial update an outer \<open>None\<close> leaves the column, an inner one sets it to null.\<close>

record update_template =
  ut_name :: "string option"
  ut_amount :: "number option option"
  ut_photo :: "bool option"
  ut_hours :: "int option"
  ut_active :: "bool option"
  ut_pre_approved :: "bool option"
  ut_recurrence :: "string option"
  ut_day :: "int option option"
  ut_next :: "int option option"

definition templates_findAll :: "string \<Rightarrow> ('w office_scheme, template_row list) io" where
  "templates_findAll tenantId = orError (query (\<lambda>w. Inr
     (filter (\<lambda>te. te_tenant te = tenantId \<and> \<not> te_deleted te) (expense_templates w))))"

definition template_create :: "string \<Rightarrow> new_template \<Rightarrow> ('w office_scheme, template_row) io" where
  "template_create tenantId dto = orError (exec (\<lambda>w.
     let row = \<lparr>te_id = fresh_id w, te_tenant = tenantId, te_name = nt_name dto, te_amount = nt_amount dto,
       te_hours = nullish (nt_hours dto) 24, te_photo = nullish (nt_photo dto) False, te_active = True,
       te_pre_approved = False, te_recurrence = ''none'', te_day = None, te_next = None, te_deleted = False\<rparr>
     in (Inr row, w\<lparr>expense_templates := expense_templates w @ [row]\<rparr>)))"

definition template_patch :: "update_template \<Rightarrow> template_row \<Rightarrow> template_row" where
  "template_patch dto te = te\<lparr>te_name := nullish (ut_name dto) (te_name te), te_amount := nullish (ut_amount dto) (te_amount te),
     te_hours := nullish (ut_hours dto) (te_hours te), te_photo := nullish (ut_photo dto) (te_photo te),
     te_active := nullish (ut_active dto) (te_active te),
     te_pre_approved := nullish (ut_pre_approved dto) (te_pre_approved te),
     te_recurrence := nullish (ut_recurrence dto) (te_recurrence te), te_day := nullish (ut_day dto) (te_day te),
     te_next := nullish (ut_next dto) (te_next te)\<rparr>"

definition template_update :: "string \<Rightarrow> string \<Rightarrow> update_template \<Rightarrow> ('w office_scheme, template_row) io" where
  "template_update i tenantId dto = orError (exec (\<lambda>w.
     let hit = (\<lambda>te. te_id te = i \<and> te_tenant te = tenantId)
     in case single (filter hit (expense_templates w)) of
          Inl e \<Rightarrow> (Inl e, w)
        | Inr te \<Rightarrow> (Inr (template_patch dto te),
            w\<lparr>expense_templates := update_where hit (template_patch dto) (expense_templates w)\<rparr>)))"

definition template_remove :: "string \<Rightarrow> string \<Rightarrow> ('w office_scheme, unit) io" where
  "template_remove i tenantId = orError (exec (\<lambda>w. (Inr (),
     w\<lparr>expense_templates := update_where (\<lambda>te. te_id te = i \<and> te_tenant te = tenantId)
        (\<lambda>te. te\<lparr>te_active := False, te_deleted := True\<rparr>) (expense_templates w)\<rparr>)))"

definition categories_findAll :: "string \<Rightarrow> ('w office_scheme, category_row list) io" where
  "categories_findAll tenantId = orError (query (\<lambda>w. Inr
     (filter (\<lambda>c. ec_tenant c = tenantId \<and> \<not> ec_deleted c) (expense_categories w))))"

definition category_create :: "string \<Rightarrow> string \<Rightarrow> ('w office_scheme, category_row) io" where
  "category_create tenantId nm = orError (exec (\<lambda>w.
     let row = \<lparr>ec_id = fresh_id w, ec_tenant = tenantId, ec_name = nm, ec_active = True, ec_deleted = False\<rparr>
     in (Inr row, w\<lparr>expense_categories := expense_categories w @ [row]\<rparr>)))"

definition category_update ::
  "string \<Rightarrow> string \<Rightarrow> string option \<Rightarrow> bool option \<Rightarrow> ('w office_scheme, category_row) io" where
  "category_update i tenantId nm active = orError (exec (\<lambda>w.
     let hit = (\<lambda>c. ec_id c = i \<and> ec_tenant c = tenantId);
         f = (\<lambda>c. c\<lparr>ec_name := nullish nm (ec_name c), ec_active := nullish active (ec_active c)\<rparr>)
     in case single (filter hit (expense_categories w)) of
          Inl e \<Rightarrow> (Inl e, w)
        | Inr c \<Rightarrow> (Inr (f c), w\<lparr>expense_categories := update_where hit f (expense_categories w)\<rparr>)))"

definition category_remove :: "string \<Rightarrow> string \<Rightarrow> ('w office_scheme, unit) io" where
  "category_remove i tenantId = orError (exec (\<lambda>w. (Inr (),
     w\<lparr>expense_categories := update_where (\<lambda>c. ec_id c = i \<and> ec_tenant c = tenantId)
        (\<lambda>c. c\<lparr>ec_active := False, ec_deleted := True\<rparr>) (expense_categories w)\<rparr>)))"

section \<open>The life cycle\<close>

text \<open>The abstract specification: what may become of the status of an expense.\<close>

inductive allowed :: "string \<Rightarrow> string \<Rightarrow> bool" where
  "allowed ''pending'' ''approved''"
| "allowed ''pending'' ''rejected''"
| "allowed ''pending'' ''expired''"
| "allowed ''pending'' ''cancelled''"
| "allowed ''approved'' ''rejected''"

inductive_simps allowed_from_simps: "allowed ''pending'' y" "allowed ''approved'' y" "allowed ''rejected'' y" "allowed ''expired'' y" "allowed ''cancelled'' y"

inductive life :: "(string \<rightharpoonup> string) \<Rightarrow> (string \<rightharpoonup> string) \<Rightarrow> bool" where
  created: "s i = None \<Longrightarrow> x \<in> {''pending'', ''approved''} \<Longrightarrow> life s (s(i \<mapsto> x))"
| moved: "s i = Some x \<Longrightarrow> allowed x y \<Longrightarrow> life s (s(i \<mapsto> y))"

definition status_of :: "expense_row list \<Rightarrow> (string \<rightharpoonup> string)" where
  "status_of rs = map_of (map (\<lambda>e. (ex_id e, ex_status e)) rs)"

definition refines :: "expense_row list \<Rightarrow> expense_row list \<Rightarrow> bool" where
  "refines rs rs' \<longleftrightarrow> (distinct (map ex_id rs) \<longrightarrow> distinct (map ex_id rs') \<and> life\<^sup>*\<^sup>* (status_of rs) (status_of rs'))"

lemma refines_refl [simp]: "refines rs rs"
  by (simp add: refines_def)

lemma refines_trans: "refines a b \<Longrightarrow> refines b c \<Longrightarrow> refines a c"
  by (auto simp: refines_def)

lemma final_status: "life\<^sup>*\<^sup>* s s' \<Longrightarrow> s i = Some x \<Longrightarrow> x = ''rejected'' \<or> x = ''expired'' \<or> x = ''cancelled'' \<Longrightarrow> s' i = Some x"
proof (induction rule: rtranclp_induct)
  case (step b c)
  from step.hyps(2) step.IH [OF step.prems] step.prems(2) show ?case
    by (cases rule: life.cases) (auto simp: allowed_from_simps)
qed

text \<open>An insertion that passes the constraints, and an update of any number of rows, refine the life cycle.\<close>

lemma insert_refines:
  assumes "expense_check rs r = None" "ex_status r \<in> {''pending'', ''approved''}"
  shows "refines rs (rs @ [r])"
  unfolding refines_def
proof
  assume d: "distinct (map ex_id rs)"
  have new: "ex_id r \<notin> ex_id ` set rs" using assms(1) by (auto simp: expense_check_def split: if_splits)
  then have none: "status_of rs (ex_id r) = None" by (simp add: status_of_def map_of_eq_None_iff image_image)
  have "status_of (rs @ [r]) = (status_of rs)(ex_id r \<mapsto> ex_status r)"
    using none by (auto simp: status_of_def map_add_def fun_eq_iff split: option.split)
  then show "distinct (map ex_id (rs @ [r])) \<and> life\<^sup>*\<^sup>* (status_of rs) (status_of (rs @ [r]))"
    using d new life.created [of "status_of rs" "ex_id r" "ex_status r", OF none assms(2)] by auto
qed

lemma dom_status_of: "dom (status_of rs) = ex_id ` set rs"
  by (simp add: status_of_def dom_map_of_conv_image_fst image_image)

lemma status_of_Cons:
  "ex_id r \<notin> ex_id ` set rs \<Longrightarrow> m ++ status_of (r # rs) = (m(ex_id r \<mapsto> ex_status r)) ++ status_of rs"
  by (simp add: map_add_upd_left dom_status_of) (simp add: status_of_def)

lemma update_life:
  assumes "distinct (map ex_id rs)" "\<And>e. e \<in> set rs \<Longrightarrow> P e \<Longrightarrow> ex_id (f e) = ex_id e \<and> allowed (ex_status e) (ex_status (f e))"
  shows "life\<^sup>*\<^sup>* (m ++ status_of rs) (m ++ status_of (update_where P f rs))"
  using assms
proof (induction rs arbitrary: m)
  case Nil
  show ?case by (simp add: update_where_def)
next
  case (Cons r rs)
  define u where "u = (if P r then f r else r)"
  have u: "ex_id u = ex_id r" "P r \<Longrightarrow> allowed (ex_status r) (ex_status u)" "\<not> P r \<Longrightarrow> u = r"
    using Cons.prems(2) [of r] by (auto simp: u_def)
  have "ex_id ` set (update_where P f rs) = ex_id ` set rs"
    unfolding set_update_where image_image by (rule image_cong) (use Cons.prems(2) in auto)
  then have new: "ex_id r \<notin> ex_id ` set rs" "ex_id u \<notin> ex_id ` set (update_where P f rs)"
    using Cons.prems(1) u(1) by simp_all
  let ?s = "(m(ex_id r \<mapsto> ex_status r)) ++ status_of rs" and ?t = "(m(ex_id r \<mapsto> ex_status u)) ++ status_of rs"
  have step: "life\<^sup>*\<^sup>* ?s ?t"
  proof (cases "P r")
    case True
    have eq: "?s = (m ++ status_of rs)(ex_id r \<mapsto> ex_status r)" "?t = (m ++ status_of rs)(ex_id r \<mapsto> ex_status u)"
      using new(1) by (simp_all add: map_add_upd_left dom_status_of)
    have "life ?s (?s(ex_id r \<mapsto> ex_status u))" unfolding eq by (rule life.moved [OF _ u(2) [OF True]]) simp
    then show ?thesis unfolding eq by (simp add: r_into_rtranclp)
  next
    case False
    then show ?thesis by (simp add: u(3))
  qed
  have rest: "life\<^sup>*\<^sup>* ?t ((m(ex_id r \<mapsto> ex_status u)) ++ status_of (update_where P f rs))"
    using Cons.prems by (intro Cons.IH) auto
  have "life\<^sup>*\<^sup>* ?s ((m(ex_id u \<mapsto> ex_status u)) ++ status_of (update_where P f rs))"
    unfolding u(1) by (rule rtranclp_trans [OF step rest])
  then show ?case
    unfolding status_of_Cons [OF new(1)] status_of_Cons [OF new(2), symmetric]
    by (simp only: update_where_def list.map u_def)
qed

lemma update_refines:
  assumes "\<And>e. e \<in> set rs \<Longrightarrow> P e \<Longrightarrow> ex_id (f e) = ex_id e \<and> (distinct (map ex_id rs) \<longrightarrow> allowed (ex_status e) (ex_status (f e)))"
  shows "refines rs (update_where P f rs)"
  unfolding refines_def
proof
  assume d: "distinct (map ex_id rs)"
  have "map ex_id (update_where P f rs) = map ex_id rs" using assms by (auto simp: update_where_def)
  then show "distinct (map ex_id (update_where P f rs)) \<and> life\<^sup>*\<^sup>* (status_of rs) (status_of (update_where P f rs))"
    using update_life [of rs P f Map.empty] assms d by simp
qed

text \<open>A handler refines the life cycle if it does so from every state, whether it returns or throws.\<close>

definition life_io :: "('w office_scheme, 'a) io \<Rightarrow> bool" where
  "life_io m \<longleftrightarrow> (\<forall>w. refines (expenses w) (expenses (snd (m w))))"

lemma life_wp: "life_io m \<longleftrightarrow> (\<forall>w. wp m (\<lambda>_ v. refines (expenses w) (expenses v)) (\<lambda>_ v. refines (expenses w) (expenses v)) w)"
  by (simp add: life_io_def wp_snd [where J = "\<lambda>v. refines (expenses w) (expenses v)" for w])

lemma life_keeps: "keeps expenses m \<Longrightarrow> life_io m"
  by (simp add: life_io_def keeps_def)

lemma life_bind:
  fixes m :: "('w office_scheme, 'a) io"
  assumes "life_io m" "\<And>x. life_io (f x)" shows "life_io (bindE m f)"
  unfolding life_wp
proof
  fix w
  show "wp (bindE m f) (\<lambda>_ v. refines (expenses w) (expenses v)) (\<lambda>_ v. refines (expenses w) (expenses v)) w"
    unfolding wp_bindE
  proof (rule wp_mono)
    show "wp m (\<lambda>_ v. refines (expenses w) (expenses v)) (\<lambda>_ v. refines (expenses w) (expenses v)) w"
      using assms(1) by (simp add: life_wp)
    fix x and v :: "'w office_scheme" assume v: "refines (expenses w) (expenses v)"
    show "wp (f x) (\<lambda>_ v. refines (expenses w) (expenses v)) (\<lambda>_ v. refines (expenses w) (expenses v)) v"
      by (rule wp_mono [OF assms(2) [of x, unfolded life_wp, rule_format]]) (auto intro: refines_trans [OF v])
  qed
qed

lemma life_exec:
  fixes f :: "'w office_scheme \<Rightarrow> (db_error + 'a) \<times> 'w office_scheme"
  assumes "\<And>w. refines (expenses w) (expenses (snd (f w)))" shows "life_io (exec f)"
  using assms [of "w\<lparr>calls := n\<rparr>" for w n]
  by (auto simp: life_io_def exec_def Let_def split: option.split prod.split) (metis snd_conv)

interpretation seen_expenses: view "expenses :: 'w office_scheme \<Rightarrow> expense_row list"
  by unfold_locales simp

lemma life_read:
  fixes f :: "'w office_scheme \<Rightarrow> db_error + 'a"
  shows "life_io (query f)" "life_io (notify u k :: ('w office_scheme, unit) io)"
proof -
  show "life_io (query f)" by (intro life_keeps seen_expenses.keeps_query)
  show "life_io (notify u k :: ('w office_scheme, unit) io)"
    unfolding notify_def by (intro life_keeps keep_rules seen_expenses.keeps_statement) simp
qed

lemma insert_expense_refines:
  "ex_status r \<in> {''pending'', ''approved''} \<Longrightarrow> refines (expenses w) (expenses (snd (insert_expense r w)))"
  by (auto simp: insert_expense_def intro: insert_refines split: option.split)

lemma hit_unique:
  assumes "distinct (map ex_id rs)" "e \<in> set rs" "r \<in> set rs" "ex_id r = ex_id e" shows "r = e"
  using assms by (meson distinct_map inj_onD)

text \<open>\<open>seen i t rs e\<close>: the expense that \<^verbatim>\<open>findOne\<close> returned is the row of this identifier.\<close>

definition seen :: "string \<Rightarrow> string \<Rightarrow> expense_row list \<Rightarrow> expense_row \<Rightarrow> bool" where
  "seen i t rs e \<longleftrightarrow> e \<in> set rs \<and> ex_id e = i \<and> ex_tenant e = t"

lemma seen_update:
  assumes "seen i t rs e" "\<And>r. ex_id (f r) = ex_id r" "allowed (ex_status e) (ex_status (f e))"
  shows "refines rs (update_where (\<lambda>r. ex_id r = i \<and> ex_tenant r = t) f rs)"
  using assms hit_unique [of rs e] by (intro update_refines) (auto simp: seen_def)

lemma seen_patch:
  assumes "seen i t (expenses w) e" "\<And>r. ex_id (f r) = ex_id r" "allowed (ex_status e) (ex_status (f e))"
  shows "refines (expenses w) (expenses (snd (patch_expense i t f w)))"
  using seen_update [OF assms] by (auto simp: patch_expense_def Let_def split: sum.split option.split)

lemma wp_findOne:
  fixes w :: "'w office_scheme"
  assumes "\<And>e v. expenses v = expenses w \<Longrightarrow> seen i t (expenses w) e \<Longrightarrow> Q e v" "\<And>x v. expenses v = expenses w \<Longrightarrow> E x v"
  shows "wp (expense_findOne i t) Q E w"
  unfolding expense_findOne_def using assms
  by (auto simp: wp_rules seen_def dest!: single_InrD filter_oneD split: option.split sum.split)

lemma wp_patch:
  fixes w :: "'w office_scheme"
  assumes "seen i t (expenses w) e" "\<And>r. ex_id (f r) = ex_id r" "allowed (ex_status e) (ex_status (f e))"
    and "\<And>x v. refines (expenses w) (expenses v) \<Longrightarrow> Q x v" "\<And>x v. refines (expenses w) (expenses v) \<Longrightarrow> E x v"
  shows "wp (orError (exec (patch_expense i t f))) Q E w"
proof -
  have "refines (expenses w) (expenses (snd (patch_expense i t f (w\<lparr>calls := Suc (calls w)\<rparr>))))"
    using seen_patch [of i t "w\<lparr>calls := Suc (calls w)\<rparr>" e f] assms(1-3) by simp
  then show ?thesis using assms(4,5)
    by (auto simp: wp_rules split: option.split sum.split prod.split)
qed

text \<open>A notification never throws and leaves the expenses alone.\<close>

lemma wp_quiet:
  fixes w :: "'w office_scheme"
  assumes "\<And>v. expenses v = expenses w \<Longrightarrow> Q () v"
  shows "wp (whenE c (notify u k)) Q E w" "wp (notify u k) Q E w"
proof -
  have n: "keeps expenses (notify u k :: ('w office_scheme, unit) io)" "total_io (notify u k :: ('w office_scheme, unit) io)"
    unfolding notify_def ignoring_def by (intro keep_rules seen_expenses.keeps_statement, simp) (intro total_catchE total_ret)
  have "wp (notify u k) (\<lambda>x v. True \<and> expenses v = expenses w) (\<lambda>x v. False \<and> expenses v = expenses w) w"
    by (rule wp_conj [OF _ keeps_wp [OF n(1) refl]]) (use n(2) in \<open>simp add: total_io_def\<close>)
  then show q: "wp (notify u k) Q E w" by (rule wp_mono) (use assms in auto)
  show "wp (whenE c (notify u k)) Q E w" using q assms by (simp add: wp_whenE)
qed

lemmas wp_steps = wp_bindE wp_require wp_now wp_ret wp_throw wp_if wp_lift wp_case_sum

lemma expire_one:
  fixes w :: "'w office_scheme"
  assumes "seen i t (expenses w) e" "ex_status e = ''pending''"
    and "\<And>x v. refines (expenses w) (expenses v) \<Longrightarrow> Q x v"
  shows "wp (exec (\<lambda>w. (Inr (), w\<lparr>expenses := update_where (\<lambda>e. ex_id e = i \<and> ex_tenant e = t)
    (\<lambda>e. e\<lparr>ex_status := ''expired''\<rparr>) (expenses w)\<rparr>))) Q E w"
  using seen_update [OF assms(1), of "\<lambda>e. e\<lparr>ex_status := ''expired''\<rparr>"] assms(2,3)
  by (auto simp: wp_exec allowed_from_simps split: option.split)

lemma approve_life: "life_io (expense_approve i t a :: ('w office_scheme, expense_row) io)"
  unfolding life_wp expense_approve_def wp_bindE [of "expense_findOne i t"]
  by (intro allI wp_findOne)
     (auto simp: wp_steps Let_def canApprove_def approve_def outcome_string_def allowed_from_simps
       intro!: expire_one wp_patch wp_quiet)

lemma reject_life: "life_io (expense_reject i why t a :: ('w office_scheme, expense_row) io)"
  unfolding life_wp expense_reject_def wp_bindE [of "expense_findOne i t"]
  by (intro allI wp_findOne)
     (auto simp: wp_steps Let_def canReject_def reject_def outcome_string_def allowed_from_simps
       intro!: wp_patch wp_quiet)

lemma cancel_life: "life_io (expense_cancel i t :: ('w office_scheme, expense_row) io)"
  unfolding life_wp expense_cancel_def wp_bindE [of "expense_findOne i t"]
  by (intro allI wp_findOne)
     (auto simp: wp_steps allowed_from_simps intro!: wp_patch)

lemma life_basic:
  "life_io (ret x)" "life_io (throw e)" "life_io now"
  by (intro life_keeps keep_rules)+

lemma life_cases:
  "(c \<Longrightarrow> life_io m) \<Longrightarrow> (\<not> c \<Longrightarrow> life_io n) \<Longrightarrow> life_io (if c then m else n)"
  "(\<And>x. v = Inl x \<Longrightarrow> life_io (g x)) \<Longrightarrow> (\<And>x. v = Inr x \<Longrightarrow> life_io (h x)) \<Longrightarrow>
   life_io (case v of Inl x \<Rightarrow> g x | Inr x \<Rightarrow> h x)"
  by (auto split: sum.split)

lemma life_catch:
  fixes m :: "('w office_scheme, 'a) io"
  assumes "life_io m" "\<And>e. life_io (h e)" shows "life_io (catchE m h)"
  unfolding life_io_def
proof
  fix w
  show "refines (expenses w) (expenses (snd (catchE m h w)))"
  proof (cases "m w")
    case (Pair r v)
    then have v: "refines (expenses w) (expenses v)" using assms(1) by (metis life_io_def snd_conv)
    show ?thesis
      using assms(2) refines_trans [OF v] by (cases r) (auto simp: catchE_def Pair v life_io_def)
  qed
qed

lemma life_fold:
  fixes f :: "'b \<Rightarrow> 'x \<Rightarrow> ('w office_scheme, 'b) io"
  shows "(\<And>a x. life_io (f a x)) \<Longrightarrow> life_io (foldE xs a f)"
  by (induction xs arbitrary: a) (simp_all add: life_basic life_bind)

lemmas life_rules = life_bind life_basic life_cases life_read life_exec life_catch life_fold

lemma create_life: "life_io (expense_create dto t u :: ('w office_scheme, expense_row) io)"
  unfolding expense_create_def Let_def orError_def
  by (intro life_rules insert_expense_refines) simp_all

lemma expire_life: "life_io (expireStaleExpenses :: ('w office_scheme, nat) io)"
  unfolding expireStaleExpenses_def Let_def orElse_def
  by (intro life_rules) (auto intro!: update_refines allowed.intros)

lemma template_life: "life_io (process_template te n :: ('w office_scheme, nat) io)"
  unfolding process_template_def first_branch_def first_manager_def Let_def orElse_def
  by (intro life_rules insert_expense_refines) (simp_all add: recurring_row_def)

lemma recurring_life: "life_io (processRecurringExpenses :: ('w office_scheme, nat) io)"
  unfolding processRecurringExpenses_def by (intro life_rules template_life)

text \<open>Every request on expenses, templates and categories, and the two scheduled jobs.\<close>

inductive expense_step :: "'w office_scheme \<Rightarrow> 'w office_scheme \<Rightarrow> bool" where
  "expense_create dto t u w = (r, w') \<Longrightarrow> expense_step w w'"
| "expense_approve i t a w = (r, w') \<Longrightarrow> expense_step w w'"
| "expense_reject i why t a w = (r, w') \<Longrightarrow> expense_step w w'"
| "expense_cancel i t w = (r, w') \<Longrightarrow> expense_step w w'"
| "expireStaleExpenses w = (n, w') \<Longrightarrow> expense_step w w'"
| "processRecurringExpenses w = (n, w') \<Longrightarrow> expense_step w w'"
| "expenses w' = expenses w \<Longrightarrow> expense_step w w'"

lemma expense_step_refines: "expense_step w w' \<Longrightarrow> refines (expenses w) (expenses w')"
proof (induction rule: expense_step.induct)
  case (7 w' w)
  then show ?case by simp
qed (metis snd_conv life_io_def create_life approve_life reject_life cancel_life expire_life recurring_life)+

text \<open>C37. Expenses refine their life cycle.  Map each expense to its status.  Whatever requests are made
  and however often the two scheduled jobs run, whatever calls fail, the map changes only as the
  specification \<^verbatim>\<open>life\<close> allows: a new expense is pending (or approved, when it comes from a pre-approved
  template), a pending one is approved, rejected, cancelled or expires, an approved one can be
  rejected, and nothing else.  Hence an expense that was rejected or cancelled or has expired stays
  so, and no identifier is used twice.\<close>

theorem expenses_refine:
  assumes "expense_step\<^sup>*\<^sup>* w w'" "distinct (map ex_id (expenses w))"
  shows "life\<^sup>*\<^sup>* (status_of (expenses w)) (status_of (expenses w')) \<and> distinct (map ex_id (expenses w')) \<and>
    (\<forall>i x. status_of (expenses w) i = Some x \<and> (x = ''rejected'' \<or> x = ''expired'' \<or> x = ''cancelled'') \<longrightarrow>
       status_of (expenses w') i = Some x)"
proof -
  have "refines (expenses w) (expenses w')" using assms(1)
    by (induction rule: rtranclp_induct) (auto intro: refines_trans expense_step_refines)
  then have l: "life\<^sup>*\<^sup>* (status_of (expenses w)) (status_of (expenses w'))" "distinct (map ex_id (expenses w'))"
    using assms(2) by (simp_all add: refines_def)
  then show ?thesis using final_status [OF l(1)] by blast
qed

section \<open>The next run\<close>

lemma next_daily: "calculateNextRun ''daily'' r t = (day_of t + 1) * MS_PER_DAY"
  by (simp add: calculateNextRun_def midnight_def day_of_setDate)

lemma next_weekly:
  assumes "0 \<le> nullish r 0" "nullish r 0 \<le> 6"
  shows "\<exists>d. calculateNextRun ''weekly'' r t = d * MS_PER_DAY \<and> day_of t < d \<and> d \<le> day_of t + 7 \<and> weekday d = nullish r 0"
proof -
  define k c where "k = nullish r 0" and "c = weekday (day_of t)"
  define u where "u = (let d = js_rem (k - c + 7) 7 in if d = 0 then 7 else d)"
  have c: "0 \<le> c" "c \<le> 6" by (simp_all add: c_def weekday_def)
  have k: "0 \<le> k" "k \<le> 6" using assms by (simp_all add: k_def)
  have rem: "js_rem (k - c + 7) 7 = (k - c) mod 7" using c k by (simp add: js_rem_def)
  have u: "1 \<le> u" "u \<le> 7" "u mod 7 = (k - c) mod 7" unfolding u_def rem Let_def by auto
  have "weekday (day_of t + u) = (c + u) mod 7" by (simp add: weekday_def c_def mod_simps add_ac)
  also have "\<dots> = (c + (k - c) mod 7) mod 7" by (simp only: u(3) [symmetric] mod_add_right_eq)
  also have "\<dots> = k" using k by (simp add: mod_add_right_eq)
  finally have w: "weekday (day_of t + u) = k" .
  have "calculateNextRun ''weekly'' r t = (day_of t + u) * MS_PER_DAY"
    by (simp add: calculateNextRun_def Let_def k_def [symmetric] c_def [symmetric] midnight_def day_of_setDate u_def)
  then show ?thesis using u w by (intro exI [of _ "day_of t + u"]) (simp add: k_def)
qed

lemma next_monthly:
  assumes "1 \<le> nullish r 1"
  shows "\<exists>d. calculateNextRun ''monthly'' r t = d * MS_PER_DAY \<and>
    month_index d = month_index (day_of t) + (if date_of (day_of t) \<le> month_length (month_index (day_of t) + 1) then 1 else 2) \<and>
    date_of d = min (nullish r 1) (month_length (month_index d))"
proof -
  define n where "n = setMonth (month_of (day_of t) + 1) t"
  define k where "k = min (nullish r 1) (month_length (month_index (day_of n)))"
  have k: "1 \<le> k" "k \<le> month_length (month_index (day_of n))"
    using assms month_length_bounds [of "month_index (day_of n)"] by (auto simp: k_def)
  note month = setDate_month [OF k]
  have run: "calculateNextRun ''monthly'' r t = day_of (setDate k n) * MS_PER_DAY"
    by (simp add: calculateNextRun_def Let_def n_def [symmetric] last_day k_def midnight_def)
  show ?thesis
    using month setMonth_next [of t] unfolding run n_def [symmetric] by (intro exI [of _ "day_of (setDate k n)"]) (simp add: k_def)
qed

lemma month_index_le: "d \<le> e \<Longrightarrow> month_index d \<le> month_index e"
proof (rule ccontr)
  assume de: "d \<le> e" and "\<not> month_index d \<le> month_index e"
  then have less: "month_index e < month_index d" by simp
  have y: "year_of e \<le> year_of d" using less month_of_bounds [of d] month_of_bounds [of e] unfolding month_index_def by linarith
  show False
  proof (cases "year_of e = year_of d")
    case True
    then have "month_of e + 1 \<le> month_of d" using less by (simp add: month_index_def)
    from month_start_mono [OF this, of "year_of d"] show False
      using month_of_bounds [of d] month_of_bounds [of e] True de by simp
  next
    case False
    then have "year_of e + 1 \<le> year_of d" using y by simp
    from year_start_mono [OF this] show False using year_of_bounds [of d] year_of_bounds [of e] de by simp
  qed
qed

definition valid_schedule :: "string \<Rightarrow> int option \<Rightarrow> bool" where
  "valid_schedule kind r \<longleftrightarrow> (kind = ''weekly'' \<longrightarrow> 0 \<le> nullish r 0 \<and> nullish r 0 \<le> 6) \<and> (kind = ''monthly'' \<longrightarrow> 1 \<le> nullish r 1)"

lemma next_later:
  assumes "valid_schedule kind r" shows "t < calculateNextRun kind r t"
proof (cases "kind \<in> {''daily'', ''weekly'', ''monthly''}")
  case False
  then show ?thesis by (simp add: calculateNextRun_def setDate_plus MS_PER_DAY_def)
next
  case True
  then consider "kind = ''daily''" | "kind = ''weekly''" | "kind = ''monthly''" by auto
  then show ?thesis
  proof cases
    case 1 then show ?thesis by (simp add: next_daily later_day)
  next
    case 2
    then show ?thesis using assms next_weekly [of r t] by (auto simp: valid_schedule_def intro: later_day)
  next
    case 3
    then have "1 \<le> nullish r 1" using assms by (simp add: valid_schedule_def)
    from next_monthly [OF this, of t] obtain d where d: "calculateNextRun kind r t = d * MS_PER_DAY"
      "month_index d = month_index (day_of t) + (if date_of (day_of t) \<le> month_length (month_index (day_of t) + 1) then 1 else 2)"
      using 3 by auto
    then have "month_index (day_of t) < month_index d" by simp
    then have "day_of t < d" using month_index_le [of d "day_of t"] by (cases "day_of t < d") auto
    then show ?thesis unfolding d(1) by (rule later_day)
  qed
qed

text \<open>C39. When a recurring expense runs next.  In UTC, a daily one runs at the next midnight; a weekly one, for
  a weekday from 0 to 6, at midnight of the next such weekday, within seven days and never today; a
  monthly one, for a day from 1, on the chosen day of a later month, or its last day where the month
  is shorter.  That month is the following one only if it has the day of the month that today is:
  otherwise it is skipped, so from 29 January to 31 January (without a leap day) nothing is
  scheduled for February.  For every such schedule, and a yearly one, the next run lies in the
  future; the service takes other numbers too, and a weekday of -20 gives a run in the past.\<close>

theorem nextRun_calendar:
  assumes "0 \<le> k" "k \<le> 6" "1 \<le> d" "valid_schedule kind r"
  shows "calculateNextRun ''daily'' r t = (day_of t + 1) * MS_PER_DAY \<and>
    (\<exists>n. calculateNextRun ''weekly'' (Some k) t = n * MS_PER_DAY \<and> day_of t < n \<and> n \<le> day_of t + 7 \<and> weekday n = k) \<and>
    (\<exists>n. calculateNextRun ''monthly'' (Some d) t = n * MS_PER_DAY \<and>
      month_index n = month_index (day_of t) + (if date_of (day_of t) \<le> month_length (month_index (day_of t) + 1) then 1 else 2) \<and>
      date_of n = min d (month_length (month_index n))) \<and>
    t < calculateNextRun kind r t"
  using assms next_weekly [of "Some k" t] next_monthly [of "Some d" t] next_later [OF assms(4), of t]
  by (simp add: next_daily)

section \<open>Recurring expenses are created once\<close>

text \<open>What a run of the job relies on and leaves alone.\<close>

definition desk :: "'w office_scheme \<Rightarrow> (nat \<Rightarrow> db_error option) \<times> (nat \<Rightarrow> int) \<times> (nat \<Rightarrow> string) \<times> branch_row list \<times> user_row list" where
  "desk w = (fault w, clock w, uuid w, branches w, users w)"

definition served :: "'w office_scheme \<Rightarrow> template_row \<Rightarrow> bool" where
  "served w te \<longleftrightarrow>
     truthy (map_option b_id (find (\<lambda>b. b_tenant b = te_tenant te \<and> \<not> b_deleted b) (branches w))) \<and>
     truthy (map_option u_id (find (\<lambda>u. u_tenant u = Some (te_tenant te) \<and> (u_role u = ''owner'' \<or> u_role u = ''manager'') \<and>
       \<not> u_deleted u) (users w)))"

definition fresh_from :: "'w office_scheme \<Rightarrow> bool" where
  "fresh_from w \<longleftrightarrow> inj (uuid w) \<and> (\<forall>e\<in>set (expenses w). \<forall>n\<ge>calls w. ex_id e \<noteq> uuid w n)"

definition expense_of :: "template_row \<Rightarrow> expense_row \<Rightarrow> bool" where
  "expense_of te e \<longleftrightarrow> ex_template e = Some (te_id te) \<and> ex_tenant e = te_tenant te \<and> ex_title e = te_name te \<and>
     ex_amount e = nullish (te_amount te) 0 \<and> ex_status e = (if te_pre_approved te then ''approved'' else ''pending'')"

lemma served_desk: "desk v = desk w \<Longrightarrow> served v = served w"
  by (simp add: desk_def served_def fun_eq_iff)

lemma template_run:
  fixes w :: "'w office_scheme"
  assumes "\<forall>n. fault w n = None" "\<forall>n. clock w n = T" "fresh_from w" "served w te"
  shows "\<exists>e w'. process_template te k w = (Inr (k + 1), w') \<and> expense_of te e \<and> desk w' = desk w \<and> fresh_from w' \<and>
    expenses w' = expenses w @ [e] \<and> expense_templates w' = update_where (\<lambda>r. te_id r = te_id te)
      (\<lambda>r. r\<lparr>te_next := Some (calculateNextRun (te_recurrence te) (te_day te) T)\<rparr>) (expense_templates w)"
proof -
  have f: "fault w n = None" "clock w n = T" for n using assms(1,2) by auto
  obtain b u where bu: "find (\<lambda>b. b_tenant b = te_tenant te \<and> \<not> b_deleted b) (branches w) = Some b" "b_id b \<noteq> []"
    "find (\<lambda>u. u_tenant u = Some (te_tenant te) \<and> (u_role u = ''owner'' \<or> u_role u = ''manager'') \<and> \<not> u_deleted u) (users w) = Some u"
    "u_id u \<noteq> []"
    using assms(4) by (auto simp: served_def truthy_def split: option.splits)
  define e where "e = recurring_row te (b_id b) (u_id u) T (uuid w (Suc (Suc (calls w))))"
  have ok: "expense_check (expenses w) e = None" "expense_of te e" "ex_id e = uuid w (Suc (Suc (calls w)))"
    using assms(3)
    by (auto simp: e_def recurring_row_def expense_check_def expense_statuses_def expense_types_def fresh_from_def expense_of_def)
  let ?w = "w\<lparr>expense_templates := update_where (\<lambda>r. te_id r = te_id te)
      (\<lambda>r. r\<lparr>te_next := Some (calculateNextRun (te_recurrence te) (te_day te) T)\<rparr>) (expense_templates w),
      expenses := expenses w @ [e], calls := Suc (Suc (Suc (Suc (calls w))))\<rparr>"
  have "process_template te k w = (Inr (k + 1), ?w)"
    by (simp add: process_template_def first_branch_def first_manager_def orElse_def query_def exec_def now_def io_defs Let_def f bu
        insert_expense_def fresh_id_def ok(1) e_def [symmetric])
  moreover have "fresh_from ?w"
    using assms(3) ok(3) by (auto simp: fresh_from_def inj_eq)
  ultimately show ?thesis using ok(2) by (intro exI [of _ e] exI [of _ ?w]) (simp add: desk_def)
qed

lemma template_skip:
  fixes w :: "'w office_scheme"
  assumes "\<forall>n. fault w n = None" "\<not> served w te" "fresh_from w"
  shows "\<exists>w'. process_template te k w = (Inr k, w') \<and> desk w' = desk w \<and> fresh_from w' \<and> expenses w' = expenses w \<and>
    expense_templates w' = expense_templates w"
proof -
  have f: "fault w n = None" for n using assms(1) by auto
  let ?run = "process_template te k w"
  have "?run = (Inr k, w\<lparr>calls := Suc (calls w)\<rparr>) \<or> ?run = (Inr k, w\<lparr>calls := Suc (Suc (calls w))\<rparr>)"
    using assms(2) by (auto simp: process_template_def first_branch_def first_manager_def orElse_def query_def exec_def io_defs Let_def f
        served_def)
  then have "\<exists>n\<ge>calls w. ?run = (Inr k, w\<lparr>calls := n\<rparr>)"
    by (elim disjE) (auto intro: exI [of _ "Suc (calls w)"] exI [of _ "Suc (Suc (calls w))"])
  then obtain n where "n \<ge> calls w" "?run = (Inr k, w\<lparr>calls := n\<rparr>)" by blast
  then show ?thesis using assms(3) by (intro exI [of _ "w\<lparr>calls := n\<rparr>"]) (auto simp: desk_def fresh_from_def)
qed

text \<open>The templates after a run: the served ones are due later, the others are as before.\<close>

definition rescheduled :: "int \<Rightarrow> string set \<Rightarrow> template_row list \<Rightarrow> template_row list \<Rightarrow> bool" where
  "rescheduled T ids rs rs' \<longleftrightarrow> (\<forall>r\<in>set rs'. (r \<in> set rs \<and> te_id r \<notin> ids) \<or> (\<exists>n>T. te_next r = Some n))"

lemma rescheduled_step:
  "rescheduled T ids rs rs' \<Longrightarrow> T < n \<Longrightarrow>
   rescheduled T (insert i ids) rs (update_where (\<lambda>r. te_id r = i) (\<lambda>r. r\<lparr>te_next := Some n\<rparr>) rs')"
  by (auto simp: rescheduled_def set_update_where)

lemma templates_run:
  fixes w :: "'w office_scheme"
  assumes "\<forall>n. fault w n = None" "\<forall>n. clock w n = T" "fresh_from w"
    and "\<forall>te\<in>set ts. served w te \<longrightarrow> valid_schedule (te_recurrence te) (te_day te)" "rescheduled T ids rs (expense_templates w)"
  shows "\<exists>es w'. foldE ts k (\<lambda>created te. catchE (process_template te created) (\<lambda>_. ret created)) w =
      (Inr (k + length (filter (served w) ts)), w') \<and> desk w' = desk w \<and> fresh_from w' \<and>
    expenses w' = expenses w @ es \<and> list_all2 expense_of (filter (served w) ts) es \<and>
    rescheduled T (ids \<union> te_id ` set (filter (served w) ts)) rs (expense_templates w')"
  using assms
proof (induction ts arbitrary: k w ids)
  case Nil
  then show ?case by (intro exI [of _ "[]"] exI [of _ w]) (simp add: ret_def)
next
  case (Cons te ts)
  let ?f = "\<lambda>created te. catchE (process_template te created) (\<lambda>_. ret created)"
  have step: "foldE (te # ts) k ?f w = foldE ts k' ?f v" if "process_template te k w = (Inr k', v)" for k' v
    by (simp add: bindE_def catchE_def that)
  show ?case
  proof (cases "served w te")
    case True
    obtain e v where v: "process_template te k w = (Inr (k + 1), v)" "expense_of te e" "desk v = desk w" "fresh_from v"
      "expenses v = expenses w @ [e]" "expense_templates v = update_where (\<lambda>r. te_id r = te_id te)
        (\<lambda>r. r\<lparr>te_next := Some (calculateNextRun (te_recurrence te) (te_day te) T)\<rparr>) (expense_templates w)"
      using template_run [OF Cons.prems(1-3) True, of k] by blast
    have env: "\<forall>n. fault v n = None" "\<forall>n. clock v n = T" using v(3) Cons.prems(1,2) by (simp_all add: desk_def)
    have "rescheduled T (insert (te_id te) ids) rs (expense_templates v)"
      unfolding v(6) using Cons.prems(4,5) True by (intro rescheduled_step next_later) simp_all
    from Cons.IH [OF env v(4) _ this, of "k + 1"] Cons.prems(4) served_desk [OF v(3)]
    obtain es w' where w': "foldE ts (k + 1) ?f v = (Inr (k + 1 + length (filter (served w) ts)), w')" "desk w' = desk v"
      "fresh_from w'" "expenses w' = expenses v @ es" "list_all2 expense_of (filter (served w) ts) es"
      "rescheduled T (insert (te_id te) ids \<union> te_id ` set (filter (served w) ts)) rs (expense_templates w')" by auto
    show ?thesis
      using step [OF v(1)] w' v(2,3,5) True by (intro exI [of _ "e # es"] exI [of _ w']) simp
  next
    case False
    obtain v where v: "process_template te k w = (Inr k, v)" "desk v = desk w" "fresh_from v" "expenses v = expenses w"
      "expense_templates v = expense_templates w"
      using template_skip [OF Cons.prems(1) False Cons.prems(3), of k] by blast
    have env: "\<forall>n. fault v n = None" "\<forall>n. clock v n = T" using v(2) Cons.prems(1,2) by (simp_all add: desk_def)
    from Cons.IH [OF env v(3), of ids k] Cons.prems(4,5) served_desk [OF v(2)] v(5)
    obtain es w' where w': "foldE ts k ?f v = (Inr (k + length (filter (served w) ts)), w')" "desk w' = desk v"
      "fresh_from w'" "expenses w' = expenses v @ es" "list_all2 expense_of (filter (served w) ts) es"
      "rescheduled T (ids \<union> te_id ` set (filter (served w) ts)) rs (expense_templates w')" by auto
    show ?thesis
      using step [OF v(1)] w' v(2,4) False by (intro exI [of _ es] exI [of _ w']) simp
  qed
qed

lemma recurring_run:
  fixes w :: "'w office_scheme"
  assumes "\<forall>n. fault w n = None" "\<forall>n. clock w n = T" "fresh_from w"
    and "\<forall>te\<in>set (expense_templates w). template_due T te \<and> served w te \<longrightarrow> valid_schedule (te_recurrence te) (te_day te)"
  defines "due \<equiv> filter (\<lambda>te. template_due T te \<and> served w te) (expense_templates w)"
  shows "\<exists>es w'. processRecurringExpenses w = (Inr (length due), w') \<and> desk w' = desk w \<and> fresh_from w' \<and>
    expenses w' = expenses w @ es \<and> list_all2 expense_of due es \<and>
    rescheduled T (te_id ` set due) (expense_templates w) (expense_templates w')"
proof -
  let ?v = "w\<lparr>calls := Suc (calls w)\<rparr>"
  let ?ts = "filter (template_due T) (expense_templates w)"
  have f: "fault w n = None" "clock w n = T" for n using assms(1,2) by auto
  have run: "processRecurringExpenses w = foldE ?ts 0 (\<lambda>created te. catchE (process_template te created) (\<lambda>_. ret created)) ?v"
    by (simp add: processRecurringExpenses_def now_def query_def exec_def Let_def gets_def bindE_def f)
  have same: "served ?v = served w" "desk ?v = desk w" by (auto simp: served_def desk_def)
  have "fresh_from ?v" using assms(3) by (auto simp: fresh_from_def)
  from templates_run [of ?v T ?ts "{}" "expense_templates w" 0, OF _ _ this] assms(1,2,4) same
  show ?thesis
    unfolding run due_def same by (simp add: rescheduled_def filter_filter conj_commute)
qed

text \<open>C38. Each due template gives one expense, once.  If no call fails, the clock stands still during the
  run, new identifiers are unused, and every template has a valid schedule (a weekday from 0 to 6, a
  day of the month from 1), the nightly job adds exactly one expense for every due template whose
  tenant has a branch and an owner or manager, in the order of the templates, with the template's
  title and amount, approved if and only if the template is pre-approved, and returns their
  number.  Run again at the same time, without failing calls, it creates nothing.\<close>

theorem recurring_once:
  fixes w :: "'w office_scheme"
  assumes "\<forall>n. fault w n = None" "\<forall>n. clock w n = T" "fresh_from w"
    and "\<forall>te\<in>set (expense_templates w). valid_schedule (te_recurrence te) (te_day te)"
  shows "\<exists>es w'. processRecurringExpenses w =
      (Inr (length (filter (\<lambda>te. template_due T te \<and> served w te) (expense_templates w))), w') \<and>
    expenses w' = expenses w @ es \<and>
    list_all2 expense_of (filter (\<lambda>te. template_due T te \<and> served w te) (expense_templates w)) es \<and>
    (\<exists>w''. processRecurringExpenses w' = (Inr 0, w'') \<and> expenses w'' = expenses w')"
proof -
  obtain es w' where r: "processRecurringExpenses w =
      (Inr (length (filter (\<lambda>te. template_due T te \<and> served w te) (expense_templates w))), w')" "desk w' = desk w" "fresh_from w'"
    "expenses w' = expenses w @ es"
    "list_all2 expense_of (filter (\<lambda>te. template_due T te \<and> served w te) (expense_templates w)) es"
    "rescheduled T (te_id ` set (filter (\<lambda>te. template_due T te \<and> served w te) (expense_templates w)))
      (expense_templates w) (expense_templates w')"
    using recurring_run [OF assms(1-3)] assms(4) by blast
  have none: "filter (\<lambda>te. template_due T te \<and> served w' te) (expense_templates w') = []"
    using r(6) by (fastforce simp: filter_empty_conv rescheduled_def served_desk [OF r(2)] template_due_def)
  have env: "\<forall>n. fault w' n = None" "\<forall>n. clock w' n = T" using r(2) assms(1,2) by (simp_all add: desk_def)
  have "\<forall>te\<in>set (expense_templates w'). template_due T te \<and> served w' te \<longrightarrow> valid_schedule (te_recurrence te) (te_day te)"
    using none by (auto simp: filter_empty_conv)
  from recurring_run [OF env r(3) this] show ?thesis using r(1,4,5) unfolding none by auto
qed

section \<open>Concrete runs\<close>

text \<open>Rent, due on 31 January 2023, with the templates' other tenant left without a branch.\<close>

definition demo_template :: "string \<Rightarrow> string \<Rightarrow> template_row" where
  "demo_template i t = \<lparr>te_id = i, te_tenant = t, te_name = ''Rent'', te_amount = Some 500, te_hours = 24, te_photo = False,
     te_active = True, te_pre_approved = True, te_recurrence = ''monthly'', te_day = Some 31, te_next = Some 0, te_deleted = False\<rparr>"

definition demo_now :: int where
  "demo_now = 19388 * 86400000"

definition demo_office :: office where
  "demo_office = pos.extend (demo_pos\<lparr>clock := \<lambda>_. demo_now, uuid := \<lambda>n. replicate n CHR ''x'',
       branches := [\<lparr>b_id = ''b'', b_tenant = ''t'', b_deleted = False, b_warehouse = None\<rparr>],
       users := [\<lparr>u_id = ''u'', u_tenant = Some ''t'', u_role = ''owner'', u_role_id = None, u_deleted = False\<rparr>]\<rparr>)
     \<lparr>expense_categories = [], expense_templates = [demo_template ''te1'' ''t'', demo_template ''te2'' ''s'']\<rparr>"

lemmas demo_office_defs = demo_office_def demo_pos_def demo_shop_def catalog.defs pos.defs

theorem nextRun_calendar_witness:
  "\<exists>n. calculateNextRun ''monthly'' (Some 31) demo_now = n * MS_PER_DAY \<and> month_index n = 12 * 2023 + 2 \<and> date_of n = 31"
proof -
  have "month_index (day_of demo_now) = 12 * 2023" "date_of (day_of demo_now) = 31" "month_length 24277 = 28"
    "month_length 24278 = 31" by code_simp+
  note month = this
  have "valid_schedule ''daily'' None" "(0::int) \<le> 0" "(0::int) \<le> 6" "(1::int) \<le> 31" by (simp_all add: valid_schedule_def)
  from nextRun_calendar [OF this(2-4,1), of demo_now, THEN conjunct2, THEN conjunct2, THEN conjunct1]
  show ?thesis by (elim exE conjE) (rule exI, intro conjI, assumption, simp_all add: month)
qed

theorem expenses_refine_witness:
  "life\<^sup>*\<^sup>* Map.empty (status_of (expenses (snd (processRecurringExpenses demo_office))))"
proof -
  have "expense_step demo_office (snd (processRecurringExpenses demo_office))"
    by (rule expense_step.intros(6)) (rule surjective_pairing)
  moreover have "expenses demo_office = []" by (simp add: demo_office_defs)
  ultimately show ?thesis
    using expenses_refine [OF r_into_rtranclp, of demo_office "snd (processRecurringExpenses demo_office)"]
    by (simp add: status_of_def)
qed

theorem recurring_once_witness:
  "\<exists>e w'. processRecurringExpenses demo_office = (Inr 1, w') \<and> expenses w' = [e] \<and> ex_title e = ''Rent'' \<and> ex_status e = ''approved'' \<and>
     (\<exists>w''. processRecurringExpenses w' = (Inr 0, w'') \<and> expenses w'' = [e])"
proof -
  have "inj (\<lambda>n. replicate n CHR ''x'')" by (rule injI) (metis length_replicate)
  then have "fresh_from demo_office" by (simp add: fresh_from_def demo_office_defs)
  moreover have "filter (\<lambda>te. template_due demo_now te \<and> served demo_office te) (expense_templates demo_office) = [demo_template ''te1'' ''t'']"
    by (simp add: demo_office_defs demo_template_def template_due_def served_def demo_now_def)
  moreover have "expenses demo_office = []" "\<forall>n. fault demo_office n = None" "\<forall>n. clock demo_office n = demo_now"
    "\<forall>te\<in>set (expense_templates demo_office). valid_schedule (te_recurrence te) (te_day te)"
    by (simp_all add: demo_office_defs demo_template_def valid_schedule_def)
  ultimately show ?thesis
    using recurring_once [of demo_office demo_now]
    by (auto simp: list_all2_Cons1 expense_of_def demo_template_def)
qed

end
