(* ===== verification/SqlFunctions.thy ===== *)
theory SqlFunctions
  imports PosTables
begin

text \<open>
  What the stored functions of the warehouse share: a function body in PL/pgSQL, its call through
  \<^verbatim>\<open>supabase.rpc\<close>, the rounding of a \<^verbatim>\<open>NUMERIC\<close> column, and \<^verbatim>\<open>throwFromRpcError\<close>
  (\<^verbatim>\<open>modules/inventory/rpc-error.util.ts\<close>).
\<close>

section \<open>Function bodies\<close>

text \<open>
  A call runs in one transaction: a \<^verbatim>\<open>RAISE EXCEPTION\<close> or a broken constraint ends the function
  and takes back whatever it has written, so an error carries no state.
\<close>

type_synonym ('w, 'a) sql = "'w \<Rightarrow> db_error + 'a \<times> 'w"

definition sret :: "'a \<Rightarrow> ('w, 'a) sql" where
  "sret x = (\<lambda>w. Inr (x, w))"

definition sfail :: "db_error \<Rightarrow> ('w, 'a) sql" where
  "sfail e = (\<lambda>w. Inl e)"

definition sbind :: "('w, 'a) sql \<Rightarrow> ('a \<Rightarrow> ('w, 'b) sql) \<Rightarrow> ('w, 'b) sql" where
  "sbind m f = (\<lambda>w. case m w of Inl e \<Rightarrow> Inl e | Inr (x, w') \<Rightarrow> f x w')"

definition sget :: "('w \<Rightarrow> 'a) \<Rightarrow> ('w, 'a) sql" where
  "sget f = (\<lambda>w. Inr (f w, w))"

definition smodify :: "('w \<Rightarrow> 'w) \<Rightarrow> ('w, unit) sql" where
  "smodify f = (\<lambda>w. Inr ((), f w))"

definition raise :: "string \<Rightarrow> db_error" where
  "raise m = \<lparr>code = Some ''P0001'', message = m\<rparr>"

definition srequire :: "bool \<Rightarrow> db_error \<Rightarrow> ('w, unit) sql" where
  "srequire c e = (if c then sret () else sfail e)"

primrec sfor :: "'x list \<Rightarrow> ('x \<Rightarrow> ('w, unit) sql) \<Rightarrow> ('w, unit) sql" where
  "sfor [] f = sret ()"
| "sfor (x # xs) f = sbind (f x) (\<lambda>_. sfor xs f)"

text \<open>\<^verbatim>\<open>supabase.rpc\<close>: the error of the function, or of the call, is thrown as it is.\<close>

definition rpc :: "('w net_scheme, 'a) sql \<Rightarrow> ('w net_scheme, 'a) io" where
  "rpc f = orThrow (exec (\<lambda>w. case f w of Inl e \<Rightarrow> (Inl e, w) | Inr (x, w') \<Rightarrow> (Inr x, w')))"

definition sql_now :: "'w net_scheme \<Rightarrow> int" where
  "sql_now w = clock w (calls w - 1)"

section \<open>NUMERIC columns\<close>

text \<open>Rounding to \<open>k\<close> decimals, ties away from zero.\<close>

definition pg_round :: "nat \<Rightarrow> rat \<Rightarrow> rat" where
  "pg_round k x = (let r = of_int \<lfloor>\<bar>x\<bar> * 10 ^ k + 1 / 2\<rfloor> / 10 ^ k in if x < 0 then - r else r)"

abbreviation numeric4 :: "rat \<Rightarrow> rat" where "numeric4 \<equiv> pg_round 4"

definition numeric_overflow :: db_error where
  "numeric_overflow = \<lparr>code = Some ''22003'', message = ''numeric field overflow''\<rparr>"

text \<open>A value with at most four decimals.\<close>

definition on_grid :: "rat \<Rightarrow> bool" where
  "on_grid x \<longleftrightarrow> of_int \<lfloor>x * 10000\<rfloor> = x * 10000"

lemma on_gridI: "x * 10000 = of_int k \<Longrightarrow> on_grid x"
  by (simp add: on_grid_def)

lemma on_gridE: assumes "on_grid x" obtains k where "x * 10000 = of_int k"
  using assms by (metis on_grid_def)

lemma on_grid_0 [simp]: "on_grid 0"
  by (simp add: on_grid_def)

lemma on_grid_add: "on_grid x \<Longrightarrow> on_grid y \<Longrightarrow> on_grid (x + y)"
proof -
  assume "on_grid x" "on_grid y"
  then obtain k l where "x * 10000 = of_int k" "y * 10000 = of_int l" by (elim on_gridE)
  then show ?thesis by (intro on_gridI [of _ "k + l"]) (simp add: distrib_right)
qed

lemma on_grid_minus: "on_grid x \<Longrightarrow> on_grid (- x)"
proof -
  assume "on_grid x"
  then obtain k where "x * 10000 = of_int k" by (elim on_gridE)
  then show ?thesis by (intro on_gridI [of _ "- k"]) simp
qed

lemma on_grid_diff: "on_grid x \<Longrightarrow> on_grid y \<Longrightarrow> on_grid (x - y)"
  using on_grid_add [of x "- y"] on_grid_minus [of y] by simp

lemma on_grid_min: "on_grid x \<Longrightarrow> on_grid y \<Longrightarrow> on_grid (min x y)"
  by (simp add: min_def)

lemma on_grid_max: "on_grid x \<Longrightarrow> on_grid y \<Longrightarrow> on_grid (max x y)"
  by (simp add: max_def)

lemma on_grid_abs: "on_grid x \<Longrightarrow> on_grid \<bar>x\<bar>"
  by (simp add: abs_if on_grid_minus)

lemma floor_half: "\<lfloor>(of_int k :: rat) + 1 / 2\<rfloor> = k"
  by linarith

lemma numeric4_grid [simp]: assumes "on_grid x" shows "numeric4 x = x"
proof -
  obtain k where k: "\<bar>x\<bar> * 10000 = of_int k" using on_grid_abs [OF assms] by (rule on_gridE)
  have "\<lfloor>\<bar>x\<bar> * 10000 + 1 / 2\<rfloor> = k" unfolding k by (rule floor_half)
  then show ?thesis using k by (auto simp: pg_round_def Let_def)
qed

lemma on_grid_numeric4 [simp]: "on_grid (numeric4 x)"
proof -
  have "on_grid (of_int n / 10000)" for n by (rule on_gridI [of _ n]) simp
  from this [of "\<lfloor>\<bar>x\<bar> * 10000 + 1 / 2\<rfloor>"] on_grid_minus [OF this] show ?thesis
    by (auto simp: pg_round_def Let_def)
qed

lemma pg_round_near: "\<bar>pg_round k x - x\<bar> \<le> 1 / (2 * 10 ^ k)"
proof -
  define y where "y = \<bar>x\<bar> * 10 ^ k"
  have "\<bar>of_int \<lfloor>y + 1 / 2\<rfloor> - y\<bar> \<le> 1 / 2" by linarith
  then have "\<bar>of_int \<lfloor>y + 1 / 2\<rfloor> / 10 ^ k - \<bar>x\<bar>\<bar> \<le> 1 / (2 * 10 ^ k)"
    unfolding y_def by (simp add: field_simps abs_le_iff)
  then show ?thesis unfolding pg_round_def Let_def y_def by (auto simp: abs_if split: if_splits)
qed

lemma pg_round_mono_0: "0 \<le> x \<Longrightarrow> 0 \<le> pg_round k x"
  by (simp add: pg_round_def Let_def)

section \<open>throwFromRpcError\<close>

fun has_text :: "string \<Rightarrow> string \<Rightarrow> bool" where
  "has_text t [] = (t = [])"
| "has_text t (c # cs) = (take (length t) (c # cs) = t \<or> has_text t cs)"

fun exn_message :: "exn \<Rightarrow> string" where
  "exn_message (Http _ m _) = m"
| "exn_message (Db e) = message e"
| "exn_message (Err m) = m"

definition rpc_error :: "exn \<Rightarrow> exn" where
  "rpc_error e = (let m = exn_message e in
     if has_text ''INSUFFICIENT_STOCK'' m \<or> has_text ''INSUFFICIENT_COST_LAYERS'' m then Http Conflict m []
     else if has_text ''not found'' m then not_found m
     else if has_text ''is not in draft status'' m \<or> has_text ''is not in_transit'' m \<or> has_text ''is not active'' m \<or>
       has_text ''cannot be posted'' m \<or> has_text ''requires approval'' m \<or> has_text ''invalid'' m then bad_request m
     else bad_request m)"

definition throwFromRpcError :: "exn \<Rightarrow> ('w, 'a) io" where
  "throwFromRpcError e = throw (rpc_error e)"

lemma has_text_prefix: "has_text t (t @ s)"
proof (cases "t @ s")
  case (Cons c cs)
  have "take (length t) (t @ s) = t" by simp
  then show ?thesis unfolding Cons by simp
qed simp

section \<open>Reasoning about function bodies\<close>

named_theorems sql_rules \<open>equations that push a postcondition through a function body\<close>
named_theorems sql_keep \<open>introduction rules for invariants of function bodies\<close>

text \<open>\<open>sok m Q w\<close>: if \<open>m\<close> returns from \<open>w\<close>, its result and state satisfy \<open>Q\<close>; on an error nothing is written.\<close>

definition sok :: "('w, 'a) sql \<Rightarrow> ('a \<Rightarrow> 'w \<Rightarrow> bool) \<Rightarrow> 'w \<Rightarrow> bool" where
  "sok m Q w \<longleftrightarrow> (case m w of Inl e \<Rightarrow> True | Inr (x, w') \<Rightarrow> Q x w')"

lemma sok_sret [sql_rules]: "sok (sret x) Q = Q x"
  and sok_sfail [sql_rules]: "sok (sfail e) Q = (\<lambda>w. True)"
  and sok_sget [sql_rules]: "sok (sget f) Q = (\<lambda>w. Q (f w) w)"
  and sok_smodify [sql_rules]: "sok (smodify g) R = (\<lambda>w. R () (g w))"
  by (simp_all add: sok_def sret_def sfail_def sget_def smodify_def fun_eq_iff)

lemma sok_sbind [sql_rules]: "sok (sbind m f) Q = sok m (\<lambda>x. sok (f x) Q)"
  by (rule ext) (auto simp: sok_def sbind_def split: sum.splits prod.splits)

lemma sok_srequire [sql_rules]: "sok (srequire c e) Q = (\<lambda>w. c \<longrightarrow> Q () w)"
  by (rule ext) (simp add: srequire_def sql_rules)

lemma sok_if [sql_rules]: "sok (if c then m else n) Q = (\<lambda>w. if c then sok m Q w else sok n Q w)"
  by simp

lemma sok_case_option [sql_rules]:
  "sok (case v of None \<Rightarrow> m | Some x \<Rightarrow> f x) Q = (\<lambda>w. case v of None \<Rightarrow> sok m Q w | Some x \<Rightarrow> sok (f x) Q w)"
  by (simp split: option.splits)

lemma sok_case_prod [sql_rules]:
  "sok (case v of (a, b) \<Rightarrow> h a b) Q = (\<lambda>w. case v of (a, b) \<Rightarrow> sok (h a b) Q w)"
  by (simp split: prod.splits)

lemma sok_mono: "sok m Q w \<Longrightarrow> (\<And>x v. Q x v \<Longrightarrow> R x v) \<Longrightarrow> sok m R w"
  by (auto simp: sok_def split: sum.splits prod.splits)

lemma sok_conj: "sok m Q w \<Longrightarrow> sok m R w \<Longrightarrow> sok m (\<lambda>x v. Q x v \<and> R x v) w"
  by (auto simp: sok_def split: sum.splits prod.splits)

lemma sokD: "sok m Q w \<Longrightarrow> m w = Inr (x, w') \<Longrightarrow> Q x w'"
  by (simp add: sok_def)

definition skeeps :: "('w \<Rightarrow> bool) \<Rightarrow> ('w, 'a) sql \<Rightarrow> bool" where
  "skeeps J m \<longleftrightarrow> (\<forall>w. J w \<longrightarrow> sok m (\<lambda>_. J) w)"

lemma skeepsD: "skeeps J m \<Longrightarrow> J w \<Longrightarrow> sok m (\<lambda>_. J) w"
  by (simp add: skeeps_def)

lemma skeeps_basic [sql_keep]: "skeeps J (sret x)" "skeeps J (sfail e)" "skeeps J (sget f)" "skeeps J (srequire c e)"
  by (simp_all add: skeeps_def sql_rules)

lemma skeeps_sbind [sql_keep]: "skeeps J m \<Longrightarrow> (\<And>x. skeeps J (f x)) \<Longrightarrow> skeeps J (sbind m f)"
  by (auto simp: skeeps_def sql_rules elim!: sok_mono dest: spec)

lemma skeeps_smodify: "(\<And>w. J w \<Longrightarrow> J (f w)) \<Longrightarrow> skeeps J (smodify f)"
  by (simp add: skeeps_def sql_rules)

lemma skeeps_if [sql_keep]: "(c \<Longrightarrow> skeeps J m) \<Longrightarrow> (\<not> c \<Longrightarrow> skeeps J n) \<Longrightarrow> skeeps J (if c then m else n)"
  by simp

lemma skeeps_case_option [sql_keep]:
  "(v = None \<Longrightarrow> skeeps J m) \<Longrightarrow> (\<And>x. v = Some x \<Longrightarrow> skeeps J (g x)) \<Longrightarrow> skeeps J (case v of None \<Rightarrow> m | Some x \<Rightarrow> g x)"
  by (simp split: option.splits)

lemma skeeps_case_prod [sql_keep]:
  "(\<And>a b. v = (a, b) \<Longrightarrow> skeeps J (h a b)) \<Longrightarrow> skeeps J (case v of (a, b) \<Rightarrow> h a b)"
  by (simp split: prod.splits)

lemma skeeps_sfor [sql_keep]: "(\<And>x. x \<in> set xs \<Longrightarrow> skeeps J (f x)) \<Longrightarrow> skeeps J (sfor xs f)"
  by (induction xs) (auto intro!: sql_keep)

text \<open>Through \<^verbatim>\<open>rpc\<close> the invariant holds on every path: an error leaves the tables as they were.\<close>

lemma wp_rpc [wp_rules]:
  "wp (rpc f) Q E = (\<lambda>w. let v = w\<lparr>calls := Suc (calls w)\<rparr> in case fault w (calls w) of
     Some e \<Rightarrow> E (Db e) v
   | None \<Rightarrow> (case f v of Inl e \<Rightarrow> E (Db e) v | Inr (x, v') \<Rightarrow> Q x v'))"
  by (rule ext) (simp add: rpc_def wp_rules Let_def split: option.split sum.split prod.split)

lemma wp_rpc_sok:
  fixes w :: "'w net_scheme"
  assumes "sok f Q (w\<lparr>calls := Suc (calls w)\<rparr>)" "\<And>e. E (Db e) (w\<lparr>calls := Suc (calls w)\<rparr>)"
  shows "wp (rpc f) Q E w"
  using assms by (auto simp: wp_rules Let_def sok_def split: option.split sum.split prod.split)

lemma preserves_rpc:
  assumes "skeeps J f" "\<And>w n. J (w\<lparr>calls := n\<rparr>) = J w"
  shows "preserves J (rpc f)"
  unfolding preserves_def using assms by (auto intro!: wp_rpc_sok dest: skeepsD)

lemmas sql_defs = sret_def sfail_def sbind_def sget_def smodify_def srequire_def

end
