(* ===== verification/Stock.thy ===== *)
theory Stock
  imports SqlFunctions
begin

text \<open>
  The inventory ledger (migrations 017, 104, 105, 111, 163, 164): stock levels per stocking point,
  the append-only movements, cost layers, backorders, and the stored functions that every stock
  operation goes through.  A level is a projection of the movements: the main invariant says that
  the quantity on hand of every point is what went in less what went out.
\<close>

section \<open>Tables\<close>

record point =
  pt_tenant :: string
  pt_warehouse :: string
  pt_location :: "string option"
  pt_item :: string
  pt_variant :: "string option"
  pt_batch :: "string option"

record stock_level =
  sl_point :: point
  sl_on_hand :: number
  sl_reserved :: number
  sl_damaged :: number
  sl_expired :: number
  sl_held :: number
  sl_backorder :: number
  sl_version :: nat

record stock_movement =
  mv_id :: string
  mv_point :: point
  mv_type :: string
  mv_direction :: string
  mv_quantity :: number
  mv_unit_cost :: number
  mv_total_cost :: number
  mv_before :: number
  mv_after :: number
  mv_ref_type :: string
  mv_ref :: "string option"
  mv_by :: "string option"

record cost_layer =
  cl_id :: string
  cl_tenant :: string
  cl_warehouse :: string
  cl_item :: string
  cl_variant :: "string option"
  cl_batch :: "string option"
  cl_source :: "string option"
  cl_unit_cost :: number
  cl_received_qty :: number
  cl_remaining :: number
  cl_received_at :: int

record backorder =
  bo_id :: string
  bo_tenant :: string
  bo_warehouse :: string
  bo_item :: string
  bo_variant :: "string option"
  bo_order :: "string option"
  bo_quantity :: number
  bo_fulfilled :: number
  bo_status :: string
  bo_created :: int
  bo_fulfilled_at :: "int option"

record batch =
  ib_id :: string
  ib_tenant :: string
  ib_item :: string
  ib_variant :: "string option"
  ib_number :: "string option"
  ib_expires :: "int option"

record item_serial =
  is_id :: string
  is_tenant :: string
  is_item :: string
  is_variant :: "string option"
  is_batch :: "string option"
  is_warehouse :: "string option"
  is_number :: string
  is_unit_cost :: "number option"

text \<open>The columns of \<^verbatim>\<open>items\<close> that the functions read; a missing item has only nulls.\<close>

record costing =
  co_method :: "string option"
  co_standard :: "number option"
  co_price :: "number option"
  co_inventory :: "bool option"

text \<open>
  \<open>row_uuid n\<close> is the identifier of the \<open>n\<close>-th row that the stored functions insert, and
  \<open>pg_text\<close> how Postgres prints a number in a message; both are arbitrary.  Of a domain event the
  outbox keeps the type and the identifier of the aggregate.
\<close>

record stockroom = pos +
  stock_levels :: "stock_level list"
  stock_movements :: "stock_movement list"
  cost_layers :: "cost_layer list"
  backorders :: "backorder list"
  batches :: "batch list"
  serials :: "item_serial list"
  outbox :: "(string \<times> string) list"
  costings :: "string \<Rightarrow> costing"
  row_uuid :: "nat \<Rightarrow> string"
  row_count :: nat
  pg_text :: "number \<Rightarrow> string"

definition new_row_id :: "('w stockroom_scheme, string) sql" where
  "new_row_id = (\<lambda>w. Inr (row_uuid w (row_count w), w\<lparr>row_count := Suc (row_count w)\<rparr>))"

definition emit_domain_event :: "string \<Rightarrow> string \<Rightarrow> ('w stockroom_scheme, unit) sql" where
  "emit_domain_event kind i = smodify (\<lambda>w. w\<lparr>outbox := outbox w @ [(kind, i)]\<rparr>)"

section \<open>Constraints\<close>

definition unsellable :: "stock_level \<Rightarrow> number" where
  "unsellable l = sl_reserved l + sl_damaged l + sl_expired l + sl_held l"

definition available :: "stock_level \<Rightarrow> number" where
  "available l = sl_on_hand l - sl_reserved l - sl_damaged l - sl_expired l - sl_held l"

definition level_quantities :: "stock_level \<Rightarrow> number list" where
  "level_quantities l = [sl_on_hand l, sl_reserved l, sl_damaged l, sl_expired l, sl_held l, sl_backorder l]"

definition level_check :: "stock_level \<Rightarrow> db_error option" where
  "level_check l =
     (if \<exists>q\<in>set (level_quantities l). 10 ^ 10 \<le> \<bar>q\<bar> then Some numeric_overflow
      else if (\<exists>q\<in>set (level_quantities l). q < 0) \<or> sl_on_hand l < unsellable l then Some check_violation
      else None)"

definition movement_types :: "string list" where
  "movement_types = [''receipt'', ''sale'', ''sale_return'', ''adjustment_in'', ''adjustment_out'', ''transfer_out'',
     ''transfer_in'', ''count_correction_in'', ''count_correction_out'', ''purchase_return'', ''damage'', ''expiry'',
     ''production_consumption'', ''production_receipt'', ''production_scrap'', ''subcontract_out'', ''subcontract_in'',
     ''quality_hold'', ''quality_release'']"

definition movement_check :: "stock_movement \<Rightarrow> db_error option" where
  "movement_check m =
     (if 10 ^ 10 \<le> \<bar>mv_quantity m\<bar> \<or> 10 ^ 10 \<le> \<bar>mv_unit_cost m\<bar> \<or> 10 ^ 12 \<le> \<bar>mv_total_cost m\<bar> then Some numeric_overflow
      else if mv_type m \<notin> set movement_types \<or> mv_direction m \<notin> {''in'', ''out''} \<or> mv_quantity m \<le> 0 \<or>
        mv_unit_cost m < 0 then Some check_violation
      else None)"

definition layer_check :: "cost_layer \<Rightarrow> db_error option" where
  "layer_check c =
     (if 10 ^ 10 \<le> \<bar>cl_unit_cost c\<bar> \<or> 10 ^ 10 \<le> \<bar>cl_received_qty c\<bar> \<or> 10 ^ 10 \<le> \<bar>cl_remaining c\<bar> then Some numeric_overflow
      else if cl_unit_cost c < 0 \<or> cl_received_qty c \<le> 0 \<or> cl_remaining c < 0 then Some check_violation
      else None)"

definition backorder_check :: "backorder \<Rightarrow> db_error option" where
  "backorder_check b =
     (if 10 ^ 10 \<le> \<bar>bo_quantity b\<bar> \<or> 10 ^ 10 \<le> \<bar>bo_fulfilled b\<bar> then Some numeric_overflow
      else if bo_quantity b \<le> 0 \<or> bo_fulfilled b < 0 \<or> bo_quantity b < bo_fulfilled b then Some check_violation
      else None)"

definition checked :: "db_error option \<Rightarrow> ('w, 'a) sql \<Rightarrow> ('w, 'a) sql" where
  "checked c m = (case c of Some e \<Rightarrow> sfail e | None \<Rightarrow> m)"

section \<open>Stock levels\<close>

definition empty_level :: "point \<Rightarrow> stock_level" where
  "empty_level p = \<lparr>sl_point = p, sl_on_hand = 0, sl_reserved = 0, sl_damaged = 0, sl_expired = 0, sl_held = 0,
     sl_backorder = 0, sl_version = 0\<rparr>"

definition level_at :: "stock_level list \<Rightarrow> point \<Rightarrow> stock_level option" where
  "level_at ls p = find (\<lambda>l. sl_point l = p) ls"

definition lock_or_create :: "point \<Rightarrow> ('w stockroom_scheme, stock_level) sql" where
  "lock_or_create p = sbind (sget (\<lambda>w. level_at (stock_levels w) p)) (\<lambda>found. case found of
     Some l \<Rightarrow> sret l
   | None \<Rightarrow> sbind (smodify (\<lambda>w. w\<lparr>stock_levels := stock_levels w @ [empty_level p]\<rparr>)) (\<lambda>_. sret (empty_level p)))"

text \<open>An \<^verbatim>\<open>UPDATE\<close> of the locked row; it returns the row it has written.\<close>

definition put_level :: "stock_level \<Rightarrow> ('w stockroom_scheme, stock_level) sql" where
  "put_level l = checked (level_check l) (sbind (smodify (\<lambda>w.
     w\<lparr>stock_levels := update_where (\<lambda>k. sl_point k = sl_point l) (\<lambda>_. l) (stock_levels w)\<rparr>)) (\<lambda>_. sret l))"

section \<open>fn_apply_stock_movement\<close>

record move =
  mp_point :: point
  mp_type :: string
  mp_direction :: string
  mp_quantity :: number
  mp_unit_cost :: "number option"
  mp_ref_type :: string
  mp_ref :: "string option"
  mp_by :: "string option"
  mp_negative :: bool
  mp_backorder :: bool

definition insufficient_stock :: "'w stockroom_scheme \<Rightarrow> move \<Rightarrow> stock_level \<Rightarrow> db_error" where
  "insufficient_stock w p l = raise (''INSUFFICIENT_STOCK: available '' @ pg_text w (available l) @ '' requested '' @
     pg_text w (mp_quantity p) @ '' (item='' @ pt_item (mp_point p) @ '' warehouse='' @ pt_warehouse (mp_point p) @ '')'')"

definition raise_insufficient :: "move \<Rightarrow> stock_level \<Rightarrow> ('w stockroom_scheme, 'a) sql" where
  "raise_insufficient p l = sbind (sget (\<lambda>w. insufficient_stock w p l)) sfail"

text \<open>Damaged, expired and held stock stays on hand; it only leaves the available quantity.\<close>

definition reclassify :: "move \<Rightarrow> stock_level \<Rightarrow> ('w stockroom_scheme, stock_level) sql" where
  "reclassify p l =
     (let q = mp_quantity p in
      if \<not> mp_negative p \<and> available l < q then raise_insufficient p l
      else if mp_type p = ''damage'' then
        put_level (l\<lparr>sl_damaged := numeric4 (sl_damaged l + q), sl_version := Suc (sl_version l)\<rparr>)
      else if mp_type p = ''expiry'' then
        put_level (l\<lparr>sl_expired := numeric4 (sl_expired l + q), sl_version := Suc (sl_version l)\<rparr>)
      else put_level (l\<lparr>sl_held := numeric4 (sl_held l + q), sl_version := Suc (sl_version l)\<rparr>))"

definition quality_release :: "move \<Rightarrow> stock_level \<Rightarrow> ('w stockroom_scheme, stock_level) sql" where
  "quality_release p l =
     (let q = mp_quantity p in
      if sl_held l < q then sbind (sget (\<lambda>w. raise (''INSUFFICIENT_HELD_QUANTITY: held '' @ pg_text w (sl_held l) @
        '' requested '' @ pg_text w q @ '' (item='' @ pt_item (mp_point p) @ '' warehouse='' @
        pt_warehouse (mp_point p) @ '')''))) sfail
      else put_level (l\<lparr>sl_held := numeric4 (sl_held l - q), sl_version := Suc (sl_version l)\<rparr>))"

definition insert_backorder :: "move \<Rightarrow> number \<Rightarrow> ('w stockroom_scheme, unit) sql" where
  "insert_backorder p q =
     sbind new_row_id (\<lambda>i.
     sbind (sget (\<lambda>w. sql_now w)) (\<lambda>t.
     let b = \<lparr>bo_id = i, bo_tenant = pt_tenant (mp_point p), bo_warehouse = pt_warehouse (mp_point p),
       bo_item = pt_item (mp_point p), bo_variant = pt_variant (mp_point p), bo_order = mp_ref p,
       bo_quantity = numeric4 q, bo_fulfilled = 0, bo_status = ''open'', bo_created = t, bo_fulfilled_at = None\<rparr> in
     checked (backorder_check b) (smodify (\<lambda>w. w\<lparr>backorders := backorders w @ [b]\<rparr>))))"

text \<open>The outgoing branch: the row written, and the quantity that leaves now.\<close>

definition take_out :: "move \<Rightarrow> stock_level \<Rightarrow> ('w stockroom_scheme, stock_level \<times> number) sql" where
  "take_out p l =
     (let q = mp_quantity p;
          out = sbind (put_level (l\<lparr>sl_on_hand := numeric4 (sl_on_hand l - q), sl_version := Suc (sl_version l)\<rparr>)) (\<lambda>l'. sret (l', q))
      in if q \<le> available l then out
      else if mp_backorder p then
        let deduct = max (available l) 0; owed = q - deduct in
        sbind (put_level (l\<lparr>sl_on_hand := numeric4 (sl_on_hand l - deduct), sl_backorder := numeric4 (sl_backorder l + owed),
          sl_version := Suc (sl_version l)\<rparr>)) (\<lambda>l'.
        sbind (if mp_ref_type p = ''order'' then insert_backorder p owed else sret ()) (\<lambda>_.
        sret (l', deduct)))
      else if \<not> mp_negative p then raise_insufficient p l
      else out)"

definition open_backorders :: "point \<Rightarrow> backorder list \<Rightarrow> backorder list" where
  "open_backorders p bs = sort_key bo_created (filter (\<lambda>b. bo_tenant b = pt_tenant p \<and> bo_warehouse b = pt_warehouse p \<and>
     bo_item b = pt_item p \<and> bo_variant b = pt_variant p \<and> bo_status b \<in> {''open'', ''partially_fulfilled''}) bs)"

definition fulfil :: "int \<Rightarrow> number \<Rightarrow> backorder \<Rightarrow> backorder" where
  "fulfil t q b = (let f = bo_fulfilled b + q in
     b\<lparr>bo_fulfilled := numeric4 f, bo_status := (if bo_quantity b \<le> f then ''fulfilled'' else ''partially_fulfilled''),
       bo_fulfilled_at := (if bo_quantity b \<le> f then Some t else bo_fulfilled_at b)\<rparr>)"

primrec fulfil_loop :: "backorder list \<Rightarrow> number \<Rightarrow> ('w stockroom_scheme, unit) sql" where
  "fulfil_loop [] left = sret ()"
| "fulfil_loop (b # bs) left =
     (if left \<le> 0 then sret ()
      else let q = min left (bo_quantity b - bo_fulfilled b) in
        sbind (sget (\<lambda>w. sql_now w)) (\<lambda>t.
        sbind (checked (backorder_check (fulfil t q b)) (smodify (\<lambda>w.
          w\<lparr>backorders := update_where (\<lambda>r. bo_id r = bo_id b) (\<lambda>_. fulfil t q b) (backorders w)\<rparr>))) (\<lambda>_.
        fulfil_loop bs (left - q))))"

text \<open>The incoming branch: new stock first reduces what the point owes, oldest open backorder first.\<close>

definition put_in :: "move \<Rightarrow> stock_level \<Rightarrow> ('w stockroom_scheme, stock_level) sql" where
  "put_in p l =
     (let q = mp_quantity p in
      sbind (put_level (l\<lparr>sl_on_hand := numeric4 (sl_on_hand l + q), sl_version := Suc (sl_version l)\<rparr>)) (\<lambda>l'.
      if 0 < sl_backorder l then
        let owed = min q (sl_backorder l) in
        sbind (put_level (l'\<lparr>sl_backorder := numeric4 (sl_backorder l' - owed)\<rparr>)) (\<lambda>_.
        sbind (sget (\<lambda>w. open_backorders (mp_point p) (backorders w))) (\<lambda>bs.
        sbind (fulfil_loop bs owed) (\<lambda>_. sret l')))
      else sret l'))"

definition move_level :: "move \<Rightarrow> stock_level \<Rightarrow> ('w stockroom_scheme, stock_level \<times> number) sql" where
  "move_level p l =
     (if mp_type p \<in> {''damage'', ''expiry'', ''quality_hold''} then sbind (reclassify p l) (\<lambda>l'. sret (l', mp_quantity p))
      else if mp_type p = ''quality_release'' then sbind (quality_release p l) (\<lambda>l'. sret (l', mp_quantity p))
      else if mp_direction p = ''out'' then take_out p l
      else if mp_direction p = ''in'' then sbind (put_in p l) (\<lambda>l'. sret (l', mp_quantity p))
      else sfail (raise (''invalid direction '' @ mp_direction p)))"

definition insert_movement :: "move \<Rightarrow> stock_level \<Rightarrow> stock_level \<times> number \<Rightarrow> ('w stockroom_scheme, stock_movement) sql" where
  "insert_movement p l written = (case written of (l', q) \<Rightarrow> (case mp_unit_cost p of None \<Rightarrow> sfail not_null_violation | Some c \<Rightarrow>
     sbind new_row_id (\<lambda>i.
     let m = \<lparr>mv_id = i, mv_point = mp_point p, mv_type = mp_type p, mv_direction = mp_direction p,
       mv_quantity = numeric4 q, mv_unit_cost = numeric4 c, mv_total_cost = numeric4 (q * c),
       mv_before = sl_on_hand l, mv_after = sl_on_hand l', mv_ref_type = mp_ref_type p, mv_ref = mp_ref p, mv_by = mp_by p\<rparr> in
     checked (movement_check m) (sbind (smodify (\<lambda>w. w\<lparr>stock_movements := stock_movements w @ [m]\<rparr>)) (\<lambda>_. sret m)))))"

definition fn_apply_stock_movement :: "move \<Rightarrow> ('w stockroom_scheme, stock_movement) sql" where
  "fn_apply_stock_movement p =
     sbind (sget (\<lambda>w. raise (''quantity must be positive, got '' @ pg_text w (mp_quantity p)))) (\<lambda>e.
     sbind (srequire (0 < mp_quantity p) e) (\<lambda>_.
     sbind (lock_or_create (mp_point p)) (\<lambda>l.
     sbind (move_level p l) (\<lambda>written.
     sbind (insert_movement p l written) (\<lambda>m.
     sbind (emit_domain_event ''inventory.stock_movement.recorded'' (mv_id m)) (\<lambda>_.
     sret m))))))"

section \<open>Cost layers\<close>

definition layers_of :: "string \<Rightarrow> string \<Rightarrow> string \<Rightarrow> string option \<Rightarrow> cost_layer list \<Rightarrow> cost_layer list" where
  "layers_of tenant wh item variant cs = filter (\<lambda>c. cl_tenant c = tenant \<and> cl_warehouse c = wh \<and> cl_item c = item \<and>
     cl_variant c = variant) cs"

definition put_layer :: "cost_layer \<Rightarrow> ('w stockroom_scheme, unit) sql" where
  "put_layer c = checked (layer_check c) (smodify (\<lambda>w.
     w\<lparr>cost_layers := update_where (\<lambda>r. cl_id r = cl_id c) (\<lambda>_. c) (cost_layers w)\<rparr>))"

definition insert_layer :: "cost_layer \<Rightarrow> ('w stockroom_scheme, unit) sql" where
  "insert_layer c = sbind new_row_id (\<lambda>i.
     sbind (sget (\<lambda>w. i \<in> cl_id ` set (cost_layers w))) (\<lambda>taken.
     checked (if taken then Some unique_violation else layer_check c)
       (smodify (\<lambda>w. w\<lparr>cost_layers := cost_layers w @ [c\<lparr>cl_id := i\<rparr>]\<rparr>))))"

definition fn_add_cost_layer ::
  "string \<Rightarrow> string \<Rightarrow> string \<Rightarrow> string option \<Rightarrow> string option \<Rightarrow> number \<Rightarrow> number \<Rightarrow> string option \<Rightarrow> ('w stockroom_scheme, unit) sql" where
  "fn_add_cost_layer tenant wh item variant batch q c source =
     sbind (sget (\<lambda>w. co_method (costings w item))) (\<lambda>method.
     sbind (sget (\<lambda>w. sort_key cl_received_at (filter (\<lambda>l. 0 < cl_remaining l) (layers_of tenant wh item variant (cost_layers w))))) (\<lambda>open.
     if method \<in> {Some ''average'', Some ''moving_average''} \<and> open \<noteq> [] then
       let l = hd open in
       put_layer (l\<lparr>cl_unit_cost := pg_round 4 ((cl_unit_cost l * cl_remaining l + c * q) / (cl_remaining l + q)),
         cl_remaining := numeric4 (cl_remaining l + q), cl_received_qty := numeric4 (cl_received_qty l + q)\<rparr>)
     else
       sbind (sget (\<lambda>w. sql_now w)) (\<lambda>t.
       insert_layer \<lparr>cl_id = [], cl_tenant = tenant, cl_warehouse = wh, cl_item = item, cl_variant = variant, cl_batch = batch,
         cl_source = source, cl_unit_cost = numeric4 c, cl_received_qty = numeric4 q, cl_remaining = numeric4 q, cl_received_at = t\<rparr>)))"

text \<open>
  \<^verbatim>\<open>ORDER BY expiration_date ASC NULLS LAST, received_at ASC\<close>: three stable sorts, the least
  significant key first.
\<close>

definition expiry_of :: "batch list \<Rightarrow> cost_layer \<Rightarrow> int option" where
  "expiry_of bs c = (case cl_batch c of None \<Rightarrow> None
     | Some i \<Rightarrow> (case find (\<lambda>b. ib_id b = i) bs of None \<Rightarrow> None | Some b \<Rightarrow> ib_expires b))"

definition fefo :: "batch list \<Rightarrow> cost_layer list \<Rightarrow> cost_layer list" where
  "fefo bs cs = sort_key (\<lambda>c. if expiry_of bs c = None then 1 else (0 :: nat))
     (sort_key (\<lambda>c. nullish (expiry_of bs c) 0) (sort_key cl_received_at cs))"

text \<open>What is still to be taken and the value taken so far, over the layers in order.\<close>

primrec consume_loop :: "cost_layer list \<Rightarrow> number \<Rightarrow> number \<Rightarrow> ('w stockroom_scheme, number \<times> number) sql" where
  "consume_loop [] left value = sret (left, value)"
| "consume_loop (c # cs) left value =
     (if left \<le> 0 then sret (left, value)
      else let taken = min (cl_remaining c) left in
        sbind (put_layer (c\<lparr>cl_remaining := numeric4 (cl_remaining c - taken)\<rparr>)) (\<lambda>_.
        consume_loop cs (left - taken) (value + taken * cl_unit_cost c)))"

definition consume_serial :: "string \<Rightarrow> string \<Rightarrow> string \<Rightarrow> string option \<Rightarrow> number \<Rightarrow> string \<Rightarrow> ('w stockroom_scheme, number) sql" where
  "consume_serial tenant wh item variant q serial =
     sbind (sget (\<lambda>w. find (\<lambda>s. is_id s = serial \<and> is_tenant s = tenant) (serials w))) (\<lambda>found.
     case (case found of None \<Rightarrow> None | Some s \<Rightarrow> is_unit_cost s) of
       None \<Rightarrow> sfail (raise (''serial '' @ serial @ '' has no recorded unit_cost for actual costing''))
     | Some c \<Rightarrow>
         sbind (case is_batch (the found) of None \<Rightarrow> sret ()
           | Some b \<Rightarrow> smodify (\<lambda>w. w\<lparr>cost_layers := update_where
               (\<lambda>l. cl_tenant l = tenant \<and> cl_warehouse l = wh \<and> cl_item l = item \<and> cl_variant l = variant \<and> cl_batch l = Some b)
               (\<lambda>l. l\<lparr>cl_remaining := numeric4 (max (cl_remaining l - q) 0)\<rparr>) (cost_layers w)\<rparr>)) (\<lambda>_.
         sret c))"

definition fn_consume_cost_layers ::
  "string \<Rightarrow> string \<Rightarrow> string \<Rightarrow> string option \<Rightarrow> number \<Rightarrow> bool \<Rightarrow> string option \<Rightarrow> ('w stockroom_scheme, number) sql" where
  "fn_consume_cost_layers tenant wh item variant q partial serial =
     sbind (sget (\<lambda>w. costings w item)) (\<lambda>co.
     if co_method co = Some ''actual'' \<and> serial \<noteq> None then consume_serial tenant wh item variant q (the serial)
     else
     sbind (srequire (co_method co = Some ''standard'' \<longrightarrow> co_standard co \<noteq> None)
       (raise (''item '' @ item @ '' has costing_method=standard but no standard_cost set''))) (\<lambda>_.
     sbind (sget (\<lambda>w. fefo (batches w) (filter (\<lambda>l. 0 < cl_remaining l) (layers_of tenant wh item variant (cost_layers w))))) (\<lambda>cs.
     sbind (consume_loop cs q 0) (\<lambda>(left, value).
     let consumed = q - left in
     sbind (sget (\<lambda>w. raise (''INSUFFICIENT_COST_LAYERS: could not source cost for '' @ pg_text w left @ '' of item '' @ item @
       '' at warehouse '' @ wh))) (\<lambda>e.
     sbind (srequire (left \<le> 0 \<or> partial) e) (\<lambda>_.
     sret (if co_method co = Some ''standard'' then the (co_standard co)
           else if 0 < left then (if consumed = 0 then 0 else pg_round 4 (value / consumed))
           else pg_round 4 (value / q))))))))"

section \<open>The ledger\<close>

text \<open>What a movement adds to the quantity on hand, and the sum of the movements of a point.\<close>

definition signed :: "stock_movement \<Rightarrow> number" where
  "signed m = (if mv_type m \<in> {''damage'', ''expiry'', ''quality_hold'', ''quality_release''} then 0
     else if mv_direction m = ''in'' then mv_quantity m else - mv_quantity m)"

definition booked :: "stock_movement list \<Rightarrow> point \<Rightarrow> number" where
  "booked ms p = (\<Sum>m\<leftarrow>filter (\<lambda>m. mv_point m = p) ms. signed m)"

definition on_hand :: "stock_level list \<Rightarrow> point \<Rightarrow> number" where
  "on_hand ls p = (case level_at ls p of None \<Rightarrow> 0 | Some l \<Rightarrow> sl_on_hand l)"

text \<open>Every movement starts from what the earlier ones of its point add up to.\<close>

primrec running :: "stock_movement list \<Rightarrow> bool" where
  "running [] = True"
| "running (m # ms) = (mv_before m = booked (rev ms) (mv_point m) \<and> mv_after m = mv_before m + signed m \<and> running ms)"

definition sound_level :: "stock_level \<Rightarrow> bool" where
  "sound_level l \<longleftrightarrow> level_check l = None \<and> (\<forall>q\<in>set (level_quantities l). on_grid q)"

text \<open>\<open>owes w p d\<close>: the ledger is right, except that a movement of \<open>d\<close> at \<open>p\<close> is still to be booked.\<close>

definition owes :: "'w stockroom_scheme \<Rightarrow> point \<Rightarrow> number \<Rightarrow> bool" where
  "owes w p d \<longleftrightarrow> distinct (map sl_point (stock_levels w)) \<and> (\<forall>l\<in>set (stock_levels w). sound_level l) \<and>
     (\<forall>x. on_hand (stock_levels w) x = booked (stock_movements w) x + (if x = p then d else 0)) \<and>
     running (rev (stock_movements w))"

definition ledger_ok :: "'w stockroom_scheme \<Rightarrow> bool" where
  "ledger_ok w \<longleftrightarrow> distinct (map sl_point (stock_levels w)) \<and> (\<forall>l\<in>set (stock_levels w). sound_level l) \<and>
     (\<forall>x. on_hand (stock_levels w) x = booked (stock_movements w) x) \<and> running (rev (stock_movements w))"

lemma ledger_owes: "ledger_ok w \<longleftrightarrow> owes w p 0"
  by (simp add: ledger_ok_def owes_def)

lemma booked_snoc: "booked (ms @ [m]) p = booked ms p + (if mv_point m = p then signed m else 0)"
  by (simp add: booked_def)

lemma level_at_point: "level_at ls p = Some l \<Longrightarrow> l \<in> set ls \<and> sl_point l = p"
  by (auto simp: level_at_def find_Some_iff)

lemma level_at_update:
  assumes "sl_point l = p"
  shows "level_at (update_where (\<lambda>k. sl_point k = p) (\<lambda>_. l) ls) x =
    (if x = p then map_option (\<lambda>_. l) (level_at ls p) else level_at ls x)"
  using assms by (induction ls) (auto simp: level_at_def update_where_def)

lemma level_at_append: "level_at (ls @ [l]) x = (case level_at ls x of Some k \<Rightarrow> Some k | None \<Rightarrow> if sl_point l = x then Some l else None)"
  by (induction ls) (auto simp: level_at_def)

lemma level_at_None: "level_at ls p = None \<longleftrightarrow> p \<notin> sl_point ` set ls"
  by (auto simp: level_at_def find_None_iff image_iff)

text \<open>The steps of a movement.\<close>

definition located :: "'w stockroom_scheme \<Rightarrow> stock_level \<Rightarrow> bool" where
  "located w l \<longleftrightarrow> level_at (stock_levels w) (sl_point l) = Some l"

lemma owes_cong:
  fixes v w :: "'w stockroom_scheme"
  assumes "stock_levels v = stock_levels w" "stock_movements v = stock_movements w"
  shows "owes v p d = owes w p d" "located v l = located w l"
  using assms by (simp_all add: owes_def located_def)

lemma empty_level_sel [simp]: "sl_point (empty_level p) = p" "sl_on_hand (empty_level p) = 0"
  by (simp_all add: empty_level_def)

lemma sound_empty [simp]: "sound_level (empty_level p)"
  by (simp add: sound_level_def level_check_def level_quantities_def empty_level_def unsellable_def)

lemma sok_lock:
  assumes "owes w p d"
  shows "sok (lock_or_create p) (\<lambda>l v. owes v p d \<and> located v l \<and> sl_point l = p \<and> sound_level l) w"
proof (cases "level_at (stock_levels w) p")
  case None
  then have new: "p \<notin> sl_point ` set (stock_levels w)" by (simp add: level_at_None)
  have "on_hand (stock_levels w @ [empty_level p]) x = on_hand (stock_levels w) x" for x
    by (auto simp: on_hand_def level_at_append split: option.split)
  then show ?thesis
    using assms new None by (auto simp: lock_or_create_def sql_rules owes_def located_def level_at_append)
next
  case (Some l)
  then show ?thesis using assms level_at_point [OF Some] by (auto simp: lock_or_create_def sql_rules located_def owes_def)
qed

lemma sok_put:
  assumes "owes w p d" "located w l" "sl_point l = p" "sl_point l' = p" "\<forall>q\<in>set (level_quantities l'). on_grid q"
  shows "sok (put_level l') (\<lambda>r v. r = l' \<and> located v l' \<and> sound_level l' \<and> owes v p (d + (sl_on_hand l' - sl_on_hand l))) w"
proof -
  let ?ls = "update_where (\<lambda>k. sl_point k = p) (\<lambda>_. l') (stock_levels w)"
  have at: "level_at (stock_levels w) p = Some l" using assms(2,3) by (simp add: located_def)
  have pts: "map sl_point ?ls = map sl_point (stock_levels w)"
    using assms(4) by (auto simp: update_where_def)
  have "owes (w\<lparr>stock_levels := ?ls\<rparr>) p (d + (sl_on_hand l' - sl_on_hand l))" if "level_check l' = None"
    unfolding owes_def
  proof (intro conjI ballI allI)
    show "distinct (map sl_point (stock_levels (w\<lparr>stock_levels := ?ls\<rparr>)))" using assms(1) pts by (simp add: owes_def)
    show "sound_level k" if "k \<in> set (stock_levels (w\<lparr>stock_levels := ?ls\<rparr>))" for k
      using that assms(1,5) \<open>level_check l' = None\<close> by (auto simp: owes_def set_update_where sound_level_def)
    show "on_hand (stock_levels (w\<lparr>stock_levels := ?ls\<rparr>)) x =
        booked (stock_movements (w\<lparr>stock_levels := ?ls\<rparr>)) x + (if x = p then d + (sl_on_hand l' - sl_on_hand l) else 0)" for x
    proof -
      have "on_hand (stock_levels w) x = booked (stock_movements w) x + (if x = p then d else 0)"
        using assms(1) by (simp add: owes_def)
      then show ?thesis using at by (auto simp: on_hand_def level_at_update [OF assms(4)])
    qed
    show "running (rev (stock_movements (w\<lparr>stock_levels := ?ls\<rparr>)))" using assms(1) by (simp add: owes_def)
  qed
  moreover have "located (w\<lparr>stock_levels := ?ls\<rparr>) l'"
    using at assms(4) by (simp add: located_def level_at_update [OF assms(4)])
  ultimately show ?thesis
    using assms(4,5) by (auto simp: put_level_def checked_def sql_rules sound_level_def split: option.split)
qed

lemma sok_keep:
  fixes m :: "('w stockroom_scheme, 'a) sql"
  assumes "sok m (\<lambda>_ v. stock_levels v = stock_levels w \<and> stock_movements v = stock_movements w) w" "owes w p d"
  shows "sok m (\<lambda>_ v. owes v p d) w"
  by (rule sok_mono [OF assms(1)]) (use assms(2) owes_cong in blast)

text \<open>The backorder table is beside the ledger.\<close>

abbreviation beside :: "'w stockroom_scheme \<Rightarrow> 'w stockroom_scheme \<Rightarrow> bool" where
  "beside v w \<equiv> stock_levels v = stock_levels w \<and> stock_movements v = stock_movements w"

lemma sok_insert_backorder: "sok (insert_backorder p q) (\<lambda>_ v. beside v w) w"
  by (auto simp: insert_backorder_def new_row_id_def checked_def Let_def sql_rules sok_def sbind_def sget_def smodify_def
      sfail_def split: option.split)

lemma sok_fulfil_loop: "beside u w \<Longrightarrow> sok (fulfil_loop bs q) (\<lambda>_ v. beside v w) u"
proof (induction bs arbitrary: q u)
  case (Cons b bs)
  show ?case using Cons.prems
    by (auto simp: Let_def checked_def sql_rules split: option.split intro!: Cons.IH)
qed (simp add: sql_rules)

lemma grid_level: "sound_level l \<Longrightarrow> on_grid (sl_on_hand l) \<and> on_grid (sl_reserved l) \<and> on_grid (sl_damaged l) \<and>
    on_grid (sl_expired l) \<and> on_grid (sl_held l) \<and> on_grid (sl_backorder l)"
  by (simp add: sound_level_def level_quantities_def)

lemma available_grid: "sound_level l \<Longrightarrow> on_grid (available l)"
  by (drule grid_level) (simp add: available_def on_grid_diff)

lemma unsellable_le: "sound_level l \<Longrightarrow> 0 \<le> available l"
  by (auto simp: sound_level_def level_check_def unsellable_def available_def split: if_splits)

definition effect :: "move \<Rightarrow> number \<Rightarrow> number" where
  "effect m q = (if mp_type m \<in> {''damage'', ''expiry'', ''quality_hold'', ''quality_release''} then 0
     else if mp_direction m = ''in'' then q else - q)"

text \<open>\<open>moved m l\<close>: what the branch for the level \<open>l\<close> has done to the tables.\<close>

definition moved :: "move \<Rightarrow> stock_level \<Rightarrow> stock_level \<times> number \<Rightarrow> 'w stockroom_scheme \<Rightarrow> bool" where
  "moved m l r v \<longleftrightarrow> (case r of (l', q) \<Rightarrow> owes v (mp_point m) (effect m q) \<and> on_grid q \<and>
     sl_on_hand l' = sl_on_hand l + effect m q)"

definition ready :: "'w stockroom_scheme \<Rightarrow> move \<Rightarrow> stock_level \<Rightarrow> bool" where
  "ready w m l \<longleftrightarrow> owes w (mp_point m) 0 \<and> located w l \<and> sl_point l = mp_point m \<and> sound_level l \<and> on_grid (mp_quantity m)"

lemmas grid_rules = on_grid_add on_grid_diff on_grid_max on_grid_min

lemma ready_grids:
  assumes "ready w m l"
  shows "on_grid (mp_quantity m)" "on_grid (available l)" "on_grid (sl_on_hand l)" "on_grid (sl_reserved l)"
    "on_grid (sl_damaged l)" "on_grid (sl_expired l)" "on_grid (sl_held l)" "on_grid (sl_backorder l)" "sl_point l = mp_point m"
  using assms grid_level [of l] available_grid [of l] by (auto simp: ready_def)

lemma ready_put:
  assumes "ready w m l" "sl_point l' = mp_point m" "\<forall>q\<in>set (level_quantities l'). on_grid q"
  shows "sok (put_level l') (\<lambda>r v. r = l' \<and> located v l' \<and> sound_level l' \<and> owes v (mp_point m) (sl_on_hand l' - sl_on_hand l)) w"
  using assms sok_put [of w "mp_point m" 0 l l'] by (simp add: ready_def)

lemma sok_reclassify:
  assumes r: "ready w m l" and "mp_type m \<in> {''damage'', ''expiry'', ''quality_hold''}"
  shows "sok (sbind (reclassify m l) (\<lambda>l'. sret (l', mp_quantity m))) (moved m l) w"
  unfolding reclassify_def raise_insufficient_def Let_def sql_rules
  using assms(2-) ready_grids [OF r]
  by (auto simp: moved_def effect_def level_quantities_def grid_rules intro!: sok_mono [OF ready_put [OF r]])

lemma sok_release:
  assumes r: "ready w m l" and "mp_type m = ''quality_release''"
  shows "sok (sbind (quality_release m l) (\<lambda>l'. sret (l', mp_quantity m))) (moved m l) w"
  unfolding quality_release_def Let_def sql_rules
  using assms(2-) ready_grids [OF r]
  by (auto simp: moved_def effect_def level_quantities_def grid_rules intro!: sok_mono [OF ready_put [OF r]])

lemma sok_take_out:
  assumes r: "ready w m l" and "mp_type m \<notin> {''damage'', ''expiry'', ''quality_hold'', ''quality_release''}" "mp_direction m = ''out''"
  shows "sok (take_out m l) (moved m l) w"
proof -
  have out: "sok (sbind (put_level (l\<lparr>sl_on_hand := numeric4 (sl_on_hand l - mp_quantity m), sl_version := Suc (sl_version l)\<rparr>))
      (\<lambda>l'. sret (l', mp_quantity m))) (moved m l) w"
    unfolding sql_rules using assms(2-) ready_grids [OF r]
    by (auto simp: moved_def effect_def level_quantities_def grid_rules intro!: sok_mono [OF ready_put [OF r]])
  define deduct where "deduct = max (available l) 0"
  have d: "on_grid deduct" unfolding deduct_def by (intro grid_rules on_grid_0 ready_grids [OF r])
  have part: "sok (sbind (put_level (l\<lparr>sl_on_hand := numeric4 (sl_on_hand l - deduct),
        sl_backorder := numeric4 (sl_backorder l + (mp_quantity m - deduct)), sl_version := Suc (sl_version l)\<rparr>)) (\<lambda>l'.
      sbind (if mp_ref_type m = ''order'' then insert_backorder m (mp_quantity m - deduct) else sret ()) (\<lambda>_.
      sret (l', deduct)))) (moved m l) w"
    unfolding sql_rules
  proof (rule sok_mono [OF ready_put [OF r]])
    fix r and v :: "'w stockroom_scheme"
    let ?l = "l\<lparr>sl_on_hand := numeric4 (sl_on_hand l - deduct),
        sl_backorder := numeric4 (sl_backorder l + (mp_quantity m - deduct)), sl_version := Suc (sl_version l)\<rparr>"
    assume v: "r = ?l \<and> located v ?l \<and> sound_level ?l \<and> owes v (mp_point m) (sl_on_hand ?l - sl_on_hand l)"
    have "owes v (mp_point m) (- deduct)" using v d by (simp add: grid_rules ready_grids [OF r])
    then have "moved m l (r, deduct) u" if "beside u v" for u
      using that v d assms(2-) owes_cong [of u v] by (simp add: moved_def effect_def grid_rules ready_grids [OF r])
    then show "if mp_ref_type m = ''order'' then sok (insert_backorder m (mp_quantity m - deduct)) (\<lambda>x. moved m l (r, deduct)) v
        else moved m l (r, deduct) v"
      by (auto intro: sok_mono [OF sok_insert_backorder])
  qed (use d ready_grids [OF r] in \<open>auto simp: level_quantities_def grid_rules\<close>)
  show ?thesis
    unfolding take_out_def Let_def raise_insufficient_def deduct_def [symmetric] using out part
    by (auto simp: sql_rules)
qed

lemma sok_put_in:
  assumes r: "ready w m l" and "mp_type m \<notin> {''damage'', ''expiry'', ''quality_hold'', ''quality_release''}" "mp_direction m = ''in''"
  shows "sok (sbind (put_in m l) (\<lambda>l'. sret (l', mp_quantity m))) (moved m l) w"
proof -
  let ?l = "l\<lparr>sl_on_hand := numeric4 (sl_on_hand l + mp_quantity m), sl_version := Suc (sl_version l)\<rparr>"
  let ?k = "?l\<lparr>sl_backorder := numeric4 (sl_backorder ?l - min (mp_quantity m) (sl_backorder l))\<rparr>"
  have l: "sl_on_hand ?l = sl_on_hand l + mp_quantity m" by (simp add: grid_rules ready_grids [OF r])
  have fin: "moved m l (?l, mp_quantity m) v" if "owes v (mp_point m) (mp_quantity m)" for v :: "'w stockroom_scheme"
    using that assms(2-) l ready_grids(1) [OF r] by (simp add: moved_def effect_def)
  have rest: "sok (put_level ?k) (\<lambda>_ v. sok (fulfil_loop (bs v) n) (\<lambda>_ u. owes u (mp_point m) (mp_quantity m)) v) v"
    if v: "located v ?l" "sound_level ?l" "owes v (mp_point m) (mp_quantity m)" for v and bs :: "'w stockroom_scheme \<Rightarrow> backorder list" and n
  proof (rule sok_mono [OF sok_put [OF v(3,1)]])
    show "sl_point ?l = mp_point m" "sl_point ?k = mp_point m" using ready_grids [OF r] by simp_all
    show "\<forall>q\<in>set (level_quantities ?k). on_grid q" using ready_grids [OF r] by (simp add: level_quantities_def grid_rules)
    fix r and u :: "'w stockroom_scheme"
    assume "r = ?k \<and> located u ?k \<and> sound_level ?k \<and> owes u (mp_point m) (mp_quantity m + (sl_on_hand ?k - sl_on_hand ?l))"
    then have "owes u (mp_point m) (mp_quantity m)" by simp
    then show "sok (fulfil_loop (bs u) n) (\<lambda>_ u. owes u (mp_point m) (mp_quantity m)) u"
      by (intro sok_keep sok_fulfil_loop) simp
  qed
  show ?thesis
    unfolding put_in_def Let_def sql_rules
  proof (rule sok_mono [OF ready_put [OF r]])
    fix r and v :: "'w stockroom_scheme"
    assume v: "r = ?l \<and> located v ?l \<and> sound_level ?l \<and> owes v (mp_point m) (sl_on_hand ?l - sl_on_hand l)"
    then have o: "owes v (mp_point m) (mp_quantity m)" unfolding l by simp
    show "if 0 < sl_backorder l then sok (put_level (r\<lparr>sl_backorder := numeric4 (sl_backorder r - min (mp_quantity m) (sl_backorder l))\<rparr>))
          (\<lambda>x w. sok (fulfil_loop (open_backorders (mp_point m) (backorders w)) (min (mp_quantity m) (sl_backorder l)))
             (\<lambda>x w. moved m l (r, mp_quantity m) w) w) v
        else moved m l (r, mp_quantity m) v"
      using v o fin rest [of v "\<lambda>w. open_backorders (mp_point m) (backorders w)" "min (mp_quantity m) (sl_backorder l)"]
      by (auto elim!: sok_mono)
  qed (use ready_grids [OF r] in \<open>auto simp: level_quantities_def grid_rules\<close>)
qed

lemma sok_move_level:
  assumes "ready w m l" shows "sok (move_level m l) (moved m l) w"
  unfolding move_level_def
  using sok_reclassify [OF assms] sok_release [OF assms] sok_take_out [OF assms] sok_put_in [OF assms]
  by (auto simp: sql_rules)

text \<open>The branches book nothing themselves.\<close>

lemma skeeps_checked [sql_keep]: "skeeps J m \<Longrightarrow> skeeps J (checked c m)"
  by (simp add: checked_def skeeps_basic split: option.split)

lemma skeeps_new_row_id: "(\<And>w n. J (w\<lparr>row_count := n\<rparr>) = J w) \<Longrightarrow> skeeps J new_row_id"
  by (simp add: skeeps_def sok_def new_row_id_def)

lemma skeeps_fulfil_loop:
  "(\<And>w x. J (w\<lparr>backorders := x\<rparr>) = J w) \<Longrightarrow> skeeps J (fulfil_loop bs q)"
  by (induction bs arbitrary: q) (auto simp: Let_def intro!: sql_keep skeeps_smodify)

lemma move_level_books_nothing:
  fixes w :: "'w stockroom_scheme"
  shows "sok (move_level m l) (\<lambda>_ v. stock_movements v = stock_movements w) w"
proof -
  have "skeeps (\<lambda>v. stock_movements v = stock_movements w) (move_level m l)"
    unfolding move_level_def reclassify_def quality_release_def take_out_def put_in_def put_level_def insert_backorder_def
      raise_insufficient_def Let_def
    by (intro sql_keep skeeps_smodify skeeps_new_row_id skeeps_fulfil_loop) simp_all
  then show ?thesis by (rule skeepsD) simp
qed

lemma sok_book:
  assumes "moved m l (l', q) w" "sl_on_hand l = booked (stock_movements w) (mp_point m)"
  shows "sok (insert_movement m l (l', q)) (\<lambda>_. ledger_ok) w"
proof -
  have "ledger_ok (w\<lparr>row_count := n, stock_movements := stock_movements w @ [r]\<rparr>)"
    if "mv_point r = mp_point m" "mv_type r = mp_type m" "mv_direction r = mp_direction m" "mv_quantity r = q"
      "mv_before r = sl_on_hand l" "mv_after r = sl_on_hand l'" for r n
  proof -
    have "signed r = effect m q" using that by (simp add: signed_def effect_def)
    then show ?thesis using assms that by (auto simp: moved_def owes_def ledger_ok_def booked_snoc)
  qed
  then show ?thesis
    using assms(1)
    by (auto simp: insert_movement_def new_row_id_def Let_def checked_def sok_def sbind_def smodify_def sret_def sfail_def
        moved_def split: option.split)
qed

lemma skeeps_emit: "(\<And>w x. J (w\<lparr>outbox := x\<rparr>) = J w) \<Longrightarrow> skeeps J (emit_domain_event k i)"
  unfolding emit_domain_event_def by (intro skeeps_smodify) simp

lemma ledger_cong:
  fixes v w :: "'w stockroom_scheme"
  assumes "beside v w" shows "ledger_ok v = ledger_ok w"
  using assms by (simp add: ledger_ok_def)

lemma ledger_movement [sql_keep]:
  assumes "on_grid (mp_quantity m)"
  shows "skeeps ledger_ok (fn_apply_stock_movement m)"
  unfolding skeeps_def
proof (intro allI impI)
  fix w :: "'w stockroom_scheme" assume w: "ledger_ok w"
  have step: "sok (move_level m l) (\<lambda>r v. sok (insert_movement m l r) (\<lambda>_. ledger_ok) v) v"
    if v: "owes v (mp_point m) 0" "located v l" "sl_point l = mp_point m" "sound_level l" for v :: "'w stockroom_scheme" and l
  proof (rule sok_mono [OF sok_conj [OF sok_move_level move_level_books_nothing]])
    show "ready v m l" using v assms by (simp add: ready_def)
    fix r and u :: "'w stockroom_scheme"
    assume u: "moved m l r u \<and> stock_movements u = stock_movements v"
    have "on_hand (stock_levels v) (mp_point m) = sl_on_hand l"
      using v(2,3) by (simp add: on_hand_def located_def)
    then have "sl_on_hand l = booked (stock_movements u) (mp_point m)" using v(1) u by (simp add: owes_def)
    then show "sok (insert_movement m l r) (\<lambda>_. ledger_ok) u" using u by (cases r) (auto intro: sok_book)
  qed
  have emit: "sok (emit_domain_event k i) (\<lambda>_. ledger_ok) v" if "ledger_ok v" for k i and v :: "'w stockroom_scheme"
    using that skeeps_emit [of ledger_ok k i] ledger_cong [of "v\<lparr>outbox := x\<rparr>" v for x]
    by (simp add: emit_domain_event_def sql_rules ledger_ok_def)
  have "sok (lock_or_create (mp_point m)) (\<lambda>l. sok (move_level m l) (\<lambda>r. sok (insert_movement m l r) (\<lambda>_. ledger_ok))) w"
    by (rule sok_mono [OF sok_lock [OF w [unfolded ledger_owes [of w "mp_point m"]]]]) (use step in auto)
  then show "sok (fn_apply_stock_movement m) (\<lambda>_. ledger_ok) w"
    unfolding fn_apply_stock_movement_def sql_rules
    by (auto intro: emit elim!: sok_mono)
qed

text \<open>The cost layers are beside the ledger too.\<close>

lemma ledger_put_layer [sql_keep]: "skeeps ledger_ok (put_layer c)"
  unfolding put_layer_def by (intro sql_keep skeeps_smodify) (simp add: ledger_ok_def)

lemma ledger_insert_layer [sql_keep]: "skeeps ledger_ok (insert_layer c)"
  unfolding insert_layer_def by (intro sql_keep skeeps_smodify skeeps_new_row_id) (simp_all add: ledger_ok_def)

lemma ledger_add_cost_layer [sql_keep]: "skeeps ledger_ok (fn_add_cost_layer t wh i v b q c s)"
  unfolding fn_add_cost_layer_def Let_def by (intro sql_keep)

lemma ledger_consume_loop [sql_keep]: "skeeps ledger_ok (consume_loop cs q x)"
  by (induction cs arbitrary: q x) (auto simp: Let_def intro!: sql_keep)

lemma ledger_consume [sql_keep]: "skeeps ledger_ok (fn_consume_cost_layers t wh i v q p s)"
  unfolding fn_consume_cost_layers_def consume_serial_def Let_def
  by (intro sql_keep skeeps_smodify) (simp_all add: ledger_ok_def)

section \<open>What leaves a stocking point\<close>

definition available_at :: "'w stockroom_scheme \<Rightarrow> point \<Rightarrow> number" where
  "available_at w p = (case level_at (stock_levels w) p of None \<Rightarrow> 0 | Some l \<Rightarrow> available l)"

lemma sok_put_check: "sok (put_level l) (\<lambda>r v. level_check l = None) w"
  by (simp add: put_level_def checked_def sql_rules split: option.split)

lemma level_check_available: "level_check l = None \<Longrightarrow> 0 \<le> available l"
  by (auto simp: level_check_def unsellable_def available_def split: if_splits)

lemma sok_take_out_quantity:
  assumes "sound_level l" "on_grid (mp_quantity m)" "0 < mp_quantity m"
  shows "sok (take_out m l) (\<lambda>r _. snd r = min (mp_quantity m) (available l) \<and>
    (\<not> mp_backorder m \<longrightarrow> mp_quantity m \<le> available l)) w"
proof -
  let ?q = "mp_quantity m"
  let ?out = "l\<lparr>sl_on_hand := numeric4 (sl_on_hand l - ?q), sl_version := Suc (sl_version l)\<rparr>"
  have "available ?out = available l - ?q"
    using grid_level [OF assms(1)] assms(2) by (simp add: available_def on_grid_diff)
  then have out: "sok (put_level ?out) (\<lambda>_ _. ?q \<le> available l) w"
    using level_check_available [of ?out] by (intro sok_mono [OF sok_put_check]) simp
  have pos: "max (available l) 0 = available l" using unsellable_le [OF assms(1)] by simp
  have any: "sok f (\<lambda>_ _. True) v" for f :: "('w stockroom_scheme, 'x) sql" and v
    by (auto simp: sok_def split: sum.split)
  show ?thesis
    unfolding take_out_def Let_def sql_rules raise_insufficient_def
    using out pos by (auto simp: min_def intro!: sok_mono [OF any] elim!: sok_mono)
qed

lemma sok_booked_quantity: "sok (insert_movement m l (l', q)) (\<lambda>r _. mv_quantity r = numeric4 q \<and> 0 < numeric4 q) w"
  by (auto simp: insert_movement_def new_row_id_def Let_def checked_def sok_def sbind_def smodify_def sret_def sfail_def
      movement_check_def split: option.split if_splits)

lemma available_empty [simp]: "available (empty_level p) = 0"
  by (simp add: available_def empty_level_def)

lemma sok_lock_available:
  "ledger_ok w \<Longrightarrow> sok (lock_or_create p) (\<lambda>l _. sound_level l \<and> available l = available_at w p) w"
  by (auto simp: lock_or_create_def available_at_def sql_rules ledger_ok_def dest: level_at_point split: option.split)

lemma sok_out_quantity:
  fixes w :: "'w stockroom_scheme"
  assumes "ledger_ok w" "mp_direction m = ''out''" "on_grid (mp_quantity m)"
    "mp_type m \<notin> {''damage'', ''expiry'', ''quality_hold'', ''quality_release''}"
  shows "sok (fn_apply_stock_movement m) (\<lambda>r _. 0 < available_at w (mp_point m) \<and>
    mv_quantity r = min (mp_quantity m) (available_at w (mp_point m)) \<and>
    (\<not> mp_backorder m \<longrightarrow> mp_quantity m \<le> available_at w (mp_point m))) w"
proof -
  let ?a = "available_at w (mp_point m)"
  let ?P = "\<lambda>r :: stock_movement. 0 < ?a \<and> mv_quantity r = min (mp_quantity m) ?a \<and> (\<not> mp_backorder m \<longrightarrow> mp_quantity m \<le> ?a)"
  have move: "sok (move_level m l) (\<lambda>r v. sok (insert_movement m l r) (\<lambda>x _. ?P x) v) u"
    if "sound_level l" "available l = ?a" "0 < mp_quantity m" for l and u :: "'w stockroom_scheme"
  proof -
    have a: "on_grid (min (mp_quantity m) ?a)" using available_grid [OF that(1)] that(2) assms(3) on_grid_min by simp
    have "(move_level m l :: ('w stockroom_scheme, _) sql) = take_out m l" using assms(2,4) by (simp add: move_level_def)
    then have "sok (move_level m l) (\<lambda>r _. snd r = min (mp_quantity m) ?a \<and> (\<not> mp_backorder m \<longrightarrow> mp_quantity m \<le> ?a)) u"
      using sok_take_out_quantity [OF that(1) assms(3) that(3), of u] that(2) by simp
    then show ?thesis
    proof (rule sok_mono)
      fix r :: "stock_level \<times> number" and v :: "'w stockroom_scheme"
      assume r: "snd r = min (mp_quantity m) ?a \<and> (\<not> mp_backorder m \<longrightarrow> mp_quantity m \<le> ?a)"
      obtain l' where "r = (l', min (mp_quantity m) ?a)" using r by (cases r) simp
      then show "sok (insert_movement m l r) (\<lambda>x _. ?P x) v"
        using r a that(3) by (auto intro!: sok_mono [OF sok_booked_quantity] simp: min_def split: if_splits)
    qed
  qed
  have "sok (lock_or_create (mp_point m)) (\<lambda>l. sok (move_level m l) (\<lambda>r. sok (insert_movement m l r) (\<lambda>x _. ?P x))) w"
    if "0 < mp_quantity m"
    by (rule sok_mono [OF sok_lock_available [OF assms(1)]]) (use move that in auto)
  then show ?thesis
    unfolding fn_apply_stock_movement_def emit_domain_event_def sql_rules
    by (auto elim!: sok_mono)
qed

section \<open>First expired, first out\<close>

text \<open>The reference: how much the greedy order takes from each layer.\<close>

primrec drain :: "cost_layer list \<Rightarrow> number \<Rightarrow> (string \<Rightarrow> number)" where
  "drain [] q = (\<lambda>_. 0)"
| "drain (c # cs) q = (if q \<le> 0 then (\<lambda>_. 0) else (drain cs (q - min (cl_remaining c) q))(cl_id c := min (cl_remaining c) q))"

definition drained :: "(string \<Rightarrow> number) \<Rightarrow> cost_layer \<Rightarrow> cost_layer" where
  "drained d c = c\<lparr>cl_remaining := cl_remaining c - d (cl_id c)\<rparr>"

definition layers_ok :: "cost_layer list \<Rightarrow> bool" where
  "layers_ok cs \<longleftrightarrow> distinct (map cl_id cs) \<and> (\<forall>c\<in>set cs. on_grid (cl_remaining c) \<and> 0 \<le> cl_remaining c)"

lemma drain_other: "i \<notin> cl_id ` set cs \<Longrightarrow> drain cs q i = 0"
  by (induction cs arbitrary: q) auto

lemma drain_bounds:
  assumes "c \<in> set cs" "distinct (map cl_id cs)" "\<forall>c\<in>set cs. 0 \<le> cl_remaining c"
  shows "0 \<le> drain cs q (cl_id c)" "drain cs q (cl_id c) \<le> cl_remaining c"
  using assms by (induction cs arbitrary: q) (auto simp: drain_other image_iff)

lemma drain_sum:
  assumes "distinct (map cl_id cs)" "\<forall>c\<in>set cs. 0 \<le> cl_remaining c" "0 \<le> q"
  shows "(\<Sum>c\<leftarrow>cs. drain cs q (cl_id c)) = min q (\<Sum>c\<leftarrow>cs. cl_remaining c)"
  using assms
proof (induction cs arbitrary: q)
  case (Cons c cs)
  have other: "(\<Sum>x\<leftarrow>cs. ((drain cs r)(cl_id c := y)) (cl_id x)) = (\<Sum>x\<leftarrow>cs. drain cs r (cl_id x))" for r y
    using Cons.prems(1) by (intro arg_cong [of _ _ sum_list] map_cong) (auto simp: image_iff)
  have nonneg: "0 \<le> (\<Sum>x\<leftarrow>cs. cl_remaining x)" using Cons.prems(2) by (intro sum_list_nonneg) auto
  have "0 \<le> cl_remaining c" using Cons.prems(2) by simp
  then show ?case
    using Cons.IH [of "q - min (cl_remaining c) q"] Cons.prems nonneg other
    by (auto simp: min_def)
qed simp

text \<open>A layer that still has stock afterwards: none behind it was touched.\<close>

lemma drain_order:
  assumes "distinct (map cl_id (xs @ c # ys))" "drain (xs @ c # ys) q (cl_id c) < cl_remaining c" "y \<in> set ys"
  shows "drain (xs @ c # ys) q (cl_id y) = 0"
  using assms
proof (induction xs arbitrary: q)
  case Nil
  have "cl_id y \<noteq> cl_id c" using Nil.prems by (auto simp: image_iff)
  moreover have "drain ys 0 = (\<lambda>_. 0)" by (cases ys) auto
  ultimately show ?case using Nil.prems by (auto simp: min_def split: if_splits)
next
  case (Cons x xs)
  then show ?case by (auto simp: image_iff split: if_splits)
qed

text \<open>The loop does what the reference says.\<close>

lemma drained_one:
  assumes "distinct (map cl_id T)" "c \<in> set T"
  shows "update_where (\<lambda>r. cl_id r = cl_id c) (\<lambda>_. c\<lparr>cl_remaining := x\<rparr>) T =
    map (drained ((\<lambda>_. 0)(cl_id c := cl_remaining c - x))) T"
  unfolding update_where_def
proof (rule map_cong)
  fix r assume r: "r \<in> set T"
  have "r = c" if "cl_id r = cl_id c" using assms r that by (meson distinct_map inj_onD)
  then show "(if cl_id r = cl_id c then c\<lparr>cl_remaining := x\<rparr> else r) = drained ((\<lambda>_. 0)(cl_id c := cl_remaining c - x)) r"
    by (auto simp: drained_def)
qed simp

lemma drained_id [simp]: "cl_id (drained d c) = cl_id c" "cl_unit_cost (drained d c) = cl_unit_cost c"
  "cl_remaining (drained d c) = cl_remaining c - d (cl_id c)"
  by (simp_all add: drained_def)

lemma drained_add: "drained d (drained e c) = drained (\<lambda>i. e i + d i) c"
  by (simp add: drained_def)

lemma sok_consume_loop:
  fixes w :: "'w stockroom_scheme"
  assumes "distinct (map cl_id (cost_layers w))" "set cs \<subseteq> set (cost_layers w)" "distinct (map cl_id cs)"
    "\<forall>c\<in>set cs. on_grid (cl_remaining c)" "on_grid q"
  shows "sok (consume_loop cs q x) (\<lambda>(left, value) v. cost_layers v = map (drained (drain cs q)) (cost_layers w) \<and>
    left = q - (\<Sum>c\<leftarrow>cs. drain cs q (cl_id c)) \<and> value = x + (\<Sum>c\<leftarrow>cs. drain cs q (cl_id c) * cl_unit_cost c)) w"
  using assms
proof (induction cs arbitrary: q x w)
  case Nil
  show ?case by (simp add: sql_rules drained_def)
next
  case (Cons c cs)
  let ?t = "min (cl_remaining c) q"
  let ?T = "map (drained ((\<lambda>_. 0)(cl_id c := ?t))) (cost_layers w)"
  let ?w = "w\<lparr>cost_layers := ?T\<rparr>"
  have new: "cl_id c \<notin> cl_id ` set cs" using Cons.prems(3) by simp
  have T: "update_where (\<lambda>r. cl_id r = cl_id c) (\<lambda>_. c\<lparr>cl_remaining := cl_remaining c - ?t\<rparr>) (cost_layers w) = ?T"
    using drained_one [of "cost_layers w" c "cl_remaining c - ?t"] Cons.prems(1,2) by simp
  have grid: "on_grid (cl_remaining c - ?t)" "on_grid (q - ?t)"
    using Cons.prems(4,5) by (auto intro: on_grid_diff on_grid_min)
  have same: "map cl_id ?T = map cl_id (cost_layers w)" by (simp add: comp_def)
  have sub: "set cs \<subseteq> set ?T"
  proof
    fix r assume r: "r \<in> set cs"
    then have "drained ((\<lambda>_. 0)(cl_id c := ?t)) r = r" using new by (auto simp: drained_def image_iff)
    then show "r \<in> set ?T" using r Cons.prems(2) by (force simp: image_iff)
  qed
  define d where "d = drain cs (q - ?t)"
  define D where "D = drain (c # cs) q"
  have none: "d (cl_id c) = 0" unfolding d_def using new by (rule drain_other)
  show ?case
  proof (cases "q \<le> 0")
    case True
    then show ?thesis by (simp add: sql_rules drained_def)
  next
    case False
    have "sok (consume_loop cs (q - ?t) (x + ?t * cl_unit_cost c)) (\<lambda>(left, value) v.
        cost_layers v = map (drained (drain cs (q - ?t))) ?T \<and> left = q - ?t - (\<Sum>c\<leftarrow>cs. drain cs (q - ?t) (cl_id c)) \<and>
        value = x + ?t * cl_unit_cost c + (\<Sum>c\<leftarrow>cs. drain cs (q - ?t) (cl_id c) * cl_unit_cost c)) ?w"
    proof -
      have T: "cost_layers ?w = ?T" by simp
      have "distinct (map cl_id (cost_layers ?w))" unfolding T same by (rule Cons.prems(1))
      moreover have "set cs \<subseteq> set (cost_layers ?w)" unfolding T by (rule sub)
      moreover have "distinct (map cl_id cs)" "\<forall>c\<in>set cs. on_grid (cl_remaining c)" using Cons.prems(3,4) by simp_all
      ultimately show ?thesis using Cons.IH [of ?w "q - ?t" "x + ?t * cl_unit_cost c"] grid(2) unfolding T by blast
    qed
    moreover have D: "D = d(cl_id c := ?t)" using False by (simp add: D_def d_def)
    have "D = (\<lambda>i. ((\<lambda>_. 0)(cl_id c := ?t)) i + d i)" using none by (simp add: D fun_eq_iff)
    then have "map (drained d) ?T = map (drained D) (cost_layers w)" by (simp add: drained_add)
    moreover have "(\<Sum>x\<leftarrow>cs. D (cl_id x) * f x) = (\<Sum>x\<leftarrow>cs. d (cl_id x) * f x)" for f :: "cost_layer \<Rightarrow> number"
      using new by (intro arg_cong [of _ _ sum_list] map_cong) (auto simp: D image_iff)
    from this [of "\<lambda>_. 1"] this have "(\<Sum>x\<leftarrow>c # cs. D (cl_id x)) = ?t + (\<Sum>x\<leftarrow>cs. d (cl_id x))"
      "(\<Sum>x\<leftarrow>c # cs. D (cl_id x) * cl_unit_cost x) = ?t * cl_unit_cost c + (\<Sum>x\<leftarrow>cs. d (cl_id x) * cl_unit_cost x)"
      by (simp_all add: D)
    ultimately have "sok (consume_loop cs (q - ?t) (x + ?t * cl_unit_cost c)) (\<lambda>(left, value) v.
        cost_layers v = map (drained D) (cost_layers w) \<and> left = q - (\<Sum>c\<leftarrow>c # cs. D (cl_id c)) \<and>
        value = x + (\<Sum>c\<leftarrow>c # cs. D (cl_id c) * cl_unit_cost c)) ?w"
      unfolding d_def [symmetric] by (elim sok_mono) auto
    then show ?thesis
      unfolding D_def [symmetric] using False T grid
      by (simp add: put_layer_def checked_def sql_rules Let_def split: option.split del: sum_list.Cons list.map)
  qed
qed

lemma fefo_perm [simp]: "set (fefo bs cs) = set cs" "distinct (fefo bs cs) = distinct cs"
  by (simp_all add: fefo_def)

lemma layers_ok_subset:
  assumes "layers_ok T" "set cs \<subseteq> set T" "distinct (map cl_id cs)"
  shows "layers_ok cs"
  using assms by (auto simp: layers_ok_def)

definition open_layers :: "'w stockroom_scheme \<Rightarrow> string \<Rightarrow> string \<Rightarrow> string \<Rightarrow> string option \<Rightarrow> cost_layer list" where
  "open_layers w tenant wh item variant =
     fefo (batches w) (filter (\<lambda>l. 0 < cl_remaining l) (layers_of tenant wh item variant (cost_layers w)))"

lemma layers_ok_open: "layers_ok (cost_layers w) \<Longrightarrow> layers_ok (open_layers w t wh i v)"
  by (rule layers_ok_subset [of "cost_layers w"])
     (auto simp: open_layers_def layers_of_def layers_ok_def distinct_map intro: inj_on_subset)

lemma open_layers_subset: "set (open_layers w t wh i v) \<subseteq> set (cost_layers w)"
  by (auto simp: open_layers_def layers_of_def)

text \<open>
  First expired, first out, without a sort: a layer whose batch expires goes before one that does
  not, an earlier expiry before a later one, and an earlier receipt first where that does not
  decide.
\<close>

definition expiry_date :: "'w stockroom_scheme \<Rightarrow> cost_layer \<Rightarrow> int option" where
  "expiry_date w c = (case cl_batch c of None \<Rightarrow> None
     | Some i \<Rightarrow> (case map_of (map (\<lambda>b. (ib_id b, ib_expires b)) (batches w)) i of None \<Rightarrow> None | Some e \<Rightarrow> e))"

definition goes_first :: "'w stockroom_scheme \<Rightarrow> cost_layer \<Rightarrow> cost_layer \<Rightarrow> bool" where
  "goes_first w a b \<longleftrightarrow> (case (expiry_date w a, expiry_date w b) of
     (Some x, Some y) \<Rightarrow> x < y \<or> (x = y \<and> cl_received_at a \<le> cl_received_at b)
   | (Some x, None) \<Rightarrow> True
   | (None, Some y) \<Rightarrow> False
   | (None, None) \<Rightarrow> cl_received_at a \<le> cl_received_at b)"

lemma expiry_date_of: "expiry_date w c = expiry_of (batches w) c"
proof -
  have "(case map_of (map (\<lambda>b. (ib_id b, ib_expires b)) bs) i of None \<Rightarrow> None | Some e \<Rightarrow> e) =
      (case find (\<lambda>b. ib_id b = i) bs of None \<Rightarrow> None | Some b \<Rightarrow> ib_expires b)" for bs i
    by (induction bs) auto
  then show ?thesis by (cases "cl_batch c") (simp_all only: expiry_date_def expiry_of_def option.case)
qed

text \<open>A stable sort refines the order that its input has.\<close>

definition refined :: "('a \<Rightarrow> 'k :: linorder) \<Rightarrow> ('a \<Rightarrow> 'a \<Rightarrow> bool) \<Rightarrow> 'a \<Rightarrow> 'a \<Rightarrow> bool" where
  "refined k R a b \<longleftrightarrow> k a < k b \<or> (k a = k b \<and> R a b)"

lemma insort_refined:
  "sorted_wrt (refined k R) ys \<Longrightarrow> \<forall>y\<in>set ys. R x y \<Longrightarrow> sorted_wrt (refined k R) (insort_key k x ys)"
  by (induction ys) (auto simp: refined_def set_insort_key not_le)

lemma sort_refined: "sorted_wrt R xs \<Longrightarrow> sorted_wrt (refined k R) (sort_key k xs)"
  by (induction xs) (auto intro!: insort_refined)

lemma fefo_sorted: "sorted_wrt (goes_first w) (fefo (batches w) cs)"
proof -
  have "sorted_wrt (\<lambda>_ _. True) xs" for xs :: "cost_layer list" by (induction xs) auto
  then have "sorted_wrt (refined (\<lambda>c. if expiry_of (batches w) c = None then 1 else (0 :: nat))
      (refined (\<lambda>c. nullish (expiry_of (batches w) c) 0) (refined cl_received_at (\<lambda>_ _. True)))) (fefo (batches w) cs)"
    unfolding fefo_def by (intro sort_refined)
  then show ?thesis
    by (rule sorted_wrt_mono_rel [rotated])
       (auto simp: goes_first_def refined_def expiry_date_of split: option.split if_splits)
qed

text \<open>The layers a consumption may draw on, in the order in which it has to.\<close>

definition in_order :: "'w stockroom_scheme \<Rightarrow> string \<Rightarrow> string \<Rightarrow> string \<Rightarrow> string option \<Rightarrow> cost_layer list \<Rightarrow> bool" where
  "in_order w tenant wh item variant cs \<longleftrightarrow>
     mset cs = mset (filter (\<lambda>l. cl_tenant l = tenant \<and> cl_warehouse l = wh \<and> cl_item l = item \<and> cl_variant l = variant \<and>
       0 < cl_remaining l) (cost_layers w)) \<and> sorted_wrt (goes_first w) cs"

lemma open_layers_in_order: "in_order w tenant wh item variant (open_layers w tenant wh item variant)"
  by (simp add: in_order_def open_layers_def fefo_sorted)
     (simp add: fefo_def layers_of_def filter_filter conj_ac)

text \<open>The cost of a unit over the layers that are drained.\<close>

definition drained_cost :: "cost_layer list \<Rightarrow> number \<Rightarrow> number" where
  "drained_cost cs q = (let d = drain cs q; n = (\<Sum>c\<leftarrow>cs. d (cl_id c)) in
     if n = 0 then 0 else pg_round 4 ((\<Sum>c\<leftarrow>cs. d (cl_id c) * cl_unit_cost c) / n))"

lemma sok_consume:
  fixes w :: "'w stockroom_scheme"
  assumes "layers_ok (cost_layers w)" "on_grid q" "0 < q"
  shows "sok (fn_consume_cost_layers t wh i v q partial None) (\<lambda>c u.
    let cs = open_layers w t wh i v; d = drain cs q in
    cost_layers u = map (drained d) (cost_layers w) \<and> (\<Sum>c\<leftarrow>cs. d (cl_id c)) = min q (\<Sum>c\<leftarrow>cs. cl_remaining c) \<and>
    (\<not> partial \<longrightarrow> (\<Sum>c\<leftarrow>cs. d (cl_id c)) = q) \<and>
    (co_method (costings w i) \<noteq> Some ''standard'' \<longrightarrow> c = drained_cost cs q) \<and>
    (co_method (costings w i) = Some ''standard'' \<longrightarrow> Some c = co_standard (costings w i))) w"
proof -
  define cs where "cs = open_layers w t wh i v"
  define d where "d = drain cs q"
  define n where "n = (\<Sum>c\<leftarrow>cs. d (cl_id c))"
  define val where "val = (\<Sum>c\<leftarrow>cs. d (cl_id c) * cl_unit_cost c)"
  have ok: "layers_ok cs" unfolding cs_def using assms(1) by (rule layers_ok_open)
  have "sok (consume_loop cs q 0) (\<lambda>(left, value) u. cost_layers u = map (drained (drain cs q)) (cost_layers w) \<and>
      left = q - (\<Sum>c\<leftarrow>cs. drain cs q (cl_id c)) \<and> value = 0 + (\<Sum>c\<leftarrow>cs. drain cs q (cl_id c) * cl_unit_cost c)) w"
    by (rule sok_consume_loop) (use assms ok open_layers_subset [of w t wh i v] in \<open>auto simp: layers_ok_def cs_def\<close>)
  then have loop: "sok (consume_loop cs q 0) (\<lambda>r u. cost_layers u = map (drained d) (cost_layers w) \<and> r = (q - n, val)) w"
    unfolding n_def val_def d_def by (auto elim!: sok_mono)
  have n: "n = min q (\<Sum>c\<leftarrow>cs. cl_remaining c)"
    unfolding n_def d_def using ok assms(3) by (intro drain_sum) (auto simp: layers_ok_def)
  have le: "n \<le> q" unfolding n by simp
  show ?thesis
    unfolding fn_consume_cost_layers_def open_layers_def [symmetric] cs_def [symmetric] Let_def sql_rules drained_cost_def
      d_def [symmetric] n_def [symmetric] val_def [symmetric] n [symmetric]
    using le assms(3) by (auto intro!: sok_mono [OF loop])
qed

subsection \<open>The layers stay well formed\<close>

definition stock_ok :: "'w stockroom_scheme \<Rightarrow> bool" where
  "stock_ok w \<longleftrightarrow> ledger_ok w \<and> layers_ok (cost_layers w)"

lemma skeeps_conj: "skeeps J m \<Longrightarrow> skeeps K m \<Longrightarrow> skeeps (\<lambda>w. J w \<and> K w) m"
  by (auto simp: skeeps_def intro: sok_conj)

lemma skeeps_stock: "skeeps ledger_ok m \<Longrightarrow> skeeps (\<lambda>w. layers_ok (cost_layers w)) m \<Longrightarrow> skeeps stock_ok m"
  using skeeps_conj [of ledger_ok m "\<lambda>w. layers_ok (cost_layers w)"] by (simp add: stock_ok_def [abs_def])

lemma map_update_const:
  assumes "\<And>r. r \<in> set T \<Longrightarrow> P r \<Longrightarrow> cl_id r = cl_id c"
  shows "map cl_id (update_where P (\<lambda>_. c) T) = map cl_id T"
  using assms by (auto simp: update_where_def)

lemma layers_put_layer: "on_grid (cl_remaining c) \<Longrightarrow> skeeps (\<lambda>w. layers_ok (cost_layers w)) (put_layer c)"
  unfolding put_layer_def skeeps_def
  by (auto simp: checked_def sql_rules layers_ok_def map_update_const set_update_where layer_check_def
      split: option.split if_splits)

lemma layers_insert_layer: "on_grid (cl_remaining c) \<Longrightarrow> skeeps (\<lambda>w. layers_ok (cost_layers w)) (insert_layer c)"
  unfolding insert_layer_def skeeps_def
  by (auto simp: checked_def sql_rules new_row_id_def sok_def sbind_def layers_ok_def layer_check_def sget_def smodify_def sfail_def
      split: option.split if_splits)

lemma layers_add [sql_keep]: "skeeps (\<lambda>w. layers_ok (cost_layers w)) (fn_add_cost_layer t wh i v b q c s)"
  unfolding fn_add_cost_layer_def Let_def
  by (intro sql_keep layers_put_layer layers_insert_layer) simp_all

lemma layers_consume_loop: "skeeps (\<lambda>w. layers_ok (cost_layers w)) (consume_loop cs q x)"
  by (induction cs arbitrary: q x) (auto simp: Let_def intro!: sql_keep layers_put_layer)

lemma layers_ok_update:
  assumes "layers_ok T" shows "layers_ok (update_where P (\<lambda>l. l\<lparr>cl_remaining := numeric4 (max (cl_remaining l - q) 0)\<rparr>) T)"
proof -
  have "map cl_id (update_where P (\<lambda>l. l\<lparr>cl_remaining := numeric4 (max (cl_remaining l - q) 0)\<rparr>) T) = map cl_id T"
    by (simp add: update_where_def)
  then show ?thesis using assms by (auto simp: layers_ok_def set_update_where pg_round_mono_0)
qed

lemma layers_consume [sql_keep]: "skeeps (\<lambda>w. layers_ok (cost_layers w)) (fn_consume_cost_layers t wh i v q p s)"
  unfolding fn_consume_cost_layers_def consume_serial_def Let_def
  by (intro sql_keep skeeps_smodify layers_consume_loop) (simp_all add: layers_ok_update)

lemma layers_movement [sql_keep]: "skeeps (\<lambda>w. layers_ok (cost_layers w)) (fn_apply_stock_movement m)"
  unfolding fn_apply_stock_movement_def lock_or_create_def insert_movement_def emit_domain_event_def move_level_def
    reclassify_def quality_release_def take_out_def put_in_def put_level_def insert_backorder_def raise_insufficient_def Let_def
  by (intro sql_keep skeeps_smodify skeeps_new_row_id skeeps_fulfil_loop) simp_all

lemma stock_movement: "on_grid (mp_quantity m) \<Longrightarrow> skeeps stock_ok (fn_apply_stock_movement m)"
  by (intro skeeps_stock sql_keep)

lemma stock_add: "skeeps stock_ok (fn_add_cost_layer t wh i v b q c s)"
  by (intro skeeps_stock sql_keep)

lemma stock_consume: "skeeps stock_ok (fn_consume_cost_layers t wh i v q p s)"
  by (intro skeeps_stock sql_keep)

lemma stock_cong:
  fixes v w :: "'w stockroom_scheme"
  assumes "beside v w" "cost_layers v = cost_layers w" shows "stock_ok v = stock_ok w"
  using assms ledger_cong [of v w] by (simp add: stock_ok_def)

lemma stock_emit: "skeeps stock_ok (emit_domain_event k i)"
  unfolding emit_domain_event_def by (intro skeeps_smodify) (simp add: stock_ok_def ledger_ok_def)

lemmas stock_keep = stock_movement stock_add stock_consume stock_emit

section \<open>What an arrival does\<close>

definition arrives :: "move \<Rightarrow> bool" where
  "arrives m \<longleftrightarrow> mp_direction m = ''in'' \<and> mp_type m \<notin> {''damage'', ''expiry'', ''quality_hold'', ''quality_release''}"

lemma available_at_update:
  assumes "level_at (stock_levels w) (sl_point l) = Some k"
  shows "available_at (w\<lparr>stock_levels := update_where (\<lambda>r. sl_point r = sl_point l) (\<lambda>_. l) (stock_levels w)\<rparr>) (sl_point l) = available l"
  using assms by (simp add: available_at_def level_at_update)

lemma sok_put_available:
  assumes "level_at (stock_levels w) (sl_point l) = Some k"
  shows "sok (put_level l) (\<lambda>r v. r = l \<and> level_at (stock_levels v) (sl_point l) = Some l) w"
  using assms by (auto simp: put_level_def checked_def sql_rules level_at_update split: option.split)

lemma sok_fulfil_levels:
  fixes u :: "'w stockroom_scheme"
  shows "sok (fulfil_loop bs q) (\<lambda>_ v. stock_levels v = stock_levels u) u"
  by (rule sok_mono [OF sok_fulfil_loop [of u u]]) auto

lemma sok_insert_movement_levels:
  fixes u :: "'w stockroom_scheme"
  shows "sok (insert_movement m l r) (\<lambda>_ v. stock_levels v = stock_levels u) u"
  by (auto simp: insert_movement_def new_row_id_def Let_def checked_def sok_def sbind_def smodify_def sret_def sfail_def
      split: option.split prod.split)

lemma sok_put_in_available:
  assumes "level_at (stock_levels w) (sl_point l) = Some l" "sound_level l" "on_grid (mp_quantity m)" "0 < mp_quantity m"
    "sl_point l = mp_point m"
  shows "sok (put_in m l) (\<lambda>_ v. \<exists>k. level_at (stock_levels v) (mp_point m) = Some k \<and> available k = available l + mp_quantity m \<and>
    sl_backorder k = sl_backorder l - min (mp_quantity m) (sl_backorder l)) w"
proof -
  let ?q = "mp_quantity m"
  let ?l = "l\<lparr>sl_on_hand := numeric4 (sl_on_hand l + ?q), sl_version := Suc (sl_version l)\<rparr>"
  let ?k = "?l\<lparr>sl_backorder := numeric4 (sl_backorder ?l - min ?q (sl_backorder l))\<rparr>"
  let ?Q = "\<lambda>v :: 'w stockroom_scheme. \<exists>k. level_at (stock_levels v) (mp_point m) = Some k \<and> available k = available l + ?q \<and>
    sl_backorder k = sl_backorder l - min ?q (sl_backorder l)"
  have a: "available ?l = available l + ?q" "available ?k = available l + ?q" "sl_backorder ?k = sl_backorder l - min ?q (sl_backorder l)"
    using grid_level [OF assms(2)] assms(3) by (simp_all add: available_def on_grid_add on_grid_diff on_grid_min)
  have nonneg: "0 \<le> sl_backorder l"
    using assms(2) by (auto simp: sound_level_def level_check_def level_quantities_def split: if_splits)
  have first: "sok (put_level ?l) (\<lambda>r v. r = ?l \<and> level_at (stock_levels v) (sl_point ?l) = Some ?l) w"
    using assms(1) by (intro sok_put_available [of w ?l l]) simp
  have second: "sok (put_level ?k) (\<lambda>_ v. ?Q v) v"
    if "level_at (stock_levels v) (sl_point ?l) = Some ?l" for v :: "'w stockroom_scheme"
  proof (rule sok_mono [OF sok_put_available [of v ?k ?l]])
    show "level_at (stock_levels v) (sl_point ?k) = Some ?l" using that by simp
    fix r and u :: "'w stockroom_scheme"
    assume "r = ?k \<and> level_at (stock_levels u) (sl_point ?k) = Some ?k"
    then show "?Q u" using a(2,3) assms(5) by auto
  qed
  have loop: "sok (fulfil_loop bs n) (\<lambda>_ v. ?Q v) v" if "?Q v" for bs n and v :: "'w stockroom_scheme"
    by (rule sok_mono [OF sok_fulfil_levels]) (use that in auto)
  show ?thesis
    unfolding put_in_def Let_def sql_rules
  proof (rule sok_mono [OF first])
    fix r and v :: "'w stockroom_scheme"
    assume v: "r = ?l \<and> level_at (stock_levels v) (sl_point ?l) = Some ?l"
    have "?Q v" if "sl_backorder l \<le> 0" using v a(1) that nonneg assms(4,5) by (auto simp: min_def)
    moreover have "sok (put_level ?k) (\<lambda>x w. sok (fulfil_loop (bs w) n) (\<lambda>_ v. ?Q v) w) v" for bs :: "'w stockroom_scheme \<Rightarrow> backorder list" and n
      by (rule sok_mono [OF second]) (use v loop in auto)
    ultimately show "if 0 < sl_backorder l
        then sok (put_level (r\<lparr>sl_backorder := numeric4 (sl_backorder r - min ?q (sl_backorder l))\<rparr>))
          (\<lambda>x w. sok (fulfil_loop (open_backorders (mp_point m) (backorders w)) (min ?q (sl_backorder l))) (\<lambda>x. ?Q) w) v
        else ?Q v"
      using v by auto
  qed
qed

lemma sok_arrival:
  fixes w :: "'w stockroom_scheme"
  assumes "ledger_ok w" "arrives m" "on_grid (mp_quantity m)"
  shows "sok (fn_apply_stock_movement m) (\<lambda>_ v. available_at v (mp_point m) = available_at w (mp_point m) + mp_quantity m \<and>
    (\<exists>k. level_at (stock_levels v) (mp_point m) = Some k \<and>
      sl_backorder k = max 0 (nullish (map_option sl_backorder (level_at (stock_levels w) (mp_point m))) 0 - mp_quantity m))) w"
proof -
  let ?p = "mp_point m" and ?q = "mp_quantity m"
  let ?old = "nullish (map_option sl_backorder (level_at (stock_levels w) ?p)) 0"
  let ?Q = "\<lambda>v :: 'w stockroom_scheme. \<exists>k. level_at (stock_levels v) ?p = Some k \<and> available k = available_at w ?p + ?q \<and>
    sl_backorder k = ?old - min ?q ?old"
  have move: "sok (move_level m l) (\<lambda>r v. ?Q v) v"
    if "level_at (stock_levels v) ?p = Some l" "sound_level l" "sl_point l = ?p" "available l = available_at w ?p"
      "sl_backorder l = ?old" "0 < ?q" for v :: "'w stockroom_scheme" and l
  proof -
    have "(move_level m l :: ('w stockroom_scheme, _) sql) = sbind (put_in m l) (\<lambda>l'. sret (l', ?q))"
      using assms(2) by (simp add: move_level_def arrives_def)
    then show ?thesis using sok_put_in_available [of v l m] that assms(3) by (simp add: sql_rules)
  qed
  have lock: "sok (lock_or_create ?p) (\<lambda>l v. level_at (stock_levels v) ?p = Some l \<and> sound_level l \<and> sl_point l = ?p \<and>
      available l = available_at w ?p \<and> sl_backorder l = ?old) w"
    using assms(1) by (auto simp: lock_or_create_def available_at_def sql_rules ledger_ok_def level_at_append empty_level_def
        available_def sound_empty [unfolded empty_level_def] dest: level_at_point split: option.split)
  have book: "sok (insert_movement m l r) (\<lambda>_ u. ?Q u) v" if "?Q v" for l r and v :: "'w stockroom_scheme"
    by (rule sok_mono [OF sok_insert_movement_levels]) (use that in auto)
  have "sok (lock_or_create ?p) (\<lambda>l. sok (move_level m l) (\<lambda>r. sok (insert_movement m l r) (\<lambda>_. ?Q))) w" if "0 < ?q"
    by (rule sok_mono [OF lock], rule sok_mono [OF move]) (use that book in auto)
  moreover have "?old - min ?q ?old = max 0 (?old - ?q)" by (simp add: min_def max_def)
  ultimately show ?thesis
    unfolding fn_apply_stock_movement_def emit_domain_event_def sql_rules
    by (auto simp: available_at_def elim!: sok_mono)
qed

text \<open>The movement a successful call books.\<close>

definition logged :: "move \<Rightarrow> stock_movement \<Rightarrow> bool" where
  "logged m r \<longleftrightarrow> mv_point r = mp_point m \<and> mv_type r = mp_type m \<and> mv_direction r = mp_direction m \<and>
     mv_ref_type r = mp_ref_type m \<and> mv_ref r = mp_ref m \<and>
     (\<not> mp_backorder m \<longrightarrow> mv_quantity r = numeric4 (mp_quantity m))"

lemma move_level_quantity: "\<not> mp_backorder m \<Longrightarrow> sok (move_level m l) (\<lambda>x _. snd x = mp_quantity m) w"
proof -
  have any: "sok f (\<lambda>_ _. True) v" for f :: "('w stockroom_scheme, 'x) sql" and v
    by (auto simp: sok_def split: sum.split)
  assume "\<not> mp_backorder m"
  then show ?thesis
    by (auto simp: move_level_def take_out_def raise_insufficient_def Let_def sql_rules intro!: sok_mono [OF any])
qed

lemma sok_logged:
  fixes w :: "'w stockroom_scheme"
  shows "sok (fn_apply_stock_movement m) (\<lambda>r v. stock_movements v = stock_movements w @ [r] \<and> logged m r) w"
proof -
  have one: "sok (insert_movement m l x) (\<lambda>r v. stock_movements v = stock_movements w @ [r] \<and> logged m r) u"
    if "stock_movements u = stock_movements w" "\<not> mp_backorder m \<longrightarrow> snd x = mp_quantity m"
    for l x and u :: "'w stockroom_scheme"
    using that by (auto simp: insert_movement_def new_row_id_def Let_def checked_def sok_def sbind_def smodify_def sret_def
        sfail_def logged_def split: option.split prod.split)
  have qty: "sok (move_level m l) (\<lambda>x _. \<not> mp_backorder m \<longrightarrow> snd x = mp_quantity m) u" for l and u :: "'w stockroom_scheme"
    by (cases "mp_backorder m") (auto intro: sok_mono [OF move_level_books_nothing] sok_mono [OF move_level_quantity])
  have "sok (move_level m l) (\<lambda>x u. sok (insert_movement m l x) (\<lambda>r v. stock_movements v = stock_movements w @ [r] \<and> logged m r) u) u"
    if "stock_movements u = stock_movements w" for l and u :: "'w stockroom_scheme"
    by (rule sok_mono [OF sok_conj [OF move_level_books_nothing qty]]) (use one that in simp)
  then show ?thesis
    unfolding fn_apply_stock_movement_def emit_domain_event_def lock_or_create_def sql_rules
    by (auto split: option.split)
qed

section \<open>A small warehouse\<close>

definition demo_point :: point where
  "demo_point = \<lparr>pt_tenant = ''t'', pt_warehouse = ''w'', pt_location = None, pt_item = ''i'', pt_variant = None, pt_batch = None\<rparr>"

definition demo_layer :: "string \<Rightarrow> number \<Rightarrow> number \<Rightarrow> int \<Rightarrow> cost_layer" where
  "demo_layer i c q t = \<lparr>cl_id = i, cl_tenant = ''t'', cl_warehouse = ''w'', cl_item = ''i'', cl_variant = None, cl_batch = None,
     cl_source = None, cl_unit_cost = c, cl_received_qty = q, cl_remaining = q, cl_received_at = t\<rparr>"

definition demo_stock :: stockroom where
  "demo_stock = pos.extend demo_pos
     \<lparr>stock_levels = [(empty_level demo_point)\<lparr>sl_on_hand := 8, sl_backorder := 2\<rparr>],
      stock_movements = [\<lparr>mv_id = ''m'', mv_point = demo_point, mv_type = ''receipt'', mv_direction = ''in'', mv_quantity = 8,
        mv_unit_cost = 5, mv_total_cost = 40, mv_before = 0, mv_after = 8, mv_ref_type = ''goods_receipt'', mv_ref = None, mv_by = None\<rparr>],
      cost_layers = [demo_layer ''a'' 9 3 20, demo_layer ''b'' 6 5 10], backorders = [], batches = [], serials = [], outbox = [],
      costings = (\<lambda>_. \<lparr>co_method = Some ''fifo'', co_standard = None, co_price = Some 5, co_inventory = Some True\<rparr>),
      row_uuid = (\<lambda>n. ''r'' @ nat_str n), row_count = 0, pg_text = (\<lambda>_. ''#'')\<rparr>"

lemma demo_stock_tables [simp]:
  "stock_levels demo_stock = [(empty_level demo_point)\<lparr>sl_on_hand := 8, sl_backorder := 2\<rparr>]"
  "cost_layers demo_stock = [demo_layer ''a'' 9 3 20, demo_layer ''b'' 6 5 10]"
  "batches demo_stock = []" "backorders demo_stock = []" "row_count demo_stock = 0"
  "costings demo_stock = (\<lambda>_. \<lparr>co_method = Some ''fifo'', co_standard = None, co_price = Some 5, co_inventory = Some True\<rparr>)"
  by (simp_all add: demo_stock_def pos.extend_def)

lemma demo_stock_ok: "stock_ok demo_stock"
  by (auto simp: demo_stock_def pos.extend_def stock_ok_def ledger_ok_def layers_ok_def on_hand_def booked_def signed_def level_at_def
      sound_level_def level_check_def level_quantities_def unsellable_def empty_level_def demo_layer_def on_grid_def)

definition demo_move :: "string \<Rightarrow> string \<Rightarrow> number \<Rightarrow> move" where
  "demo_move kind way q = \<lparr>mp_point = demo_point, mp_type = kind, mp_direction = way, mp_quantity = q, mp_unit_cost = Some 5,
     mp_ref_type = ''order'', mp_ref = Some ''o'', mp_by = None, mp_negative = False, mp_backorder = True\<rparr>"

lemmas run_sql = sql_defs Let_def checked_def fn_apply_stock_movement_def lock_or_create_def move_level_def take_out_def put_in_def
  put_level_def insert_movement_def insert_backorder_def new_row_id_def emit_domain_event_def level_at_def level_check_def
  level_quantities_def unsellable_def available_def movement_check_def movement_types_def empty_level_def update_where_def
  raise_insufficient_def insufficient_stock_def open_backorders_def backorder_check_def sql_now_def

section \<open>Properties\<close>

lemma demo_consume: "\<exists>v. fn_consume_cost_layers ''t'' ''w'' ''i'' None 6 False None demo_stock = Inr (13 / 2, v) \<and>
    map cl_remaining (cost_layers v) = [2, 0]"
  by (simp add: fn_consume_cost_layers_def sql_defs Let_def fefo_def layers_of_def demo_layer_def expiry_of_def put_layer_def
      checked_def layer_check_def update_where_def on_grid_def)

text \<open>C13. Consuming cost layers is the greedy order of a reference.  The open layers of the item (of
  this tenant, warehouse and variant, with something left) are drained first expired first out: a
  layer with an expiry date before one without, then by date, then by receipt; each by what the
  greedy order takes, and all other layers stay as they are.  Without \<^verbatim>\<open>p_allow_partial\<close> exactly the
  requested quantity is taken.  The cost of a unit is the standard cost for an item with standard
  costing, and otherwise the weighted average of what was taken, rounded to four decimals.  A
  serial, whose own cost is returned for an item with actual costing, is not given.
\<close>

theorem consumption_is_greedy:
  assumes "layers_ok (cost_layers w)" "on_grid q" "0 < q"
    "fn_consume_cost_layers tenant wh item variant q partial None w = Inr (c, v)"
  shows "\<exists>cs. in_order w tenant wh item variant cs \<and>
    cost_layers v = map (drained (drain cs q)) (cost_layers w) \<and>
    (\<Sum>l\<leftarrow>cs. drain cs q (cl_id l)) = (if partial then min q (\<Sum>l\<leftarrow>cs. cl_remaining l) else q) \<and>
    Some c = (if co_method (costings w item) = Some ''standard'' then co_standard (costings w item) else Some (drained_cost cs q))"
  using sokD [OF sok_consume [OF assms(1-3)] assms(4)]
  by (intro exI [of _ "open_layers w tenant wh item variant"] conjI open_layers_in_order) (auto simp: Let_def)

theorem consumption_is_greedy_witness:
  "\<exists>(v :: stockroom) cs. map cl_remaining (cost_layers v) = [2, 0] \<and> in_order demo_stock ''t'' ''w'' ''i'' None cs \<and>
     cost_layers v = map (drained (drain cs 6)) (cost_layers demo_stock) \<and> 13 / 2 = drained_cost cs 6"
proof -
  obtain v where v: "fn_consume_cost_layers ''t'' ''w'' ''i'' None 6 False None demo_stock = Inr (13 / 2, v)"
    "map cl_remaining (cost_layers v) = [2, 0]" using demo_consume by (elim exE conjE) (rule that)
  have "layers_ok (cost_layers demo_stock)" "on_grid 6" using demo_stock_ok by (auto simp: stock_ok_def on_grid_def)
  from consumption_is_greedy [OF this _ v(1)] obtain cs where "in_order demo_stock ''t'' ''w'' ''i'' None cs"
    "cost_layers v = map (drained (drain cs 6)) (cost_layers demo_stock)" "13 / 2 = drained_cost cs 6" by auto
  with v(2) show ?thesis by (intro exI [of _ v] exI [of _ cs] conjI)
qed

text \<open>C14. What leaves a stocking point: an outgoing movement books the requested quantity or what is
  available, whichever is less, and needs something available.  So without a backorder it succeeds
  only for an available quantity, whether \<^verbatim>\<open>p_allow_negative\<close> is set or not, and a backorder for a
  point with nothing available always fails: the movement would have quantity 0, which the
  constraint of \<^verbatim>\<open>stock_movements\<close> refuses.
\<close>

theorem out_takes_what_is_available:
  assumes "ledger_ok w" "mp_direction m = ''out''" "on_grid (mp_quantity m)"
    "mp_type m \<notin> {''damage'', ''expiry'', ''quality_hold'', ''quality_release''}"
    "fn_apply_stock_movement m w = Inr (r, v)"
  shows "0 < available_at w (mp_point m) \<and> mv_quantity r = min (mp_quantity m) (available_at w (mp_point m)) \<and>
    (mp_backorder m \<or> mp_quantity m \<le> available_at w (mp_point m)) \<and> stock_movements v = stock_movements w @ [r]"
  using sokD [OF sok_conj [OF sok_out_quantity [OF assms(1-4)] sok_logged] assms(5)] by auto

lemma demo_sale: "\<exists>r v. fn_apply_stock_movement (demo_move ''sale'' ''out'' 10) demo_stock = Inr (r, v) \<and> mv_quantity r = 8 \<and>
    map bo_quantity (backorders v) = [2] \<and> map sl_on_hand (stock_levels v) = [0]"
  by (simp add: run_sql demo_move_def on_grid_def demo_point_def)

theorem out_takes_what_is_available_witness:
  "\<exists>(r :: stock_movement) (v :: stockroom). map bo_quantity (backorders v) = [2] \<and> mv_quantity r = min 10 (available_at demo_stock demo_point)"
proof -
  obtain r v where v: "fn_apply_stock_movement (demo_move ''sale'' ''out'' 10) demo_stock = Inr (r, v)"
    "map bo_quantity (backorders v) = [2]" using demo_sale by (elim exE conjE) (rule that)
  have "ledger_ok demo_stock" using demo_stock_ok by (simp add: stock_ok_def)
  from out_takes_what_is_available [OF this _ _ _ v(1)] v(2) show ?thesis
    by (intro exI [of _ r] exI [of _ v] conjI) (simp_all add: demo_move_def on_grid_def)
qed

text \<open>C15. An arrival makes its whole quantity available at once, also the part that fulfils open
  backorders: the promise of the point shrinks by the same quantity, but nothing is kept back for
  the orders that were promised it.
\<close>

theorem arrival_frees_everything:
  assumes "ledger_ok w" "arrives m" "on_grid (mp_quantity m)" "fn_apply_stock_movement m w = Inr (r, v)"
  shows "available_at v (mp_point m) = available_at w (mp_point m) + mp_quantity m \<and>
    (\<exists>k. level_at (stock_levels v) (mp_point m) = Some k \<and>
      sl_backorder k = max 0 (nullish (map_option sl_backorder (level_at (stock_levels w) (mp_point m))) 0 - mp_quantity m))"
  using sokD [OF sok_arrival [OF assms(1-3)] assms(4)] .

lemma demo_receipt: "\<exists>r v. fn_apply_stock_movement (demo_move ''receipt'' ''in'' 5) demo_stock = Inr (r, v)"
  by (simp add: run_sql demo_move_def on_grid_def demo_point_def)

theorem arrival_frees_everything_witness:
  "\<exists>v. available_at v demo_point = available_at demo_stock demo_point + 5 \<and>
    (\<exists>k. level_at (stock_levels (v :: stockroom)) demo_point = Some k \<and> sl_backorder k = 0)"
proof -
  obtain r v where v: "fn_apply_stock_movement (demo_move ''receipt'' ''in'' 5) demo_stock = Inr (r, v)"
    using demo_receipt by (elim exE) (rule that)
  show ?thesis
    by (rule exI [of _ v])
       (use arrival_frees_everything [OF _ _ _ v] demo_stock_ok in
         \<open>simp add: stock_ok_def demo_move_def arrives_def on_grid_def level_at_def\<close>)
qed

end
