(* ===== verification/Warehouse.thy ===== *)
theory Warehouse
  imports Stock
begin

text \<open>
  The operations of \<^verbatim>\<open>modules/inventory\<close> that change stock: adjustments, transfers, counts,
  reservations, the stock side of a sale, and the stored functions behind them (migrations 018,
  019, 032, 043, 105, 107, 117, 118, 163).  Every one of them keeps the ledger; a transfer moves
  stock without making or losing any.
\<close>

section \<open>Tables\<close>

record adjustment_row =
  aj_id :: string
  aj_tenant :: string
  aj_point :: point
  aj_delta :: number
  aj_unit_cost :: "number option"
  aj_reason :: string
  aj_status :: string
  aj_requires :: bool
  aj_requested_by :: string
  aj_approved_by :: "string option"
  aj_approved_at :: "int option"
  aj_posted_at :: "int option"

record transfer_row =
  tr_id :: string
  tr_tenant :: string
  tr_from :: string
  tr_to :: string
  tr_number :: string
  tr_status :: string
  tr_notes :: "string option"
  tr_approved_by :: "string option"
  tr_dispatched_by :: "string option"
  tr_received_by :: "string option"
  tr_completed_by :: "string option"

record transfer_line =
  tl_id :: string
  tl_tenant :: string
  tl_transfer :: string
  tl_item :: string
  tl_variant :: "string option"
  tl_batch :: "string option"
  tl_quantity :: number
  tl_from :: "string option"
  tl_to :: "string option"
  tl_cost :: "number option"

record count_row =
  ct_id :: string
  ct_tenant :: string
  ct_warehouse :: string
  ct_number :: string
  ct_type :: string
  ct_status :: string
  ct_approval :: "string option"
  ct_notes :: "string option"
  ct_started_by :: "string option"
  ct_completed_by :: "string option"
  ct_approved_by :: "string option"

record count_line =
  cn_id :: string
  cn_tenant :: string
  cn_count :: string
  cn_point :: point
  cn_expected :: number
  cn_counted :: "number option"
  cn_variance :: "number option"
  cn_reason :: "string option"

record reservation_row =
  rs_id :: string
  rs_tenant :: string
  rs_point :: point
  rs_quantity :: number
  rs_status :: string
  rs_ref_type :: string
  rs_ref :: string
  rs_expires :: "int option"
  rs_by :: "string option"
  rs_released :: "int option"

record location_row =
  lo_id :: string
  lo_tenant :: string
  lo_warehouse :: string

record reason_code_row =
  rc_id :: string
  rc_tenant :: string
  rc_applies :: string
  rc_active :: bool
  rc_deleted :: bool

text \<open>The audit trail of every approval (\<^verbatim>\<open>engines/approval-engine\<close>, migration 121).\<close>

record history_row =
  h_tenant :: string
  h_type :: string
  h_ref :: string
  h_action :: string
  h_actor :: "string option"
  h_previous :: "string option"
  h_new :: "string option"
  h_reason :: "string option"

text \<open>The two thresholds are the numbers the services read from the configuration; 0 if unset.\<close>

record warehouse = stockroom +
  adjustments :: "adjustment_row list"
  transfers :: "transfer_row list"
  transfer_lines :: "transfer_line list"
  counts :: "count_row list"
  count_lines :: "count_line list"
  reservations :: "reservation_row list"
  locations :: "location_row list"
  reason_codes :: "reason_code_row list"
  approval_history :: "history_row list"
  adjustment_threshold :: number
  count_threshold :: number

definition history_record ::
  "string \<Rightarrow> string \<Rightarrow> string \<Rightarrow> string \<Rightarrow> string option \<Rightarrow> string option \<Rightarrow> string option \<Rightarrow> string option \<Rightarrow> ('w warehouse_scheme, unit) io" where
  "history_record tenantId referenceType referenceId action actorId previous new why =
     orThrow (exec (\<lambda>w. (Inr (), w\<lparr>approval_history := approval_history w @
       [\<lparr>h_tenant = tenantId, h_type = referenceType, h_ref = referenceId, h_action = action, h_actor = actorId,
         h_previous = previous, h_new = new, h_reason = why\<rparr>]\<rparr>)))"

definition findForReference :: "string \<Rightarrow> string \<Rightarrow> string \<Rightarrow> ('w warehouse_scheme, history_row list) io" where
  "findForReference tenantId referenceType referenceId = orThrow (query (\<lambda>w. Inr (filter (\<lambda>h. h_tenant h = tenantId \<and>
     h_type h = referenceType \<and> h_ref h = referenceId) (approval_history w))))"

definition location_findById :: "string \<Rightarrow> string \<Rightarrow> string \<Rightarrow> ('w warehouse_scheme, location_row) io" where
  "location_findById i warehouseId tenantId =
     bindE (orThrow (query (\<lambda>w. maybeSingle (filter (\<lambda>l. lo_id l = i \<and> lo_warehouse l = warehouseId \<and> lo_tenant l = tenantId)
       (locations w))))) (\<lambda>r.
     case r of None \<Rightarrow> throw (not_found ''Location not found'') | Some l \<Rightarrow> ret l)"

definition check_location :: "string option \<Rightarrow> string \<Rightarrow> string \<Rightarrow> ('w warehouse_scheme, unit) io" where
  "check_location loc warehouseId tenantId = whenE (truthy loc) (bindE (location_findById (the loc) warehouseId tenantId) (\<lambda>_. ret ()))"

definition stockCachePrefix :: "string \<Rightarrow> string" where
  "stockCachePrefix tenantId = ''stock:tenant:'' @ tenantId @ '':''"

definition invalidateStockCache :: "string \<Rightarrow> ('w warehouse_scheme, unit) io" where
  "invalidateStockCache tenantId = cache_delByPrefix (stockCachePrefix tenantId)"

text \<open>A stored function through a handler's \<^verbatim>\<open>try ... catch (error) { throwFromRpcError(error) }\<close>.\<close>

definition guarded :: "('w, 'a) io \<Rightarrow> ('w, 'a) io" where
  "guarded m = catchE m throwFromRpcError"

definition find_or_raise :: "('w \<Rightarrow> 'r list) \<Rightarrow> ('r \<Rightarrow> bool) \<Rightarrow> string \<Rightarrow> ('w, 'r) sql" where
  "find_or_raise rows P m = sbind (sget (\<lambda>w. find P (rows w))) (\<lambda>r. case r of None \<Rightarrow> sfail (raise m) | Some x \<Rightarrow> sret x)"

definition simple_move :: "point \<Rightarrow> string \<Rightarrow> string \<Rightarrow> number \<Rightarrow> number option \<Rightarrow> string \<Rightarrow> string option \<Rightarrow> string option \<Rightarrow> move" where
  "simple_move p kind way q c refType ref actor =
     \<lparr>mp_point = p, mp_type = kind, mp_direction = way, mp_quantity = q, mp_unit_cost = c, mp_ref_type = refType,
      mp_ref = ref, mp_by = actor, mp_negative = False, mp_backorder = False\<rparr>"

text \<open>A loss (consume the layers, then book) and a gain (book, then add a layer): the two halves of every stock operation.\<close>

definition stock_loss :: "point \<Rightarrow> string \<Rightarrow> number \<Rightarrow> string \<Rightarrow> string \<Rightarrow> string option \<Rightarrow> bool \<Rightarrow> ('w stockroom_scheme, number) sql" where
  "stock_loss p kind q refType ref actor negative =
     sbind (fn_consume_cost_layers (pt_tenant p) (pt_warehouse p) (pt_item p) (pt_variant p) q False None) (\<lambda>c.
     sbind (fn_apply_stock_movement ((simple_move p kind ''out'' q (Some c) refType (Some ref) actor)\<lparr>mp_negative := negative\<rparr>)) (\<lambda>_.
     sret c))"

definition stock_gain :: "point \<Rightarrow> string \<Rightarrow> number \<Rightarrow> number option \<Rightarrow> string \<Rightarrow> string \<Rightarrow> string option \<Rightarrow> ('w stockroom_scheme, stock_movement) sql" where
  "stock_gain p kind q c refType ref actor =
     sbind (fn_apply_stock_movement (simple_move p kind ''in'' q c refType (Some ref) actor)) (\<lambda>m.
     sbind (fn_add_cost_layer (pt_tenant p) (pt_warehouse p) (pt_item p) (pt_variant p) (pt_batch p) q (nullish c 0) (Some (mv_id m))) (\<lambda>_.
     sret m))"

section \<open>Adjustments\<close>

record create_adjustment =
  ca_warehouse :: string
  ca_item :: string
  ca_variant :: "string option"
  ca_batch :: "string option"
  ca_delta :: number
  ca_unit_cost :: "number option"
  ca_reason :: string
  ca_location :: "string option"

definition adjustment_findById :: "string \<Rightarrow> string \<Rightarrow> ('w warehouse_scheme, adjustment_row) io" where
  "adjustment_findById i tenantId =
     bindE (orThrow (query (\<lambda>w. maybeSingle (filter (\<lambda>a. aj_id a = i \<and> aj_tenant a = tenantId) (adjustments w))))) (\<lambda>r.
     case r of None \<Rightarrow> throw (not_found ''Adjustment not found'') | Some a \<Rightarrow> ret a)"

definition adjustment_check :: "adjustment_row list \<Rightarrow> adjustment_row \<Rightarrow> db_error option" where
  "adjustment_check rs a =
     (if 10 ^ 10 \<le> \<bar>aj_delta a\<bar> \<or> 10 ^ 10 \<le> \<bar>nullish (aj_unit_cost a) 0\<bar> then Some numeric_overflow
      else if aj_delta a = 0 \<or> nullish (aj_unit_cost a) 0 < 0 \<or>
        aj_status a \<notin> {''pending_approval'', ''approved'', ''rejected'', ''posted''} then Some check_violation
      else if \<exists>r\<in>set rs. aj_id r = aj_id a then Some unique_violation else None)"

definition adjustment_create :: "string \<Rightarrow> create_adjustment \<Rightarrow> string \<Rightarrow> ('w warehouse_scheme, adjustment_row) io" where
  "adjustment_create tenantId dto actorId =
     bindE (check_location (ca_location dto) (ca_warehouse dto) tenantId) (\<lambda>_.
     bindE (gets adjustment_threshold) (\<lambda>approvalThreshold.
     let movementValue = (case ca_unit_cost dto of Some c \<Rightarrow> if c \<noteq> 0 then fmul \<bar>ca_delta dto\<bar> c else \<bar>ca_delta dto\<bar> | None \<Rightarrow> \<bar>ca_delta dto\<bar>);
         requiresApproval = (approvalThreshold > 0 \<and> movementValue \<ge> approvalThreshold)
     in orThrow (exec (\<lambda>w.
       let row = \<lparr>aj_id = fresh_id w, aj_tenant = tenantId,
         aj_point = \<lparr>pt_tenant = tenantId, pt_warehouse = ca_warehouse dto, pt_location = ca_location dto, pt_item = ca_item dto,
           pt_variant = ca_variant dto, pt_batch = ca_batch dto\<rparr>,
         aj_delta = numeric4 (ca_delta dto), aj_unit_cost = map_option numeric4 (ca_unit_cost dto), aj_reason = ca_reason dto,
         aj_status = (if requiresApproval then ''pending_approval'' else ''approved''), aj_requires = requiresApproval,
         aj_requested_by = actorId, aj_approved_by = None, aj_approved_at = None, aj_posted_at = None\<rparr>
       in case adjustment_check (adjustments w) row of Some e \<Rightarrow> (Inl e, w)
          | None \<Rightarrow> (Inr row, w\<lparr>adjustments := adjustments w @ [row]\<rparr>)))))"

definition decide_adjustment :: "string \<Rightarrow> string \<Rightarrow> string \<Rightarrow> string \<Rightarrow> ('w warehouse_scheme, adjustment_row) io" where
  "decide_adjustment status i tenantId approvedBy =
     bindE now (\<lambda>t.
     orThrow (exec (\<lambda>w.
       let hit = (\<lambda>a. aj_id a = i \<and> aj_tenant a = tenantId \<and> aj_status a = ''pending_approval'');
           f = (\<lambda>a. a\<lparr>aj_status := status, aj_approved_by := Some approvedBy, aj_approved_at := Some t\<rparr>)
       in case single (filter hit (adjustments w)) of Inl e \<Rightarrow> (Inl e, w)
          | Inr a \<Rightarrow> (Inr (f a), w\<lparr>adjustments := update_where hit f (adjustments w)\<rparr>))))"

definition adjustment_approve :: "string \<Rightarrow> string \<Rightarrow> string \<Rightarrow> ('w warehouse_scheme, adjustment_row) io" where
  "adjustment_approve i tenantId actorId =
     bindE (adjustment_findById i tenantId) (\<lambda>_. decide_adjustment ''approved'' i tenantId actorId)"

definition adjustment_reject :: "string \<Rightarrow> string \<Rightarrow> string \<Rightarrow> ('w warehouse_scheme, adjustment_row) io" where
  "adjustment_reject i tenantId actorId =
     bindE (adjustment_findById i tenantId) (\<lambda>_. decide_adjustment ''rejected'' i tenantId actorId)"

definition fn_post_stock_adjustment :: "string \<Rightarrow> string \<Rightarrow> ('w warehouse_scheme, adjustment_row) sql" where
  "fn_post_stock_adjustment i actor =
     sbind (find_or_raise adjustments (\<lambda>a. aj_id a = i) (''adjustment '' @ i @ '' not found'')) (\<lambda>a.
     sbind (srequire (aj_status a \<in> {''pending_approval'', ''approved''})
       (raise (''adjustment '' @ i @ '' cannot be posted from status '' @ aj_status a))) (\<lambda>_.
     sbind (srequire (aj_requires a \<longrightarrow> aj_status a = ''approved'')
       (raise (''adjustment '' @ i @ '' requires approval before posting''))) (\<lambda>_.
     sbind (if 0 < aj_delta a then
         sbind (sget (\<lambda>w. costings w (pt_item (aj_point a)))) (\<lambda>co.
         sbind (stock_gain (aj_point a) ''adjustment_in'' (aj_delta a) (Some (nullish (nullish2 (aj_unit_cost a) (co_price co)) 0))
           ''stock_adjustment'' i (Some actor)) (\<lambda>_. sret ()))
       else
         sbind (stock_loss (aj_point a) ''adjustment_out'' \<bar>aj_delta a\<bar> ''stock_adjustment'' i (Some actor) False) (\<lambda>_. sret ())) (\<lambda>_.
     sbind (sget sql_now) (\<lambda>t.
     let a' = a\<lparr>aj_status := ''posted'', aj_posted_at := Some t\<rparr> in
     sbind (smodify (\<lambda>w. w\<lparr>adjustments := update_where (\<lambda>r. aj_id r = i) (\<lambda>_. a') (adjustments w)\<rparr>)) (\<lambda>_.
     sbind (emit_domain_event ''inventory.adjustment.posted'' i) (\<lambda>_. sret a')))))))"

definition adjustment_post :: "string \<Rightarrow> string \<Rightarrow> string \<Rightarrow> ('w warehouse_scheme, adjustment_row) io" where
  "adjustment_post i tenantId actorId =
     bindE (adjustment_findById i tenantId) (\<lambda>a.
     bindE (require (aj_status a = ''approved'') (forbidden ''Adjustment must be approved before it can be posted'')) (\<lambda>_.
     guarded
       (bindE (rpc (fn_post_stock_adjustment i actorId)) (\<lambda>result.
        bindE (invalidateStockCache tenantId) (\<lambda>_.
        ret result)))))"

section \<open>Transfers\<close>

record create_transfer_line =
  ctl_item :: string
  ctl_variant :: "string option"
  ctl_batch :: "string option"
  ctl_quantity :: number
  ctl_from :: "string option"
  ctl_to :: "string option"

record create_transfer =
  ctr_from :: string
  ctr_to :: string
  ctr_number :: string
  ctr_notes :: "string option"
  ctr_items :: "create_transfer_line list"

definition transfer_findById :: "string \<Rightarrow> string \<Rightarrow> ('w warehouse_scheme, transfer_row) io" where
  "transfer_findById i tenantId =
     bindE (orThrow (query (\<lambda>w. maybeSingle (filter (\<lambda>a. tr_id a = i \<and> tr_tenant a = tenantId) (transfers w))))) (\<lambda>r.
     case r of None \<Rightarrow> throw (not_found ''Transfer not found'') | Some a \<Rightarrow> ret a)"

text \<open>The constraints of the lines: quantity, key, and the trigger of migration 118.\<close>

definition transfer_line_check :: "transfer_row list \<Rightarrow> transfer_line list \<Rightarrow> transfer_line \<Rightarrow> db_error option" where
  "transfer_line_check ts ls l =
     (if \<exists>t\<in>set ts. tr_id t = tl_transfer l \<and> tr_from t = tr_to t \<and> (tl_from l = None \<or> tl_to l = None) then
        Some (raise ''an intra-warehouse transfer line requires both from_location_id and to_location_id'')
      else if \<exists>t\<in>set ts. tr_id t = tl_transfer l \<and> tr_from t = tr_to t \<and> tl_from l = tl_to l then
        Some (raise ''an intra-warehouse transfer line must move between two different locations'')
      else if 10 ^ 10 \<le> \<bar>tl_quantity l\<bar> then Some numeric_overflow
      else if tl_quantity l \<le> 0 then Some check_violation
      else if \<exists>r\<in>set ls. tl_id r = tl_id l then Some unique_violation else None)"

primrec insert_transfer_lines :: "transfer_line list \<Rightarrow> ('w warehouse_scheme, unit) sql" where
  "insert_transfer_lines [] = sret ()"
| "insert_transfer_lines (l # ls) =
     sbind new_row_id (\<lambda>i.
     sbind (sget (\<lambda>w. transfer_line_check (transfers w) (transfer_lines w) (l\<lparr>tl_id := i\<rparr>))) (\<lambda>c.
     sbind (checked c (smodify (\<lambda>w. w\<lparr>transfer_lines := transfer_lines w @ [l\<lparr>tl_id := i\<rparr>]\<rparr>))) (\<lambda>_.
     insert_transfer_lines ls)))"

definition transfer_insert :: "string \<Rightarrow> create_transfer \<Rightarrow> ('w warehouse_scheme, transfer_row) io" where
  "transfer_insert tenantId dto = orThrow (exec (\<lambda>w.
     let row = \<lparr>tr_id = fresh_id w, tr_tenant = tenantId, tr_from = ctr_from dto, tr_to = ctr_to dto, tr_number = ctr_number dto,
       tr_status = ''draft'', tr_notes = ctr_notes dto, tr_approved_by = None, tr_dispatched_by = None, tr_received_by = None,
       tr_completed_by = None\<rparr>
     in if \<exists>t\<in>set (transfers w). tr_id t = tr_id row \<or> (tr_tenant t = tenantId \<and> tr_number t = tr_number row)
        then (Inl unique_violation, w) else (Inr row, w\<lparr>transfers := transfers w @ [row]\<rparr>)))"

definition transfer_create :: "string \<Rightarrow> create_transfer \<Rightarrow> ('w warehouse_scheme, transfer_row) io" where
  "transfer_create tenantId dto =
     bindE (forEach (ctr_items dto) (\<lambda>line.
       bindE (check_location (ctl_from line) (ctr_from dto) tenantId) (\<lambda>_.
       check_location (ctl_to line) (ctr_to dto) tenantId))) (\<lambda>_.
     bindE (transfer_insert tenantId dto) (\<lambda>transfer.
     bindE (rpc (insert_transfer_lines (map (\<lambda>line.
       \<lparr>tl_id = [], tl_tenant = tenantId, tl_transfer = tr_id transfer, tl_item = ctl_item line, tl_variant = ctl_variant line,
        tl_batch = ctl_batch line, tl_quantity = numeric4 (ctl_quantity line), tl_from = ctl_from line, tl_to = ctl_to line,
        tl_cost = None\<rparr>) (ctr_items dto)))) (\<lambda>_.
     transfer_findById (tr_id transfer) tenantId)))"

definition put_transfer :: "transfer_row \<Rightarrow> ('w warehouse_scheme, transfer_row) sql" where
  "put_transfer t = sbind (smodify (\<lambda>w. w\<lparr>transfers := update_where (\<lambda>r. tr_id r = tr_id t) (\<lambda>_. t) (transfers w)\<rparr>)) (\<lambda>_. sret t)"

definition lines_of :: "'w warehouse_scheme \<Rightarrow> string \<Rightarrow> transfer_line list" where
  "lines_of w i = filter (\<lambda>l. tl_transfer l = i) (transfer_lines w)"

definition transfer_in_status :: "string \<Rightarrow> string \<Rightarrow> string \<Rightarrow> ('w warehouse_scheme, transfer_row) sql" where
  "transfer_in_status i status complaint =
     sbind (find_or_raise transfers (\<lambda>t. tr_id t = i) (''transfer '' @ i @ '' not found'')) (\<lambda>t.
     sbind (srequire (tr_status t = status) (raise (''transfer '' @ i @ complaint @ '' (status='' @ tr_status t @ '')''))) (\<lambda>_.
     sret t))"

definition fn_transfer_approve :: "string \<Rightarrow> string \<Rightarrow> ('w warehouse_scheme, transfer_row) sql" where
  "fn_transfer_approve i actor =
     sbind (transfer_in_status i ''draft'' '' is not in draft status'') (\<lambda>t.
     sbind (put_transfer (t\<lparr>tr_status := ''approved'', tr_approved_by := Some actor\<rparr>)) (\<lambda>t'.
     sbind (emit_domain_event ''inventory.transfer.approved'' i) (\<lambda>_. sret t')))"

definition from_point :: "transfer_row \<Rightarrow> transfer_line \<Rightarrow> point" where
  "from_point t l = \<lparr>pt_tenant = tr_tenant t, pt_warehouse = tr_from t, pt_location = tl_from l, pt_item = tl_item l,
     pt_variant = tl_variant l, pt_batch = tl_batch l\<rparr>"

definition to_point :: "transfer_row \<Rightarrow> transfer_line \<Rightarrow> point" where
  "to_point t l = \<lparr>pt_tenant = tr_tenant t, pt_warehouse = tr_to t, pt_location = tl_to l, pt_item = tl_item l,
     pt_variant = tl_variant l, pt_batch = tl_batch l\<rparr>"

definition dispatch_line :: "transfer_row \<Rightarrow> string \<Rightarrow> transfer_line \<Rightarrow> ('w warehouse_scheme, unit) sql" where
  "dispatch_line t actor l =
     sbind (stock_loss (from_point t l) ''transfer_out'' (tl_quantity l) ''stock_transfer'' (tr_id t) (Some actor) False) (\<lambda>c.
     smodify (\<lambda>w. w\<lparr>transfer_lines := update_where (\<lambda>r. tl_id r = tl_id l) (\<lambda>r. r\<lparr>tl_cost := Some (numeric4 c)\<rparr>) (transfer_lines w)\<rparr>))"

definition fn_transfer_dispatch :: "string \<Rightarrow> string \<Rightarrow> ('w warehouse_scheme, transfer_row) sql" where
  "fn_transfer_dispatch i actor =
     sbind (transfer_in_status i ''approved'' '' is not approved'') (\<lambda>t.
     sbind (sget (\<lambda>w. lines_of w i)) (\<lambda>ls.
     sbind (sfor ls (dispatch_line t actor)) (\<lambda>_.
     sbind (put_transfer (t\<lparr>tr_status := ''in_transit'', tr_dispatched_by := Some actor\<rparr>)) (\<lambda>t'.
     sbind (emit_domain_event ''inventory.transfer.dispatched'' i) (\<lambda>_. sret t')))))"

definition receive_line :: "transfer_row \<Rightarrow> string \<Rightarrow> transfer_line \<Rightarrow> ('w warehouse_scheme, unit) sql" where
  "receive_line t actor l =
     sbind (stock_gain (to_point t l) ''transfer_in'' (tl_quantity l) (tl_cost l) ''stock_transfer'' (tr_id t) (Some actor)) (\<lambda>_. sret ())"

definition fn_transfer_receive :: "string \<Rightarrow> string \<Rightarrow> ('w warehouse_scheme, transfer_row) sql" where
  "fn_transfer_receive i actor =
     sbind (transfer_in_status i ''in_transit'' '' is not in_transit'') (\<lambda>t.
     sbind (sget (\<lambda>w. lines_of w i)) (\<lambda>ls.
     sbind (sfor ls (receive_line t actor)) (\<lambda>_.
     sbind (put_transfer (t\<lparr>tr_status := ''received'', tr_received_by := Some actor\<rparr>)) (\<lambda>t'.
     sbind (emit_domain_event ''inventory.transfer.received'' i) (\<lambda>_. sret t')))))"

definition fn_transfer_complete :: "string \<Rightarrow> string \<Rightarrow> ('w warehouse_scheme, transfer_row) sql" where
  "fn_transfer_complete i actor =
     sbind (transfer_in_status i ''received'' '' is not received'') (\<lambda>t.
     sbind (put_transfer (t\<lparr>tr_status := ''completed'', tr_completed_by := Some actor\<rparr>)) (\<lambda>t'.
     sbind (emit_domain_event ''inventory.transfer.completed'' i) (\<lambda>_. sret t')))"

definition transfer_approve :: "string \<Rightarrow> string \<Rightarrow> string \<Rightarrow> ('w warehouse_scheme, transfer_row) io" where
  "transfer_approve i tenantId actorId =
     bindE (transfer_findById i tenantId) (\<lambda>_. guarded (rpc (fn_transfer_approve i actorId)))"

definition transfer_complete :: "string \<Rightarrow> string \<Rightarrow> string \<Rightarrow> ('w warehouse_scheme, transfer_row) io" where
  "transfer_complete i tenantId actorId =
     bindE (transfer_findById i tenantId) (\<lambda>_. guarded (rpc (fn_transfer_complete i actorId)))"

definition transfer_dispatch :: "string \<Rightarrow> string \<Rightarrow> string \<Rightarrow> ('w warehouse_scheme, transfer_row) io" where
  "transfer_dispatch i tenantId actorId =
     bindE (transfer_findById i tenantId) (\<lambda>_. guarded
       (bindE (rpc (fn_transfer_dispatch i actorId)) (\<lambda>result.
        bindE (invalidateStockCache tenantId) (\<lambda>_. ret result))))"

definition transfer_receive :: "string \<Rightarrow> string \<Rightarrow> string \<Rightarrow> ('w warehouse_scheme, transfer_row) io" where
  "transfer_receive i tenantId actorId =
     bindE (transfer_findById i tenantId) (\<lambda>_. guarded
       (bindE (rpc (fn_transfer_receive i actorId)) (\<lambda>result.
        bindE (invalidateStockCache tenantId) (\<lambda>_. ret result))))"

definition transfer_cancel :: "string \<Rightarrow> string \<Rightarrow> ('w warehouse_scheme, transfer_row) io" where
  "transfer_cancel i tenantId =
     bindE (transfer_findById i tenantId) (\<lambda>_.
     orThrow (exec (\<lambda>w.
       let hit = (\<lambda>t. tr_id t = i \<and> tr_tenant t = tenantId \<and> tr_status t \<in> {''draft'', ''approved''});
           f = (\<lambda>t. t\<lparr>tr_status := ''cancelled''\<rparr>)
       in case single (filter hit (transfers w)) of Inl e \<Rightarrow> (Inl e, w)
          | Inr t \<Rightarrow> (Inr (f t), w\<lparr>transfers := update_where hit f (transfers w)\<rparr>))))"

section \<open>Counts\<close>

record create_count =
  cc_warehouse :: string
  cc_number :: string
  cc_notes :: "string option"
  cc_type :: "string option"
  cc_items :: "string list option"
  cc_locations :: "string list option"

definition count_findById :: "string \<Rightarrow> string \<Rightarrow> ('w warehouse_scheme, count_row) io" where
  "count_findById i tenantId =
     bindE (orThrow (query (\<lambda>w. maybeSingle (filter (\<lambda>a. ct_id a = i \<and> ct_tenant a = tenantId) (counts w))))) (\<lambda>r.
     case r of None \<Rightarrow> throw (not_found ''Stock count not found'') | Some a \<Rightarrow> ret a)"

definition scoped :: "string list option \<Rightarrow> bool" where
  "scoped xs = (case xs of None \<Rightarrow> False | Some ys \<Rightarrow> ys \<noteq> [])"

definition in_scope :: "create_count \<Rightarrow> stock_level \<Rightarrow> bool" where
  "in_scope dto l \<longleftrightarrow> (scoped (cc_items dto) \<longrightarrow> pt_item (sl_point l) \<in> set (the (cc_items dto))) \<and>
     (scoped (cc_locations dto) \<longrightarrow> (case pt_location (sl_point l) of None \<Rightarrow> False | Some x \<Rightarrow> x \<in> set (the (cc_locations dto))))"

primrec insert_count_lines :: "count_line list \<Rightarrow> ('w warehouse_scheme, unit) sql" where
  "insert_count_lines [] = sret ()"
| "insert_count_lines (l # ls) =
     sbind new_row_id (\<lambda>i.
     sbind (sget (\<lambda>w. i \<in> cn_id ` set (count_lines w))) (\<lambda>taken.
     sbind (checked (if taken then Some unique_violation else None)
       (smodify (\<lambda>w. w\<lparr>count_lines := count_lines w @ [l\<lparr>cn_id := i\<rparr>]\<rparr>))) (\<lambda>_.
     insert_count_lines ls)))"

definition count_insert :: "string \<Rightarrow> create_count \<Rightarrow> ('w warehouse_scheme, count_row) io" where
  "count_insert tenantId dto = orThrow (exec (\<lambda>w.
     let row = \<lparr>ct_id = fresh_id w, ct_tenant = tenantId, ct_warehouse = cc_warehouse dto, ct_number = cc_number dto,
       ct_type = (if truthy (cc_type dto) then the (cc_type dto) else ''full''), ct_status = ''draft'', ct_approval = None,
       ct_notes = cc_notes dto, ct_started_by = None, ct_completed_by = None, ct_approved_by = None\<rparr>
     in if ct_type row \<notin> {''full'', ''partial'', ''cycle''} then (Inl check_violation, w)
        else if \<exists>c\<in>set (counts w). ct_id c = ct_id row \<or> (ct_tenant c = tenantId \<and> ct_number c = ct_number row)
        then (Inl unique_violation, w) else (Inr row, w\<lparr>counts := counts w @ [row]\<rparr>)))"

text \<open>The error of the last update, to \<^verbatim>\<open>in_progress\<close>, is not looked at.\<close>

definition count_create :: "string \<Rightarrow> create_count \<Rightarrow> string \<Rightarrow> ('w warehouse_scheme, count_row) io" where
  "count_create tenantId dto actorId =
     bindE (require (\<not> (truthy (cc_type dto) \<and> cc_type dto \<noteq> Some ''full'' \<and> \<not> scoped (cc_items dto) \<and> \<not> scoped (cc_locations dto)))
       (bad_request (''count_type \"'' @ nullish (cc_type dto) [] @ ''\" requires at least one of item_ids or location_ids to scope the count''))) (\<lambda>_.
     bindE (count_insert tenantId dto) (\<lambda>data.
     bindE (orThrow (query (\<lambda>w. Inr (filter (\<lambda>l. pt_tenant (sl_point l) = tenantId \<and> pt_warehouse (sl_point l) = ct_warehouse data \<and>
       in_scope dto l) (stock_levels w))))) (\<lambda>levels.
     bindE (whenE (levels \<noteq> []) (rpc (insert_count_lines (map (\<lambda>l. \<lparr>cn_id = [], cn_tenant = tenantId, cn_count = ct_id data,
       cn_point = sl_point l, cn_expected = sl_on_hand l, cn_counted = None, cn_variance = None, cn_reason = None\<rparr>) levels)))) (\<lambda>_.
     bindE (exec (\<lambda>w. (Inr (), w\<lparr>counts := update_where (\<lambda>c. ct_id c = ct_id data)
       (\<lambda>c. c\<lparr>ct_status := ''in_progress'', ct_started_by := Some actorId\<rparr>) (counts w)\<rparr>))) (\<lambda>_.
     count_findById (ct_id data) tenantId)))))"

definition reasonCodeExists :: "string \<Rightarrow> string \<Rightarrow> ('w warehouse_scheme, bool) io" where
  "reasonCodeExists i tenantId = orThrow (query (\<lambda>w. Inr (\<exists>r\<in>set (reason_codes w). rc_id r = i \<and> rc_tenant r = tenantId \<and>
     rc_applies r = ''count'' \<and> rc_active r \<and> \<not> rc_deleted r)))"

text \<open>Neither the count of the line nor its status is looked at: any line of the tenant is written.\<close>

definition submitCount :: "string \<Rightarrow> string \<Rightarrow> string \<Rightarrow> number \<Rightarrow> string option \<Rightarrow> ('w warehouse_scheme, count_line) io" where
  "submitCount countId countItemId tenantId qty why =
     bindE (count_findById countId tenantId) (\<lambda>_.
     bindE (whenE (truthy why) (bindE (reasonCodeExists (the why) tenantId) (\<lambda>found.
       require found (not_found ''Reason code not found'')))) (\<lambda>_.
     orThrow (exec (\<lambda>w.
       let hit = (\<lambda>l. cn_id l = countItemId \<and> cn_tenant l = tenantId);
           f = (\<lambda>l. l\<lparr>cn_counted := Some (numeric4 qty), cn_reason := (case why of None \<Rightarrow> cn_reason l | Some x \<Rightarrow> Some x)\<rparr>)
       in case single (filter hit (count_lines w)) of Inl e \<Rightarrow> (Inl e, w)
          | Inr l \<Rightarrow> if 10 ^ 10 \<le> \<bar>numeric4 qty\<bar> then (Inl numeric_overflow, w)
              else (Inr (f l), w\<lparr>count_lines := update_where hit f (count_lines w)\<rparr>)))))"

definition computeTotalVarianceValue :: "string \<Rightarrow> string \<Rightarrow> ('w warehouse_scheme, number) io" where
  "computeTotalVarianceValue i tenantId =
     bindE (orThrow (query (\<lambda>w. Inr (map (\<lambda>l. (the (cn_counted l), cn_expected l, co_price (costings w (pt_item (cn_point l)))))
       (filter (\<lambda>l. cn_count l = i \<and> cn_tenant l = tenantId \<and> cn_counted l \<noteq> None) (count_lines w)))))) (\<lambda>rows.
     ret (foldl (\<lambda>acc (qty, planned, price). fadd acc (fmul \<bar>fsub qty planned\<bar> (nullish price 0))) 0 rows))"

definition setPendingApproval :: "string \<Rightarrow> string \<Rightarrow> ('w warehouse_scheme, count_row) io" where
  "setPendingApproval i tenantId = orThrow (exec (\<lambda>w.
     let hit = (\<lambda>c. ct_id c = i \<and> ct_tenant c = tenantId);
         f = (\<lambda>c. c\<lparr>ct_approval := Some ''pending_approval''\<rparr>)
     in case single (filter hit (counts w)) of Inl e \<Rightarrow> (Inl e, w)
        | Inr c \<Rightarrow> (Inr (f c), w\<lparr>counts := update_where hit f (counts w)\<rparr>)))"

definition put_count :: "count_row \<Rightarrow> ('w warehouse_scheme, count_row) sql" where
  "put_count c = sbind (smodify (\<lambda>w. w\<lparr>counts := update_where (\<lambda>r. ct_id r = ct_id c) (\<lambda>_. c) (counts w)\<rparr>)) (\<lambda>_. sret c)"

definition correct_line :: "string \<Rightarrow> string \<Rightarrow> count_line \<Rightarrow> ('w warehouse_scheme, unit) sql" where
  "correct_line i actor l =
     (let qty = the (cn_counted l); diff = qty - cn_expected l in
      sbind (smodify (\<lambda>w. w\<lparr>count_lines := update_where (\<lambda>r. cn_id r = cn_id l)
        (\<lambda>r. r\<lparr>cn_variance := Some (numeric4 diff)\<rparr>) (count_lines w)\<rparr>)) (\<lambda>_.
      if diff = 0 then sret ()
      else if 0 < diff then
        sbind (sget (\<lambda>w. nullish (co_price (costings w (pt_item (cn_point l)))) 0)) (\<lambda>c.
        sbind (stock_gain (cn_point l) ''count_correction_in'' diff (Some c) ''stock_count'' i (Some actor)) (\<lambda>_. sret ()))
      else sbind (stock_loss (cn_point l) ''count_correction_out'' (- diff) ''stock_count'' i (Some actor) True) (\<lambda>_. sret ())))"

text \<open>
  The corrections are booked at the tenant and warehouse of the count; the lines carry the same
  ones, having been copied from its levels.
\<close>

definition fn_finalize_stock_count :: "string \<Rightarrow> string \<Rightarrow> ('w warehouse_scheme, count_row) sql" where
  "fn_finalize_stock_count i actor =
     sbind (find_or_raise counts (\<lambda>c. ct_id c = i) (''stock count '' @ i @ '' not found'')) (\<lambda>c.
     sbind (srequire (ct_status c = ''in_progress'')
       (raise (''stock count '' @ i @ '' is not in_progress (status='' @ ct_status c @ '')''))) (\<lambda>_.
     sbind (srequire (ct_approval c \<in> {None, Some ''approved''})
       (raise (''stock count '' @ i @ '' requires approval before finalizing (approval_status='' @ nullish (ct_approval c) [] @ '')''))) (\<lambda>_.
     sbind (sget (\<lambda>w. filter (\<lambda>l. cn_count l = i \<and> cn_counted l \<noteq> None) (count_lines w))) (\<lambda>ls.
     sbind (sfor ls (\<lambda>l. correct_line i actor
       (l\<lparr>cn_point := (cn_point l)\<lparr>pt_tenant := ct_tenant c, pt_warehouse := ct_warehouse c\<rparr>\<rparr>))) (\<lambda>_.
     sbind (put_count (c\<lparr>ct_status := ''completed'', ct_completed_by := Some actor\<rparr>)) (\<lambda>c'.
     sbind (emit_domain_event ''inventory.stock_count.completed'' i) (\<lambda>_. sret c')))))))"

definition count_finalize :: "string \<Rightarrow> string \<Rightarrow> string \<Rightarrow> ('w warehouse_scheme, count_row) io" where
  "count_finalize i tenantId actorId =
     bindE (count_findById i tenantId) (\<lambda>count.
     bindE (gets count_threshold) (\<lambda>approvalThreshold.
     bindE (whenE (ct_approval count = None \<and> approvalThreshold > 0)
       (bindE (computeTotalVarianceValue i tenantId) (\<lambda>varianceValue.
        whenE (varianceValue \<ge> approvalThreshold)
          (bindE (setPendingApproval i tenantId) (\<lambda>_.
           bindE (gets pg_text) (\<lambda>js_text.
           throw (bad_request (''Stock count '' @ i @ '' requires approval before finalizing (variance value '' @
             js_text varianceValue @ '' >= threshold '' @ js_text approvalThreshold @ '')'')))))))) (\<lambda>_.
     guarded
       (bindE (rpc (fn_finalize_stock_count i actorId)) (\<lambda>result.
        bindE (invalidateStockCache tenantId) (\<lambda>_. ret result))))))"

definition fn_approve_stock_count :: "string \<Rightarrow> string \<Rightarrow> bool \<Rightarrow> ('w warehouse_scheme, count_row) sql" where
  "fn_approve_stock_count i actor approved =
     sbind (find_or_raise counts (\<lambda>c. ct_id c = i) (''stock count '' @ i @ '' not found'')) (\<lambda>c.
     sbind (srequire (ct_approval c = Some ''pending_approval'')
       (raise (''stock count '' @ i @ '' is not pending approval (approval_status='' @ nullish (ct_approval c) ''<NULL>'' @ '')''))) (\<lambda>_.
     sbind (put_count (c\<lparr>ct_approval := Some (if approved then ''approved'' else ''rejected''), ct_approved_by := Some actor\<rparr>)) (\<lambda>c'.
     sbind (emit_domain_event ''inventory.stock_count.approval_decided'' i) (\<lambda>_. sret c'))))"

definition count_approve :: "string \<Rightarrow> string \<Rightarrow> string \<Rightarrow> bool \<Rightarrow> string option \<Rightarrow> ('w warehouse_scheme, count_row) io" where
  "count_approve i tenantId actorId approved why =
     bindE (count_findById i tenantId) (\<lambda>count.
     let pendingStatus = ''pending_approval'';
         complaint = bad_request (''Stock count '' @ i @ '' is not pending approval (approval_status='' @ nullish (ct_approval count) ''null'' @ '')'')
     in if approved then
       bindE (require (ct_approval count \<noteq> None \<and> canApprove (the (ct_approval count)) pendingStatus) complaint) (\<lambda>_.
       bindE now (\<lambda>t.
       let result = approve t actorId in
       bindE (guarded (rpc (fn_approve_stock_count i actorId True))) (\<lambda>updated.
       bindE (history_record tenantId ''stock_count'' i ''approve'' (Some (resolvedBy result)) (Some pendingStatus) (Some ''approved'') why) (\<lambda>_.
       ret updated))))
     else
       bindE (require (ct_approval count \<noteq> None \<and> canReject (the (ct_approval count)) pendingStatus) complaint) (\<lambda>_.
       bindE now (\<lambda>t.
       bindE (lift (reject t actorId (nullish why []))) (\<lambda>result.
       bindE (guarded (rpc (fn_approve_stock_count i actorId False))) (\<lambda>updated.
       bindE (history_record tenantId ''stock_count'' i ''reject'' (Some (resolvedBy result)) (Some pendingStatus) (Some ''rejected'') (reason result)) (\<lambda>_.
       ret updated))))))"

section \<open>Reservations\<close>

record create_reservation =
  cr_warehouse :: string
  cr_item :: string
  cr_variant :: "string option"
  cr_batch :: "string option"
  cr_quantity :: number
  cr_ref_type :: string
  cr_ref :: string
  cr_expires :: "int option"

definition reservation_findById :: "string \<Rightarrow> string \<Rightarrow> ('w warehouse_scheme, reservation_row) io" where
  "reservation_findById i tenantId =
     bindE (orThrow (query (\<lambda>w. maybeSingle (filter (\<lambda>a. rs_id a = i \<and> rs_tenant a = tenantId) (reservations w))))) (\<lambda>r.
     case r of None \<Rightarrow> throw (not_found ''Reservation not found'') | Some a \<Rightarrow> ret a)"

definition reservation_check :: "reservation_row list \<Rightarrow> reservation_row \<Rightarrow> db_error option" where
  "reservation_check rs r =
     (if 10 ^ 10 \<le> \<bar>rs_quantity r\<bar> then Some numeric_overflow
      else if rs_quantity r \<le> 0 then Some check_violation
      else if \<exists>x\<in>set rs. rs_id x = rs_id r then Some unique_violation else None)"

definition fn_create_reservation :: "point \<Rightarrow> number \<Rightarrow> string \<Rightarrow> string \<Rightarrow> string option \<Rightarrow> int option \<Rightarrow> ('w warehouse_scheme, reservation_row) sql" where
  "fn_create_reservation p q refType ref actor expires =
     sbind (srequire (0 < q) (raise ''quantity must be positive'')) (\<lambda>_.
     sbind (lock_or_create p) (\<lambda>l.
     if available l < q then
       sbind (sget (\<lambda>w. raise (''INSUFFICIENT_STOCK: available '' @ pg_text w (available l) @ '' requested '' @ pg_text w q @
         '' (item='' @ pt_item p @ '' warehouse='' @ pt_warehouse p @ '')''))) sfail
     else
       sbind (put_level (l\<lparr>sl_reserved := numeric4 (sl_reserved l + q), sl_version := Suc (sl_version l)\<rparr>)) (\<lambda>_.
       sbind new_row_id (\<lambda>i.
       let r = \<lparr>rs_id = i, rs_tenant = pt_tenant p, rs_point = p, rs_quantity = numeric4 q, rs_status = ''active'',
         rs_ref_type = refType, rs_ref = ref, rs_expires = expires, rs_by = actor, rs_released = None\<rparr> in
       sbind (sget (\<lambda>w. reservation_check (reservations w) r)) (\<lambda>c.
       sbind (checked c (smodify (\<lambda>w. w\<lparr>reservations := reservations w @ [r]\<rparr>))) (\<lambda>_.
       sbind (emit_domain_event ''inventory.reservation.created'' i) (\<lambda>_. sret r)))))))"

definition fn_release_reservation :: "string \<Rightarrow> string \<Rightarrow> ('w warehouse_scheme, reservation_row) sql" where
  "fn_release_reservation i status =
     sbind (srequire (status \<in> {''released'', ''consumed'', ''expired''}) (raise (''invalid resulting status '' @ status))) (\<lambda>_.
     sbind (find_or_raise reservations (\<lambda>r. rs_id r = i) (''reservation '' @ i @ '' not found'')) (\<lambda>r.
     sbind (srequire (rs_status r = ''active'') (raise (''reservation '' @ i @ '' is not active (status='' @ rs_status r @ '')''))) (\<lambda>_.
     sbind (lock_or_create ((rs_point r)\<lparr>pt_location := None\<rparr>)) (\<lambda>l.
     sbind (put_level (l\<lparr>sl_reserved := numeric4 (sl_reserved l - rs_quantity r), sl_version := Suc (sl_version l)\<rparr>)) (\<lambda>_.
     sbind (sget sql_now) (\<lambda>t.
     let r' = r\<lparr>rs_status := status, rs_released := Some t\<rparr> in
     sbind (smodify (\<lambda>w. w\<lparr>reservations := update_where (\<lambda>x. rs_id x = i) (\<lambda>_. r') (reservations w)\<rparr>)) (\<lambda>_.
     sbind (emit_domain_event (''inventory.reservation.'' @ status) i) (\<lambda>_. sret r'))))))))"

definition reservation_create :: "string \<Rightarrow> create_reservation \<Rightarrow> string \<Rightarrow> ('w warehouse_scheme, reservation_row) io" where
  "reservation_create tenantId dto actorId =
     guarded (rpc (fn_create_reservation
       \<lparr>pt_tenant = tenantId, pt_warehouse = cr_warehouse dto, pt_location = None, pt_item = cr_item dto, pt_variant = cr_variant dto,
        pt_batch = cr_batch dto\<rparr> (cr_quantity dto) (cr_ref_type dto) (cr_ref dto) (Some actorId) (cr_expires dto)))"

definition reservation_release :: "string \<Rightarrow> string \<Rightarrow> ('w warehouse_scheme, reservation_row) io" where
  "reservation_release i tenantId =
     bindE (reservation_findById i tenantId) (\<lambda>_. guarded (rpc (fn_release_reservation i ''released'')))"

section \<open>The stock side of a sale\<close>

definition sale_point :: "string \<Rightarrow> string \<Rightarrow> string \<Rightarrow> string option \<Rightarrow> point" where
  "sale_point tenant wh item variant = \<lparr>pt_tenant = tenant, pt_warehouse = wh, pt_location = None, pt_item = item,
     pt_variant = variant, pt_batch = None\<rparr>"

definition deduct_item :: "string \<Rightarrow> string \<Rightarrow> string \<Rightarrow> string \<Rightarrow> string \<times> string option \<times> number \<Rightarrow> ('w stockroom_scheme, unit) sql" where
  "deduct_item tenant wh order actor it = (case it of (item, variant, q) \<Rightarrow>
     sbind (sget (\<lambda>w. nullish (co_inventory (costings w item)) False)) (\<lambda>has_inventory.
     if \<not> has_inventory then sret ()
     else
       sbind (fn_consume_cost_layers tenant wh item variant q True None) (\<lambda>c.
       sbind (fn_apply_stock_movement ((simple_move (sale_point tenant wh item variant) ''sale'' ''out'' q (Some c) ''order'' (Some order)
         (Some actor))\<lparr>mp_backorder := True\<rparr>)) (\<lambda>_. sret ()))))"

definition fn_process_sale_stock_deduction ::
  "string \<Rightarrow> string \<Rightarrow> string \<Rightarrow> string \<Rightarrow> (string \<times> string option \<times> number) list \<Rightarrow> ('w stockroom_scheme, unit) sql" where
  "fn_process_sale_stock_deduction tenant wh order actor its = sfor its (deduct_item tenant wh order actor)"

definition return_movement :: "string \<Rightarrow> string \<Rightarrow> string \<Rightarrow> stock_movement \<Rightarrow> ('w stockroom_scheme, unit) sql" where
  "return_movement tenant order actor m =
     (let p = (mv_point m)\<lparr>pt_tenant := tenant\<rparr> in
      sbind (fn_apply_stock_movement (simple_move p ''sale_return'' ''in'' (mv_quantity m) (Some (mv_unit_cost m)) ''order'' (Some order) (Some actor))) (\<lambda>_.
      fn_add_cost_layer tenant (pt_warehouse p) (pt_item p) (pt_variant p) (pt_batch p) (mv_quantity m) (mv_unit_cost m) None))"

definition fn_reverse_sale_stock_deduction :: "string \<Rightarrow> string \<Rightarrow> string \<Rightarrow> ('w stockroom_scheme, unit) sql" where
  "fn_reverse_sale_stock_deduction tenant order actor =
     sbind (sget (\<lambda>w. filter (\<lambda>m. pt_tenant (mv_point m) = tenant \<and> mv_ref_type m = ''order'' \<and> mv_ref m = Some order \<and>
       mv_type m = ''sale'') (stock_movements w))) (\<lambda>ms.
     sfor ms (return_movement tenant order actor))"

section \<open>StockService\<close>

definition callApplyStockMovement :: "move \<Rightarrow> ('w stockroom_scheme, stock_movement) io" where
  "callApplyStockMovement m = rpc (fn_apply_stock_movement m)"

definition callApplyStockMovementPooled :: "move \<Rightarrow> ('w stockroom_scheme, stock_movement) io" where
  "callApplyStockMovementPooled m = runInTenantContext (statement (\<lambda>w. case fn_apply_stock_movement m w of
     Inl e \<Rightarrow> (Inl e, w) | Inr (x, w') \<Rightarrow> (Inr x, w')))"

definition applyStockMovement :: "move \<Rightarrow> ('w stockroom_scheme, stock_movement) io" where
  "applyStockMovement m =
     bindE (gets (\<lambda>w. config w ''POOLED_STOCK_WRITES_ENABLED'')) (\<lambda>usePooledWrite.
     bindE (if usePooledWrite then callApplyStockMovementPooled m else callApplyStockMovement m) (\<lambda>result.
     bindE (cache_delByPrefix (stockCachePrefix (pt_tenant (mp_point m)))) (\<lambda>_. ret result)))"

section \<open>The invariant of the warehouse\<close>

definition gridded :: "'w warehouse_scheme \<Rightarrow> bool" where
  "gridded w \<longleftrightarrow> (\<forall>m\<in>set (stock_movements w). on_grid (mv_quantity m)) \<and> (\<forall>a\<in>set (adjustments w). on_grid (aj_delta a)) \<and>
     (\<forall>l\<in>set (transfer_lines w). on_grid (tl_quantity l)) \<and>
     (\<forall>l\<in>set (count_lines w). on_grid (cn_expected l) \<and> (\<forall>q. cn_counted l = Some q \<longrightarrow> on_grid q)) \<and>
     (\<forall>r\<in>set (reservations w). on_grid (rs_quantity r))"

definition warehouse_ok :: "'w warehouse_scheme \<Rightarrow> bool" where
  "warehouse_ok w \<longleftrightarrow> stock_ok w \<and> gridded w"

text \<open>The tables the invariant speaks of.\<close>

definition shelf_view where
  "shelf_view w = (stock_levels w, stock_movements w, cost_layers w, adjustments w, transfer_lines w, count_lines w, reservations w)"

lemma warehouse_ok_shelf:
  "shelf_view v = shelf_view w \<Longrightarrow> warehouse_ok v = warehouse_ok w"
  by (auto simp: shelf_view_def warehouse_ok_def gridded_def stock_ok_def ledger_ok_def)

lemma warehouse_ok_calls [simp]: "warehouse_ok (w\<lparr>calls := n\<rparr>) = warehouse_ok w"
  by (rule warehouse_ok_shelf) (simp add: shelf_view_def)

interpretation shelf: beside_infra "shelf_view :: 'w warehouse_scheme \<Rightarrow> _"
  by unfold_locales (simp_all add: shelf_view_def)

lemma ok_keeps: "keeps shelf_view m \<Longrightarrow> preserves warehouse_ok m"
proof (rule preserves_keeps)
  assume "keeps shelf_view m"
  then have "shelf_view (snd (m w)) = shelf_view w" for w by (simp add: keeps_def)
  then have "warehouse_ok (snd (m w)) = warehouse_ok w" for w by (intro warehouse_ok_shelf)
  then show "keeps warehouse_ok m" by (simp add: keeps_def)
qed

lemma ok_query: "preserves warehouse_ok (query f)"
  by (intro ok_keeps shelf.keeps_query)

lemma ok_invalidate: "preserves warehouse_ok (invalidateStockCache t)"
  unfolding invalidateStockCache_def by (intro ok_keeps shelf.keeps_infra)

lemma ok_exec:
  fixes f :: "'w warehouse_scheme \<Rightarrow> (db_error + 'a) \<times> 'w warehouse_scheme"
  assumes "\<And>w. warehouse_ok w \<Longrightarrow> warehouse_ok (snd (f w))"
  shows "preserves warehouse_ok (orThrow (exec f))"
  using preserves_statement [of warehouse_ok f] assms by (simp add: statement_def)

lemma ok_history: "preserves warehouse_ok (history_record t ty r a b c d e)"
  unfolding history_record_def by (intro ok_exec) (simp add: warehouse_ok_def stock_ok_def ledger_ok_def gridded_def)

lemma ok_rpc: "skeeps warehouse_ok f \<Longrightarrow> preserves warehouse_ok (rpc f)"
  by (rule preserves_rpc) simp_all

lemma ok_guarded: "preserves warehouse_ok m \<Longrightarrow> preserves warehouse_ok (guarded m)"
  unfolding guarded_def throwFromRpcError_def by (intro preserve_rules)

text \<open>What the stored functions keep.\<close>

lemma gridded_movement: "skeeps gridded (fn_apply_stock_movement m)"
  unfolding fn_apply_stock_movement_def lock_or_create_def insert_movement_def emit_domain_event_def move_level_def
    reclassify_def quality_release_def take_out_def put_in_def put_level_def insert_backorder_def raise_insufficient_def Let_def
  by (intro sql_keep skeeps_smodify skeeps_new_row_id skeeps_fulfil_loop) (simp_all add: gridded_def)

lemma gridded_put_layer: "skeeps gridded (put_layer c)"
  unfolding put_layer_def by (intro sql_keep skeeps_smodify) (simp add: gridded_def)

lemma gridded_add: "skeeps gridded (fn_add_cost_layer t wh i v b q c s)"
  unfolding fn_add_cost_layer_def insert_layer_def Let_def
  by (intro sql_keep skeeps_smodify skeeps_new_row_id gridded_put_layer) (simp_all add: gridded_def)

lemma gridded_consume_loop: "skeeps gridded (consume_loop cs q x)"
  by (induction cs arbitrary: q x) (auto simp: Let_def intro!: sql_keep gridded_put_layer)

lemma gridded_consume: "skeeps gridded (fn_consume_cost_layers t wh i v q p s)"
  unfolding fn_consume_cost_layers_def consume_serial_def Let_def
  by (intro sql_keep skeeps_smodify gridded_consume_loop) (simp_all add: gridded_def)

lemma ok_conj: "skeeps stock_ok m \<Longrightarrow> skeeps gridded m \<Longrightarrow> skeeps warehouse_ok m"
  using skeeps_conj [of stock_ok m gridded] by (simp add: warehouse_ok_def [abs_def])

lemma ok_movement: "on_grid (mp_quantity m) \<Longrightarrow> skeeps warehouse_ok (fn_apply_stock_movement m)"
  by (intro ok_conj stock_movement gridded_movement)

lemma ok_add: "skeeps warehouse_ok (fn_add_cost_layer t wh i v b q c s)"
  by (intro ok_conj stock_add gridded_add)

lemma ok_consume: "skeeps warehouse_ok (fn_consume_cost_layers t wh i v q p s)"
  by (intro ok_conj stock_consume gridded_consume)

lemma ok_loss: "on_grid q \<Longrightarrow> skeeps warehouse_ok (stock_loss p k q rt r a n)"
  unfolding stock_loss_def by (intro sql_keep ok_consume ok_movement) (simp add: simple_move_def)

lemma ok_gain: "on_grid q \<Longrightarrow> skeeps warehouse_ok (stock_gain p k q c rt r a)"
  unfolding stock_gain_def by (intro sql_keep ok_add ok_movement) (simp add: simple_move_def)

lemma ok_emit: "skeeps warehouse_ok (emit_domain_event k i)"
  unfolding emit_domain_event_def by (intro skeeps_smodify) (simp add: warehouse_ok_def stock_ok_def ledger_ok_def gridded_def)

lemma ok_put_transfer: "skeeps warehouse_ok (put_transfer t)"
  unfolding put_transfer_def by (intro sql_keep skeeps_smodify) (simp add: warehouse_ok_def stock_ok_def ledger_ok_def gridded_def)

lemma ok_put_count: "skeeps warehouse_ok (put_count t)"
  unfolding put_count_def by (intro sql_keep skeeps_smodify) (simp add: warehouse_ok_def stock_ok_def ledger_ok_def gridded_def)

lemma ok_find: "skeeps warehouse_ok (find_or_raise rows P m)"
  unfolding find_or_raise_def by (intro sql_keep)

lemma ok_new_row: "skeeps warehouse_ok new_row_id"
  by (rule skeeps_new_row_id) (rule warehouse_ok_shelf, simp add: shelf_view_def)

text \<open>\<open>skeeps_got\<close> gives a body the facts about what it has read.\<close>

lemma skeeps_got:
  assumes "\<And>x w. J w \<Longrightarrow> x = f w \<Longrightarrow> P x" "\<And>x. P x \<Longrightarrow> skeeps J (g x)"
  shows "skeeps J (sbind (sget f) g)"
  using assms by (auto simp: skeeps_def sql_rules)

lemma skeeps_found:
  assumes "\<And>w r. J w \<Longrightarrow> r \<in> set (rows w) \<Longrightarrow> Q r" "\<And>r. Q r \<Longrightarrow> skeeps J (g r)"
  shows "skeeps J (sbind (find_or_raise rows P m) g)"
  using assms by (auto simp: skeeps_def find_or_raise_def sql_rules find_Some_iff split: option.split)

lemma ok_post_adjustment: "skeeps warehouse_ok (fn_post_stock_adjustment i actor)"
  unfolding fn_post_stock_adjustment_def Let_def
proof (rule skeeps_found [where Q = "\<lambda>a. on_grid (aj_delta a)"])
  show "warehouse_ok w \<Longrightarrow> a \<in> set (adjustments w) \<Longrightarrow> on_grid (aj_delta a)" for w :: "'a warehouse_scheme" and a
    by (simp add: warehouse_ok_def gridded_def)
qed (intro sql_keep ok_gain ok_loss ok_emit skeeps_smodify;
     auto simp: warehouse_ok_def stock_ok_def ledger_ok_def gridded_def set_update_where on_grid_minus)

lemma ok_transfer_lines: "\<forall>l\<in>set ls. on_grid (tl_quantity l) \<Longrightarrow> skeeps warehouse_ok (insert_transfer_lines ls)"
  by (induction ls)
     (auto simp: warehouse_ok_def stock_ok_def ledger_ok_def gridded_def intro!: sql_keep skeeps_smodify ok_new_row)

lemma ok_transfer_status: "skeeps warehouse_ok (transfer_in_status i s c)"
  unfolding transfer_in_status_def by (intro sql_keep ok_find)

lemma ok_dispatch_line: "on_grid (tl_quantity l) \<Longrightarrow> skeeps warehouse_ok (dispatch_line t actor l)"
  unfolding dispatch_line_def
  by (intro sql_keep ok_loss skeeps_smodify)
     (auto simp: warehouse_ok_def stock_ok_def ledger_ok_def gridded_def set_update_where)

lemma ok_receive_line: "on_grid (tl_quantity l) \<Longrightarrow> skeeps warehouse_ok (receive_line t actor l)"
  unfolding receive_line_def by (intro sql_keep ok_gain)

lemma ok_lines:
  assumes "\<And>l. on_grid (tl_quantity l) \<Longrightarrow> skeeps warehouse_ok (f l)" "\<And>x. skeeps warehouse_ok (g x)"
  shows "skeeps warehouse_ok (sbind (sget (\<lambda>w. lines_of w i)) (\<lambda>ls. sbind (sfor ls f) g))"
  by (rule skeeps_got [where P = "\<lambda>ls. \<forall>l\<in>set ls. on_grid (tl_quantity l)"])
     (use assms in \<open>auto simp: lines_of_def warehouse_ok_def gridded_def intro!: sql_keep\<close>)

lemma ok_transfer_functions:
  "skeeps warehouse_ok (fn_transfer_approve i actor)" "skeeps warehouse_ok (fn_transfer_dispatch i actor)"
  "skeeps warehouse_ok (fn_transfer_receive i actor)" "skeeps warehouse_ok (fn_transfer_complete i actor)"
  unfolding fn_transfer_approve_def fn_transfer_dispatch_def fn_transfer_receive_def fn_transfer_complete_def
  by (intro skeeps_sbind ok_transfer_status ok_lines ok_dispatch_line ok_receive_line ok_put_transfer ok_emit skeeps_basic; assumption)+

lemma ok_count_lines: "\<forall>l\<in>set ls. on_grid (cn_expected l) \<and> cn_counted l = None \<Longrightarrow> skeeps warehouse_ok (insert_count_lines ls)"
  by (induction ls)
     (auto simp: warehouse_ok_def stock_ok_def ledger_ok_def gridded_def intro!: sql_keep skeeps_smodify ok_new_row)

lemma ok_correct_line:
  assumes "on_grid (cn_expected l)" "on_grid (the (cn_counted l))"
  shows "skeeps warehouse_ok (correct_line i actor l)"
  unfolding correct_line_def Let_def using assms
  by (intro sql_keep ok_gain ok_loss skeeps_smodify on_grid_diff on_grid_minus)
     (auto simp: warehouse_ok_def stock_ok_def ledger_ok_def gridded_def set_update_where)

lemma ok_finalize: "skeeps warehouse_ok (fn_finalize_stock_count i actor)"
  unfolding fn_finalize_stock_count_def
  by (intro sql_keep ok_find skeeps_got [where P = "\<lambda>ls. \<forall>l\<in>set ls. on_grid (cn_expected l) \<and> on_grid (the (cn_counted l))"]
      ok_correct_line ok_put_count ok_emit)
     (auto simp: warehouse_ok_def gridded_def)

lemma ok_approve_count: "skeeps warehouse_ok (fn_approve_stock_count i actor b)"
  unfolding fn_approve_stock_count_def by (intro sql_keep ok_find ok_put_count ok_emit)

text \<open>A change of a level that leaves the quantity on hand.\<close>

lemma sok_lock_ok:
  assumes "warehouse_ok w"
  shows "sok (lock_or_create p) (\<lambda>l v. warehouse_ok v \<and> located v l \<and> sl_point l = p \<and> sound_level l) w"
proof -
  have a: "sok (lock_or_create p) (\<lambda>l v. owes v p 0 \<and> located v l \<and> sl_point l = p \<and> sound_level l) w"
    using assms by (intro sok_lock) (simp add: warehouse_ok_def stock_ok_def ledger_owes [symmetric])
  have "skeeps (\<lambda>v. layers_ok (cost_layers v)) (lock_or_create p)" "skeeps gridded (lock_or_create p)"
    unfolding lock_or_create_def by (intro sql_keep skeeps_smodify; simp add: gridded_def)+
  then have b: "sok (lock_or_create p) (\<lambda>_ v. layers_ok (cost_layers v)) w" "sok (lock_or_create p) (\<lambda>_. gridded) w"
    using assms by (auto simp: warehouse_ok_def stock_ok_def skeeps_def)
  show ?thesis
    by (rule sok_mono [OF sok_conj [OF a sok_conj [OF b]]]) (simp add: warehouse_ok_def stock_ok_def ledger_owes [of _ p])
qed

lemma ok_relevel:
  assumes "\<And>l. sound_level l \<Longrightarrow> sl_point (f l) = sl_point l \<and> sl_on_hand (f l) = sl_on_hand l \<and>
      (\<forall>q\<in>set (level_quantities (f l)). on_grid q)"
    and "\<And>l. skeeps warehouse_ok (bad l)" "\<And>x. skeeps warehouse_ok (k x)"
  shows "skeeps warehouse_ok (sbind (lock_or_create p) (\<lambda>l. if c l then bad l else sbind (put_level (f l)) k))"
  unfolding skeeps_def sql_rules
proof (intro allI impI, rule sok_mono [OF sok_lock_ok])
  fix l and v :: "'a warehouse_scheme"
  assume v: "warehouse_ok v \<and> located v l \<and> sl_point l = p \<and> sound_level l"
  have "sok (put_level (f l)) (\<lambda>r u. owes u p (0 + (sl_on_hand (f l) - sl_on_hand l))) v"
    using v assms(1) [of l] by (intro sok_mono [OF sok_put]) (auto simp: warehouse_ok_def stock_ok_def ledger_owes [of _ p])
  then have "sok (put_level (f l)) (\<lambda>_. ledger_ok) v"
    by (rule sok_mono) (use v assms(1) [of l] in \<open>simp add: ledger_owes [of _ p]\<close>)
  moreover have "skeeps (\<lambda>v. layers_ok (cost_layers v)) (put_level (f l))" "skeeps gridded (put_level (f l))"
    unfolding put_level_def by (intro sql_keep skeeps_smodify; simp add: gridded_def)+
  ultimately have "sok (put_level (f l)) (\<lambda>_ u. ledger_ok u \<and> layers_ok (cost_layers u) \<and> gridded u) v"
    using v by (intro sok_conj) (auto simp: warehouse_ok_def stock_ok_def dest: skeepsD)
  then have "sok (put_level (f l)) (\<lambda>x. sok (k x) (\<lambda>_. warehouse_ok)) v"
    by (rule sok_mono) (use assms(3) in \<open>auto simp: skeeps_def warehouse_ok_def stock_ok_def\<close>)
  then show "(if c l then sok (bad l) (\<lambda>_. warehouse_ok) v else sok (put_level (f l)) (\<lambda>x. sok (k x) (\<lambda>_. warehouse_ok)) v)"
    using v assms(2) by (auto simp: skeeps_def)
qed

lemma ok_create_reservation: "on_grid q \<Longrightarrow> skeeps warehouse_ok (fn_create_reservation p q rt r a e)"
  unfolding fn_create_reservation_def
  by (intro sql_keep ok_relevel ok_new_row ok_emit skeeps_smodify)
     (auto simp: level_quantities_def grid_level grid_rules Let_def warehouse_ok_def stock_ok_def ledger_ok_def gridded_def
       intro!: sql_keep ok_new_row ok_emit skeeps_smodify)

lemma ok_relevel_always:
  assumes "\<And>l. sound_level l \<Longrightarrow> sl_point (f l) = sl_point l \<and> sl_on_hand (f l) = sl_on_hand l \<and>
      (\<forall>q\<in>set (level_quantities (f l)). on_grid q)"
    and "\<And>x. skeeps warehouse_ok (k x)"
  shows "skeeps warehouse_ok (sbind (lock_or_create p) (\<lambda>l. sbind (put_level (f l)) k))"
  using ok_relevel [of f "\<lambda>_. sfail numeric_overflow" k p "\<lambda>_. False"] assms by (simp add: skeeps_basic)

lemma ok_release_reservation: "skeeps warehouse_ok (fn_release_reservation i status)"
  unfolding fn_release_reservation_def
  by (rule skeeps_sbind [OF skeeps_basic(4)], rule skeeps_found [where Q = "\<lambda>r. on_grid (rs_quantity r)"],
      simp add: warehouse_ok_def gridded_def, rule skeeps_sbind [OF skeeps_basic(4)], rule ok_relevel_always)
     (auto simp: level_quantities_def grid_level grid_rules Let_def warehouse_ok_def stock_ok_def ledger_ok_def gridded_def
        set_update_where intro!: sql_keep ok_emit skeeps_smodify)

lemma ok_deduct: "\<forall>(item, variant, q)\<in>set its. on_grid q \<Longrightarrow> skeeps warehouse_ok (fn_process_sale_stock_deduction t wh order actor its)"
  unfolding fn_process_sale_stock_deduction_def deduct_item_def
  by (intro sql_keep ok_consume ok_movement) (auto simp: simple_move_def)

lemma ok_return: "skeeps warehouse_ok (fn_reverse_sale_stock_deduction t order actor)"
  unfolding fn_reverse_sale_stock_deduction_def return_movement_def Let_def
  by (intro skeeps_got [where P = "\<lambda>ms. \<forall>m\<in>set ms. on_grid (mv_quantity m)"] sql_keep ok_movement ok_add)
     (auto simp: simple_move_def warehouse_ok_def gridded_def)

text \<open>The handlers.\<close>

lemmas ok_finds = adjustment_findById_def transfer_findById_def count_findById_def reservation_findById_def location_findById_def
  check_location_def reasonCodeExists_def computeTotalVarianceValue_def

lemma ok_reads:
  "preserves warehouse_ok (adjustment_findById i t)" "preserves warehouse_ok (transfer_findById i t)"
  "preserves warehouse_ok (count_findById i t)" "preserves warehouse_ok (reservation_findById i t)"
  "preserves warehouse_ok (check_location l wh t)" "preserves warehouse_ok (reasonCodeExists i t)"
  "preserves warehouse_ok (computeTotalVarianceValue i t)"
  unfolding ok_finds by (intro ok_keeps keep_rules shelf.keeps_query)+

lemma preserves_forEach:
  fixes J :: "'w net_scheme \<Rightarrow> bool"
  shows "(\<And>x. preserves J (f x)) \<Longrightarrow> preserves J (forEach xs f)"
  by (induction xs) (auto intro!: preserve_rules)

lemma preserves_whenE:
  fixes J :: "'w net_scheme \<Rightarrow> bool"
  shows "preserves J m \<Longrightarrow> preserves J (whenE c m)"
  by (simp add: whenE_def preserve_rules)

lemma preserves_lift: "preserves J (lift r)"
  by (intro preserves_keeps keep_rules)

lemmas ok_rules = preserve_rules preserves_forEach preserves_whenE preserves_lift ok_reads ok_guarded ok_rpc ok_invalidate
  ok_history ok_query

lemma ok_decide: "preserves warehouse_ok (decide_adjustment s i t a)"
  unfolding decide_adjustment_def Let_def
  by (intro ok_rules ok_exec)
     (auto simp: warehouse_ok_def stock_ok_def ledger_ok_def gridded_def set_update_where split: sum.split)

lemma ok_append_adjustment:
  "warehouse_ok w \<Longrightarrow> on_grid (aj_delta a) \<Longrightarrow>
   warehouse_ok (snd (case c of Some e \<Rightarrow> (Inl e, w) | None \<Rightarrow> (Inr a, w\<lparr>adjustments := adjustments w @ [a]\<rparr>)))"
  by (auto simp: warehouse_ok_def stock_ok_def ledger_ok_def gridded_def split: option.split)

lemma ok_adjustment_create: "preserves warehouse_ok (adjustment_create t dto a)"
  unfolding adjustment_create_def Let_def
  by (intro ok_rules ok_exec ok_append_adjustment) (assumption, simp only: adjustment_row.select_convs on_grid_numeric4)

lemma ok_adjustment_decisions:
  "preserves warehouse_ok (adjustment_approve i t a)" "preserves warehouse_ok (adjustment_reject i t a)"
  "preserves warehouse_ok (adjustment_post i t a)"
  unfolding adjustment_approve_def adjustment_reject_def adjustment_post_def
  by (intro ok_rules ok_decide ok_post_adjustment)+

lemma ok_transfer_insert: "preserves warehouse_ok (transfer_insert t dto)"
  unfolding transfer_insert_def Let_def
  by (intro ok_exec) (simp add: warehouse_ok_def stock_ok_def ledger_ok_def gridded_def)

lemma ok_transfer_create: "preserves warehouse_ok (transfer_create t dto)"
  unfolding transfer_create_def
  by (intro ok_rules ok_transfer_insert ok_transfer_lines) simp

lemma ok_transfer_cancel: "preserves warehouse_ok (transfer_cancel i t)"
  unfolding transfer_cancel_def Let_def
  by (intro ok_rules ok_exec) (simp add: warehouse_ok_def stock_ok_def ledger_ok_def gridded_def split: sum.split)

lemma ok_transfer_moves:
  "preserves warehouse_ok (transfer_approve i t a)" "preserves warehouse_ok (transfer_dispatch i t a)"
  "preserves warehouse_ok (transfer_receive i t a)" "preserves warehouse_ok (transfer_complete i t a)"
  unfolding transfer_approve_def transfer_dispatch_def transfer_receive_def transfer_complete_def
  by (intro ok_rules ok_transfer_functions)+

lemma ok_submitCount: "preserves warehouse_ok (submitCount i l t q r)"
  unfolding submitCount_def Let_def
  by (intro ok_rules ok_exec)
     (auto simp: warehouse_ok_def stock_ok_def ledger_ok_def gridded_def set_update_where split: sum.split)

lemma ok_setPending: "preserves warehouse_ok (setPendingApproval i t)"
  unfolding setPendingApproval_def Let_def
  by (intro ok_exec) (simp add: warehouse_ok_def stock_ok_def ledger_ok_def gridded_def split: sum.split)

lemma ok_count_finalize: "preserves warehouse_ok (count_finalize i t a)"
  unfolding count_finalize_def by (intro ok_rules ok_setPending ok_finalize)

lemma ok_count_approve: "preserves warehouse_ok (count_approve i t a b r)"
  unfolding count_approve_def Let_def by (intro ok_rules ok_approve_count)

lemma ok_reservations:
  "on_grid (cr_quantity dto) \<Longrightarrow> preserves warehouse_ok (reservation_create t dto a)"
  "preserves warehouse_ok (reservation_release i t)"
  unfolding reservation_create_def reservation_release_def
  by (intro ok_rules ok_create_reservation ok_release_reservation; assumption?)+

lemma ok_sales:
  "\<forall>(item, variant, q)\<in>set its. on_grid q \<Longrightarrow> preserves warehouse_ok (rpc (fn_process_sale_stock_deduction t wh order actor its))"
  "preserves warehouse_ok (rpc (fn_reverse_sale_stock_deduction t order actor))"
  by (intro ok_rpc ok_deduct ok_return; assumption?)+

lemma ok_pooled:
  fixes f :: "('w warehouse_scheme, stock_movement) sql"
  assumes "skeeps warehouse_ok f"
  shows "preserves warehouse_ok (runInTenantContext (statement (\<lambda>w. case f w of Inl e \<Rightarrow> (Inl e, w) | Inr (r, w') \<Rightarrow> (Inr r, w'))))"
  by (intro preserves_transaction preserves_statement)
     (use assms in \<open>auto simp: skeeps_def sok_def warehouse_ok_def stock_ok_def ledger_ok_def gridded_def split: sum.split\<close>)

lemma ok_applyStockMovement: "on_grid (mp_quantity m) \<Longrightarrow> preserves warehouse_ok (applyStockMovement m)"
  unfolding applyStockMovement_def callApplyStockMovement_def callApplyStockMovementPooled_def
  using ok_invalidate [unfolded invalidateStockCache_def] by (intro ok_rules ok_movement ok_pooled)

text \<open>A count copies the levels of its warehouse, which are on the grid.\<close>

lemma ok_snapshot:
  fixes k :: "stock_level list \<Rightarrow> ('w warehouse_scheme, 'a) io"
  assumes "\<And>ls. \<forall>l\<in>set ls. on_grid (sl_on_hand l) \<Longrightarrow> preserves warehouse_ok (k ls)"
  shows "preserves warehouse_ok (bindE (orThrow (query (\<lambda>w. Inr (filter P (stock_levels w))))) k)"
proof -
  have "\<forall>l\<in>set (filter P (stock_levels w)). on_grid (sl_on_hand l)" if "warehouse_ok w" for w :: "'w warehouse_scheme"
    using that by (auto simp: warehouse_ok_def stock_ok_def ledger_ok_def dest!: grid_level)
  then show ?thesis
    using assms by (auto simp: preserves_def wp_rules split: option.split)
qed

lemma ok_count_insert: "preserves warehouse_ok (count_insert t dto)"
  unfolding count_insert_def Let_def
  by (intro ok_exec) (simp add: warehouse_ok_def stock_ok_def ledger_ok_def gridded_def)

lemma ok_count_create: "preserves warehouse_ok (count_create t dto a)"
proof -
  have start: "preserves warehouse_ok (exec (\<lambda>w. (Inr (), w\<lparr>counts := f (counts w)\<rparr>)))" for f
    by (intro ok_keeps shelf.keeps_exec) (simp add: shelf_view_def)
  show ?thesis
    unfolding count_create_def
    by (rule preserves_bindE, intro ok_rules, rule preserves_bindE, rule ok_count_insert, rule ok_snapshot)
       (intro ok_rules start ok_count_lines, simp)
qed

end
