(* ===== verification/StockFlow.thy ===== *)
theory StockFlow
  imports Warehouse
begin

text \<open>
  What the requests to \<^verbatim>\<open>modules/inventory\<close> do together: whatever is asked in whatever order, the
  ledger stays right; a transfer moves stock and makes or loses none; an adjustment changes stock
  once, by its delta, and not before it has been approved.
\<close>

section \<open>Requests\<close>

datatype inventory_request =
    CreateAdjustment string create_adjustment string
  | ApproveAdjustment string string string
  | RejectAdjustment string string string
  | PostAdjustment string string string
  | CreateTransfer string create_transfer
  | ApproveTransfer string string string
  | DispatchTransfer string string string
  | ReceiveTransfer string string string
  | CompleteTransfer string string string
  | CancelTransfer string string
  | CreateCount string create_count string
  | SubmitCount string string string number "string option"
  | FinalizeCount string string string
  | DecideCount string string string bool "string option"
  | Reserve string create_reservation string
  | Release string string
  | Move move
  | DeductSale string string string string "(string \<times> string option \<times> number) list"
  | ReverseSale string string string

text \<open>The state after a request, answered or refused.\<close>

primrec serve :: "inventory_request \<Rightarrow> 'w warehouse_scheme \<Rightarrow> 'w warehouse_scheme" where
  "serve (CreateAdjustment t dto a) = (\<lambda>w. snd (adjustment_create t dto a w))"
| "serve (ApproveAdjustment i t a) = (\<lambda>w. snd (adjustment_approve i t a w))"
| "serve (RejectAdjustment i t a) = (\<lambda>w. snd (adjustment_reject i t a w))"
| "serve (PostAdjustment i t a) = (\<lambda>w. snd (adjustment_post i t a w))"
| "serve (CreateTransfer t dto) = (\<lambda>w. snd (transfer_create t dto w))"
| "serve (ApproveTransfer i t a) = (\<lambda>w. snd (transfer_approve i t a w))"
| "serve (DispatchTransfer i t a) = (\<lambda>w. snd (transfer_dispatch i t a w))"
| "serve (ReceiveTransfer i t a) = (\<lambda>w. snd (transfer_receive i t a w))"
| "serve (CompleteTransfer i t a) = (\<lambda>w. snd (transfer_complete i t a w))"
| "serve (CancelTransfer i t) = (\<lambda>w. snd (transfer_cancel i t w))"
| "serve (CreateCount t dto a) = (\<lambda>w. snd (count_create t dto a w))"
| "serve (SubmitCount i l t q r) = (\<lambda>w. snd (submitCount i l t q r w))"
| "serve (FinalizeCount i t a) = (\<lambda>w. snd (count_finalize i t a w))"
| "serve (DecideCount i t a b r) = (\<lambda>w. snd (count_approve i t a b r w))"
| "serve (Reserve t dto a) = (\<lambda>w. snd (reservation_create t dto a w))"
| "serve (Release i t) = (\<lambda>w. snd (reservation_release i t w))"
| "serve (Move m) = (\<lambda>w. snd (applyStockMovement m w))"
| "serve (DeductSale t wh order a its) = (\<lambda>w. snd (rpc (fn_process_sale_stock_deduction t wh order a its) w))"
| "serve (ReverseSale t order a) = (\<lambda>w. snd (rpc (fn_reverse_sale_stock_deduction t order a) w))"

text \<open>Quantities that go to a stored function unrounded have at most four decimals.\<close>

primrec request_on_grid :: "inventory_request \<Rightarrow> bool" where
  "request_on_grid (CreateAdjustment t dto a) = True"
| "request_on_grid (ApproveAdjustment i t a) = True"
| "request_on_grid (RejectAdjustment i t a) = True"
| "request_on_grid (PostAdjustment i t a) = True"
| "request_on_grid (CreateTransfer t dto) = True"
| "request_on_grid (ApproveTransfer i t a) = True"
| "request_on_grid (DispatchTransfer i t a) = True"
| "request_on_grid (ReceiveTransfer i t a) = True"
| "request_on_grid (CompleteTransfer i t a) = True"
| "request_on_grid (CancelTransfer i t) = True"
| "request_on_grid (CreateCount t dto a) = True"
| "request_on_grid (SubmitCount i l t q r) = True"
| "request_on_grid (FinalizeCount i t a) = True"
| "request_on_grid (DecideCount i t a b r) = True"
| "request_on_grid (Reserve t dto a) = on_grid (cr_quantity dto)"
| "request_on_grid (Release i t) = True"
| "request_on_grid (Move m) = on_grid (mp_quantity m)"
| "request_on_grid (DeductSale t wh order a its) = (\<forall>(item, variant, q)\<in>set its. on_grid q)"
| "request_on_grid (ReverseSale t order a) = True"

lemma ok_serve: "warehouse_ok w \<Longrightarrow> request_on_grid r \<Longrightarrow> warehouse_ok (serve r w)"
  by (cases r)
     (auto intro: preserves_snd ok_adjustment_create ok_adjustment_decisions ok_transfer_create ok_transfer_moves ok_transfer_cancel
       ok_count_create ok_submitCount ok_count_finalize ok_count_approve ok_reservations ok_applyStockMovement ok_sales)

lemma ok_serves: "warehouse_ok w \<Longrightarrow> list_all request_on_grid rs \<Longrightarrow> warehouse_ok (fold serve rs w)"
  by (induction rs arbitrary: w) (auto simp: ok_serve)

section \<open>Stock in the warehouses and on the road\<close>

text \<open>What the levels of an item hold, and what its movements add up to.\<close>

definition stock_total :: "'w stockroom_scheme \<Rightarrow> string \<Rightarrow> number" where
  "stock_total w item = (\<Sum>l\<leftarrow>stock_levels w. if pt_item (sl_point l) = item then sl_on_hand l else 0)"

definition booked_total :: "stock_movement list \<Rightarrow> string \<Rightarrow> number" where
  "booked_total ms item = (\<Sum>m\<leftarrow>ms. if pt_item (mv_point m) = item then signed m else 0)"

definition transfer_status :: "'w warehouse_scheme \<Rightarrow> string \<Rightarrow> string option" where
  "transfer_status w i = map_option tr_status (find (\<lambda>t. tr_id t = i) (transfers w))"

definition on_the_road :: "'w warehouse_scheme \<Rightarrow> string \<Rightarrow> number" where
  "on_the_road w item = (\<Sum>l\<leftarrow>transfer_lines w.
     if tl_item l = item \<and> transfer_status w (tl_transfer l) = Some ''in_transit'' then tl_quantity l else 0)"

lemma booked_alt: "booked ms p = (\<Sum>m\<leftarrow>ms. if mv_point m = p then signed m else 0)"
  by (induction ms) (auto simp: booked_def)

lemma booked_by_point:
  assumes "finite A" "mv_point ` set ms \<subseteq> A"
  shows "booked_total ms item = (\<Sum>p\<in>A. if pt_item p = item then booked ms p else 0)"
  using assms(2)
proof (induction ms)
  case (Cons m ms)
  have "(\<Sum>p\<in>A. if pt_item p = item then booked (m # ms) p else 0) =
      (\<Sum>p\<in>A. (if mv_point m = p then if pt_item p = item then signed m else 0 else 0) + (if pt_item p = item then booked ms p else 0))"
    by (intro sum.cong) (auto simp: booked_alt)
  also have "\<dots> = (if pt_item (mv_point m) = item then signed m else 0) + booked_total ms item"
    using Cons assms(1) by (simp add: sum.distrib sum.delta')
  finally show ?case by (simp add: booked_total_def)
qed (simp add: booked_total_def booked_def cong: if_cong)

lemma on_hand_level: "distinct (map sl_point ls) \<Longrightarrow> l \<in> set ls \<Longrightarrow> on_hand ls (sl_point l) = sl_on_hand l"
  by (induction ls) (auto simp: on_hand_def level_at_def)

lemma sound_level_signs: "sound_level l \<Longrightarrow> 0 \<le> sl_reserved l \<and> 0 \<le> available l"
  using unsellable_le [of l] by (simp add: sound_level_def level_check_def level_quantities_def split: if_splits)

lemma levels_by_point:
  assumes "distinct (map sl_point ls)"
  shows "(\<Sum>l\<leftarrow>ls. if pt_item (sl_point l) = item then sl_on_hand l else 0) =
    (\<Sum>p\<in>sl_point ` set ls. if pt_item p = item then on_hand ls p else 0)"
proof -
  have at: "on_hand ls (sl_point l) = sl_on_hand l" if "l \<in> set ls" for l
    using on_hand_level [OF assms that] .
  have "inj_on sl_point (set ls)" "distinct ls" using assms by (simp_all add: distinct_map)
  then show ?thesis
    using at by (simp add: sum.reindex sum_list_distinct_conv_sum_set cong: sum.cong if_cong)
qed

lemma stock_total_booked:
  assumes "ledger_ok w" shows "stock_total w item = booked_total (stock_movements w) item"
proof -
  let ?L = "sl_point ` set (stock_levels w)" and ?M = "mv_point ` set (stock_movements w)"
  have same: "on_hand (stock_levels w) p = booked (stock_movements w) p" for p using assms by (simp add: ledger_ok_def)
  have none: "on_hand (stock_levels w) p = 0" if "p \<notin> ?L" for p
    using that by (auto simp: on_hand_def dest: level_at_point split: option.split)
  have "stock_total w item = (\<Sum>p\<in>?L. if pt_item p = item then booked (stock_movements w) p else 0)"
    using assms levels_by_point [of "stock_levels w" item] by (simp add: stock_total_def ledger_ok_def same cong: if_cong)
  also have "\<dots> = (\<Sum>p\<in>?L \<union> ?M. if pt_item p = item then booked (stock_movements w) p else 0)"
    by (rule sum.mono_neutral_left) (use none same in auto)
  also have "\<dots> = booked_total (stock_movements w) item"
    by (rule booked_by_point [symmetric]) auto
  finally show ?thesis .
qed

section \<open>Transfers move stock\<close>

text \<open>The rows the stored functions of the stock never touch.\<close>

definition paper where
  "paper w = (transfers w, transfer_lines w, adjustments w)"

lemma paper_movement: "skeeps (\<lambda>v. paper v = c) (fn_apply_stock_movement m)"
  unfolding fn_apply_stock_movement_def lock_or_create_def insert_movement_def emit_domain_event_def move_level_def
    reclassify_def quality_release_def take_out_def put_in_def put_level_def insert_backorder_def raise_insufficient_def Let_def
  by (intro sql_keep skeeps_smodify skeeps_new_row_id skeeps_fulfil_loop) (simp_all add: paper_def)

text \<open>The cost layers are beside both the papers and the movements.\<close>

definition booked_paper where
  "booked_paper w = (stock_movements w, paper w)"

lemma bp_put_layer: "skeeps (\<lambda>v. booked_paper v = c) (put_layer l)"
  unfolding put_layer_def by (intro sql_keep skeeps_smodify) (simp add: booked_paper_def paper_def)

lemma bp_add: "skeeps (\<lambda>v. booked_paper v = c) (fn_add_cost_layer t wh i x b q k s)"
  unfolding fn_add_cost_layer_def insert_layer_def Let_def
  by (intro sql_keep skeeps_smodify skeeps_new_row_id bp_put_layer) (simp_all add: booked_paper_def paper_def)

lemma bp_consume_loop: "skeeps (\<lambda>v. booked_paper v = c) (consume_loop cs q x)"
  by (induction cs arbitrary: q x) (auto simp: Let_def intro!: sql_keep bp_put_layer)

lemma bp_consume: "skeeps (\<lambda>v. booked_paper v = c) (fn_consume_cost_layers t wh i x q p s)"
  unfolding fn_consume_cost_layers_def consume_serial_def Let_def
  by (intro sql_keep skeeps_smodify bp_consume_loop) (simp_all add: booked_paper_def paper_def)

lemma sok_same: "(\<And>c. skeeps (\<lambda>v. f v = c) m) \<Longrightarrow> sok m (\<lambda>_ v. f v = f w) w"
  by (simp add: skeeps_def)

text \<open>One more movement, and no other change that matters here.\<close>

definition books :: "point \<Rightarrow> string \<Rightarrow> string \<Rightarrow> number \<Rightarrow> string \<Rightarrow> string option \<Rightarrow> 'w warehouse_scheme \<Rightarrow> 'w warehouse_scheme \<Rightarrow> bool" where
  "books p kind way q refType ref w v \<longleftrightarrow> paper v = paper w \<and> (\<exists>r. stock_movements v = stock_movements w @ [r] \<and> mv_point r = p \<and>
     mv_type r = kind \<and> mv_direction r = way \<and> mv_quantity r = q \<and> mv_ref_type r = refType \<and> mv_ref r = ref)"

lemma sok_loss:
  assumes "on_grid q"
  shows "sok (stock_loss p kind q rt r a n) (\<lambda>_. books p kind ''out'' q rt (Some r) w) w"
proof -
  have step: "sok (fn_apply_stock_movement ((simple_move p kind ''out'' q (Some c) rt (Some r) a)\<lparr>mp_negative := n\<rparr>))
      (\<lambda>_. books p kind ''out'' q rt (Some r) w) v" if "booked_paper v = booked_paper w" for c and v
    by (rule sok_mono [OF sok_conj [OF sok_logged sok_same [OF paper_movement]]])
       (use that assms in \<open>simp add: books_def booked_paper_def logged_def simple_move_def\<close>)
  show ?thesis
    unfolding stock_loss_def sql_rules
    by (rule sok_mono [OF sok_same [of booked_paper, OF bp_consume]]) (rule step)
qed

lemma sok_gain:
  assumes "on_grid q"
  shows "sok (stock_gain p kind q c rt r a) (\<lambda>_. books p kind ''in'' q rt (Some r) w) w"
proof -
  have add: "sok (fn_add_cost_layer t wh i x b q k s) (\<lambda>_. books p kind ''in'' q rt (Some r) w) v"
    if "books p kind ''in'' q rt (Some r) w v" for t wh i x b k s v
    by (rule sok_mono [OF sok_same [OF bp_add]]) (use that in \<open>simp add: books_def booked_paper_def\<close>)
  show ?thesis
    unfolding stock_gain_def sql_rules
    by (rule sok_mono [OF sok_conj [OF sok_logged sok_same [OF paper_movement]]])
       (use assms in \<open>auto intro!: add simp: books_def logged_def simple_move_def\<close>)
qed

text \<open>A step of a loop over lines changes the papers of no line but in its cost.\<close>

definition waybills where
  "waybills w = (transfers w, map (\<lambda>l. (tl_transfer l, tl_item l, tl_quantity l)) (transfer_lines w))"

lemma on_the_road_waybills:
  fixes v w :: "'w warehouse_scheme"
  shows "waybills v = waybills w \<Longrightarrow> on_the_road v item = on_the_road w item"
proof -
  let ?f = "\<lambda>T (x, i, q). if i = item \<and> map_option tr_status (find (\<lambda>t. tr_id t = x) T) = Some ''in_transit'' then q else 0"
  have "on_the_road u item = (\<Sum>x\<leftarrow>snd (waybills u). ?f (fst (waybills u)) x)" for u :: "'w warehouse_scheme"
    by (simp add: on_the_road_def waybills_def transfer_status_def comp_def)
  then show "waybills v = waybills w \<Longrightarrow> on_the_road v item = on_the_road w item" by metis
qed

lemma map_update_same: "(\<And>r. P r \<Longrightarrow> g (f r) = g r) \<Longrightarrow> map g (update_where P f T) = map g T"
  by (auto simp: update_where_def)

definition road_of :: "transfer_line list \<Rightarrow> string \<Rightarrow> number" where
  "road_of ls item = (\<Sum>l\<leftarrow>ls. if tl_item l = item then tl_quantity l else 0)"

lemma sok_dispatch_line:
  assumes "on_grid (tl_quantity l)"
  shows "sok (dispatch_line t a l) (\<lambda>_ v. waybills v = waybills w \<and>
    booked_total (stock_movements v) item = booked_total (stock_movements w) item - road_of [l] item) w"
  unfolding dispatch_line_def sql_rules
  by (rule sok_mono [OF sok_loss [OF assms]])
     (auto simp: books_def waybills_def paper_def map_update_same booked_total_def signed_def from_point_def road_of_def)

lemma sok_receive_line:
  assumes "on_grid (tl_quantity l)"
  shows "sok (receive_line t a l) (\<lambda>_ v. waybills v = waybills w \<and>
    booked_total (stock_movements v) item = booked_total (stock_movements w) item + road_of [l] item) w"
  unfolding receive_line_def sql_rules
  by (rule sok_mono [OF sok_gain [OF assms]])
     (auto simp: books_def waybills_def paper_def booked_total_def signed_def to_point_def road_of_def)

text \<open>The loops over the lines of a transfer: \<open>k\<close> is 1 for a receipt and -1 for a dispatch.\<close>

lemma sok_lines:
  fixes w :: "'w warehouse_scheme"
  assumes "\<And>l (w :: 'w warehouse_scheme). on_grid (tl_quantity l) \<Longrightarrow> sok (f l) (\<lambda>_ v. waybills v = waybills w \<and>
      booked_total (stock_movements v) item = booked_total (stock_movements w) item + k * road_of [l] item) w"
    and "\<forall>l\<in>set ls. on_grid (tl_quantity l)"
  shows "sok (sfor ls f) (\<lambda>_ v. waybills v = waybills w \<and>
    booked_total (stock_movements v) item = booked_total (stock_movements w) item + k * road_of ls item) w"
  using assms(2)
proof (induction ls arbitrary: w)
  case (Cons l ls)
  show ?case
    unfolding sfor.simps sql_rules
  proof (rule sok_mono [OF assms(1)])
    show "on_grid (tl_quantity l)" using Cons.prems by simp
    fix v :: "'w warehouse_scheme"
    assume v: "waybills v = waybills w \<and> booked_total (stock_movements v) item = booked_total (stock_movements w) item + k * road_of [l] item"
    show "sok (sfor ls f) (\<lambda>_ u. waybills u = waybills w \<and>
        booked_total (stock_movements u) item = booked_total (stock_movements w) item + k * road_of (l # ls) item) v"
      by (rule sok_mono [OF Cons.IH]) (use Cons.prems v in \<open>auto simp: road_of_def algebra_simps\<close>)
  qed
qed (simp add: sql_rules road_of_def)

text \<open>What a change of status does to the quantity on the road.\<close>

lemma find_update_where:
  "j \<noteq> tr_id x \<Longrightarrow> find (\<lambda>t. tr_id t = j) (update_where (\<lambda>r. tr_id r = tr_id x) (\<lambda>_. x) T) = find (\<lambda>t. tr_id t = j) T"
  "find (\<lambda>t. tr_id t = tr_id x) (update_where (\<lambda>r. tr_id r = tr_id x) (\<lambda>_. x) T) =
    map_option (\<lambda>_. x) (find (\<lambda>t. tr_id t = tr_id x) T)"
  by (induction T) (auto simp: update_where_def)

lemma transfer_status_put:
  assumes "find (\<lambda>t. tr_id t = tr_id x) T = Some y" "transfers w = T"
  shows "transfer_status (w\<lparr>transfers := update_where (\<lambda>r. tr_id r = tr_id x) (\<lambda>_. x) T\<rparr>) j =
    (if j = tr_id x then Some (tr_status x) else transfer_status w j)"
  using assms find_update_where(1) [of j x T] find_update_where(2) [of x T] by (auto simp: transfer_status_def)

lemma road_split:
  "(\<Sum>l\<leftarrow>ls. if tl_item l = item \<and> S (tl_transfer l) then tl_quantity l else 0) =
    (if S i then road_of (filter (\<lambda>l. tl_transfer l = i) ls) item else 0) +
    (\<Sum>l\<leftarrow>ls. if tl_item l = item \<and> tl_transfer l \<noteq> i \<and> S (tl_transfer l) then tl_quantity l else 0)"
  by (induction ls) (auto simp: road_of_def)

lemma on_the_road_put:
  fixes w :: "'w warehouse_scheme"
  assumes "find (\<lambda>t. tr_id t = tr_id x) (transfers w) = Some y"
  shows "on_the_road (w\<lparr>transfers := update_where (\<lambda>r. tr_id r = tr_id x) (\<lambda>_. x) (transfers w)\<rparr>) item = on_the_road w item +
    ((if tr_status x = ''in_transit'' then 1 else 0) - (if tr_status y = ''in_transit'' then 1 else 0)) *
    road_of (lines_of w (tr_id x)) item"
proof -
  let ?v = "w\<lparr>transfers := update_where (\<lambda>r. tr_id r = tr_id x) (\<lambda>_. x) (transfers w)\<rparr>"
  have st: "transfer_status ?v j = (if j = tr_id x then Some (tr_status x) else transfer_status w j)" for j
    by (rule transfer_status_put [OF assms refl])
  have y: "transfer_status w (tr_id x) = Some (tr_status y)" using assms by (simp add: transfer_status_def)
  have rest: "(\<Sum>l\<leftarrow>transfer_lines w. if tl_item l = item \<and> tl_transfer l \<noteq> tr_id x \<and> transfer_status ?v (tl_transfer l) = Some ''in_transit'' then tl_quantity l else 0) =
      (\<Sum>l\<leftarrow>transfer_lines w. if tl_item l = item \<and> tl_transfer l \<noteq> tr_id x \<and> transfer_status w (tl_transfer l) = Some ''in_transit'' then tl_quantity l else 0)"
    by (intro arg_cong [of _ _ sum_list] map_cong) (auto simp: st)
  show ?thesis
    using road_split [of item "\<lambda>j. transfer_status ?v j = Some ''in_transit''" "transfer_lines w" "tr_id x"]
      road_split [of item "\<lambda>j. transfer_status w j = Some ''in_transit''" "transfer_lines w" "tr_id x"] rest
    by (simp add: on_the_road_def lines_of_def y st)
qed

text \<open>The functions: what leaves the levels is on the road, and back.\<close>

definition in_custody :: "'w warehouse_scheme \<Rightarrow> string \<Rightarrow> number" where
  "in_custody w item = booked_total (stock_movements w) item + on_the_road w item"

lemma in_custody_calls [simp]: "in_custody (w\<lparr>calls := n\<rparr>) item = in_custody w item"
  by (simp add: in_custody_def on_the_road_def transfer_status_def)

lemma sok_put_transfer:
  fixes w :: "'w warehouse_scheme"
  assumes "find (\<lambda>t. tr_id t = tr_id x) (transfers w) = Some y"
    and "in_custody w item + ((if tr_status x = ''in_transit'' then 1 else 0) - (if tr_status y = ''in_transit'' then 1 else 0)) *
      road_of (lines_of w (tr_id x)) item = n"
  shows "sok (sbind (put_transfer x) (\<lambda>t. sbind (emit_domain_event k i) (\<lambda>_. sret t))) (\<lambda>_ v. in_custody v item = n) w"
  using assms on_the_road_put [OF assms(1), of item]
  by (simp add: put_transfer_def emit_domain_event_def sql_rules in_custody_def on_the_road_def transfer_status_def)

lemma sok_in_status:
  "(\<And>t. find (\<lambda>t. tr_id t = i) (transfers w) = Some t \<Longrightarrow> tr_status t = s \<Longrightarrow> tr_id t = i \<Longrightarrow> sok (f t) Q w) \<Longrightarrow>
   sok (sbind (transfer_in_status i s m) f) Q w"
  by (auto simp: transfer_in_status_def find_or_raise_def sql_rules find_Some_iff split: option.split)

lemma road_of_waybills:
  fixes v w :: "'w warehouse_scheme"
  assumes "waybills v = waybills w"
  shows "road_of (lines_of v i) item = road_of (lines_of w i) item"
proof -
  have "road_of (lines_of u i) item = (\<Sum>(x, j, q)\<leftarrow>snd (waybills u). if x = i \<and> j = item then q else 0)" for u :: "'w warehouse_scheme"
  proof -
    have "road_of (filter (\<lambda>l. tl_transfer l = i) ls) item =
        (\<Sum>l\<leftarrow>ls. if tl_transfer l = i \<and> tl_item l = item then tl_quantity l else 0)" for ls
      by (induction ls) (auto simp: road_of_def)
    then show ?thesis by (simp add: lines_of_def waybills_def comp_def)
  qed
  from this [of v] this [of w] show ?thesis by (simp only: assms)
qed

definition custody :: "string \<Rightarrow> number \<Rightarrow> 'w warehouse_scheme \<Rightarrow> bool" where
  "custody item n w \<longleftrightarrow> warehouse_ok w \<and> in_custody w item = n"

lemma custody_calls [simp]: "custody item n (w\<lparr>calls := m\<rparr>) = custody item n w"
  by (simp add: custody_def)

lemma skeeps_custody:
  fixes f :: "('w warehouse_scheme, 'x) sql"
  assumes "skeeps warehouse_ok f" "\<And>w. custody item n w \<Longrightarrow> sok f (\<lambda>_ v. in_custody v item = n) w"
  shows "skeeps (custody item n) f"
  unfolding skeeps_def
proof (intro allI impI)
  fix w :: "'w warehouse_scheme" assume w: "custody item n w"
  then have "sok f (\<lambda>_. warehouse_ok) w" using assms(1) by (simp add: custody_def skeeps_def)
  then show "sok f (\<lambda>_. custody item n) w"
    by (rule sok_mono [OF sok_conj [OF _ assms(2) [OF w]]]) (simp add: custody_def)
qed

lemma in_custody_moved:
  fixes v w :: "'w warehouse_scheme"
  assumes "waybills v = waybills w" "booked_total (stock_movements v) item = booked_total (stock_movements w) item + d"
  shows "in_custody v item = in_custody w item + d"
  using assms on_the_road_waybills [OF assms(1)] by (simp add: in_custody_def)

lemma custody_lines:
  fixes w :: "'w warehouse_scheme"
  assumes "\<And>l (w :: 'w warehouse_scheme). on_grid (tl_quantity l) \<Longrightarrow> sok (f l) (\<lambda>_ v. waybills v = waybills w \<and>
      booked_total (stock_movements v) item = booked_total (stock_movements w) item + k * road_of [l] item) w"
    and "custody item n w" "find (\<lambda>t. tr_id t = tr_id x) (transfers w) = Some y"
    and "(if tr_status x = ''in_transit'' then 1 else 0) - (if tr_status y = ''in_transit'' then 1 else 0) = - k"
  shows "sok (sbind (sget (\<lambda>w. lines_of w (tr_id x))) (\<lambda>ls. sbind (sfor ls f) (\<lambda>_. sbind (put_transfer x) (\<lambda>t.
    sbind (emit_domain_event e i) (\<lambda>_. sret t))))) (\<lambda>_ v. in_custody v item = n) w"
  unfolding sok_sbind sok_sget
proof (rule sok_mono [OF sok_lines [of f item k "lines_of w (tr_id x)" w]])
  show "\<forall>l\<in>set (lines_of w (tr_id x)). on_grid (tl_quantity l)"
    using assms(2) by (auto simp: custody_def warehouse_ok_def gridded_def lines_of_def)
  fix v :: "'w warehouse_scheme"
  assume v: "waybills v = waybills w \<and> booked_total (stock_movements v) item = booked_total (stock_movements w) item + k * road_of (lines_of w (tr_id x)) item"
  then have "transfers v = transfers w" by (simp add: waybills_def)
  moreover have "in_custody v item + - k * road_of (lines_of v (tr_id x)) item = n"
    using v assms(2) in_custody_moved [of v w item "k * road_of (lines_of w (tr_id x)) item"] road_of_waybills [of v w "tr_id x" item]
    by (simp add: custody_def)
  ultimately show "sok (put_transfer x) (\<lambda>t. sok (emit_domain_event e i) (\<lambda>_. sok (sret t) (\<lambda>_ v. in_custody v item = n))) v"
    using sok_put_transfer [of x v y item n e i] assms(3,4) by (simp add: sok_sbind)
qed (rule assms(1))

lemma custody_functions:
  fixes J :: "'w warehouse_scheme \<Rightarrow> bool" and item n
  defines "J \<equiv> custody item n"
  shows "skeeps J (fn_transfer_approve i actor)" "skeeps J (fn_transfer_complete i actor)"
    "skeeps J (fn_transfer_dispatch i actor)" "skeeps J (fn_transfer_receive i actor)"
proof -
  show "skeeps J (fn_transfer_approve i actor)"
    unfolding J_def fn_transfer_approve_def
    by (rule skeeps_custody [OF ok_transfer_functions(1) [unfolded fn_transfer_approve_def]], rule sok_in_status, rule sok_put_transfer)
       (auto simp: custody_def)
  show "skeeps J (fn_transfer_complete i actor)"
    unfolding J_def fn_transfer_complete_def
    by (rule skeeps_custody [OF ok_transfer_functions(4) [unfolded fn_transfer_complete_def]], rule sok_in_status, rule sok_put_transfer)
       (auto simp: custody_def)
  show "skeeps J (fn_transfer_dispatch i actor)"
    unfolding J_def fn_transfer_dispatch_def
  proof (rule skeeps_custody [OF ok_transfer_functions(2) [unfolded fn_transfer_dispatch_def]], rule sok_in_status)
    fix w :: "'w warehouse_scheme" and t
    assume t: "custody item n w" "find (\<lambda>t. tr_id t = i) (transfers w) = Some t" "tr_status t = ''approved''" "tr_id t = i"
    have "sok (dispatch_line t actor l) (\<lambda>_ v. waybills v = waybills u \<and>
        booked_total (stock_movements v) item = booked_total (stock_movements u) item + - 1 * road_of [l] item) u"
      if "on_grid (tl_quantity l)" for l and u :: "'w warehouse_scheme"
      using sok_dispatch_line [OF that] by simp
    from custody_lines [OF this t(1), of "t\<lparr>tr_status := ''in_transit'', tr_dispatched_by := Some actor\<rparr>" t] t
    show "sok (sbind (sget (\<lambda>w. lines_of w i)) (\<lambda>ls. sbind (sfor ls (dispatch_line t actor)) (\<lambda>_.
        sbind (put_transfer (t\<lparr>tr_status := ''in_transit'', tr_dispatched_by := Some actor\<rparr>)) (\<lambda>t'.
        sbind (emit_domain_event ''inventory.transfer.dispatched'' i) (\<lambda>_. sret t'))))) (\<lambda>_ v. in_custody v item = n) w" by simp
  qed
  show "skeeps J (fn_transfer_receive i actor)"
    unfolding J_def fn_transfer_receive_def
  proof (rule skeeps_custody [OF ok_transfer_functions(3) [unfolded fn_transfer_receive_def]], rule sok_in_status)
    fix w :: "'w warehouse_scheme" and t
    assume t: "custody item n w" "find (\<lambda>t. tr_id t = i) (transfers w) = Some t" "tr_status t = ''in_transit''" "tr_id t = i"
    have "sok (receive_line t actor l) (\<lambda>_ v. waybills v = waybills u \<and>
        booked_total (stock_movements v) item = booked_total (stock_movements u) item + 1 * road_of [l] item) u"
      if "on_grid (tl_quantity l)" for l and u :: "'w warehouse_scheme"
      using sok_receive_line [OF that] by simp
    from custody_lines [OF this t(1), of "t\<lparr>tr_status := ''received'', tr_received_by := Some actor\<rparr>" t] t
    show "sok (sbind (sget (\<lambda>w. lines_of w i)) (\<lambda>ls. sbind (sfor ls (receive_line t actor)) (\<lambda>_.
        sbind (put_transfer (t\<lparr>tr_status := ''received'', tr_received_by := Some actor\<rparr>)) (\<lambda>t'.
        sbind (emit_domain_event ''inventory.transfer.received'' i) (\<lambda>_. sret t'))))) (\<lambda>_ v. in_custody v item = n) w" by simp
  qed
qed


text \<open>What the invariant speaks of.\<close>

definition road_view where
  "road_view w = (shelf_view w, transfers w)"

interpretation road: beside_infra "road_view :: 'w warehouse_scheme \<Rightarrow> _"
  by unfold_locales (simp_all add: road_view_def shelf_view_def)

lemma custody_keeps: "keeps road_view m \<Longrightarrow> preserves (custody item n) m"
proof (rule preserves_keeps)
  have cong: "custody item n v = custody item n w" if "road_view v = road_view w" for v w :: "'a warehouse_scheme"
    using that warehouse_ok_shelf [of v w]
    by (simp add: custody_def road_view_def shelf_view_def in_custody_def on_the_road_def transfer_status_def)
  assume "keeps road_view m"
  then show "keeps (custody item n) m"
    unfolding keeps_def by (intro allI cong) simp
qed

lemma custody_find: "preserves (custody item n) (transfer_findById i t)"
  unfolding transfer_findById_def by (intro custody_keeps keep_rules road.keeps_query)

text \<open>Creation: the new transfer is a draft, so its lines are not on the road.\<close>

lemma preserves_orThrow_exec:
  fixes J :: "'w pos_scheme \<Rightarrow> bool"
  assumes "\<And>w. J w \<Longrightarrow> J (snd (f w))" "\<And>w n. J (w\<lparr>calls := n\<rparr>) = J w"
  shows "preserves J (orThrow (exec f))"
  using preserves_statement [of J f] assms by (simp add: statement_def)

lemma find_cancelled:
  assumes "\<And>t. P t \<Longrightarrow> tr_status t \<noteq> ''in_transit''"
  shows "map_option tr_status (find (\<lambda>t. tr_id t = j) (update_where P (\<lambda>t. t\<lparr>tr_status := ''cancelled''\<rparr>) T)) = Some ''in_transit'' \<longleftrightarrow>
    map_option tr_status (find (\<lambda>t. tr_id t = j) T) = Some ''in_transit''"
  using assms by (induction T) (auto simp: update_where_def)

lemma custody_cancel: "preserves (custody item n) (transfer_cancel i t)"
proof -
  have "custody item n (w\<lparr>transfers := update_where (\<lambda>t. tr_id t = i \<and> tr_tenant t = tenant \<and> tr_status t \<in> {''draft'', ''approved''})
      (\<lambda>t. t\<lparr>tr_status := ''cancelled''\<rparr>) (transfers w)\<rparr>)" (is "custody item n ?v")
    if "custody item n w" for w :: "'w warehouse_scheme" and tenant
  proof -
    have "transfer_status ?v j = Some ''in_transit'' \<longleftrightarrow> transfer_status w j = Some ''in_transit''" for j
      unfolding transfer_status_def by (simp del: map_option_eq_Some) (rule find_cancelled, auto)
    then have "in_custody ?v item = in_custody w item" by (simp add: in_custody_def on_the_road_def)
    then show ?thesis using that by (simp add: custody_def warehouse_ok_def gridded_def stock_ok_def ledger_ok_def)
  qed
  then show ?thesis
    unfolding transfer_cancel_def Let_def
    by (intro preserve_rules preserves_orThrow_exec custody_find) (auto split: sum.split)
qed


lemma custody_insert_lines:
  fixes w :: "'w warehouse_scheme"
  assumes "custody item n w" "\<forall>l\<in>set ls. on_grid (tl_quantity l) \<and> transfer_status w (tl_transfer l) \<noteq> Some ''in_transit''"
  shows "sok (insert_transfer_lines ls) (\<lambda>_. custody item n) w"
  using assms
proof (induction ls arbitrary: w)
  case (Cons l ls)
  have "custody item n (w\<lparr>row_count := k, transfer_lines := transfer_lines w @ [l\<lparr>tl_id := i\<rparr>]\<rparr>)" for k i
    using Cons.prems by (auto simp: custody_def warehouse_ok_def gridded_def stock_ok_def ledger_ok_def in_custody_def on_the_road_def
        transfer_status_def)
  from Cons.IH [OF this] Cons.prems(2) show ?case
    by (auto simp: sql_rules checked_def new_row_id_def sok_def sbind_def sget_def sfail_def smodify_def transfer_status_def
        split: option.split)
qed (simp add: sql_rules)

lemma custody_insert:
  fixes w :: "'w warehouse_scheme"
  assumes "custody item n w"
  shows "wp (transfer_insert t dto) (\<lambda>r v. custody item n v \<and> transfer_status v (tr_id r) \<noteq> Some ''in_transit'') (\<lambda>_. custody item n) w"
proof -
  have new: "custody item n (w\<lparr>calls := k, transfers := transfers w @ [r]\<rparr>) \<and>
      transfer_status (w\<lparr>calls := k, transfers := transfers w @ [r]\<rparr>) (tr_id r) = Some ''draft''"
    if "tr_status r = ''draft''" "\<forall>t\<in>set (transfers w). tr_id t \<noteq> tr_id r" for r k
  proof -
    have app: "find P (xs @ [r]) = (case find P xs of None \<Rightarrow> if P r then Some r else None | Some x \<Rightarrow> Some x)" for P and xs :: "transfer_row list"
      by (induction xs) auto
    have "find (\<lambda>t. tr_id t = tr_id r) (transfers w) = None" using that(2) by (simp add: find_None_iff)
    moreover have "map_option tr_status (find (\<lambda>t. tr_id t = j) (transfers w @ [r])) = Some ''in_transit'' \<longleftrightarrow>
        map_option tr_status (find (\<lambda>t. tr_id t = j) (transfers w)) = Some ''in_transit''" for j
      using that(1) by (auto simp: app split: option.split)
    ultimately show ?thesis
      using assms that(1) by (simp add: app transfer_status_def custody_def warehouse_ok_def gridded_def stock_ok_def ledger_ok_def
          in_custody_def on_the_road_def)
  qed
  show ?thesis
    unfolding transfer_insert_def Let_def
    using assms new [of "\<lparr>tr_id = fresh_id (w\<lparr>calls := Suc (calls w)\<rparr>), tr_tenant = t, tr_from = ctr_from dto, tr_to = ctr_to dto, tr_number = ctr_number dto,
       tr_status = ''draft'', tr_notes = ctr_notes dto, tr_approved_by = None, tr_dispatched_by = None, tr_received_by = None,
       tr_completed_by = None\<rparr>" "Suc (calls w)"]
    by (auto simp: wp_rules split: option.split)
qed

lemma custody_create:
  fixes J :: "'w warehouse_scheme \<Rightarrow> bool" and item n
  defines "J \<equiv> custody item n"
  shows "preserves J (transfer_create t dto)"
proof -
  have find: "preserves J (transfer_findById i t)" for i
    unfolding J_def by (rule custody_find)
  have lines: "wp (bindE (rpc (insert_transfer_lines (map (\<lambda>line. \<lparr>tl_id = [], tl_tenant = t, tl_transfer = tr_id r, tl_item = ctl_item line,
      tl_variant = ctl_variant line, tl_batch = ctl_batch line, tl_quantity = numeric4 (ctl_quantity line), tl_from = ctl_from line,
      tl_to = ctl_to line, tl_cost = None\<rparr>) (ctr_items dto)))) (\<lambda>_. transfer_findById (tr_id r) t)) (\<lambda>_. J) (\<lambda>_. J) v"
    if "J v \<and> transfer_status v (tr_id r) \<noteq> Some ''in_transit''" for r and v :: "'w warehouse_scheme"
    unfolding wp_bindE
    by (rule wp_rpc_sok [OF sok_mono [OF custody_insert_lines [of item n]]])
       (use that find in \<open>auto simp: J_def preserves_def transfer_status_def\<close>)
  show ?thesis
    unfolding transfer_create_def
  proof (rule preserves_bindE)
    show "preserves J (forEach (ctr_items dto) (\<lambda>line. bindE (check_location (ctl_from line) (ctr_from dto) t)
        (\<lambda>_. check_location (ctl_to line) (ctr_to dto) t)))"
      unfolding J_def check_location_def location_findById_def
      by (intro preserves_forEach preserves_whenE preserves_bindE custody_keeps keep_rules road.keeps_query)
  next
    show "preserves J (bindE (transfer_insert t dto) (\<lambda>transfer. bindE (rpc (insert_transfer_lines (map (\<lambda>line.
       \<lparr>tl_id = [], tl_tenant = t, tl_transfer = tr_id transfer, tl_item = ctl_item line, tl_variant = ctl_variant line,
        tl_batch = ctl_batch line, tl_quantity = numeric4 (ctl_quantity line), tl_from = ctl_from line, tl_to = ctl_to line,
        tl_cost = None\<rparr>) (ctr_items dto)))) (\<lambda>_. transfer_findById (tr_id transfer) t)))"
      unfolding preserves_def
      by (intro allI impI, rule wp_bind, unfold J_def, rule custody_insert, assumption) (rule lines [unfolded J_def])
  qed
qed


primrec of_transfer :: "inventory_request \<Rightarrow> bool" where
  "of_transfer (CreateAdjustment t dto a) = False"
| "of_transfer (ApproveAdjustment i t a) = False"
| "of_transfer (RejectAdjustment i t a) = False"
| "of_transfer (PostAdjustment i t a) = False"
| "of_transfer (CreateTransfer t dto) = True"
| "of_transfer (ApproveTransfer i t a) = True"
| "of_transfer (DispatchTransfer i t a) = True"
| "of_transfer (ReceiveTransfer i t a) = True"
| "of_transfer (CompleteTransfer i t a) = True"
| "of_transfer (CancelTransfer i t) = True"
| "of_transfer (CreateCount t dto a) = False"
| "of_transfer (SubmitCount i l t q r) = False"
| "of_transfer (FinalizeCount i t a) = False"
| "of_transfer (DecideCount i t a b r) = False"
| "of_transfer (Reserve t dto a) = False"
| "of_transfer (Release i t) = False"
| "of_transfer (Move m) = False"
| "of_transfer (DeductSale t wh order a its) = False"
| "of_transfer (ReverseSale t order a) = False"

lemma custody_moves:
  "preserves (custody item n) (transfer_approve i t a)" "preserves (custody item n) (transfer_dispatch i t a)"
  "preserves (custody item n) (transfer_receive i t a)" "preserves (custody item n) (transfer_complete i t a)"
proof -
  have rpc: "preserves (custody item n) (rpc f)" if "skeeps (custody item n) f" for f :: "('w warehouse_scheme, 'x) sql"
    using that by (rule preserves_rpc) simp
  have guard: "preserves (custody item n) (guarded m)" if "preserves (custody item n) m" for m :: "('w warehouse_scheme, 'x) io"
    using that unfolding guarded_def throwFromRpcError_def by (intro preserve_rules)
  have cache: "preserves (custody item n) (invalidateStockCache t)"
    unfolding invalidateStockCache_def by (intro custody_keeps road.keeps_infra)
  show "preserves (custody item n) (transfer_approve i t a)" "preserves (custody item n) (transfer_dispatch i t a)"
    "preserves (custody item n) (transfer_receive i t a)" "preserves (custody item n) (transfer_complete i t a)"
    unfolding transfer_approve_def transfer_dispatch_def transfer_receive_def transfer_complete_def
    by (intro preserve_rules custody_find guard rpc cache custody_functions)+
qed

lemma custody_serve: "custody item n w \<Longrightarrow> of_transfer r \<Longrightarrow> custody item n (serve r w)"
  by (cases r) (auto intro: preserves_snd custody_create custody_moves custody_cancel)

lemma custody_serves: "custody item n w \<Longrightarrow> list_all of_transfer rs \<Longrightarrow> custody item n (fold serve rs w)"
  by (induction rs arbitrary: w) (auto simp: custody_serve)

section \<open>A warehouse with a transfer to dispatch\<close>

definition demo_transfer :: transfer_row where
  "demo_transfer = \<lparr>tr_id = ''x'', tr_tenant = ''t'', tr_from = ''w'', tr_to = ''v'', tr_number = ''T1'', tr_status = ''approved'',
     tr_notes = None, tr_approved_by = Some ''u'', tr_dispatched_by = None, tr_received_by = None, tr_completed_by = None\<rparr>"

definition demo_line :: transfer_line where
  "demo_line = \<lparr>tl_id = ''l'', tl_tenant = ''t'', tl_transfer = ''x'', tl_item = ''i'', tl_variant = None, tl_batch = None,
     tl_quantity = 3, tl_from = None, tl_to = None, tl_cost = None\<rparr>"

definition demo_warehouse :: warehouse where
  "demo_warehouse = stockroom.extend demo_stock
     \<lparr>adjustments = [], transfers = [demo_transfer], transfer_lines = [demo_line], counts = [], count_lines = [], reservations = [],
      locations = [], reason_codes = [], approval_history = [], adjustment_threshold = 100, count_threshold = 0\<rparr>"

lemma demo_warehouse_ok: "warehouse_ok demo_warehouse"
proof -
  have "stock_ok demo_warehouse = stock_ok demo_stock"
    by (simp add: demo_warehouse_def stockroom.extend_def stock_ok_def ledger_ok_def)
  then show ?thesis
    using demo_stock_ok
    by (simp add: warehouse_ok_def gridded_def demo_warehouse_def stockroom.extend_def demo_stock_def pos.extend_def demo_line_def on_grid_def)
qed

lemma demo_warehouse_tables [simp]:
  "stock_levels demo_warehouse = [(empty_level demo_point)\<lparr>sl_on_hand := 8, sl_backorder := 2\<rparr>]"
  "cost_layers demo_warehouse = [demo_layer ''a'' 9 3 20, demo_layer ''b'' 6 5 10]"
  "batches demo_warehouse = []" "backorders demo_warehouse = []" "row_count demo_warehouse = 0"
  "costings demo_warehouse = (\<lambda>_. \<lparr>co_method = Some ''fifo'', co_standard = None, co_price = Some 5, co_inventory = Some True\<rparr>)"
  "transfers demo_warehouse = [demo_transfer]" "transfer_lines demo_warehouse = [demo_line]"
  "fault demo_warehouse n = None" "scan_pages demo_warehouse n pre = ([], [])" "adjustments demo_warehouse = []"
  by (simp_all add: demo_warehouse_def stockroom.extend_def demo_stock_def pos.extend_def demo_pos_no_fault
      demo_pos_def demo_shop_def catalog.extend_def)

lemmas run_stock = orThrow_def query_def exec_def io_defs run_sql stock_loss_def stock_gain_def simple_move_def fn_consume_cost_layers_def fn_add_cost_layer_def
  insert_layer_def fefo_def layers_of_def expiry_of_def put_layer_def layer_check_def find_or_raise_def guarded_def rpc_def
  invalidateStockCache_def cache_delByPrefix_def

lemma demo_dispatch:
  "transfer_status (serve (DispatchTransfer ''x'' ''t'' ''u'') demo_warehouse) ''x'' = Some ''in_transit'' \<and>
   stock_total (serve (DispatchTransfer ''x'' ''t'' ''u'') demo_warehouse) ''i'' = 5"
  by (simp add: transfer_dispatch_def transfer_findById_def maybeSingle_def fn_transfer_dispatch_def transfer_in_status_def
      dispatch_line_def lines_of_def from_point_def put_transfer_def run_stock demo_transfer_def demo_line_def demo_point_def
      demo_layer_def on_grid_def transfer_status_def stock_total_def)

section \<open>Properties\<close>

text \<open>C7. The ledger is right, whatever is asked of the inventory in whatever order and whatever calls
  fail: every level holds what the movements of its point add up to, its reserved and unsellable
  quantities are not negative and leave something available or nothing, every movement starts where
  the one before it ended, and no cost layer is overdrawn.
\<close>

theorem inventory_ledger:
  fixes w :: "'w warehouse_scheme"
  assumes "warehouse_ok w" "list_all request_on_grid rs"
  shows "let v = fold serve rs w in
    (\<forall>l\<in>set (stock_levels v). sl_on_hand l = booked (stock_movements v) (sl_point l) \<and> 0 \<le> sl_reserved l \<and> 0 \<le> available l) \<and>
    running (rev (stock_movements v)) \<and> (\<forall>c\<in>set (cost_layers v). 0 \<le> cl_remaining c) \<and> warehouse_ok v"
proof -
  define v where "v = fold serve rs w"
  have v: "warehouse_ok v" unfolding v_def using assms by (rule ok_serves)
  have "on_hand (stock_levels v) (sl_point l) = sl_on_hand l" if "l \<in> set (stock_levels v)" for l
    using v that on_hand_level [of "stock_levels v" l] by (simp add: warehouse_ok_def stock_ok_def ledger_ok_def)
  then show ?thesis
    using v sound_level_signs unfolding v_def [symmetric] Let_def
    by (simp add: warehouse_ok_def stock_ok_def ledger_ok_def layers_ok_def)
qed

theorem inventory_ledger_witness:
  "sl_on_hand (hd (stock_levels demo_warehouse)) = 8 \<and>
    list_all (\<lambda>l. sl_on_hand l = booked (stock_movements (serve (DispatchTransfer ''x'' ''t'' ''u'') demo_warehouse)) (sl_point l))
      (stock_levels (serve (DispatchTransfer ''x'' ''t'' ''u'') demo_warehouse))"
  using inventory_ledger [OF demo_warehouse_ok, of "[DispatchTransfer ''x'' ''t'' ''u'']"]
  by (simp add: Let_def empty_level_def list_all_iff del: serve.simps)

text \<open>C8. A transfer moves stock and neither makes nor loses any: whatever transfers are created,
  approved, dispatched, received, completed and cancelled, in whatever order and whatever calls
  fail, what the levels hold of an item and what transfers in transit carry of it add up to the
  same quantity.
\<close>

theorem transfers_conserve_stock:
  fixes w :: "'w warehouse_scheme"
  assumes "warehouse_ok w" "list_all of_transfer rs"
  shows "stock_total (fold serve rs w) item + on_the_road (fold serve rs w) item = stock_total w item + on_the_road w item"
proof -
  have total: "stock_total v item + on_the_road v item = in_custody v item" if "warehouse_ok v" for v :: "'w warehouse_scheme"
    using that stock_total_booked [of v item] by (simp add: warehouse_ok_def stock_ok_def in_custody_def)
  have "custody item (in_custody w item) (fold serve rs w)"
    using assms by (intro custody_serves) (simp_all add: custody_def)
  then show ?thesis using total assms(1) by (simp add: custody_def)
qed

theorem transfers_conserve_stock_witness:
  "let v = serve (DispatchTransfer ''x'' ''t'' ''u'') demo_warehouse in
    transfer_status v ''x'' = Some ''in_transit'' \<and> stock_total v ''i'' = 5 \<and> on_the_road v ''i'' = 3"
  using transfers_conserve_stock [OF demo_warehouse_ok, of "[DispatchTransfer ''x'' ''t'' ''u'']" "''i''"] demo_dispatch
  by (simp add: Let_def stock_total_def on_the_road_def transfer_status_def empty_level_def demo_point_def demo_line_def demo_transfer_def
      del: serve.simps)

end
