(* ===== verification/AdjustmentFlow.thy ===== *)
theory AdjustmentFlow
  imports StockFlow
begin

text \<open>
  The life of an adjustment among all other requests to the inventory: it changes stock exactly
  once, when it is posted, by its delta and at its own stocking point, and one that needs approval
  not before somebody has approved it.
\<close>

section \<open>The adjustments and their movements\<close>

definition of_adjustment :: "stock_movement \<Rightarrow> bool" where
  "of_adjustment m \<longleftrightarrow> mv_ref_type m = ''stock_adjustment''"

definition adjusting where
  "adjusting w = (adjustments w, filter of_adjustment (stock_movements w))"

interpretation adjusting: beside_infra "adjusting :: 'w warehouse_scheme \<Rightarrow> _"
  by unfold_locales (simp_all add: adjusting_def)

text \<open>Everything but the handlers of the adjustments themselves leaves them alone.\<close>

lemma adj_movement:
  assumes "mp_ref_type m \<noteq> ''stock_adjustment''"
  shows "skeeps (\<lambda>v. adjusting v = c) (fn_apply_stock_movement m)"
  unfolding skeeps_def
proof (intro allI impI)
  fix w :: "'a warehouse_scheme" assume "adjusting w = c"
  then show "sok (fn_apply_stock_movement m) (\<lambda>_ v. adjusting v = c) w"
    by (intro sok_mono [OF sok_conj [OF sok_logged sok_same [OF paper_movement]]])
       (use assms in \<open>auto simp: adjusting_def paper_def logged_def of_adjustment_def\<close>)
qed

lemma skeeps_part:
  assumes "\<And>c. skeeps (\<lambda>v. f v = c) m" "\<And>v. g v = h (f v)"
  shows "skeeps (\<lambda>v. g v = d) m"
  unfolding skeeps_def
proof (intro allI impI)
  fix w assume "g w = d"
  then show "sok m (\<lambda>_ v. g v = d) w"
    by (intro sok_mono [OF sok_same [of f, OF assms(1)]]) (simp add: assms(2))
qed

lemma adjusting_part: "(\<And>c. skeeps (\<lambda>v. booked_paper v = c) m) \<Longrightarrow> skeeps (\<lambda>v. adjusting v = d) m"
  by (rule skeeps_part [of booked_paper _ _ "\<lambda>(ms, T, L, A). (A, filter of_adjustment ms)"])
     (simp_all add: booked_paper_def paper_def adjusting_def)

lemma adj_layers:
  "skeeps (\<lambda>v. adjusting v = c) (fn_add_cost_layer t wh i x b q k s)"
  "skeeps (\<lambda>v. adjusting v = c) (fn_consume_cost_layers t wh i x q p r)"
  by (rule adjusting_part, rule bp_add) (rule adjusting_part, rule bp_consume)

lemma adj_stock:
  assumes "rt \<noteq> ''stock_adjustment''"
  shows "skeeps (\<lambda>v. adjusting v = c) (stock_loss p k q rt r a n)" "skeeps (\<lambda>v. adjusting v = c) (stock_gain p k q u rt r a)"
  unfolding stock_loss_def stock_gain_def
  by (intro sql_keep adj_layers adj_movement; simp add: simple_move_def assms)+

lemma adj_small:
  "skeeps (\<lambda>v. adjusting v = c) (emit_domain_event k i)" "skeeps (\<lambda>v. adjusting v = c) (put_transfer t)"
  "skeeps (\<lambda>v. adjusting v = c) (put_count d)" "skeeps (\<lambda>v. adjusting v = c) new_row_id"
  "skeeps (\<lambda>v. adjusting v = c) (put_level l)" "skeeps (\<lambda>v. adjusting v = c) (lock_or_create p)"
  "skeeps (\<lambda>v. adjusting v = c) (find_or_raise rows P m)"
  unfolding emit_domain_event_def put_transfer_def put_count_def put_level_def lock_or_create_def find_or_raise_def
  by (intro sql_keep skeeps_smodify skeeps_new_row_id; simp add: adjusting_def)+

lemma adj_append:
  "skeeps (\<lambda>v. adjusting v = c) (smodify (\<lambda>w. w\<lparr>transfer_lines := f w\<rparr>))"
  "skeeps (\<lambda>v. adjusting v = c) (smodify (\<lambda>w. w\<lparr>count_lines := g w\<rparr>))"
  "skeeps (\<lambda>v. adjusting v = c) (smodify (\<lambda>w. w\<lparr>reservations := h w\<rparr>))"
  by (intro skeeps_smodify; simp add: adjusting_def)+

lemma adj_insert_lines: "skeeps (\<lambda>v. adjusting v = c) (insert_transfer_lines ls)"
  by (induction ls) (simp_all add: skeeps_basic, intro sql_keep adj_append adj_small, assumption)

lemma adj_insert_counts: "skeeps (\<lambda>v. adjusting v = c) (insert_count_lines ls)"
  by (induction ls) (simp_all add: skeeps_basic, intro sql_keep adj_append adj_small, assumption)

lemma adj_functions:
  "skeeps (\<lambda>v. adjusting v = c) (fn_transfer_approve i a)" "skeeps (\<lambda>v. adjusting v = c) (fn_transfer_dispatch i a)"
  "skeeps (\<lambda>v. adjusting v = c) (fn_transfer_receive i a)" "skeeps (\<lambda>v. adjusting v = c) (fn_transfer_complete i a)"
  "skeeps (\<lambda>v. adjusting v = c) (fn_finalize_stock_count i a)" "skeeps (\<lambda>v. adjusting v = c) (fn_approve_stock_count i a b)"
  "skeeps (\<lambda>v. adjusting v = c) (fn_create_reservation p q rt r u e)" "skeeps (\<lambda>v. adjusting v = c) (fn_release_reservation i s)"
  "skeeps (\<lambda>v. adjusting v = c) (fn_process_sale_stock_deduction t wh order actor its)"
  "skeeps (\<lambda>v. adjusting v = c) (fn_reverse_sale_stock_deduction t order actor)"
  unfolding fn_transfer_approve_def fn_transfer_dispatch_def fn_transfer_receive_def fn_transfer_complete_def transfer_in_status_def
    dispatch_line_def receive_line_def fn_finalize_stock_count_def correct_line_def fn_approve_stock_count_def
    fn_create_reservation_def fn_release_reservation_def fn_process_sale_stock_deduction_def deduct_item_def
    fn_reverse_sale_stock_deduction_def return_movement_def Let_def
  by (intro sql_keep adj_append adj_small adj_stock adj_movement adj_layers; simp add: simple_move_def)+

text \<open>The handlers.\<close>

lemma keeps_rpc:
  fixes f :: "'w net_scheme \<Rightarrow> 'v"
  assumes "\<And>c. skeeps (\<lambda>v. f v = c) g" "\<And>w n. f (w\<lparr>calls := n\<rparr>) = f w" shows "keeps f (rpc g)"
  unfolding keeps_def
proof (intro allI)
  fix w
  have "sok g (\<lambda>_ v. f v = f w) (w\<lparr>calls := Suc (calls w)\<rparr>)"
    using assms(1) [of "f w"] assms(2) by (simp add: skeeps_def)
  then have "wp (rpc g) (\<lambda>_ v. f v = f w) (\<lambda>_ v. f v = f w) w"
    by (rule wp_rpc_sok) (simp add: assms(2))
  then show "f (snd (rpc g w)) = f w" by (simp add: wp_snd)
qed

lemma adj_rpc: "(\<And>c. skeeps (\<lambda>v. adjusting v = c) g) \<Longrightarrow> keeps adjusting (rpc g)"
  by (rule keeps_rpc) (simp_all add: adjusting_def)

lemma adj_exec: "(\<And>w. adjusting (snd (f w)) = adjusting w) \<Longrightarrow> keeps adjusting (exec f)"
  by (rule adjusting.keeps_exec)

lemma adj_infra:
  "keeps adjusting (invalidateStockCache t)" "keeps adjusting (history_record t ty r x y p n u)"
  "keeps adjusting m \<Longrightarrow> keeps adjusting (guarded m)"
  unfolding invalidateStockCache_def history_record_def guarded_def throwFromRpcError_def
  by (intro keep_rules adjusting.keeps_infra adj_exec; simp add: adjusting_def)+

lemma adj_reads:
  "keeps adjusting (adjustment_findById i t)" "keeps adjusting (transfer_findById i t)"
  "keeps adjusting (count_findById i t)" "keeps adjusting (reservation_findById i t)"
  "keeps adjusting (check_location l wh t)" "keeps adjusting (reasonCodeExists i t)"
  "keeps adjusting (computeTotalVarianceValue i t)" "keeps adjusting (query f)"
  unfolding ok_finds by (intro keep_rules adjusting.keeps_query)+

lemmas adj_rules = keep_rules adj_rpc adj_infra adj_reads adj_functions adj_insert_lines adj_insert_counts

lemma adj_transfers:
  "keeps adjusting (transfer_create t dto)" "keeps adjusting (transfer_approve i t a)" "keeps adjusting (transfer_dispatch i t a)"
  "keeps adjusting (transfer_receive i t a)" "keeps adjusting (transfer_complete i t a)" "keeps adjusting (transfer_cancel i t)"
  unfolding transfer_create_def transfer_insert_def transfer_approve_def transfer_dispatch_def transfer_receive_def
    transfer_complete_def transfer_cancel_def Let_def
  by (intro adj_rules adj_exec; simp add: adjusting_def split: sum.split)+

lemma adj_counts:
  "keeps adjusting (count_create t cdto a)" "keeps adjusting (submitCount i l t q r)" "keeps adjusting (count_finalize i t a)"
  "keeps adjusting (count_approve i t a b r)"
  unfolding count_create_def count_insert_def submitCount_def count_finalize_def setPendingApproval_def count_approve_def Let_def
  by (intro adj_rules adj_exec; simp add: adjusting_def split: sum.split)+

lemma adj_others:
  "keeps adjusting (reservation_create t dto a)" "keeps adjusting (reservation_release i t)"
  "keeps adjusting (rpc (fn_process_sale_stock_deduction t wh order actor its))"
  "keeps adjusting (rpc (fn_reverse_sale_stock_deduction t order actor))"
  unfolding reservation_create_def reservation_release_def by (intro adj_rules)+

section \<open>The invariant\<close>

definition own_movements :: "stock_movement list \<Rightarrow> adjustment_row \<Rightarrow> stock_movement list" where
  "own_movements ms a = filter (\<lambda>m. of_adjustment m \<and> mv_ref m = Some (aj_id a)) ms"

definition sound_adjustment :: "stock_movement list \<Rightarrow> adjustment_row \<Rightarrow> bool" where
  "sound_adjustment ms a \<longleftrightarrow>
     (if aj_status a = ''posted'' then \<exists>m. own_movements ms a = [m] \<and> mv_point m = aj_point a \<and> signed m = aj_delta a
      else own_movements ms a = []) \<and>
     (aj_requires a \<and> aj_status a \<in> {''approved'', ''posted''} \<longrightarrow> aj_approved_by a \<noteq> None) \<and> on_grid (aj_delta a)"

definition sound_books :: "adjustment_row list \<times> stock_movement list \<Rightarrow> bool" where
  "sound_books b = (case b of (A, ms) \<Rightarrow> distinct (map aj_id A) \<and>
     (\<forall>m\<in>set ms. of_adjustment m \<longrightarrow> mv_ref m \<in> Some ` aj_id ` set A) \<and> (\<forall>a\<in>set A. sound_adjustment ms a))"

definition adjusted :: "'w warehouse_scheme \<Rightarrow> bool" where
  "adjusted w = sound_books (adjusting w)"

lemma own_filter [simp]: "own_movements (filter of_adjustment ms) a = own_movements ms a"
  by (simp add: own_movements_def)

lemma sound_filter: "sound_adjustment (filter of_adjustment ms) a = sound_adjustment ms a"
  by (simp add: sound_adjustment_def)

lemma map_ids_update: "(\<And>x. P x \<Longrightarrow> aj_id (f x) = aj_id x) \<Longrightarrow> map aj_id (update_where P f A) = map aj_id A"
  by (auto simp: update_where_def)

lemma ids_update:
  assumes "\<And>x. P x \<Longrightarrow> aj_id (f x) = aj_id x"
  shows "aj_id ` set (update_where P f A) = aj_id ` set A"
  using map_ids_update [of P f A, OF assms] by (metis set_map)

lemma books_update:
  assumes "sound_books (A, ms)" "\<And>x. P x \<Longrightarrow> aj_id (f x) = aj_id x"
    and "\<And>x. x \<in> set A \<Longrightarrow> sound_adjustment ms x \<Longrightarrow> P x \<Longrightarrow> sound_adjustment ms (f x)"
  shows "sound_books (update_where P f A, ms)"
proof -
  have "sound_adjustment ms x" if "x \<in> set (update_where P f A)" for x
    using that assms(1,3) by (auto simp: sound_books_def set_update_where)
  then show ?thesis
    using assms(1) map_ids_update [of P f A, OF assms(2)] ids_update [of P f A, OF assms(2)] by (simp add: sound_books_def)
qed

lemma books_append:
  assumes "sound_books (A, ms)" "aj_id a \<notin> aj_id ` set A" "aj_status a \<in> {''pending_approval'', ''approved''}"
    "aj_requires a \<longrightarrow> aj_status a = ''pending_approval''" "on_grid (aj_delta a)"
  shows "sound_books (A @ [a], ms)"
proof -
  have False if "m \<in> set ms" "of_adjustment m" "mv_ref m = Some (aj_id a)" for m
  proof -
    have "mv_ref m \<in> Some ` aj_id ` set A" using assms(1) that(1,2) by (simp add: sound_books_def)
    then show False using that(3) assms(2) by auto
  qed
  then have "own_movements ms a = []" by (auto simp: own_movements_def filter_empty_conv)
  then show ?thesis using assms by (auto simp: sound_books_def sound_adjustment_def)
qed

lemma books_post:
  assumes "sound_books (A, ms)" "a \<in> set A" "aj_status a \<noteq> ''posted''" "aj_requires a \<longrightarrow> aj_status a = ''approved''"
    "of_adjustment r" "mv_ref r = Some (aj_id a)" "mv_point r = aj_point a" "signed r = aj_delta a"
  shows "sound_books (update_where (\<lambda>x. aj_id x = aj_id a) (\<lambda>_. a\<lparr>aj_status := ''posted'', aj_posted_at := t\<rparr>) A, ms @ [r])"
    (is "sound_books (?A, _)")
proof -
  have same: "x = a" if "x \<in> set A" "aj_id x = aj_id a" for x
    using assms(1,2) that by (auto simp: sound_books_def distinct_map dest: inj_onD)
  have ids: "map aj_id ?A = map aj_id A" by (rule map_ids_update) simp
  have "sound_adjustment (ms @ [r]) x" if "x \<in> set ?A" for x
  proof -
    from that consider "x = a\<lparr>aj_status := ''posted'', aj_posted_at := t\<rparr>" | "x \<in> set A" "aj_id x \<noteq> aj_id a"
      by (auto simp: set_update_where)
    then show ?thesis
      using assms same by cases (auto simp: sound_books_def sound_adjustment_def own_movements_def)
  qed
  moreover have "mv_ref m \<in> Some ` aj_id ` set ?A" if "m \<in> set (ms @ [r])" "of_adjustment m" for m
    using that assms ids_update [of "\<lambda>x. aj_id x = aj_id a" "\<lambda>_. a\<lparr>aj_status := ''posted'', aj_posted_at := t\<rparr>" A]
    by (auto simp: sound_books_def)
  ultimately show ?thesis using assms(1) ids by (simp add: sound_books_def)
qed

text \<open>The handlers of the adjustments.\<close>

lemma adjusted_alt: "adjusted w = sound_books (adjustments w, stock_movements w)"
  by (auto simp: adjusted_def adjusting_def sound_books_def sound_filter)

lemma adjusted_keeps: "keeps adjusting m \<Longrightarrow> preserves adjusted m"
  by (rule preserves_keeps) (simp add: keeps_def adjusted_def)

lemma adjusted_calls [simp]: "adjusted (w\<lparr>calls := n\<rparr>) = adjusted w"
  by (simp add: adjusted_alt)

lemma adjusted_create: "preserves adjusted (adjustment_create t dto a)"
proof -
  have new: "adjusted (snd (case adjustment_check (adjustments w) r of Some e \<Rightarrow> (Inl e, w)
      | None \<Rightarrow> (Inr r, w\<lparr>adjustments := adjustments w @ [r]\<rparr>)))"
    if "adjusted w" "on_grid (aj_delta r)" "aj_requires r \<longrightarrow> aj_status r = ''pending_approval''"
      "aj_status r \<in> {''pending_approval'', ''approved''}" for w :: "'w warehouse_scheme" and r
  proof (cases "adjustment_check (adjustments w) r")
    case None
    then have "aj_id r \<notin> aj_id ` set (adjustments w)" by (auto simp: adjustment_check_def split: if_splits)
    then show ?thesis using None that books_append [of "adjustments w" "stock_movements w" r] by (simp add: adjusted_alt)
  qed (use that in simp)
  show ?thesis
    unfolding adjustment_create_def Let_def
    by (intro preserve_rules adjusted_keeps [OF adj_reads(5)] preserves_orThrow_exec new) simp_all
qed

lemma adjusted_decide: "s \<in> {''approved'', ''rejected''} \<Longrightarrow> preserves adjusted (decide_adjustment s i t a)"
  unfolding decide_adjustment_def Let_def
  by (intro preserve_rules preserves_orThrow_exec)
     (auto simp: adjusted_alt sound_adjustment_def own_movements_def split: sum.split intro!: books_update)

lemma adjusted_post: "skeeps adjusted (fn_post_stock_adjustment i actor)"
  unfolding skeeps_def
proof (intro allI impI)
  fix w :: "'w warehouse_scheme" assume w: "adjusted w"
  have fin: "adjusted (v\<lparr>adjustments := update_where (\<lambda>r. aj_id r = i) (\<lambda>_. a\<lparr>aj_status := ''posted'', aj_posted_at := t\<rparr>)
      (adjustments v), outbox := ob\<rparr>)"
    if h: "a \<in> set (adjustments w)" "aj_id a = i" "aj_status a \<in> {''pending_approval'', ''approved''}"
      "aj_requires a \<longrightarrow> aj_status a = ''approved''" "books (aj_point a) kind way q ''stock_adjustment'' (Some i) w v"
      "(if way = ''in'' then q else - q) = aj_delta a" "kind \<in> {''adjustment_in'', ''adjustment_out''}"
    for a kind way q t ob and v :: "'w warehouse_scheme"
  proof -
    obtain r where r: "stock_movements v = stock_movements w @ [r]" "mv_point r = aj_point a" "mv_type r = kind" "mv_direction r = way"
      "mv_quantity r = q" "mv_ref_type r = ''stock_adjustment''" "mv_ref r = Some i" and A: "adjustments v = adjustments w"
      using h(5) by (auto simp: books_def paper_def)
    then have "signed r = aj_delta a" using h(6,7) by (auto simp: signed_def)
    then show ?thesis
      using books_post [of "adjustments w" "stock_movements w" a r "t"] w r A h by (auto simp: adjusted_alt of_adjustment_def)
  qed
  have grid: "on_grid (aj_delta a)" if "a \<in> set (adjustments w)" for a
    using w that by (auto simp: adjusted_alt sound_books_def sound_adjustment_def)
  show "sok (fn_post_stock_adjustment i actor) (\<lambda>_. adjusted) w"
  proof (cases "find (\<lambda>a. aj_id a = i) (adjustments w)")
    case None
    then show ?thesis by (simp add: fn_post_stock_adjustment_def find_or_raise_def sql_rules)
  next
    case (Some a)
    then have a: "a \<in> set (adjustments w)" "aj_id a = i" by (auto simp: find_Some_iff)
    let ?posted = "\<lambda>v. a\<lparr>aj_status := ''posted'', aj_posted_at := Some (sql_now v)\<rparr>"
    let ?fin = "\<lambda>x v. adjusted (v\<lparr>adjustments := update_where (\<lambda>r. aj_id r = i) (\<lambda>_. ?posted v) (adjustments v), outbox := outbox v @ x\<rparr>)"
    have gain: "sok (stock_gain (aj_point a) ''adjustment_in'' (aj_delta a) c ''stock_adjustment'' i n) (\<lambda>_. ?fin x) w"
      if "aj_status a \<in> {''pending_approval'', ''approved''}" "aj_requires a \<longrightarrow> aj_status a = ''approved''" for c n x
      by (rule sok_mono [OF sok_gain [OF grid [OF a(1)]]]) (rule fin [OF a that], assumption, simp_all)
    have loss: "sok (stock_loss (aj_point a) ''adjustment_out'' \<bar>aj_delta a\<bar> ''stock_adjustment'' i n False) (\<lambda>_. ?fin x) w"
      if "aj_status a \<in> {''pending_approval'', ''approved''}" "aj_requires a \<longrightarrow> aj_status a = ''approved''" "\<not> 0 < aj_delta a" for n x
      by (rule sok_mono [OF sok_loss [OF on_grid_abs [OF grid [OF a(1)]]]]) (rule fin [OF a that(1,2)], assumption, use that(3) in simp_all)
    show ?thesis
      using gain loss Some by (auto simp: fn_post_stock_adjustment_def find_or_raise_def emit_domain_event_def Let_def sql_rules)
  qed
qed

lemma adjusted_rpc: "skeeps adjusted f \<Longrightarrow> preserves adjusted (rpc f)"
  by (rule preserves_rpc) simp_all

lemma adjusted_handlers:
  "preserves adjusted (adjustment_approve i t a)" "preserves adjusted (adjustment_reject i t a)" "preserves adjusted (adjustment_post i t a)"
proof -
  have guard: "preserves adjusted (guarded m)" if "preserves adjusted m" for m :: "('w warehouse_scheme, 'x) io"
    using that unfolding guarded_def throwFromRpcError_def by (intro preserve_rules)
  show "preserves adjusted (adjustment_approve i t a)" "preserves adjusted (adjustment_reject i t a)"
    unfolding adjustment_approve_def adjustment_reject_def
    by (intro preserve_rules adjusted_keeps [OF adj_reads(1)] adjusted_decide; simp)+
  show "preserves adjusted (adjustment_post i t a)"
    unfolding adjustment_post_def
    by (intro preserve_rules adjusted_keeps [OF adj_reads(1)] guard adjusted_rpc adjusted_post adjusted_keeps [OF adj_infra(1)])
qed

text \<open>A movement asked for directly, on either path.\<close>

lemma adjusted_move:
  fixes J :: "'w warehouse_scheme \<Rightarrow> bool"
  assumes "mp_ref_type m \<noteq> ''stock_adjustment''"
  defines "J \<equiv> adjusted"
  shows "preserves J (applyStockMovement m)"
proof -
  have move: "skeeps J (fn_apply_stock_movement m)"
    unfolding skeeps_def J_def
  proof (intro allI impI)
    fix w :: "'w warehouse_scheme" assume "adjusted w"
    then show "sok (fn_apply_stock_movement m) (\<lambda>_. adjusted) w"
      by (intro sok_mono [OF sok_same [of adjusting, OF adj_movement [OF assms(1)]]]) (simp add: adjusted_def)
  qed
  have pooled: "preserves J (runInTenantContext (statement (\<lambda>w. case fn_apply_stock_movement m w of
      Inl e \<Rightarrow> (Inl e, w) | Inr (x, w') \<Rightarrow> (Inr x, w'))))"
    by (intro preserves_transaction preserves_statement)
       (use move in \<open>auto simp: J_def skeeps_def sok_def split: sum.split\<close>)
  show ?thesis
    using move pooled unfolding J_def applyStockMovement_def callApplyStockMovement_def callApplyStockMovementPooled_def
    by (intro preserve_rules adjusted_rpc adjusted_keeps [OF adj_infra(1) [unfolded invalidateStockCache_def]])
qed

primrec claims_no_adjustment :: "inventory_request \<Rightarrow> bool" where
  "claims_no_adjustment (CreateAdjustment t dto a) = True"
| "claims_no_adjustment (ApproveAdjustment i t a) = True"
| "claims_no_adjustment (RejectAdjustment i t a) = True"
| "claims_no_adjustment (PostAdjustment i t a) = True"
| "claims_no_adjustment (CreateTransfer t dto) = True"
| "claims_no_adjustment (ApproveTransfer i t a) = True"
| "claims_no_adjustment (DispatchTransfer i t a) = True"
| "claims_no_adjustment (ReceiveTransfer i t a) = True"
| "claims_no_adjustment (CompleteTransfer i t a) = True"
| "claims_no_adjustment (CancelTransfer i t) = True"
| "claims_no_adjustment (CreateCount t dto a) = True"
| "claims_no_adjustment (SubmitCount i l t q r) = True"
| "claims_no_adjustment (FinalizeCount i t a) = True"
| "claims_no_adjustment (DecideCount i t a b r) = True"
| "claims_no_adjustment (Reserve t dto a) = True"
| "claims_no_adjustment (Release i t) = True"
| "claims_no_adjustment (Move m) = (mp_ref_type m \<noteq> ''stock_adjustment'')"
| "claims_no_adjustment (DeductSale t wh order a its) = True"
| "claims_no_adjustment (ReverseSale t order a) = True"

lemma adjusted_serve: "adjusted w \<Longrightarrow> claims_no_adjustment r \<Longrightarrow> adjusted (serve r w)"
  by (cases r)
     (auto intro: preserves_snd adjusted_create adjusted_handlers adjusted_move adjusted_keeps adj_transfers adj_counts adj_others)

lemma adjusted_serves: "adjusted w \<Longrightarrow> list_all claims_no_adjustment rs \<Longrightarrow> adjusted (fold serve rs w)"
  by (induction rs arbitrary: w) (auto simp: adjusted_serve)

section \<open>The property\<close>

text \<open>C9. An adjustment changes stock exactly once, and not before it has been approved where it needs
  approval.  Whatever is asked of the inventory in whatever order and whatever calls fail: a posted
  adjustment has exactly one movement, of its delta at its own stocking point, every other
  adjustment has none, and a posted one that required approval names who approved it.
\<close>

theorem adjustment_posts_once:
  fixes w :: "'w warehouse_scheme"
  assumes "adjusted w" "list_all claims_no_adjustment rs" "a \<in> set (adjustments (fold serve rs w))"
  shows "let own = own_movements (stock_movements (fold serve rs w)) a in
    (if aj_status a = ''posted'' then \<exists>m. own = [m] \<and> mv_point m = aj_point a \<and> signed m = aj_delta a else own = []) \<and>
    (aj_requires a \<and> aj_status a = ''posted'' \<longrightarrow> aj_approved_by a \<noteq> None)"
proof -
  have "adjusted (fold serve rs w)" using assms(1,2) by (rule adjusted_serves)
  then have "sound_adjustment (stock_movements (fold serve rs w)) a"
    using assms(3) by (simp add: adjusted_alt sound_books_def)
  then show ?thesis by (auto simp: Let_def sound_adjustment_def)
qed

definition demo_adjustment :: create_adjustment where
  "demo_adjustment = \<lparr>ca_warehouse = ''w'', ca_item = ''i'', ca_variant = None, ca_batch = None, ca_delta = 25, ca_unit_cost = Some 5,
     ca_reason = ''found'', ca_location = None\<rparr>"

definition demo_requests :: "inventory_request list" where
  "demo_requests = [CreateAdjustment ''t'' demo_adjustment ''u'', PostAdjustment ''id'' ''t'' ''u'', ApproveAdjustment ''id'' ''t'' ''b'',
     PostAdjustment ''id'' ''t'' ''u'', PostAdjustment ''id'' ''t'' ''u'']"

lemma demo_posted: "map (\<lambda>a. (aj_status a, aj_requires a)) (adjustments (fold serve demo_requests demo_warehouse)) = [(''posted'', True)]"
  by code_simp

theorem adjustment_posts_once_witness:
  "\<exists>a\<in>set (adjustments (fold serve demo_requests demo_warehouse)). aj_status a = ''posted'' \<and> aj_requires a \<and>
    (\<exists>m. own_movements (stock_movements (fold serve demo_requests demo_warehouse)) a = [m] \<and> signed m = aj_delta a) \<and>
    aj_approved_by a \<noteq> None"
proof -
  let ?v = "fold serve demo_requests demo_warehouse"
  have "adjusted demo_warehouse"
    by (simp add: adjusted_alt sound_books_def demo_warehouse_def stockroom.extend_def demo_stock_def pos.extend_def of_adjustment_def)
  moreover have "list_all claims_no_adjustment demo_requests" by (simp add: demo_requests_def)
  moreover obtain a where a: "adjustments ?v = [a]" "aj_status a = ''posted''" "aj_requires a"
    using demo_posted by (auto simp: map_eq_Cons_conv)
  ultimately have "let own = own_movements (stock_movements ?v) a in
      (if aj_status a = ''posted'' then \<exists>m. own = [m] \<and> mv_point m = aj_point a \<and> signed m = aj_delta a else own = []) \<and>
      (aj_requires a \<and> aj_status a = ''posted'' \<longrightarrow> aj_approved_by a \<noteq> None)"
    by (intro adjustment_posts_once) simp_all
  then show ?thesis using a by (auto simp: Let_def)
qed

end
