(* ===== verification/Documents.thy ===== *)
theory Documents
  imports Warehouse Calendar "HOL-Library.Char_ord"
begin

text \<open>
  The documents of \<^verbatim>\<open>modules/purchasing\<close> that go through an approval: purchase requests, purchase
  orders, requests for quotation, agreements, their amendments and their releases (migrations 018,
  120 to 122, 128 to 133, 136).  Their services are written alike; what they share is one group of
  definitions over the kind of the document, and each service is given by its own definitions over
  it.  The history of approvals is shown to trace the status of a document.
\<close>

section \<open>Tables\<close>

datatype document_kind = PurchaseRequest | PurchaseOrder | Rfq | Agreement | Amendment | Release

text \<open>The columns that only one of the tables has.\<close>

datatype details =
    RequestDetails "string option" "string option"
  | OrderDetails string string int "int option"
  | RfqDetails "string option" "string option" "string option"
  | AgreementDetails string string "int option" "int option" bool string
  | AmendmentDetails string string "int option"
  | ReleaseDetails string "string option"

record document =
  dc_id :: string
  dc_tenant :: string
  dc_number :: string
  dc_status :: string
  dc_notes :: "string option"
  dc_created_by :: string
  dc_approved_by :: "string option"
  dc_approved_at :: "int option"
  dc_deleted :: bool
  dc_details :: details

record request_line =
  ql_id :: string
  ql_tenant :: string
  ql_document :: string
  ql_item :: string
  ql_variant :: "string option"
  ql_quantity :: number
  ql_notes :: "string option"

record order_line =
  ol_id :: string
  ol_tenant :: string
  ol_order :: string
  ol_item :: string
  ol_variant :: "string option"
  ol_ordered :: number
  ol_received :: number
  ol_cost :: number

record rfq_supplier =
  rq_tenant :: string
  rq_rfq :: string
  rq_supplier :: string
  rq_sent :: "int option"

record agreement_line =
  al_id :: string
  al_tenant :: string
  al_agreement :: string
  al_item :: string
  al_variant :: "string option"
  al_quantity :: "number option"
  al_value :: "number option"
  al_notes :: "string option"
  al_added :: "string option"
  al_ended :: "string option"
  al_ended_at :: "int option"

record amendment_line =
  ml_id :: string
  ml_tenant :: string
  ml_amendment :: string
  ml_action :: string
  ml_target :: "string option"
  ml_item :: "string option"
  ml_variant :: "string option"
  ml_quantity :: "number option"
  ml_value :: "number option"
  ml_price :: "number option"
  ml_discount :: "number option"
  ml_notes :: "string option"

record release_line =
  xl_id :: string
  xl_tenant :: string
  xl_release :: string
  xl_target :: string
  xl_tier :: "string option"
  xl_quantity :: number
  xl_price :: number
  xl_discount :: number
  xl_currency :: string
  xl_tax :: "number option"
  xl_amount :: number
  xl_notes :: "string option"

record pricing_row =
  gp_id :: string
  gp_tenant :: string
  gp_target :: string
  gp_type :: string
  gp_price :: "number option"
  gp_discount :: "number option"
  gp_tax :: "number option"

record price_tier =
  gt_id :: string
  gt_tenant :: string
  gt_pricing :: string
  gt_order :: int
  gt_min :: number
  gt_max :: "number option"
  gt_price :: number
  gt_discount :: "number option"

text \<open>\<open>variants_of i t\<close> is the column \<^verbatim>\<open>has_variants\<close> of an item, if the tenant has the item.\<close>

record purchasing = warehouse +
  documents :: "document_kind \<Rightarrow> document list"
  request_lines :: "request_line list"
  rfq_lines :: "request_line list"
  rfq_suppliers :: "rfq_supplier list"
  order_lines :: "order_line list"
  agreement_lines :: "agreement_line list"
  amendment_lines :: "amendment_line list"
  release_lines :: "release_line list"
  agreement_pricing :: "pricing_row list"
  pricing_tiers :: "price_tier list"
  variants_of :: "string \<Rightarrow> string \<Rightarrow> bool option"

section \<open>The constraints\<close>

definition statuses :: "document_kind \<Rightarrow> string list" where
  "statuses k = [''draft'', ''submitted'', ''approved'', ''rejected'', ''cancelled''] @
     (case k of PurchaseOrder \<Rightarrow> [''partially_received'', ''received''] | Rfq \<Rightarrow> [''sent''] | Agreement \<Rightarrow> [''closed''] | _ \<Rightarrow> [])"

definition amendment_types :: "string list" where
  "amendment_types = [''quantity_change'', ''value_change'', ''price_change'', ''extension'', ''administrative_correction'', ''general'']"

definition is_currency :: "string \<Rightarrow> bool" where
  "is_currency c \<longleftrightarrow> length c = 3 \<and> list_all (\<lambda>x. CHR ''A'' \<le> x \<and> x \<le> CHR ''Z'') c"

fun details_ok :: "details \<Rightarrow> bool" where
  "details_ok (AgreementDetails s currency from until auto policy) =
     (is_currency currency \<and> (case (from, until) of (Some a, Some b) \<Rightarrow> a \<le> b | _ \<Rightarrow> True) \<and>
      policy \<in> {''block'', ''warn'', ''require_approval'', ''allow''})"
| "details_ok (AmendmentDetails a kind until) = (kind \<in> set amendment_types)"
| "details_ok _ = True"

definition row_check :: "document_kind \<Rightarrow> document \<Rightarrow> db_error option" where
  "row_check k d = (if dc_status d \<in> set (statuses k) \<and> details_ok (dc_details d) then None else Some check_violation)"

text \<open>The number is unique among the documents of the tenant that are not deleted.\<close>

definition document_check :: "document_kind \<Rightarrow> document list \<Rightarrow> document \<Rightarrow> db_error option" where
  "document_check k ds d = (case row_check k d of Some e \<Rightarrow> Some e | None \<Rightarrow>
     if \<exists>x\<in>set ds. dc_id x = dc_id d \<or> (dc_tenant x = dc_tenant d \<and> dc_number x = dc_number d \<and> \<not> dc_deleted x)
     then Some unique_violation else None)"

section \<open>Repositories\<close>

definition with_documents :: "document_kind \<Rightarrow> (document list \<Rightarrow> document list) \<Rightarrow> 'w purchasing_scheme \<Rightarrow> 'w purchasing_scheme" where
  "with_documents k f w = w\<lparr>documents := (documents w)(k := f (documents w k))\<rparr>"

definition document_insert :: "document_kind \<Rightarrow> string \<Rightarrow> string \<Rightarrow> string option \<Rightarrow> string \<Rightarrow> details \<Rightarrow> ('w purchasing_scheme, document) sql" where
  "document_insert k tenantId number notes createdBy extra =
     sbind new_row_id (\<lambda>i.
     let row = \<lparr>dc_id = i, dc_tenant = tenantId, dc_number = number, dc_status = ''draft'', dc_notes = notes,
       dc_created_by = createdBy, dc_approved_by = None, dc_approved_at = None, dc_deleted = False, dc_details = extra\<rparr> in
     sbind (sget (\<lambda>w. document_check k (documents w k) row)) (\<lambda>c.
     checked c (sbind (smodify (with_documents k (\<lambda>ds. ds @ [row]))) (\<lambda>_. sret row))))"

text \<open>A bulk insert of lines: each gets an identifier and has to pass the constraints of its table.\<close>

primrec insert_rows ::
  "('w stockroom_scheme \<Rightarrow> 'r list) \<Rightarrow> (('r list \<Rightarrow> 'r list) \<Rightarrow> 'w stockroom_scheme \<Rightarrow> 'w stockroom_scheme) \<Rightarrow> ('r \<Rightarrow> string) \<Rightarrow> ('r \<Rightarrow> db_error option) \<Rightarrow>
   (string \<Rightarrow> 'r) list \<Rightarrow> ('w stockroom_scheme, unit) sql" where
  "insert_rows rows put key check [] = sret ()"
| "insert_rows rows put key check (mk # ms) =
     sbind new_row_id (\<lambda>i.
     sbind (sget rows) (\<lambda>rs.
     sbind (checked (if \<exists>r\<in>set rs. key r = i then Some unique_violation else check (mk i))
       (smodify (put (\<lambda>rs. rs @ [mk i])))) (\<lambda>_.
     insert_rows rows put key check ms)))"

definition repo_find :: "document_kind \<Rightarrow> string \<Rightarrow> string \<Rightarrow> ('w purchasing_scheme, document option) io" where
  "repo_find k i tenantId = orThrow (query (\<lambda>w.
     maybeSingle (filter (\<lambda>d. dc_id d = i \<and> dc_tenant d = tenantId \<and> \<not> dc_deleted d) (documents w k))))"

text \<open>\<^verbatim>\<open>update(...).eq('id').eq('tenant_id').in('status', from).select().single()\<close>; \<open>None\<close> is no condition on the status.\<close>

definition repo_patch ::
  "document_kind \<Rightarrow> string \<Rightarrow> string \<Rightarrow> string list option \<Rightarrow> (document \<Rightarrow> document) \<Rightarrow> ('w purchasing_scheme, document) io" where
  "repo_patch k i tenantId from f = orThrow (exec (\<lambda>w.
     let hit = (\<lambda>d. dc_id d = i \<and> dc_tenant d = tenantId \<and> (case from of None \<Rightarrow> True | Some ss \<Rightarrow> dc_status d \<in> set ss))
     in case single (filter hit (documents w k)) of Inl e \<Rightarrow> (Inl e, w)
        | Inr d \<Rightarrow> (case row_check k (f d) of Some e \<Rightarrow> (Inl e, w)
          | None \<Rightarrow> (Inr (f d), with_documents k (update_where hit f) w))))"

definition softDelete :: "document_kind \<Rightarrow> string \<Rightarrow> string \<Rightarrow> ('w purchasing_scheme, unit) io" where
  "softDelete k i tenantId = orThrow (exec (\<lambda>w.
     (Inr (), with_documents k (update_where (\<lambda>d. dc_id d = i \<and> dc_tenant d = tenantId \<and> dc_status d = ''draft'') (\<lambda>d. d\<lparr>dc_deleted := True\<rparr>)) w)))"

section \<open>What the services share\<close>

definition Noun :: "document_kind \<Rightarrow> string" where
  "Noun k = (case k of PurchaseRequest \<Rightarrow> ''Purchase request'' | PurchaseOrder \<Rightarrow> ''Purchase order'' | Rfq \<Rightarrow> ''RFQ''
     | Agreement \<Rightarrow> ''Agreement'' | Amendment \<Rightarrow> ''Amendment'' | Release \<Rightarrow> ''Release'')"

definition noun :: "document_kind \<Rightarrow> string" where
  "noun k = (case k of PurchaseRequest \<Rightarrow> ''purchase request'' | PurchaseOrder \<Rightarrow> ''purchase order'' | Rfq \<Rightarrow> ''RFQ''
     | Agreement \<Rightarrow> ''agreement'' | Amendment \<Rightarrow> ''amendment'' | Release \<Rightarrow> ''release'')"

definition reference_type :: "document_kind \<Rightarrow> string" where
  "reference_type k = (case k of PurchaseRequest \<Rightarrow> ''purchase_request'' | PurchaseOrder \<Rightarrow> ''purchase_order'' | Rfq \<Rightarrow> ''rfq''
     | Agreement \<Rightarrow> ''agreement'' | Amendment \<Rightarrow> ''agreement_amendment'' | Release \<Rightarrow> ''agreement_release'')"

definition pending_status :: string where
  "pending_status = ''submitted''"

definition document_findById :: "document_kind \<Rightarrow> string \<Rightarrow> string \<Rightarrow> ('w purchasing_scheme, document) io" where
  "document_findById k i tenantId = bindE (repo_find k i tenantId) (\<lambda>r.
     case r of None \<Rightarrow> throw (not_found (Noun k @ '' not found'')) | Some d \<Rightarrow> ret d)"

text \<open>A step of the life cycle that is written to the history.\<close>

definition record_step :: "document_kind \<Rightarrow> string \<Rightarrow> string \<Rightarrow> string \<Rightarrow> string \<Rightarrow> string \<Rightarrow> string option \<Rightarrow> ('w purchasing_scheme, unit) io" where
  "record_step k i tenantId actorId previous new why =
     history_record tenantId (reference_type k) i new (Some actorId) (Some previous) (Some new) why"

definition document_submit :: "document_kind \<Rightarrow> string \<Rightarrow> string \<Rightarrow> string \<Rightarrow> ('w purchasing_scheme, document) io" where
  "document_submit k i tenantId actorId =
     bindE (document_findById k i tenantId) (\<lambda>d.
     bindE (repo_patch k i tenantId (Some [''draft'']) (\<lambda>d. d\<lparr>dc_status := ''submitted''\<rparr>)) (\<lambda>result.
     bindE (record_step k i tenantId actorId (dc_status d) ''submitted'' None) (\<lambda>_.
     ret result)))"

definition document_approve :: "document_kind \<Rightarrow> string \<Rightarrow> string \<Rightarrow> string \<Rightarrow> ('w purchasing_scheme, document) io" where
  "document_approve k i tenantId approvedBy =
     bindE (document_findById k i tenantId) (\<lambda>d.
     bindE (require (canApprove (dc_status d) pending_status)
       (bad_request (''Cannot approve '' @ noun k @ '' with status: '' @ dc_status d))) (\<lambda>_.
     bindE now (\<lambda>t.
     let result = approve t approvedBy in
     bindE (repo_patch k i tenantId (Some [''submitted'']) (\<lambda>d. d\<lparr>dc_status := ''approved'',
       dc_approved_by := Some (resolvedBy result), dc_approved_at := Some (resolvedAt result)\<rparr>)) (\<lambda>updated.
     bindE (record_step k i tenantId approvedBy (dc_status d) ''approved'' None) (\<lambda>_.
     ret updated)))))"

definition rejection_note :: "string option \<Rightarrow> string \<Rightarrow> string" where
  "rejection_note notes why =
     (if truthy notes then the notes @ '' | Rejected: '' @ why else ''Rejected: '' @ why)"

definition document_reject :: "document_kind \<Rightarrow> string \<Rightarrow> string \<Rightarrow> string \<Rightarrow> string \<Rightarrow> ('w purchasing_scheme, document) io" where
  "document_reject k i tenantId rejectedBy why =
     bindE (document_findById k i tenantId) (\<lambda>d.
     bindE (require (canReject (dc_status d) pending_status)
       (bad_request (''Cannot reject '' @ noun k @ '' with status: '' @ dc_status d))) (\<lambda>_.
     bindE now (\<lambda>t.
     bindE (lift (reject t rejectedBy why)) (\<lambda>result.
     bindE (repo_patch k i tenantId None (\<lambda>d'. d'\<lparr>dc_status := ''rejected'', dc_approved_by := Some (resolvedBy result),
       dc_approved_at := Some (resolvedAt result), dc_notes := Some (rejection_note (dc_notes d) (nullish (reason result) []))\<rparr>)) (\<lambda>updated.
     bindE (record_step k i tenantId rejectedBy (dc_status d) ''rejected'' (reason result)) (\<lambda>_.
     ret updated))))))"

text \<open>Amendments and releases refuse to cancel what is approved, before they reach the table.\<close>

definition cancel_unapproved :: "document_kind \<Rightarrow> string \<Rightarrow> string \<Rightarrow> string \<Rightarrow> string \<Rightarrow> ('w purchasing_scheme, document) io" where
  "cancel_unapproved k complaint i tenantId actorId =
     bindE (document_findById k i tenantId) (\<lambda>d.
     bindE (require (dc_status d \<noteq> ''approved'') (bad_request complaint)) (\<lambda>_.
     bindE (repo_patch k i tenantId (Some [''draft'', ''submitted'']) (\<lambda>d. d\<lparr>dc_status := ''cancelled''\<rparr>)) (\<lambda>result.
     bindE (record_step k i tenantId actorId (dc_status d) ''cancelled'' None) (\<lambda>_.
     ret result))))"

definition document_cancel :: "document_kind \<Rightarrow> string list \<Rightarrow> string \<Rightarrow> string \<Rightarrow> string \<Rightarrow> ('w purchasing_scheme, document) io" where
  "document_cancel k from i tenantId actorId =
     bindE (document_findById k i tenantId) (\<lambda>d.
     bindE (repo_patch k i tenantId (Some from) (\<lambda>d. d\<lparr>dc_status := ''cancelled''\<rparr>)) (\<lambda>result.
     bindE (record_step k i tenantId actorId (dc_status d) ''cancelled'' None) (\<lambda>_.
     ret result)))"

text \<open>The step from approved to a status of its own: an RFQ is sent, an agreement is closed.\<close>

definition document_finish :: "document_kind \<Rightarrow> string \<Rightarrow> string \<Rightarrow> string \<Rightarrow> string \<Rightarrow> ('w purchasing_scheme, unit) io \<Rightarrow> ('w purchasing_scheme, document) io" where
  "document_finish k verb new i tenantId after =
     bindE (document_findById k i tenantId) (\<lambda>d.
     bindE (require (dc_status d = ''approved'')
       (bad_request (''Cannot '' @ verb @ '' '' @ noun k @ '' with status: '' @ dc_status d @ '' -- it must be approved first''))) (\<lambda>_.
     bindE (repo_patch k i tenantId (Some [''approved'']) (\<lambda>d. d\<lparr>dc_status := new\<rparr>)) (\<lambda>result.
     bindE after (\<lambda>_.
     ret result))))"

definition document_update :: "document_kind \<Rightarrow> string \<Rightarrow> string \<Rightarrow> string \<Rightarrow> (document \<Rightarrow> document) \<Rightarrow> ('w purchasing_scheme, document) io" where
  "document_update k plural i tenantId dto =
     bindE (document_findById k i tenantId) (\<lambda>d.
     bindE (require (dc_status d = ''draft'') (forbidden (''Only draft '' @ plural @ '' can be edited''))) (\<lambda>_.
     repo_patch k i tenantId (Some [''draft'']) dto))"

definition document_remove :: "document_kind \<Rightarrow> string \<Rightarrow> string \<Rightarrow> string \<Rightarrow> ('w purchasing_scheme, unit) io" where
  "document_remove k plural i tenantId =
     bindE (document_findById k i tenantId) (\<lambda>d.
     bindE (require (dc_status d = ''draft'') (forbidden (''Only draft '' @ plural @ '' can be deleted''))) (\<lambda>_.
     softDelete k i tenantId))"

definition document_history :: "document_kind \<Rightarrow> string \<Rightarrow> string \<Rightarrow> ('w purchasing_scheme, history_row list) io" where
  "document_history k i tenantId =
     bindE (document_findById k i tenantId) (\<lambda>_. findForReference tenantId (reference_type k) i)"

end
