(* ===== verification/Purchasing.thy ===== *)
theory Purchasing
  imports Documents
begin

text \<open>
  The services of \<^verbatim>\<open>modules/purchasing\<close> for purchase requests, purchase orders, requests for quotation,
  agreements, amendments and releases, each operation over the shared definitions of
  \<^verbatim>\<open>Documents\<close>, and the two stored functions of migrations 137 and 138.
\<close>

section \<open>Lines of requests and orders\<close>

definition positive :: "number \<Rightarrow> db_error option" where
  "positive q = (if 10 ^ 10 \<le> \<bar>q\<bar> then Some numeric_overflow else if q \<le> 0 then Some check_violation else None)"

definition not_negative :: "number \<Rightarrow> db_error option" where
  "not_negative q = (if 10 ^ 10 \<le> \<bar>q\<bar> then Some numeric_overflow else if q < 0 then Some check_violation else None)"

definition maybe :: "(number \<Rightarrow> db_error option) \<Rightarrow> number option \<Rightarrow> db_error option" where
  "maybe check q = (case q of None \<Rightarrow> None | Some x \<Rightarrow> check x)"

definition both :: "db_error option \<Rightarrow> db_error option \<Rightarrow> db_error option" where
  "both c d = (case c of Some e \<Rightarrow> Some e | None \<Rightarrow> d)"

record line_dto =
  ld_item :: string
  ld_variant :: "string option"
  ld_quantity :: number
  ld_notes :: "string option"

text \<open>One line of a purchase request or of an RFQ.\<close>

definition request_line_of :: "string \<Rightarrow> string \<Rightarrow> line_dto \<Rightarrow> string \<Rightarrow> request_line" where
  "request_line_of tenantId parent line = (\<lambda>i. \<lparr>ql_id = i, ql_tenant = tenantId, ql_document = parent, ql_item = ld_item line,
     ql_variant = ld_variant line, ql_quantity = numeric4 (ld_quantity line), ql_notes = ld_notes line\<rparr>)"

section \<open>Purchase requests\<close>

record create_request =
  cq_branch :: "string option"
  cq_warehouse :: "string option"
  cq_number :: string
  cq_notes :: "string option"
  cq_items :: "line_dto list"

text \<open>In an update \<open>None\<close> is a field that was not sent, \<open>Some None\<close> an explicit null.\<close>

record update_request =
  uq_branch :: "string option option"
  uq_warehouse :: "string option option"
  uq_notes :: "string option option"

definition pr_findById :: "string \<Rightarrow> string \<Rightarrow> ('w purchasing_scheme, document) io" where
  "pr_findById = document_findById PurchaseRequest"

definition pr_create :: "string \<Rightarrow> create_request \<Rightarrow> string \<Rightarrow> ('w purchasing_scheme, document option) io" where
  "pr_create tenantId dto requestedBy =
     bindE (rpc (document_insert PurchaseRequest tenantId (cq_number dto) (cq_notes dto) requestedBy
       (RequestDetails (cq_branch dto) (cq_warehouse dto)))) (\<lambda>pr.
     bindE (rpc (insert_rows request_lines request_lines_update ql_id (\<lambda>l. positive (ql_quantity l))
       (map (request_line_of tenantId (dc_id pr)) (cq_items dto)))) (\<lambda>_.
     repo_find PurchaseRequest (dc_id pr) tenantId))"

definition pr_createFromSuggestions :: "string \<Rightarrow> string option \<Rightarrow> string option \<Rightarrow> string option \<Rightarrow> line_dto list \<Rightarrow> string \<Rightarrow>
    ('w purchasing_scheme, document option) io" where
  "pr_createFromSuggestions tenantId branch warehouse notes lines requestedBy =
     bindE now (\<lambda>t.
     pr_create tenantId \<lparr>cq_branch = branch, cq_warehouse = warehouse, cq_number = ''PR-SUGG-'' @ nat_str (nat t),
       cq_notes = Some (nullish notes ''Generated from purchase suggestions''), cq_items = lines\<rparr> requestedBy)"

definition request_patch :: "update_request \<Rightarrow> document \<Rightarrow> document" where
  "request_patch dto d = d\<lparr>dc_notes := nullish (uq_notes dto) (dc_notes d), dc_details := (case dc_details d of
     RequestDetails b wh \<Rightarrow> RequestDetails (nullish (uq_branch dto) b) (nullish (uq_warehouse dto) wh)
   | RfqDetails b wh pr \<Rightarrow> RfqDetails (nullish (uq_branch dto) b) (nullish (uq_warehouse dto) wh) pr
   | x \<Rightarrow> x)\<rparr>"

definition pr_update :: "string \<Rightarrow> string \<Rightarrow> update_request \<Rightarrow> ('w purchasing_scheme, document) io" where
  "pr_update i tenantId dto = document_update PurchaseRequest ''purchase requests'' i tenantId (request_patch dto)"

definition pr_submit :: "string \<Rightarrow> string \<Rightarrow> string \<Rightarrow> ('w purchasing_scheme, document) io" where
  "pr_submit = document_submit PurchaseRequest"

definition pr_approve :: "string \<Rightarrow> string \<Rightarrow> string \<Rightarrow> ('w purchasing_scheme, document) io" where
  "pr_approve = document_approve PurchaseRequest"

definition pr_reject :: "string \<Rightarrow> string \<Rightarrow> string \<Rightarrow> string \<Rightarrow> ('w purchasing_scheme, document) io" where
  "pr_reject = document_reject PurchaseRequest"

definition pr_cancel :: "string \<Rightarrow> string \<Rightarrow> string \<Rightarrow> ('w purchasing_scheme, document) io" where
  "pr_cancel = document_cancel PurchaseRequest [''draft'', ''submitted'', ''approved'']"

definition pr_remove :: "string \<Rightarrow> string \<Rightarrow> ('w purchasing_scheme, unit) io" where
  "pr_remove = document_remove PurchaseRequest ''purchase requests''"

definition pr_history :: "string \<Rightarrow> string \<Rightarrow> ('w purchasing_scheme, history_row list) io" where
  "pr_history = document_history PurchaseRequest"

section \<open>Purchase orders\<close>

record order_line_dto =
  od_item :: string
  od_variant :: "string option"
  od_quantity :: number
  od_cost :: number

record create_order =
  co_supplier :: string
  co_warehouse :: string
  co_number :: string
  co_date :: "int option"
  co_expected :: "int option"
  co_notes :: "string option"
  co_items :: "order_line_dto list"

definition po_findById :: "string \<Rightarrow> string \<Rightarrow> ('w purchasing_scheme, document) io" where
  "po_findById = document_findById PurchaseOrder"

definition order_line_check :: "order_line \<Rightarrow> db_error option" where
  "order_line_check l = both (positive (ol_ordered l)) (not_negative (ol_cost l))"

text \<open>\<open>order_date\<close> defaults to the day of the call.\<close>

definition po_create :: "string \<Rightarrow> create_order \<Rightarrow> string \<Rightarrow> ('w purchasing_scheme, document option) io" where
  "po_create tenantId dto createdBy =
     bindE now (\<lambda>t.
     bindE (rpc (document_insert PurchaseOrder tenantId (co_number dto) (co_notes dto) createdBy
       (OrderDetails (co_supplier dto) (co_warehouse dto) (nullish (co_date dto) (day_of t)) (co_expected dto)))) (\<lambda>po.
     bindE (rpc (insert_rows order_lines order_lines_update ol_id order_line_check
       (map (\<lambda>line i. \<lparr>ol_id = i, ol_tenant = tenantId, ol_order = dc_id po, ol_item = od_item line, ol_variant = od_variant line,
         ol_ordered = numeric4 (od_quantity line), ol_received = 0, ol_cost = numeric4 (od_cost line)\<rparr>) (co_items dto)))) (\<lambda>_.
     repo_find PurchaseOrder (dc_id po) tenantId)))"

definition po_update :: "string \<Rightarrow> string \<Rightarrow> int option option \<Rightarrow> string option option \<Rightarrow> ('w purchasing_scheme, document) io" where
  "po_update i tenantId due notes = document_update PurchaseOrder ''purchase orders'' i tenantId (\<lambda>d.
     d\<lparr>dc_notes := nullish notes (dc_notes d), dc_details := (case dc_details d of
       OrderDetails s wh on ex \<Rightarrow> OrderDetails s wh on (nullish due ex) | x \<Rightarrow> x)\<rparr>)"

text \<open>Submitting and cancelling an order is not written to the history, unlike for all other documents.\<close>

definition po_submit :: "string \<Rightarrow> string \<Rightarrow> ('w purchasing_scheme, document) io" where
  "po_submit i tenantId =
     bindE (po_findById i tenantId) (\<lambda>_.
     repo_patch PurchaseOrder i tenantId (Some [''draft'']) (\<lambda>d. d\<lparr>dc_status := ''submitted''\<rparr>))"

definition po_approve :: "string \<Rightarrow> string \<Rightarrow> string \<Rightarrow> ('w purchasing_scheme, document) io" where
  "po_approve = document_approve PurchaseOrder"

definition po_reject :: "string \<Rightarrow> string \<Rightarrow> string \<Rightarrow> string \<Rightarrow> ('w purchasing_scheme, document) io" where
  "po_reject = document_reject PurchaseOrder"

definition po_cancel :: "string \<Rightarrow> string \<Rightarrow> ('w purchasing_scheme, document) io" where
  "po_cancel i tenantId =
     bindE (po_findById i tenantId) (\<lambda>_.
     repo_patch PurchaseOrder i tenantId (Some [''draft'', ''submitted'', ''approved'']) (\<lambda>d. d\<lparr>dc_status := ''cancelled''\<rparr>))"

definition po_remove :: "string \<Rightarrow> string \<Rightarrow> ('w purchasing_scheme, unit) io" where
  "po_remove = document_remove PurchaseOrder ''purchase orders''"

definition po_history :: "string \<Rightarrow> string \<Rightarrow> ('w purchasing_scheme, history_row list) io" where
  "po_history = document_history PurchaseOrder"

section \<open>Requests for quotation\<close>

record create_rfq =
  cf_branch :: "string option"
  cf_warehouse :: "string option"
  cf_source :: "string option"
  cf_number :: string
  cf_notes :: "string option"
  cf_items :: "line_dto list"
  cf_suppliers :: "string list"

definition rfq_findById :: "string \<Rightarrow> string \<Rightarrow> ('w purchasing_scheme, document) io" where
  "rfq_findById = document_findById Rfq"

definition insert_suppliers :: "string \<Rightarrow> string \<Rightarrow> string list \<Rightarrow> ('w purchasing_scheme, unit) io" where
  "insert_suppliers tenantId rfq supplierIds = orThrow (exec (\<lambda>w.
     if distinct supplierIds \<and> \<not> list_ex (\<lambda>r. rq_rfq r = rfq \<and> rq_supplier r \<in> set supplierIds) (rfq_suppliers w)
     then (Inr (), w\<lparr>rfq_suppliers := rfq_suppliers w @
       map (\<lambda>s. \<lparr>rq_tenant = tenantId, rq_rfq = rfq, rq_supplier = s, rq_sent = None\<rparr>) supplierIds\<rparr>)
     else (Inl unique_violation, w)))"

definition rfq_create :: "string \<Rightarrow> create_rfq \<Rightarrow> string \<Rightarrow> ('w purchasing_scheme, document option) io" where
  "rfq_create tenantId dto createdBy =
     bindE (rpc (document_insert Rfq tenantId (cf_number dto) (cf_notes dto) createdBy
       (RfqDetails (cf_branch dto) (cf_warehouse dto) (cf_source dto)))) (\<lambda>rfq.
     bindE (rpc (insert_rows rfq_lines rfq_lines_update ql_id (\<lambda>l. positive (ql_quantity l))
       (map (request_line_of tenantId (dc_id rfq)) (cf_items dto)))) (\<lambda>_.
     bindE (insert_suppliers tenantId (dc_id rfq) (cf_suppliers dto)) (\<lambda>_.
     repo_find Rfq (dc_id rfq) tenantId)))"

definition rfq_update :: "string \<Rightarrow> string \<Rightarrow> update_request \<Rightarrow> ('w purchasing_scheme, document) io" where
  "rfq_update i tenantId dto = document_update Rfq ''RFQs'' i tenantId (request_patch dto)"

definition rfq_submit :: "string \<Rightarrow> string \<Rightarrow> string \<Rightarrow> ('w purchasing_scheme, document) io" where
  "rfq_submit = document_submit Rfq"

definition rfq_approve :: "string \<Rightarrow> string \<Rightarrow> string \<Rightarrow> ('w purchasing_scheme, document) io" where
  "rfq_approve = document_approve Rfq"

definition rfq_reject :: "string \<Rightarrow> string \<Rightarrow> string \<Rightarrow> string \<Rightarrow> ('w purchasing_scheme, document) io" where
  "rfq_reject = document_reject Rfq"

text \<open>Sending marks the suppliers too; the error of that second update is dropped.\<close>

definition mark_suppliers :: "string \<Rightarrow> ('w purchasing_scheme, unit) io" where
  "mark_suppliers i = bindE now (\<lambda>t.
     bindE (exec (\<lambda>w. (Inr (), w\<lparr>rfq_suppliers := update_where (\<lambda>r. rq_rfq r = i \<and> rq_sent r = None)
       (\<lambda>r. r\<lparr>rq_sent := Some t\<rparr>) (rfq_suppliers w)\<rparr>))) (\<lambda>_. ret ()))"

definition rfq_send :: "string \<Rightarrow> string \<Rightarrow> string \<Rightarrow> ('w purchasing_scheme, document) io" where
  "rfq_send i tenantId actorId = document_finish Rfq ''send'' ''sent'' i tenantId
     (bindE (mark_suppliers i) (\<lambda>_. record_step Rfq i tenantId actorId ''approved'' ''sent'' None))"

definition rfq_cancel :: "string \<Rightarrow> string \<Rightarrow> string \<Rightarrow> ('w purchasing_scheme, document) io" where
  "rfq_cancel = document_cancel Rfq [''draft'', ''submitted'', ''approved'', ''sent'']"

definition rfq_remove :: "string \<Rightarrow> string \<Rightarrow> ('w purchasing_scheme, unit) io" where
  "rfq_remove = document_remove Rfq ''RFQs''"

definition rfq_history :: "string \<Rightarrow> string \<Rightarrow> ('w purchasing_scheme, history_row list) io" where
  "rfq_history = document_history Rfq"

end
