(* ===== verification/Agreements.thy ===== *)
theory Agreements
  imports Purchasing
begin

text \<open>
  Agreements with suppliers (\<^verbatim>\<open>modules/purchasing\<close>): the agreement itself, amendments, whose approval
  changes the committed quantities and values in the stored function of migration 137, and
  releases, whose lines are priced on the server and written by the function of migration 138.
\<close>

section \<open>Agreements\<close>

record agreement_line_dto =
  ga_item :: string
  ga_variant :: "string option"
  ga_quantity :: "number option"
  ga_value :: "number option"
  ga_notes :: "string option"

record create_agreement =
  cg_supplier :: string
  cg_number :: string
  cg_currency :: "string option"
  cg_effective :: "int option"
  cg_expiration :: "int option"
  cg_auto :: "bool option"
  cg_policy :: "string option"
  cg_notes :: "string option"
  cg_items :: "agreement_line_dto list"

record update_agreement =
  ug_currency :: "string option"
  ug_effective :: "int option option"
  ug_expiration :: "int option option"
  ug_auto :: "bool option"
  ug_policy :: "string option"
  ug_notes :: "string option option"

definition ag_findById :: "string \<Rightarrow> string \<Rightarrow> ('w purchasing_scheme, document) io" where
  "ag_findById = document_findById Agreement"

definition commitment_check :: "agreement_line \<Rightarrow> db_error option" where
  "commitment_check l = both (maybe positive (al_quantity l)) (maybe positive (al_value l))"

definition ag_create :: "string \<Rightarrow> create_agreement \<Rightarrow> string \<Rightarrow> ('w purchasing_scheme, document option) io" where
  "ag_create tenantId dto createdBy =
     bindE (rpc (document_insert Agreement tenantId (cg_number dto) (cg_notes dto) createdBy
       (AgreementDetails (cg_supplier dto) (nullish (cg_currency dto) ''SAR'') (cg_effective dto) (cg_expiration dto)
         (nullish (cg_auto dto) True) (nullish (cg_policy dto) ''block'')))) (\<lambda>agreement.
     bindE (rpc (insert_rows agreement_lines agreement_lines_update al_id commitment_check
       (map (\<lambda>line i. \<lparr>al_id = i, al_tenant = tenantId, al_agreement = dc_id agreement, al_item = ga_item line,
         al_variant = ga_variant line, al_quantity = map_option numeric4 (ga_quantity line),
         al_value = map_option numeric4 (ga_value line), al_notes = ga_notes line, al_added = None, al_ended = None,
         al_ended_at = None\<rparr>) (cg_items dto)))) (\<lambda>_.
     repo_find Agreement (dc_id agreement) tenantId))"

definition ag_update :: "string \<Rightarrow> string \<Rightarrow> update_agreement \<Rightarrow> ('w purchasing_scheme, document) io" where
  "ag_update i tenantId dto = document_update Agreement ''agreements'' i tenantId (\<lambda>d.
     d\<lparr>dc_notes := nullish (ug_notes dto) (dc_notes d), dc_details := (case dc_details d of
       AgreementDetails s c f u a p \<Rightarrow> AgreementDetails s (nullish (ug_currency dto) c) (nullish (ug_effective dto) f)
         (nullish (ug_expiration dto) u) (nullish (ug_auto dto) a) (nullish (ug_policy dto) p) | x \<Rightarrow> x)\<rparr>)"

definition ag_submit :: "string \<Rightarrow> string \<Rightarrow> string \<Rightarrow> ('w purchasing_scheme, document) io" where
  "ag_submit = document_submit Agreement"

definition ag_approve :: "string \<Rightarrow> string \<Rightarrow> string \<Rightarrow> ('w purchasing_scheme, document) io" where
  "ag_approve = document_approve Agreement"

definition ag_reject :: "string \<Rightarrow> string \<Rightarrow> string \<Rightarrow> string \<Rightarrow> ('w purchasing_scheme, document) io" where
  "ag_reject = document_reject Agreement"

definition ag_close :: "string \<Rightarrow> string \<Rightarrow> string \<Rightarrow> ('w purchasing_scheme, document) io" where
  "ag_close i tenantId actorId = document_finish Agreement ''close'' ''closed'' i tenantId
     (record_step Agreement i tenantId actorId ''approved'' ''closed'' None)"

definition ag_cancel :: "string \<Rightarrow> string \<Rightarrow> string \<Rightarrow> ('w purchasing_scheme, document) io" where
  "ag_cancel = document_cancel Agreement [''draft'', ''submitted'', ''approved'']"

definition ag_remove :: "string \<Rightarrow> string \<Rightarrow> ('w purchasing_scheme, unit) io" where
  "ag_remove = document_remove Agreement ''agreements''"

definition ag_history :: "string \<Rightarrow> string \<Rightarrow> ('w purchasing_scheme, history_row list) io" where
  "ag_history = document_history Agreement"

section \<open>Amendments\<close>

record amendment_line_dto =
  ma_action :: string
  ma_target :: "string option"
  ma_item :: "string option"
  ma_variant :: "string option"
  ma_quantity :: "number option"
  ma_value :: "number option"
  ma_price :: "number option"
  ma_discount :: "number option"
  ma_notes :: "string option"

record create_amendment =
  cm_agreement :: string
  cm_number :: string
  cm_type :: string
  cm_expiration :: "int option"
  cm_notes :: "string option"
  cm_items :: "amendment_line_dto list"

definition COMMERCIAL_AMENDMENT_TYPES :: "string list" where
  "COMMERCIAL_AMENDMENT_TYPES = [''quantity_change'', ''value_change'', ''price_change'', ''extension'', ''general'']"

definition am_findById :: "string \<Rightarrow> string \<Rightarrow> ('w purchasing_scheme, document) io" where
  "am_findById = document_findById Amendment"

definition getAgreementStatus :: "string \<Rightarrow> string \<Rightarrow> ('w purchasing_scheme, string option) io" where
  "getAgreementStatus agreementId tenantId = bindE (repo_find Agreement agreementId tenantId) (\<lambda>d. ret (map_option dc_status d))"

definition getItemHasVariants :: "string \<Rightarrow> string \<Rightarrow> ('w purchasing_scheme, bool option) io" where
  "getItemHasVariants itemId tenantId = orThrow (query (\<lambda>w. Inr (variants_of w itemId tenantId)))"

definition mapAddLine :: "amendment_line_dto \<Rightarrow> amendment_line" where
  "mapAddLine line = \<lparr>ml_id = [], ml_tenant = [], ml_amendment = [], ml_action = ''add'', ml_target = None, ml_item = ma_item line,
     ml_variant = ma_variant line, ml_quantity = ma_quantity line, ml_value = ma_value line, ml_price = None, ml_discount = None,
     ml_notes = ma_notes line\<rparr>"

definition mapModifyOrDiscontinueLine :: "amendment_line_dto \<Rightarrow> amendment_line" where
  "mapModifyOrDiscontinueLine line = (let m = (ma_action line = ''modify'') in
     \<lparr>ml_id = [], ml_tenant = [], ml_amendment = [], ml_action = ma_action line, ml_target = ma_target line, ml_item = None,
      ml_variant = None, ml_quantity = (if m then ma_quantity line else None), ml_value = (if m then ma_value line else None),
      ml_price = (if m then ma_price line else None), ml_discount = (if m then ma_discount line else None),
      ml_notes = ma_notes line\<rparr>)"

text \<open>The constraints of migrations 131 and 136.\<close>

definition in_range :: "number \<Rightarrow> db_error option" where
  "in_range q = (if 10 ^ 10 \<le> \<bar>q\<bar> then Some numeric_overflow else None)"

definition percentage :: "number \<Rightarrow> db_error option" where
  "percentage q = (if 1000 \<le> \<bar>q\<bar> then Some numeric_overflow else if q < 0 \<or> 100 \<le> q then Some check_violation else None)"

definition amendment_line_check :: "amendment_line \<Rightarrow> db_error option" where
  "amendment_line_check l =
     both (maybe in_range (ml_quantity l)) (both (maybe in_range (ml_value l)) (both (maybe not_negative (ml_price l))
     (both (maybe percentage (ml_discount l))
       (if (ml_action l = ''add'' \<and> ml_target l = None \<and> ml_item l \<noteq> None) \<or>
           (ml_action l \<in> {''modify'', ''discontinue''} \<and> ml_target l \<noteq> None \<and> ml_item l = None \<and> ml_variant l = None)
        then None else Some check_violation))))"

definition amendment_row :: "string \<Rightarrow> string \<Rightarrow> amendment_line \<Rightarrow> string \<Rightarrow> amendment_line" where
  "amendment_row tenantId amendment l = (\<lambda>i. l\<lparr>ml_id := i, ml_tenant := tenantId, ml_amendment := amendment,
     ml_quantity := map_option numeric4 (ml_quantity l), ml_value := map_option numeric4 (ml_value l),
     ml_price := map_option numeric4 (ml_price l), ml_discount := map_option (pg_round 2) (ml_discount l)\<rparr>)"

definition amendment_item :: "string \<Rightarrow> amendment_line_dto \<Rightarrow> ('w purchasing_scheme, amendment_line) io" where
  "amendment_item tenantId line =
     (if ma_action line = ''add'' then
        bindE (getItemHasVariants (nullish (ma_item line) []) tenantId) (\<lambda>hasVariants.
        bindE (require (\<not> (hasVariants = Some True \<and> \<not> truthy (ma_variant line)))
          (bad_request (''Item '' @ nullish (ma_item line) ''undefined'' @ '' requires a variant to be specified''))) (\<lambda>_.
        ret (mapAddLine line)))
      else ret (mapModifyOrDiscontinueLine line))"

definition quoted :: "string \<Rightarrow> string" where
  "quoted s = [CHR 0x27] @ s @ [CHR 0x27]"

definition am_create :: "string \<Rightarrow> create_amendment \<Rightarrow> string \<Rightarrow> ('w purchasing_scheme, document option) io" where
  "am_create tenantId dto createdBy =
     bindE (getAgreementStatus (cm_agreement dto) tenantId) (\<lambda>agreementStatus.
     bindE (require (truthy agreementStatus) (bad_request ''Agreement not found'')) (\<lambda>_.
     bindE (require (\<not> (cm_type dto \<in> set COMMERCIAL_AMENDMENT_TYPES \<and> agreementStatus \<noteq> Some ''approved''))
       (bad_request (''Cannot create a '' @ quoted (cm_type dto) @ '' amendment: the agreement must be approved (current status: '' @
         the agreementStatus @ ''). Only '' @ quoted ''administrative_correction'' @ '' is allowed regardless of agreement status.''))) (\<lambda>_.
     bindE (foldE (cm_items dto) [] (\<lambda>items line. bindE (amendment_item tenantId line) (\<lambda>l. ret (items @ [l])))) (\<lambda>items.
     bindE (rpc (document_insert Amendment tenantId (cm_number dto) (cm_notes dto) createdBy
       (AmendmentDetails (cm_agreement dto) (cm_type dto) (cm_expiration dto)))) (\<lambda>amendment.
     bindE (rpc (insert_rows amendment_lines amendment_lines_update ml_id amendment_line_check
       (map (amendment_row tenantId (dc_id amendment)) items))) (\<lambda>_.
     repo_find Amendment (dc_id amendment) tenantId))))))"

definition am_update :: "string \<Rightarrow> string \<Rightarrow> int option option \<Rightarrow> string option option \<Rightarrow> ('w purchasing_scheme, document) io" where
  "am_update i tenantId expiration notes = document_update Amendment ''amendments'' i tenantId (\<lambda>d.
     d\<lparr>dc_notes := nullish notes (dc_notes d), dc_details := (case dc_details d of
       AmendmentDetails a k u \<Rightarrow> AmendmentDetails a k (nullish expiration u) | x \<Rightarrow> x)\<rparr>)"

definition am_submit :: "string \<Rightarrow> string \<Rightarrow> string \<Rightarrow> ('w purchasing_scheme, document) io" where
  "am_submit = document_submit Amendment"


text \<open>The stored function of migration 137: one line of the amendment on the lines of its agreement.\<close>

definition agreement_of :: "document \<Rightarrow> string" where
  "agreement_of d = (case dc_details d of AmendmentDetails a k u \<Rightarrow> a | ReleaseDetails a e \<Rightarrow> a | _ \<Rightarrow> [])"

definition amended_item :: "string \<Rightarrow> document \<Rightarrow> amendment_line \<Rightarrow> agreement_line \<Rightarrow> bool" where
  "amended_item tenant d l x \<longleftrightarrow> Some (al_id x) = ml_target l \<and> al_tenant x = tenant \<and> al_agreement x = agreement_of d"

definition apply_add :: "string \<Rightarrow> document \<Rightarrow> amendment_line \<Rightarrow> ('w purchasing_scheme, unit) sql" where
  "apply_add tenant d l = (case ml_item l of None \<Rightarrow> sfail not_null_violation | Some item \<Rightarrow>
     insert_rows agreement_lines agreement_lines_update al_id commitment_check
       [\<lambda>i. \<lparr>al_id = i, al_tenant = tenant, al_agreement = agreement_of d, al_item = item, al_variant = ml_variant l,
         al_quantity = ml_quantity l, al_value = ml_value l, al_notes = ml_notes l, al_added = Some (dc_id d), al_ended = None,
         al_ended_at = None\<rparr>])"

definition plus_delta :: "number option \<Rightarrow> number option \<Rightarrow> number option" where
  "plus_delta old delta = (case (old, delta) of (Some x, Some y) \<Rightarrow> Some (numeric4 (x + y)) | _ \<Rightarrow> old)"

definition apply_modify :: "string \<Rightarrow> document \<Rightarrow> amendment_line \<Rightarrow> ('w purchasing_scheme, unit) sql" where
  "apply_modify tenant d l =
     (let target = nullish (ml_target l) [] in
      sbind (find_or_raise agreement_lines (amended_item tenant d l)
        (''agreement_item '' @ target @ '' not found for modify (or does not belong to agreement '' @ agreement_of d @ '')'')) (\<lambda>x.
      sbind (srequire (ml_quantity l = None \<or> al_quantity x \<noteq> None)
        (raise (''Cannot apply a quantity delta to agreement_item '' @ target @
          '' -- it has no existing committed_quantity (open-ended item)''))) (\<lambda>_.
      sbind (srequire (ml_value l = None \<or> al_value x \<noteq> None)
        (raise (''Cannot apply a value delta to agreement_item '' @ target @
          '' -- it has no existing committed_value (open-ended item)''))) (\<lambda>_.
      let x' = x\<lparr>al_quantity := plus_delta (al_quantity x) (ml_quantity l), al_value := plus_delta (al_value x) (ml_value l)\<rparr> in
      checked (commitment_check x')
        (smodify (agreement_lines_update (update_where (amended_item tenant d l) (\<lambda>_. x'))))))))"

definition apply_discontinue :: "string \<Rightarrow> document \<Rightarrow> int \<Rightarrow> amendment_line \<Rightarrow> ('w purchasing_scheme, unit) sql" where
  "apply_discontinue tenant d t l =
     sbind (find_or_raise agreement_lines (amended_item tenant d l)
       (''agreement_item '' @ nullish (ml_target l) [] @ '' not found for discontinue (or does not belong to agreement '' @
         agreement_of d @ '')'')) (\<lambda>_.
     smodify (agreement_lines_update (update_where (amended_item tenant d l)
       (\<lambda>x. x\<lparr>al_ended := Some (dc_id d), al_ended_at := Some t\<rparr>))))"

definition apply_line :: "string \<Rightarrow> document \<Rightarrow> int \<Rightarrow> amendment_line \<Rightarrow> ('w purchasing_scheme, unit) sql" where
  "apply_line tenant d t l =
     (if ml_action l = ''add'' then apply_add tenant d l
      else if ml_action l = ''modify'' then apply_modify tenant d l
      else if ml_action l = ''discontinue'' then apply_discontinue tenant d t l
      else sret ())"

definition fn_approve_agreement_amendment :: "string \<Rightarrow> string \<Rightarrow> string \<Rightarrow> int \<Rightarrow> ('w purchasing_scheme, document) sql" where
  "fn_approve_agreement_amendment tenant i approvedBy t =
     sbind (find_or_raise (\<lambda>w. documents w Amendment) (\<lambda>d. dc_id d = i \<and> dc_tenant d = tenant)
       (''Amendment '' @ i @ '' not found'')) (\<lambda>d.
     sbind (srequire (dc_status d = ''submitted'') (raise (''Cannot approve amendment with status: '' @ dc_status d))) (\<lambda>_.
     sbind (sget (\<lambda>w. filter (\<lambda>l. ml_amendment l = i) (amendment_lines w))) (\<lambda>ls.
     sbind (sfor ls (apply_line tenant d t)) (\<lambda>_.
     let d' = d\<lparr>dc_status := ''approved'', dc_approved_by := Some approvedBy, dc_approved_at := Some t\<rparr> in
     sbind (smodify (with_documents Amendment (update_where (\<lambda>r. dc_id r = i) (\<lambda>_. d')))) (\<lambda>_.
     sbind (smodify (\<lambda>w. w\<lparr>approval_history := approval_history w @
       [\<lparr>h_tenant = tenant, h_type = ''agreement_amendment'', h_ref = i, h_action = ''approved'', h_actor = Some approvedBy,
         h_previous = Some ''submitted'', h_new = Some ''approved'', h_reason = None\<rparr>]\<rparr>)) (\<lambda>_.
     sret d'))))))"

definition am_approve :: "string \<Rightarrow> string \<Rightarrow> string \<Rightarrow> ('w purchasing_scheme, document) io" where
  "am_approve i tenantId approvedBy =
     bindE (am_findById i tenantId) (\<lambda>d.
     bindE (require (canApprove (dc_status d) pending_status)
       (bad_request (''Cannot approve amendment with status: '' @ dc_status d))) (\<lambda>_.
     bindE now (\<lambda>t.
     let result = approve t approvedBy in
     rpc (fn_approve_agreement_amendment tenantId i (resolvedBy result) (resolvedAt result)))))"

definition am_reject :: "string \<Rightarrow> string \<Rightarrow> string \<Rightarrow> string \<Rightarrow> ('w purchasing_scheme, document) io" where
  "am_reject = document_reject Amendment"

definition am_cancel :: "string \<Rightarrow> string \<Rightarrow> string \<Rightarrow> ('w purchasing_scheme, document) io" where
  "am_cancel = cancel_unapproved Amendment
     ''Cannot cancel an approved amendment -- it is a terminal state. Correct it with a new administrative_correction amendment instead.''"

definition am_remove :: "string \<Rightarrow> string \<Rightarrow> ('w purchasing_scheme, unit) io" where
  "am_remove = document_remove Amendment ''amendments''"

definition am_history :: "string \<Rightarrow> string \<Rightarrow> ('w purchasing_scheme, history_row list) io" where
  "am_history = document_history Amendment"

end
