(* ===== verification/Releases.thy ===== *)
theory Releases
  imports Agreements Coupons
begin

text \<open>
  Releases of agreements (\<^verbatim>\<open>releases.service.ts\<close>, migration 138): a line is checked against what is
  still committed, priced from the agreement's pricing on the server, and written with its release
  by one stored function.  The requests on all documents of purchasing stand at the end.
\<close>

section \<open>Reading the agreement\<close>

record release_line_dto =
  rl_target :: string
  rl_quantity :: number
  rl_notes :: "string option"

record create_release =
  crl_agreement :: string
  crl_number :: string
  crl_notes :: "string option"
  crl_items :: "release_line_dto list"

definition rl_findById :: "string \<Rightarrow> string \<Rightarrow> ('w purchasing_scheme, document) io" where
  "rl_findById = document_findById Release"

definition getAgreementItemCommitted :: "string \<Rightarrow> string \<Rightarrow> ('w purchasing_scheme, agreement_line option) io" where
  "getAgreementItemCommitted i tenantId =
     orThrow (query (\<lambda>w. maybeSingle (filter (\<lambda>l. al_id l = i \<and> al_tenant l = tenantId) (agreement_lines w))))"

text \<open>The inner join on \<^verbatim>\<open>agreement_releases\<close> with status approved.\<close>

definition approved_lines :: "'w purchasing_scheme \<Rightarrow> string \<Rightarrow> string \<Rightarrow> release_line list" where
  "approved_lines w i tenantId = filter (\<lambda>x. xl_target x = i \<and> xl_tenant x = tenantId \<and>
     list_ex (\<lambda>d. dc_id d = xl_release x \<and> dc_status d = ''approved'') (documents w Release)) (release_lines w)"

definition getApprovedReleasedQuantity :: "string \<Rightarrow> string \<Rightarrow> ('w purchasing_scheme, number) io" where
  "getApprovedReleasedQuantity i tenantId =
     bindE (orThrow (query (\<lambda>w. Inr (approved_lines w i tenantId)))) (\<lambda>rows.
     ret (foldl (\<lambda>acc x. fadd acc (fl (xl_quantity x))) 0 rows))"

definition getEffectivePricing :: "string \<Rightarrow> string \<Rightarrow> ('w purchasing_scheme, (pricing_row \<times> price_tier list) option) io" where
  "getEffectivePricing i tenantId =
     bindE (orThrow (query (\<lambda>w. maybeSingle (filter (\<lambda>p. gp_target p = i \<and> gp_tenant p = tenantId) (agreement_pricing w))))) (\<lambda>r.
     case r of None \<Rightarrow> ret None
     | Some pricing \<Rightarrow>
         if gp_type pricing \<noteq> ''tiered'' then ret (Some (pricing, []))
         else bindE (orThrow (query (\<lambda>w. Inr (sort_key gt_order (filter (\<lambda>t. gt_pricing t = gp_id pricing \<and> gt_tenant t = tenantId)
           (pricing_tiers w)))))) (\<lambda>tiers. ret (Some (pricing, tiers))))"

text \<open>The approved amendment with the latest approval; \<^verbatim>\<open>order\<close> and \<^verbatim>\<open>limit(1)\<close>.  Nulls come first in a descending order.\<close>

definition getLatestApprovedAmendment :: "string \<Rightarrow> string \<Rightarrow> ('w purchasing_scheme, string option) io" where
  "getLatestApprovedAmendment agreementId tenantId =
     orThrow (query (\<lambda>w. Inr (case sort_key (\<lambda>d. if dc_approved_at d = None then 0 else 1 :: nat) (sort_key (\<lambda>d. - nullish (dc_approved_at d) 0)
       (filter (\<lambda>d. agreement_of d = agreementId \<and> dc_tenant d = tenantId \<and> dc_status d = ''approved'') (documents w Amendment))) of
         [] \<Rightarrow> None | d # _ \<Rightarrow> Some (dc_id d))))"

section \<open>Checks and prices\<close>

definition policy_of :: "document \<Rightarrow> string" where
  "policy_of d = (case dc_details d of AgreementDetails s c f u a p \<Rightarrow> p | _ \<Rightarrow> [])"

definition currency_of :: "document \<Rightarrow> string" where
  "currency_of d = (case dc_details d of AgreementDetails s c f u a p \<Rightarrow> c | _ \<Rightarrow> [])"

definition validateOverage :: "release_line_dto \<Rightarrow> document \<Rightarrow> string \<Rightarrow> ('w purchasing_scheme, unit) io" where
  "validateOverage line agreement tenantId =
     bindE (getAgreementItemCommitted (rl_target line) tenantId) (\<lambda>item.
     case item of None \<Rightarrow> throw (bad_request (''agreement_item '' @ rl_target line @ '' does not belong to agreement '' @ dc_id agreement))
     | Some x \<Rightarrow>
       bindE (require (al_agreement x = dc_id agreement)
         (bad_request (''agreement_item '' @ rl_target line @ '' does not belong to agreement '' @ dc_id agreement))) (\<lambda>_.
       case al_quantity x of None \<Rightarrow> ret ()
       | Some committed \<Rightarrow>
           if policy_of agreement \<noteq> ''block'' then ret ()
           else bindE (getApprovedReleasedQuantity (rl_target line) tenantId) (\<lambda>alreadyReleased.
             let remaining = fsub (fl committed) alreadyReleased in
             if rl_quantity line > remaining then throw
               (bad_request (''Release quantity '' @ number_str (rl_quantity line) @ '' exceeds remaining committed quantity '' @
                 number_str remaining @ '' for agreement_item '' @ rl_target line @ '' (overage_policy=block)''))
             else ret ())))"

definition tier_matches :: "number \<Rightarrow> price_tier \<Rightarrow> bool" where
  "tier_matches q t \<longleftrightarrow> q \<ge> fl (gt_min t) \<and> (case gt_max t of None \<Rightarrow> True | Some m \<Rightarrow> q \<le> fl m)"

text \<open>The price that is in force: unit price, discount and the tier it comes from.\<close>

definition effective_price :: "release_line_dto \<Rightarrow> pricing_row \<times> price_tier list \<Rightarrow> exn + number \<times> number \<times> string option" where
  "effective_price line = (\<lambda>(pricing, tiers).
     if gp_type pricing = ''tiered'' then
       (case find (tier_matches (rl_quantity line)) tiers of
          None \<Rightarrow> Inl (bad_request (''No pricing tier matches quantity '' @ number_str (rl_quantity line) @ '' for agreement_item '' @ rl_target line))
        | Some t \<Rightarrow> Inr (fl (gt_price t), fl (nullish (gt_discount t) 0), Some (gt_id t)))
     else if gp_type pricing = ''rule_based'' then Inl (bad_request ''rule_based pricing is not yet supported for release creation'')
     else Inr (fl (nullish (gp_price pricing) 0), fl (nullish (gp_discount pricing) 0), None))"

definition released_amount :: "number \<Rightarrow> number \<Rightarrow> number \<Rightarrow> number option \<Rightarrow> number" where
  "released_amount q unitPrice discountPercent taxRate =
     (let subtotal = fmul q unitPrice;
          discountAmount = applyPercentageDiscount subtotal discountPercent;
          netAfterDiscount = fsub subtotal discountAmount;
          taxAmount = (case taxRate of None \<Rightarrow> 0 | Some r \<Rightarrow> applyPercentageDiscount netAfterDiscount r)
      in round2 (fadd netAfterDiscount taxAmount))"

fun snapshot_line :: "release_line_dto \<Rightarrow> string \<Rightarrow> number option \<Rightarrow> number \<times> number \<times> string option \<Rightarrow> release_line" where
  "snapshot_line line agreementCurrency taxRate (unitPrice, discountPercent, tier) =
     \<lparr>xl_id = [], xl_tenant = [], xl_release = [], xl_target = rl_target line, xl_tier = tier,
       xl_quantity = rl_quantity line, xl_price = unitPrice, xl_discount = discountPercent, xl_currency = agreementCurrency,
       xl_tax = taxRate, xl_amount = released_amount (rl_quantity line) unitPrice discountPercent taxRate,
       xl_notes = rl_notes line\<rparr>"

definition buildSnapshotLine :: "release_line_dto \<Rightarrow> string \<Rightarrow> string \<Rightarrow> ('w purchasing_scheme, release_line) io" where
  "buildSnapshotLine line tenantId agreementCurrency =
     bindE (getEffectivePricing (rl_target line) tenantId) (\<lambda>effective.
     case effective of None \<Rightarrow> throw (bad_request (''No pricing configured for agreement_item '' @ rl_target line))
     | Some e \<Rightarrow>
       bindE (lift (effective_price line e)) (\<lambda>price.
       ret (snapshot_line line agreementCurrency (map_option fl (gp_tax (fst e))) price)))"

section \<open>Writing a release\<close>

definition release_line_check :: "release_line \<Rightarrow> db_error option" where
  "release_line_check x =
     both (positive (xl_quantity x)) (both (not_negative (xl_price x)) (both (percentage (xl_discount x))
       (both (not_negative (xl_amount x)) (maybe (\<lambda>r. if 1000 \<le> \<bar>r\<bar> then Some numeric_overflow else None) (xl_tax x)))))"

definition release_row :: "string \<Rightarrow> string \<Rightarrow> release_line \<Rightarrow> string \<Rightarrow> release_line" where
  "release_row tenant release x = (\<lambda>i. x\<lparr>xl_id := i, xl_tenant := tenant, xl_release := release,
     xl_quantity := numeric4 (xl_quantity x), xl_price := numeric4 (xl_price x), xl_discount := pg_round 2 (xl_discount x),
     xl_tax := map_option (pg_round 2) (xl_tax x), xl_amount := numeric4 (xl_amount x)\<rparr>)"

definition insert_release_line :: "string \<Rightarrow> string \<Rightarrow> string \<Rightarrow> release_line \<Rightarrow> ('w purchasing_scheme, unit) sql" where
  "insert_release_line tenant agreement release x =
     sbind (sget (\<lambda>w. list_ex (\<lambda>l. al_id l = xl_target x \<and> al_tenant l = tenant \<and> al_agreement l = agreement) (agreement_lines w))) (\<lambda>belongs.
     sbind (srequire belongs (raise (''agreement_item '' @ xl_target x @ '' does not belong to agreement '' @ agreement @
       '' (or tenant mismatch)''))) (\<lambda>_.
     insert_rows release_lines release_lines_update xl_id release_line_check [release_row tenant release x]))"

definition fn_create_agreement_release ::
  "string \<Rightarrow> string \<Rightarrow> string \<Rightarrow> string option \<Rightarrow> string option \<Rightarrow> string \<Rightarrow> release_line list \<Rightarrow> ('w purchasing_scheme, document) sql" where
  "fn_create_agreement_release tenant agreement number notes amendment createdBy lines =
     sbind (find_or_raise (\<lambda>w. documents w Agreement) (\<lambda>d. dc_id d = agreement \<and> dc_tenant d = tenant)
       (''Agreement '' @ agreement @ '' not found for tenant '' @ tenant)) (\<lambda>d.
     sbind (srequire (dc_status d = ''approved'')
       (raise (''Cannot create a release for agreement with status: '' @ dc_status d))) (\<lambda>_.
     sbind (sget (\<lambda>w. case amendment of None \<Rightarrow> True | Some a \<Rightarrow>
       list_ex (\<lambda>m. dc_id m = a \<and> dc_tenant m = tenant \<and> agreement_of m = agreement) (documents w Amendment))) (\<lambda>belongs.
     sbind (srequire belongs (raise (''effective_amendment_id '' @ nullish amendment [] @ '' does not belong to agreement '' @
       agreement @ '' (or tenant mismatch)''))) (\<lambda>_.
     sbind (document_insert Release tenant number notes createdBy (ReleaseDetails agreement amendment)) (\<lambda>r.
     sbind (sfor lines (insert_release_line tenant agreement (dc_id r))) (\<lambda>_.
     sret r))))))"

definition rl_create :: "string \<Rightarrow> create_release \<Rightarrow> string \<Rightarrow> ('w purchasing_scheme, document option) io" where
  "rl_create tenantId dto createdBy =
     bindE (repo_find Agreement (crl_agreement dto) tenantId) (\<lambda>found.
     case found of None \<Rightarrow> throw (bad_request ''Agreement not found'')
     | Some agreement \<Rightarrow>
       bindE (require (dc_status agreement = ''approved'')
         (bad_request (''Cannot create a release for agreement with status: '' @ dc_status agreement))) (\<lambda>_.
       bindE (foldE (crl_items dto) [] (\<lambda>acc line.
         bindE (validateOverage line agreement tenantId) (\<lambda>_.
         bindE (buildSnapshotLine line tenantId (currency_of agreement)) (\<lambda>x.
         ret (acc @ [x]))))) (\<lambda>lines.
       bindE (getLatestApprovedAmendment (crl_agreement dto) tenantId) (\<lambda>amendment.
       bindE (rpc (fn_create_agreement_release tenantId (crl_agreement dto) (crl_number dto) (crl_notes dto) amendment createdBy
         lines)) (\<lambda>r.
       repo_find Release (dc_id r) tenantId)))))"

definition rl_update :: "string \<Rightarrow> string \<Rightarrow> string option option \<Rightarrow> ('w purchasing_scheme, document) io" where
  "rl_update i tenantId notes = document_update Release ''releases'' i tenantId (\<lambda>d. d\<lparr>dc_notes := nullish notes (dc_notes d)\<rparr>)"

definition rl_submit :: "string \<Rightarrow> string \<Rightarrow> string \<Rightarrow> ('w purchasing_scheme, document) io" where
  "rl_submit = document_submit Release"

definition rl_approve :: "string \<Rightarrow> string \<Rightarrow> string \<Rightarrow> ('w purchasing_scheme, document) io" where
  "rl_approve = document_approve Release"

definition rl_reject :: "string \<Rightarrow> string \<Rightarrow> string \<Rightarrow> string \<Rightarrow> ('w purchasing_scheme, document) io" where
  "rl_reject = document_reject Release"

definition rl_cancel :: "string \<Rightarrow> string \<Rightarrow> string \<Rightarrow> ('w purchasing_scheme, document) io" where
  "rl_cancel = cancel_unapproved Release ''Cannot cancel an approved release -- it is a terminal state.''"

definition rl_remove :: "string \<Rightarrow> string \<Rightarrow> ('w purchasing_scheme, unit) io" where
  "rl_remove = document_remove Release ''releases''"

definition rl_history :: "string \<Rightarrow> string \<Rightarrow> ('w purchasing_scheme, history_row list) io" where
  "rl_history = document_history Release"

section \<open>Requests\<close>

datatype purchasing_request =
    CreateRequest string create_request string
  | FromSuggestions string "string option" "string option" "string option" "line_dto list" string
  | UpdateRequest string string update_request
  | CreateOrder string create_order string
  | UpdateOrder string string "int option option" "string option option"
  | CreateRfq string create_rfq string
  | UpdateRfq string string update_request
  | SendRfq string string string
  | CreateAgreement string create_agreement string
  | UpdateAgreement string string update_agreement
  | CloseAgreement string string string
  | CreateAmendment string create_amendment string
  | UpdateAmendment string string "int option option" "string option option"
  | CreateRelease string create_release string
  | UpdateRelease string string "string option option"
  | Submit document_kind string string string
  | Approve document_kind string string string
  | Reject document_kind string string string string
  | Cancel document_kind string string string
  | Remove document_kind string string

definition submit_of :: "document_kind \<Rightarrow> string \<Rightarrow> string \<Rightarrow> string \<Rightarrow> ('w purchasing_scheme, document) io" where
  "submit_of k i t a = (case k of PurchaseRequest \<Rightarrow> pr_submit i t a | PurchaseOrder \<Rightarrow> po_submit i t | Rfq \<Rightarrow> rfq_submit i t a
     | Agreement \<Rightarrow> ag_submit i t a | Amendment \<Rightarrow> am_submit i t a | Release \<Rightarrow> rl_submit i t a)"

definition approve_of :: "document_kind \<Rightarrow> string \<Rightarrow> string \<Rightarrow> string \<Rightarrow> ('w purchasing_scheme, document) io" where
  "approve_of k i t a = (case k of PurchaseRequest \<Rightarrow> pr_approve i t a | PurchaseOrder \<Rightarrow> po_approve i t a | Rfq \<Rightarrow> rfq_approve i t a
     | Agreement \<Rightarrow> ag_approve i t a | Amendment \<Rightarrow> am_approve i t a | Release \<Rightarrow> rl_approve i t a)"

definition reject_of :: "document_kind \<Rightarrow> string \<Rightarrow> string \<Rightarrow> string \<Rightarrow> string \<Rightarrow> ('w purchasing_scheme, document) io" where
  "reject_of k i t a why = (case k of PurchaseRequest \<Rightarrow> pr_reject i t a why | PurchaseOrder \<Rightarrow> po_reject i t a why
     | Rfq \<Rightarrow> rfq_reject i t a why | Agreement \<Rightarrow> ag_reject i t a why | Amendment \<Rightarrow> am_reject i t a why
     | Release \<Rightarrow> rl_reject i t a why)"

definition cancel_of :: "document_kind \<Rightarrow> string \<Rightarrow> string \<Rightarrow> string \<Rightarrow> ('w purchasing_scheme, document) io" where
  "cancel_of k i t a = (case k of PurchaseRequest \<Rightarrow> pr_cancel i t a | PurchaseOrder \<Rightarrow> po_cancel i t | Rfq \<Rightarrow> rfq_cancel i t a
     | Agreement \<Rightarrow> ag_cancel i t a | Amendment \<Rightarrow> am_cancel i t a | Release \<Rightarrow> rl_cancel i t a)"

definition remove_of :: "document_kind \<Rightarrow> string \<Rightarrow> string \<Rightarrow> ('w purchasing_scheme, unit) io" where
  "remove_of k i t = (case k of PurchaseRequest \<Rightarrow> pr_remove i t | PurchaseOrder \<Rightarrow> po_remove i t | Rfq \<Rightarrow> rfq_remove i t
     | Agreement \<Rightarrow> ag_remove i t | Amendment \<Rightarrow> am_remove i t | Release \<Rightarrow> rl_remove i t)"

primrec answer :: "purchasing_request \<Rightarrow> 'w purchasing_scheme \<Rightarrow> 'w purchasing_scheme" where
  "answer (CreateRequest t dto u) w = snd (pr_create t dto u w)"
| "answer (FromSuggestions t b wh n ls u) w = snd (pr_createFromSuggestions t b wh n ls u w)"
| "answer (UpdateRequest i t dto) w = snd (pr_update i t dto w)"
| "answer (CreateOrder t dto u) w = snd (po_create t dto u w)"
| "answer (UpdateOrder i t x n) w = snd (po_update i t x n w)"
| "answer (CreateRfq t dto u) w = snd (rfq_create t dto u w)"
| "answer (UpdateRfq i t dto) w = snd (rfq_update i t dto w)"
| "answer (SendRfq i t a) w = snd (rfq_send i t a w)"
| "answer (CreateAgreement t dto u) w = snd (ag_create t dto u w)"
| "answer (UpdateAgreement i t dto) w = snd (ag_update i t dto w)"
| "answer (CloseAgreement i t a) w = snd (ag_close i t a w)"
| "answer (CreateAmendment t dto u) w = snd (am_create t dto u w)"
| "answer (UpdateAmendment i t x n) w = snd (am_update i t x n w)"
| "answer (CreateRelease t dto u) w = snd (rl_create t dto u w)"
| "answer (UpdateRelease i t n) w = snd (rl_update i t n w)"
| "answer (Submit k i t a) w = snd (submit_of k i t a w)"
| "answer (Approve k i t a) w = snd (approve_of k i t a w)"
| "answer (Reject k i t a why) w = snd (reject_of k i t a why w)"
| "answer (Cancel k i t a) w = snd (cancel_of k i t a w)"
| "answer (Remove k i t) w = snd (remove_of k i t w)"


section \<open>An example\<close>

text \<open>
  A tenant with one approved agreement under the policy \<^verbatim>\<open>block\<close>: ten pieces of an item at 5, or at
  4 from ten pieces on.
\<close>

definition demo_document :: "string \<Rightarrow> string \<Rightarrow> details \<Rightarrow> document" where
  "demo_document i status extra = \<lparr>dc_id = i, dc_tenant = ''t'', dc_number = i, dc_status = status, dc_notes = None, dc_created_by = ''u'',
     dc_approved_by = None, dc_approved_at = None, dc_deleted = False, dc_details = extra\<rparr>"

definition demo_agreement :: document where
  "demo_agreement = demo_document ''g'' ''approved'' (AgreementDetails ''s'' ''SAR'' None None True ''block'')"

definition demo_commitment :: agreement_line where
  "demo_commitment = \<lparr>al_id = ''l'', al_tenant = ''t'', al_agreement = ''g'', al_item = ''i'', al_variant = None, al_quantity = Some 10,
     al_value = None, al_notes = None, al_added = None, al_ended = None, al_ended_at = None\<rparr>"

definition demo_purchasing :: purchasing where
  "demo_purchasing = warehouse.extend (stockroom.extend demo_stock
     \<lparr>adjustments = [], transfers = [], transfer_lines = [], counts = [], count_lines = [], reservations = [],
      locations = [], reason_codes = [], approval_history = [], adjustment_threshold = 0, count_threshold = 0\<rparr>)
     \<lparr>documents = (\<lambda>k. if k = Agreement then [demo_agreement] else []), request_lines = [], rfq_lines = [], rfq_suppliers = [],
      order_lines = [], agreement_lines = [demo_commitment], amendment_lines = [], release_lines = [],
      agreement_pricing = [\<lparr>gp_id = ''p'', gp_tenant = ''t'', gp_target = ''l'', gp_type = ''tiered'', gp_price = None,
        gp_discount = None, gp_tax = Some 15\<rparr>],
      pricing_tiers = [\<lparr>gt_id = ''b'', gt_tenant = ''t'', gt_pricing = ''p'', gt_order = 2, gt_min = 10, gt_max = None, gt_price = 4,
          gt_discount = None\<rparr>,
        \<lparr>gt_id = ''a'', gt_tenant = ''t'', gt_pricing = ''p'', gt_order = 1, gt_min = 0, gt_max = Some 9, gt_price = 5,
          gt_discount = Some 10\<rparr>],
      variants_of = (\<lambda>i t. Some False)\<rparr>"

end
