(* ===== verification/DocumentFlow.thy ===== *)
theory DocumentFlow
  imports Releases
begin

text \<open>
  The history of approvals is the life of the document: a specification of the life cycle of each
  kind of document, and the proof that the entries of a document lead from draft to its status, one
  allowed step after the other, for every sequence of requests whose calls do not fail.
\<close>

section \<open>The life cycle\<close>

definition life_of :: "document_kind \<Rightarrow> (string \<times> string) list" where
  "life_of k = [(''draft'', ''submitted''), (''submitted'', ''approved''), (''submitted'', ''rejected''), (''approved'', ''rejected''),
     (''draft'', ''cancelled''), (''submitted'', ''cancelled'')] @
     (case k of Amendment \<Rightarrow> [] | Release \<Rightarrow> []
      | Rfq \<Rightarrow> [(''approved'', ''cancelled''), (''approved'', ''sent''), (''sent'', ''cancelled'')]
      | Agreement \<Rightarrow> [(''approved'', ''cancelled''), (''approved'', ''closed'')]
      | _ \<Rightarrow> [(''approved'', ''cancelled'')])"

primrec traces :: "document_kind \<Rightarrow> string \<Rightarrow> history_row list \<Rightarrow> string \<Rightarrow> bool" where
  "traces k s [] e = (s = e)"
| "traces k s (h # hs) e = (h_previous h = Some s \<and> (case h_new h of None \<Rightarrow> False
     | Some n \<Rightarrow> (s, n) \<in> set (life_of k) \<and> traces k n hs e))"

definition entries :: "document_kind \<Rightarrow> document \<Rightarrow> history_row list \<Rightarrow> history_row list" where
  "entries k d hs = filter (\<lambda>h. h_tenant h = dc_tenant d \<and> h_type h = reference_type k \<and> h_ref h = dc_id d) hs"

definition trail_ok :: "(document_kind \<Rightarrow> document list) \<Rightarrow> history_row list \<Rightarrow> bool" where
  "trail_ok D H \<longleftrightarrow> (\<forall>k. distinct (map dc_id (D k))) \<and>
     (\<forall>k h. h \<in> set H \<and> h_type h = reference_type k \<longrightarrow> h_ref h \<in> set (map dc_id (D k))) \<and>
     (\<forall>k d. k \<noteq> PurchaseOrder \<and> d \<in> set (D k) \<longrightarrow> traces k ''draft'' (entries k d H) (dc_status d))"

definition trailed :: "'w purchasing_scheme \<Rightarrow> bool" where
  "trailed w \<longleftrightarrow> (\<forall>n. fault w n = None) \<and> trail_ok (documents w) (approval_history w)"

lemma traces_snoc: "traces k s (hs @ [h]) e \<longleftrightarrow>
    (\<exists>m. traces k s hs m \<and> h_previous h = Some m \<and> h_new h = Some e \<and> (m, e) \<in> set (life_of k))"
  by (induction hs arbitrary: s) (auto split: option.splits)

lemma reference_type_inj [simp]: "reference_type k = reference_type l \<longleftrightarrow> k = l"
  by (cases k; cases l) (simp_all add: reference_type_def)

lemma trail_okI:
  assumes "\<And>k. distinct (map dc_id (D k))"
    "\<And>k h. h \<in> set H \<Longrightarrow> h_type h = reference_type k \<Longrightarrow> h_ref h \<in> set (map dc_id (D k))"
    "\<And>k d. k \<noteq> PurchaseOrder \<Longrightarrow> d \<in> set (D k) \<Longrightarrow> traces k ''draft'' (entries k d H) (dc_status d)"
  shows "trail_ok D H"
  using assms unfolding trail_ok_def by blast

lemma trail_okD:
  assumes "trail_ok D H"
  shows "distinct (map dc_id (D k))"
    "h \<in> set H \<Longrightarrow> h_type h = reference_type k \<Longrightarrow> h_ref h \<in> set (map dc_id (D k))"
    "k \<noteq> PurchaseOrder \<Longrightarrow> d \<in> set (D k) \<Longrightarrow> traces k ''draft'' (entries k d H) (dc_status d)"
  using assms unfolding trail_ok_def by blast+

lemma document_unique:
  "trail_ok D H \<Longrightarrow> d \<in> set (D k) \<Longrightarrow> x \<in> set (D k) \<Longrightarrow> dc_id x = dc_id d \<Longrightarrow> x = d"
  using trail_okD(1) [of D H k] by (meson distinct_map inj_onD)

section \<open>Steps on the tables\<close>

text \<open>A change of rows that keeps identifier, tenant and status.\<close>

lemma trail_same:
  assumes "trail_ok D H" "\<And>x. dc_id (f x) = dc_id x \<and> dc_tenant (f x) = dc_tenant x"
    "\<And>x. k \<noteq> PurchaseOrder \<Longrightarrow> x \<in> set (D k) \<Longrightarrow> P x \<Longrightarrow> dc_status (f x) = dc_status x"
  shows "trail_ok (D(k := update_where P f (D k))) H"
proof -
  have ids: "map dc_id ((D(k := update_where P f (D k))) l) = map dc_id (D l)" for l
    using assms(2) by (simp add: map_update_where)
  have e: "entries l (f x) H = entries l x H" for l x using assms(2) by (simp add: entries_def)
  show ?thesis
  proof (rule trail_okI, unfold ids)
    fix l d assume l: "l \<noteq> PurchaseOrder" and d: "d \<in> set ((D(k := update_where P f (D k))) l)"
    show "traces l ''draft'' (entries l d H) (dc_status d)"
    proof (cases "l = k")
      case True
      then obtain y where "y \<in> set (D k)" "d = (if P y then f y else y)" using d by (auto simp: set_update_where)
      then show ?thesis using trail_okD(3) [OF assms(1) l, of y] assms(3) e l True by auto
    qed (use d trail_okD(3) [OF assms(1) l] in simp)
  qed (use trail_okD [OF assms(1)] in blast)+
qed

text \<open>A new document has no history.\<close>

lemma trail_new:
  assumes "trail_ok D H" "dc_id d \<notin> set (map dc_id (D k))" "dc_status d = ''draft''"
  shows "trail_ok (D(k := D k @ [d])) H"
proof (rule trail_okI)
  have "entries k d H = []"
    using trail_okD(2) [OF assms(1)] assms(2) unfolding entries_def filter_empty_conv by metis
  then show "traces l ''draft'' (entries l x H) (dc_status x)"
    if "l \<noteq> PurchaseOrder" "x \<in> set ((D(k := D k @ [d])) l)" for l x
    using that trail_okD(3) [OF assms(1) that(1)] assms(3) by (auto split: if_splits)
  show "distinct (map dc_id ((D(k := D k @ [d])) l))" for l
    using trail_okD(1) [OF assms(1), of l] trail_okD(1) [OF assms(1), of k] assms(2) by simp
  show "h_ref h \<in> set (map dc_id ((D(k := D k @ [d])) l))" if "h \<in> set H" "h_type h = reference_type l" for h l
    using trail_okD(2) [OF assms(1) that] by auto
qed

text \<open>A step of one document together with its entry.\<close>

lemma trail_move:
  assumes ok: "trail_ok D H" and d: "d \<in> set (D k)" "P d" "\<And>x. P x \<Longrightarrow> dc_id x = dc_id d"
    and f: "\<And>x. x \<in> set (D k) \<Longrightarrow> P x \<Longrightarrow> dc_id (f x) = dc_id x \<and> dc_tenant (f x) = dc_tenant x" "dc_status (f d) = n"
    and h: "h_type h = reference_type k" "h_ref h = dc_id d" "h_tenant h = dc_tenant d"
      "h_previous h = Some (dc_status d)" "h_new h = Some n"
    and step: "k \<noteq> PurchaseOrder \<Longrightarrow> (dc_status d, n) \<in> set (life_of k)"
  shows "trail_ok (D(k := update_where P f (D k))) (H @ [h])"
proof -
  have ids: "map dc_id ((D(k := update_where P f (D k))) l) = map dc_id (D l)" for l
    using f(1) by (auto simp: update_where_def)
  have self: "entries k (f d) (H @ [h]) = entries k d H @ [h]" using h(1-3) f(1) [OF d(1,2)] by (simp add: entries_def)
  have other: "entries l x (H @ [h]) = entries l x H" if "l \<noteq> k \<or> dc_id x \<noteq> dc_id d" for l x
    using that h(1,2) by (simp add: entries_def) (metis reference_type_inj)
  have moved: "traces k ''draft'' (entries k d H @ [h]) n" if "k \<noteq> PurchaseOrder"
    unfolding traces_snoc using trail_okD(3) [OF ok that d(1)] h(4,5) step [OF that] by blast
  show ?thesis
  proof (rule trail_okI, unfold ids)
    fix l x assume l: "l \<noteq> PurchaseOrder" and x: "x \<in> set ((D(k := update_where P f (D k))) l)"
    show "traces l ''draft'' (entries l x (H @ [h])) (dc_status x)"
    proof (cases "l = k")
      case True
      then obtain y where y: "y \<in> set (D k)" "x = (if P y then f y else y)" using x by (auto simp: set_update_where)
      show ?thesis
      proof (cases "y = d")
        case True
        then have "x = f d" using y(2) d(2) by simp
        then show ?thesis using moved l \<open>l = k\<close> by (simp add: self f(2))
      next
        case False
        then have other_id: "dc_id y \<noteq> dc_id d" using document_unique [OF ok d(1) y(1)] by blast
        then have "\<not> P y" using d(3) by blast
        then have "x = y" using y(2) by simp
        then show ?thesis using trail_okD(3) [OF ok l, of y] y(1) \<open>l = k\<close> other [of l y] other_id by simp
      qed
    next
      case False
      then show ?thesis using trail_okD(3) [OF ok l, of x] x other [of l x] by simp
    qed
  next
    fix l g assume "g \<in> set (H @ [h])" "h_type g = reference_type l"
    then show "h_ref g \<in> set (map dc_id (D l))" using trail_okD(2) [OF ok, of g l] d(1) h(1,2) by auto
  qed (rule trail_okD(1) [OF ok])
qed


section \<open>Handlers that write no history\<close>

definition trail_view where
  "trail_view w = (documents w, approval_history w, fault w)"

lemma trailed_view: "trail_view v = trail_view w \<Longrightarrow> trailed v = trailed w"
  by (simp add: trail_view_def trailed_def)

interpretation trail: view "trail_view :: 'w purchasing_scheme \<Rightarrow> _"
  by unfold_locales (simp add: trail_view_def)

lemma trailed_calls [simp]: "trailed (w\<lparr>calls := n\<rparr>) = trailed w"
  by (rule trailed_view) (simp add: trail_view_def)

lemma trailed_keeps: "keeps trail_view m \<Longrightarrow> preserves trailed m"
proof (rule preserves_keeps)
  assume "keeps trail_view m"
  then have "trail_view (snd (m w)) = trail_view w" for w by (simp add: keeps_def)
  then have "trailed (snd (m w)) = trailed w" for w by (intro trailed_view)
  then show "keeps trailed m" by (simp add: keeps_def)
qed

lemma trailed_rpc: "skeeps trailed f \<Longrightarrow> preserves trailed (rpc f)"
  by (rule preserves_rpc) simp_all

lemma trailed_with: "trailed w \<Longrightarrow> trail_ok ((documents w)(k := f (documents w k))) (approval_history w) \<Longrightarrow> trailed (with_documents k f w)"
  by (simp add: trailed_def with_documents_def)

lemma trailed_new_row: "skeeps trailed new_row_id"
  by (rule skeeps_new_row_id) (rule trailed_view, simp add: trail_view_def)

lemma trailed_insert: "skeeps trailed (document_insert k t number notes u extra)"
  unfolding skeeps_def document_insert_def
proof (intro allI impI)
  fix w :: "'w purchasing_scheme" assume "trailed w"
  then have new: "trailed (w\<lparr>row_count := n\<rparr>)" for n by (simp add: trailed_def)
  have "trailed (with_documents k (\<lambda>ds. ds @ [d]) v)"
    if "trailed v" "document_check k (documents v k) d = None" "dc_status d = ''draft''" for v :: "'w purchasing_scheme" and d
    using that by (intro trailed_with trail_new) (auto simp: trailed_def document_check_def split: option.splits if_splits)
  from this [OF new] show "sok (sbind new_row_id (\<lambda>i. let row = \<lparr>dc_id = i, dc_tenant = t, dc_number = number, dc_status = ''draft'',
      dc_notes = notes, dc_created_by = u, dc_approved_by = None, dc_approved_at = None, dc_deleted = False, dc_details = extra\<rparr>
      in sbind (sget (\<lambda>w. document_check k (documents w k) row))
        (\<lambda>c. checked c (sbind (smodify (with_documents k (\<lambda>ds. ds @ [row]))) (\<lambda>_. sret row))))) (\<lambda>_. trailed) w"
    by (auto simp: Let_def sql_rules checked_def new_row_id_def sok_def sbind_def sget_def smodify_def sfail_def sret_def split: option.split)
qed

lemma skeeps_insert_rows:
  assumes "\<And>w n. J (w\<lparr>row_count := n\<rparr>) = J w" "\<And>w f. J (put f w) = J w"
  shows "skeeps J (insert_rows rows put key check ms)"
  by (induction ms) (auto simp: checked_def assms intro!: sql_keep skeeps_new_row_id skeeps_smodify split: option.split)

lemma trailed_rows:
  "skeeps trailed (insert_rows request_lines request_lines_update ql_id check ms)"
  "skeeps trailed (insert_rows rfq_lines rfq_lines_update ql_id check ms)"
  "skeeps trailed (insert_rows order_lines order_lines_update ol_id check' ms')"
  "skeeps trailed (insert_rows agreement_lines agreement_lines_update al_id check'' ms'')"
  "skeeps trailed (insert_rows amendment_lines amendment_lines_update ml_id check3 ms3)"
  "skeeps trailed (insert_rows release_lines release_lines_update xl_id check4 ms4)"
  by (intro skeeps_insert_rows trailed_view; simp add: trail_view_def)+

lemma trailed_find: "preserves trailed (repo_find k i t)" "preserves trailed (document_findById k i t)"
  unfolding repo_find_def document_findById_def orThrow_def
  by (intro trailed_keeps keep_rules trail.keeps_query)+

lemma trailed_patch:
  assumes "\<And>x. dc_id (f x) = dc_id x \<and> dc_tenant (f x) = dc_tenant x" "\<And>x. k \<noteq> PurchaseOrder \<Longrightarrow> dc_status (f x) = dc_status x"
  shows "preserves trailed (repo_patch k i t from f)"
  unfolding repo_patch_def statement_def [symmetric]
proof (rule preserves_statement)
  fix w :: "'w purchasing_scheme" assume "trailed w"
  then have "trailed (with_documents k (update_where P f) w)" for P
    using assms by (intro trailed_with trail_same) (auto simp: trailed_def)
  then show "trailed (snd (let hit = (\<lambda>d. dc_id d = i \<and> dc_tenant d = t \<and> (case from of None \<Rightarrow> True | Some ss \<Rightarrow> dc_status d \<in> set ss))
      in case single (filter hit (documents w k)) of Inl e \<Rightarrow> (Inl e, w)
        | Inr d \<Rightarrow> (case row_check k (f d) of Some e \<Rightarrow> (Inl e, w) | None \<Rightarrow> (Inr (f d), with_documents k (update_where hit f) w))))"
    using \<open>trailed w\<close> by (auto simp: Let_def split: sum.split option.split)
qed simp

lemma trailed_update:
  assumes "\<And>x. dc_id (f x) = dc_id x \<and> dc_tenant (f x) = dc_tenant x \<and> dc_status (f x) = dc_status x"
  shows "preserves trailed (document_update k plural i t f)"
  unfolding document_update_def by (intro preserve_rules trailed_find trailed_patch) (use assms in auto)

lemma trailed_remove: "preserves trailed (document_remove k plural i t)"
proof -
  have "preserves trailed (softDelete k i t :: ('w purchasing_scheme, unit) io)" for k i t
    unfolding softDelete_def statement_def [symmetric]
  proof (rule preserves_statement)
    fix w :: "'w purchasing_scheme" assume "trailed w"
    then have "trailed (with_documents k (update_where P (\<lambda>d. d\<lparr>dc_deleted := True\<rparr>)) w)" for P
      by (intro trailed_with trail_same) (auto simp: trailed_def)
    then show "trailed (snd (Inr (), with_documents k (update_where (\<lambda>d. dc_id d = i \<and> dc_tenant d = t \<and> dc_status d = ''draft'')
      (\<lambda>d. d\<lparr>dc_deleted := True\<rparr>)) w))" by simp
  qed simp
  then show ?thesis unfolding document_remove_def by (intro preserve_rules trailed_find)
qed


section \<open>Handlers that take a step\<close>

text \<open>The document has moved and its entry is still to be written.\<close>

definition pending :: "document_kind \<Rightarrow> string \<Rightarrow> string \<Rightarrow> string \<Rightarrow> string \<Rightarrow> 'w purchasing_scheme \<Rightarrow> bool" where
  "pending k i t s n w \<longleftrightarrow> (\<forall>m. fault w m = None) \<and>
     (\<forall>h. h_type h = reference_type k \<and> h_ref h = i \<and> h_tenant h = t \<and> h_previous h = Some s \<and> h_new h = Some n \<longrightarrow>
       trail_ok (documents w) (approval_history w @ [h]))"

definition found :: "document_kind \<Rightarrow> string \<Rightarrow> string \<Rightarrow> document \<Rightarrow> 'w purchasing_scheme \<Rightarrow> bool" where
  "found k i t d w \<longleftrightarrow> trailed w \<and> d \<in> set (documents w k) \<and> dc_id d = i \<and> dc_tenant d = t"

lemma found_calls [simp]: "found k i t d (w\<lparr>calls := n\<rparr>) = found k i t d w"
  by (simp add: found_def)

lemma wp_found:
  assumes "trailed w" "\<And>d v. found k i t d v \<Longrightarrow> wp (g d) (\<lambda>_. trailed) (\<lambda>_. trailed) v"
  shows "wp (bindE (document_findById k i t) g) (\<lambda>_. trailed) (\<lambda>_. trailed) w"
proof -
  have f: "fault w m = None" for m using assms(1) by (simp add: trailed_def)
  have "wp (repo_find k i t) (\<lambda>r v. trailed v \<and> (\<forall>d. r = Some d \<longrightarrow> found k i t d v)) (\<lambda>_. trailed) w"
    using assms(1) unfolding repo_find_def
    by (auto simp: wp_rules f found_def dest!: maybeSingle_SomeD filter_oneD split: sum.split)
  then show ?thesis unfolding document_findById_def wp_bindE [of "bindE _ _"] wp_bindE [of "repo_find k i t"]
    by (rule wp_mono) (auto simp: wp_rules split: option.split intro: assms(2))
qed

lemma wp_record_step:
  assumes w: "found k i t d w"
    and step: "case from of None \<Rightarrow> True | Some ss \<Rightarrow> dc_status d \<in> set ss \<longrightarrow> (k = PurchaseOrder \<or> (dc_status d, n) \<in> set (life_of k))"
      "from = None \<Longrightarrow> k = PurchaseOrder \<or> (dc_status d, n) \<in> set (life_of k)"
    and f: "\<And>x. dc_id (f x) = dc_id x \<and> dc_tenant (f x) = dc_tenant x" "\<And>x. dc_status (f x) = n"
    and g: "\<And>r v. pending k i t (dc_status d) n v \<Longrightarrow> wp (g r) (\<lambda>_. trailed) (\<lambda>_. trailed) v"
  shows "wp (bindE (repo_patch k i t from f) g) (\<lambda>_. trailed) (\<lambda>_. trailed) w"
proof -
  define hit where "hit = (\<lambda>d :: document. dc_id d = i \<and> dc_tenant d = t \<and> (case from of None \<Rightarrow> True | Some ss \<Rightarrow> dc_status d \<in> set ss))"
  have tr: "trailed w" and d: "d \<in> set (documents w k)" "dc_id d = i" "dc_tenant d = t" using w by (simp_all add: found_def)
  have nf: "fault w m = None" for m using tr by (simp add: trailed_def)
  have "pending k i t (dc_status d) n (with_documents k (update_where hit f) (w\<lparr>calls := c\<rparr>))"
    if "filter hit (documents w k) = [x]" for x c
  proof -
    have ok: "trail_ok (documents w) (approval_history w)" using tr by (simp add: trailed_def)
    have "x = d" using filter_oneD [OF that, unfolded hit_def] document_unique [OF ok d(1), of x] d(2) by simp
    have this_one: "hit d" using filter_oneD [OF that] unfolding \<open>x = d\<close> by blast
    have step: "k \<noteq> PurchaseOrder \<Longrightarrow> (dc_status d, n) \<in> set (life_of k)" using assms(2,3) this_one unfolding hit_def by (cases "from") auto
    have "trail_ok ((documents w)(k := update_where hit f (documents w k))) (approval_history w @ [h])"
      if "h_type h = reference_type k" "h_ref h = i" "h_tenant h = t" "h_previous h = Some (dc_status d)" "h_new h = Some n" for h
      by (rule trail_move [where P = hit, OF ok d(1) this_one]) (use that d step f in \<open>auto simp: hit_def\<close>)
    then show ?thesis using nf by (simp add: pending_def with_documents_def)
  qed
  then have "wp (repo_patch k i t from f) (\<lambda>_. pending k i t (dc_status d) n) (\<lambda>_. trailed) w"
    using tr unfolding repo_patch_def Let_def hit_def [symmetric]
    by (auto simp: wp_rules nf dest!: single_InrD split: sum.split option.split)
  then show ?thesis unfolding wp_bindE by (rule wp_mono) (use g in auto)
qed

lemma wp_record:
  assumes "pending k i t s n w" "\<And>v. trailed v \<Longrightarrow> wp (g ()) (\<lambda>_. trailed) (\<lambda>_. trailed) v"
  shows "wp (bindE (record_step k i t a s n why) g) (\<lambda>_. trailed) (\<lambda>_. trailed) w"
  using assms unfolding record_step_def history_record_def
  by (auto simp: wp_rules pending_def trailed_def)

lemma preserves_trailed: "(\<And>w. trailed w \<Longrightarrow> wp m (\<lambda>_. trailed) (\<lambda>_. trailed) w) \<Longrightarrow> preserves trailed m"
  by (simp add: preserves_def)

lemma wp_guard:
  "(c \<Longrightarrow> wp (g ()) Q E w) \<Longrightarrow> (\<not> c \<Longrightarrow> E e w) \<Longrightarrow> wp (bindE (require c e) g) Q E w"
  by (simp add: wp_rules)

lemma wp_time: "(\<And>t. wp (g t) Q E w) \<Longrightarrow> wp (bindE now g) Q E w"
  by (simp add: wp_rules)

lemma found_trailed: "found k i t d w \<Longrightarrow> trailed w"
  by (simp add: found_def)

lemma life_of_basic [simp]:
  "(''draft'', ''submitted'') \<in> set (life_of k)" "(''submitted'', ''approved'') \<in> set (life_of k)"
  "(''submitted'', ''rejected'') \<in> set (life_of k)" "(''approved'', ''rejected'') \<in> set (life_of k)"
  "(''draft'', ''cancelled'') \<in> set (life_of k)" "(''submitted'', ''cancelled'') \<in> set (life_of k)"
  by (simp_all add: life_of_def)

lemma trailed_submit: "preserves trailed (document_submit k i t a)"
  unfolding document_submit_def
  by (intro preserves_trailed wp_found wp_record_step wp_record) (auto simp: wp_rules)

lemma trailed_approve: "preserves trailed (document_approve k i t a)"
  unfolding document_approve_def Let_def
  by (intro preserves_trailed wp_found wp_guard wp_time wp_record_step wp_record)
     (auto simp: wp_rules canApprove_def pending_status_def intro: found_trailed)

lemma trailed_reject: "preserves trailed (document_reject k i t a why)"
  unfolding document_reject_def
proof (intro preserves_trailed wp_found wp_guard wp_time)
  fix d w time assume d: "found k i t d w" and c: "canReject (dc_status d) pending_status"
  show "wp (bindE (lift (reject time a why)) (\<lambda>result. bindE (repo_patch k i t None (\<lambda>d'. d'\<lparr>dc_status := ''rejected'',
      dc_approved_by := Some (resolvedBy result), dc_approved_at := Some (resolvedAt result),
      dc_notes := Some (rejection_note (dc_notes d) (nullish (reason result) []))\<rparr>))
      (\<lambda>updated. bindE (record_step k i t a (dc_status d) ''rejected'' (reason result)) (\<lambda>_. ret updated))))
      (\<lambda>_. trailed) (\<lambda>_. trailed) w"
  proof (cases "reject time a why")
    case (Inl e)
    then show ?thesis using found_trailed [OF d] by (simp add: wp_bindE wp_lift)
  next
    case (Inr r)
    show ?thesis unfolding Inr wp_bindE [of "lift _"] wp_lift sum.case
      by (rule wp_record_step [OF d]; (intro wp_record)?) (use c in \<open>auto simp: wp_rules canReject_def pending_status_def\<close>)
  qed
qed (auto intro: found_trailed)

lemma trailed_cancel:
  assumes "set from \<times> {''cancelled''} \<subseteq> set (life_of k)"
  shows "preserves trailed (document_cancel k from i t a)"
  unfolding document_cancel_def
  by (intro preserves_trailed wp_found wp_record_step wp_record) (use assms in \<open>auto simp: wp_rules\<close>)

lemma trailed_cancel_unapproved: "preserves trailed (cancel_unapproved k complaint i t a)"
  unfolding cancel_unapproved_def
  by (intro preserves_trailed wp_found wp_guard wp_record_step wp_record) (auto simp: wp_rules intro: found_trailed)


lemma trailed_finish:
  fixes after :: "('w purchasing_scheme, unit) io"
  assumes "(''approved'', n) \<in> set (life_of k)"
    "\<And>v. pending k i t ''approved'' n v \<Longrightarrow> wp after (\<lambda>_. trailed) (\<lambda>_. trailed) v"
  shows "preserves trailed (document_finish k verb n i t after)"
  unfolding document_finish_def
proof (intro preserves_trailed wp_found wp_guard)
  fix d and w :: "'w purchasing_scheme" assume d: "found k i t d w" and s: "dc_status d = ''approved''"
  show "wp (bindE (repo_patch k i t (Some [''approved'']) (\<lambda>d. d\<lparr>dc_status := n\<rparr>)) (\<lambda>result. bindE after (\<lambda>_. ret result)))
      (\<lambda>_. trailed) (\<lambda>_. trailed) w"
    by (rule wp_record_step [OF d]) (use s assms in \<open>auto simp: wp_rules\<close>)
qed (auto intro: found_trailed)

lemma trailed_send: "preserves trailed (rfq_send i t a)"
  unfolding rfq_send_def
proof (rule trailed_finish)
  fix v :: "'w purchasing_scheme" assume "pending Rfq i t ''approved'' ''sent'' v"
  then show "wp (bindE (mark_suppliers i) (\<lambda>_. record_step Rfq i t a ''approved'' ''sent'' None)) (\<lambda>_. trailed) (\<lambda>_. trailed) v"
    unfolding mark_suppliers_def record_step_def history_record_def
    by (auto simp: wp_rules pending_def trailed_def)
qed (simp add: life_of_def)

lemma trailed_close: "preserves trailed (ag_close i t a)"
  unfolding ag_close_def
proof (rule trailed_finish)
  fix v :: "'w purchasing_scheme" assume "pending Agreement i t ''approved'' ''closed'' v"
  then show "wp (record_step Agreement i t a ''approved'' ''closed'' None) (\<lambda>_. trailed) (\<lambda>_. trailed) v"
    unfolding record_step_def history_record_def by (auto simp: wp_rules pending_def trailed_def)
qed (simp add: life_of_def)

lemma trailed_order: "preserves trailed (po_submit i t)" "preserves trailed (po_cancel i t)"
  unfolding po_submit_def po_cancel_def po_findById_def by (intro preserve_rules trailed_find trailed_patch; simp)+

text \<open>The approval of an amendment is one stored function.\<close>

lemma apply_line_keeps:
  fixes V :: "(document_kind \<Rightarrow> document list) \<times> history_row list \<times> (nat \<Rightarrow> db_error option)"
  shows "skeeps (\<lambda>w. trail_view w = V) (apply_line t d time l)"
  unfolding apply_line_def apply_add_def apply_modify_def apply_discontinue_def find_or_raise_def checked_def Let_def
  by (intro sql_keep skeeps_insert_rows skeeps_smodify) (auto simp: trail_view_def)

lemma history_with [simp]: "approval_history (with_documents k f w) = approval_history w"
  by (simp add: with_documents_def)

definition approved_row :: "string \<Rightarrow> string \<Rightarrow> string \<Rightarrow> history_row" where
  "approved_row t i a = \<lparr>h_tenant = t, h_type = ''agreement_amendment'', h_ref = i, h_action = ''approved'', h_actor = Some a,
     h_previous = Some ''submitted'', h_new = Some ''approved'', h_reason = None\<rparr>"

lemma trailed_approved:
  assumes w: "trailed w" and d: "d \<in> set (documents w Amendment)" "dc_id d = i" "dc_tenant d = t" "dc_status d = ''submitted''"
    and d': "dc_id d' = i" "dc_tenant d' = t" "dc_status d' = ''approved''"
    and v: "trail_view v = trail_view w"
  shows "trailed ((with_documents Amendment (update_where (\<lambda>r. dc_id r = i) (\<lambda>_. d')) v)\<lparr>approval_history :=
    approval_history v @ [approved_row t i a]\<rparr>)"
proof -
  have ok: "trail_ok (documents w) (approval_history w)" using w by (simp add: trailed_def)
  have "dc_tenant x = t" if "x \<in> set (documents w Amendment)" "dc_id x = i" for x
    using document_unique [OF ok d(1) that(1)] that(2) d(2,3) by simp
  then have "trail_ok ((documents w)(Amendment := update_where (\<lambda>r. dc_id r = i) (\<lambda>_. d') (documents w Amendment)))
      (approval_history w @ [approved_row t i a])"
    using d(2-4) d' by (intro trail_move [where P = "\<lambda>r. dc_id r = i" and f = "\<lambda>_. d'" and n = "''approved''", OF ok d(1)])
      (simp_all add: reference_type_def approved_row_def)
  then show ?thesis using v w by (simp add: trailed_def trail_view_def with_documents_def)
qed

lemma trailed_apply: "skeeps trailed (fn_approve_agreement_amendment t i a time)"
  unfolding skeeps_def
proof (intro allI impI)
  fix w :: "'w purchasing_scheme" assume w: "trailed w"
  have loop: "sok (sfor ls (apply_line t d time)) (\<lambda>_ v. trail_view v = trail_view w) w" for ls d
    by (rule skeepsD [OF skeeps_sfor [OF apply_line_keeps]]) simp
  have hit: "d \<in> set (documents w Amendment)" "dc_id d = i" "dc_tenant d = t"
    if "find (\<lambda>d. dc_id d = i \<and> dc_tenant d = t) (documents w Amendment) = Some d" for d
    using that by (auto simp: find_Some_iff)
  show "sok (fn_approve_agreement_amendment t i a time) (\<lambda>_. trailed) w"
  proof (cases "find (\<lambda>d. dc_id d = i \<and> dc_tenant d = t) (documents w Amendment)")
    case (Some d)
    have "sok (sfor ls (apply_line t d time)) (\<lambda>_ v. trailed ((with_documents Amendment (update_where (\<lambda>r. dc_id r = i)
        (\<lambda>_. d\<lparr>dc_status := ''approved'', dc_approved_by := Some a, dc_approved_at := Some time\<rparr>)) v)\<lparr>approval_history :=
        approval_history v @ [approved_row t i a]\<rparr>)) w" if "dc_status d = ''submitted''" for ls
      by (rule sok_mono [OF loop], rule trailed_approved [OF w hit [OF Some] that]) (simp_all add: hit [OF Some])
    then show ?thesis using Some
      by (simp add: fn_approve_agreement_amendment_def find_or_raise_def sql_rules approved_row_def [symmetric] Let_def)
  qed (simp add: fn_approve_agreement_amendment_def find_or_raise_def sql_rules)
qed


lemma trailed_am_approve: "preserves trailed (am_approve i t a)"
  unfolding am_approve_def am_findById_def Let_def
  by (intro preserve_rules trailed_find trailed_rpc trailed_apply)

section \<open>Creating documents\<close>

lemma trailed_foldE: "(\<And>a x. preserves trailed (f a x)) \<Longrightarrow> preserves trailed (foldE xs a f)"
  by (induction xs arbitrary: a) (auto intro: preserve_rules)

lemma trailed_lift: "preserves trailed (lift r)"
  by (intro trailed_keeps keep_rules)

lemma trailed_read: "preserves trailed (orThrow (query f))"
  unfolding orThrow_def by (intro trailed_keeps keep_rules trail.keeps_query)

lemma trailed_suppliers: "preserves trailed (insert_suppliers t i ss)"
proof -
  have "keeps trail_view (insert_suppliers t i ss :: ('w purchasing_scheme, unit) io)"
    unfolding insert_suppliers_def orThrow_def by (intro keep_rules trail.keeps_exec) (simp add: trail_view_def)
  then show ?thesis by (rule trailed_keeps)
qed

lemmas trailed_rules = preserve_rules trailed_find trailed_rpc trailed_insert trailed_rows trailed_suppliers trailed_foldE trailed_lift
  trailed_read

lemma trailed_request: "preserves trailed (pr_create t dto u)"
  unfolding pr_create_def by (intro trailed_rules)

lemma trailed_suggestions: "preserves trailed (pr_createFromSuggestions t b wh n ls u)"
  unfolding pr_createFromSuggestions_def by (intro trailed_rules trailed_request)

lemma trailed_po_create: "preserves trailed (po_create t dto u)"
  unfolding po_create_def by (intro trailed_rules)

lemma trailed_rfq: "preserves trailed (rfq_create t dto u)"
  unfolding rfq_create_def by (intro trailed_rules)

lemma trailed_agreement: "preserves trailed (ag_create t dto u)"
  unfolding ag_create_def by (intro trailed_rules)

lemma trailed_amendment: "preserves trailed (am_create t dto u)"
  unfolding am_create_def getAgreementStatus_def amendment_item_def getItemHasVariants_def by (intro trailed_rules)

lemma trailed_overage: "preserves trailed (validateOverage line d t)"
  unfolding validateOverage_def getAgreementItemCommitted_def getApprovedReleasedQuantity_def Let_def by (intro trailed_rules)

lemma trailed_snapshot: "preserves trailed (buildSnapshotLine line t c)"
  unfolding buildSnapshotLine_def getEffectivePricing_def Let_def by (intro trailed_rules)

lemma trailed_release_rows: "skeeps trailed (fn_create_agreement_release t g n notes am u ls)"
  unfolding fn_create_agreement_release_def insert_release_line_def find_or_raise_def
  by (intro sql_keep trailed_insert trailed_rows)

lemma trailed_release: "preserves trailed (rl_create t dto u)"
  unfolding rl_create_def getLatestApprovedAmendment_def
  by (intro trailed_rules trailed_overage trailed_snapshot trailed_release_rows)

text \<open>Every request.\<close>

lemma life_cancel:
  "set [''draft'', ''submitted'', ''approved''] \<times> {''cancelled''} \<subseteq> set (life_of PurchaseRequest)"
  "set [''draft'', ''submitted'', ''approved''] \<times> {''cancelled''} \<subseteq> set (life_of Agreement)"
  "set [''draft'', ''submitted'', ''approved'', ''sent''] \<times> {''cancelled''} \<subseteq> set (life_of Rfq)"
  by (auto simp: life_of_def)

lemmas trailed_cancels = life_cancel [THEN trailed_cancel]

lemmas service_defs = pr_submit_def pr_approve_def pr_reject_def pr_cancel_def pr_remove_def pr_update_def
  po_approve_def po_reject_def po_remove_def po_update_def
  rfq_submit_def rfq_approve_def rfq_reject_def rfq_cancel_def rfq_remove_def rfq_update_def
  ag_submit_def ag_approve_def ag_reject_def ag_cancel_def ag_remove_def ag_update_def
  am_submit_def am_reject_def am_cancel_def am_remove_def am_update_def
  rl_submit_def rl_approve_def rl_reject_def rl_cancel_def rl_remove_def rl_update_def

lemma trailed_kinds:
  "preserves trailed (submit_of k i t a)" "preserves trailed (approve_of k i t a)" "preserves trailed (reject_of k i t a why)"
  "preserves trailed (cancel_of k i t a)" "preserves trailed (remove_of k i t)"
  unfolding submit_of_def approve_of_def reject_of_def cancel_of_def remove_of_def service_defs
  by (auto intro: trailed_submit trailed_approve trailed_reject trailed_cancel trailed_remove trailed_order trailed_am_approve
      trailed_cancel_unapproved trailed_cancels split: document_kind.split)

lemma trailed_updates:
  "preserves trailed (pr_update i t dto)" "preserves trailed (po_update i t x n)" "preserves trailed (rfq_update i t dto)"
  "preserves trailed (ag_update i t dto')" "preserves trailed (am_update i t x n)" "preserves trailed (rl_update i t n)"
  unfolding service_defs request_patch_def by (intro trailed_update; simp)+

lemma trailed_answer: "trailed w \<Longrightarrow> trailed (answer r w)"
  by (cases r) (auto intro: preserves_snd trailed_request trailed_suggestions trailed_po_create trailed_rfq trailed_agreement
    trailed_amendment trailed_release trailed_kinds trailed_updates trailed_send trailed_close)

lemma trailed_answers: "trailed w \<Longrightarrow> trailed (fold answer rs w)"
  by (induction rs arbitrary: w) (simp_all add: trailed_answer)


section \<open>The property\<close>

lemma filter_by_key: "distinct (map f xs) \<Longrightarrow> x \<in> set xs \<Longrightarrow> Q x \<Longrightarrow> filter (\<lambda>y. f y = f x \<and> Q y) xs = [x]"
  by (induction xs) (auto simp: filter_empty_conv image_iff)

text \<open>C12. The history of a document is its life.  As long as no call fails, whatever requests are made on
  the documents of purchasing and in whatever order: the history that the API returns for a purchase
  request, an RFQ, an agreement, an amendment or a release is a chain of steps that starts at
  \<^verbatim>\<open>draft\<close> and ends in the status of the document, each from the status the step before led to, and
  each allowed by the life cycle of its kind.  (Orders are the exception: submitting and cancelling
  them is not written.)
\<close>

theorem history_is_the_life:
  fixes w :: "'w purchasing_scheme"
  assumes "trailed w" "k \<noteq> PurchaseOrder" "d \<in> set (documents (fold answer rs w) k)" "\<not> dc_deleted d"
  shows "\<exists>hs. fst (document_history k (dc_id d) (dc_tenant d) (fold answer rs w)) = Inr hs \<and> traces k ''draft'' hs (dc_status d)"
proof -
  define v where "v = fold answer rs w"
  have v: "trailed v" unfolding v_def using assms(1) by (rule trailed_answers)
  then have ok: "trail_ok (documents v) (approval_history v)" and nf: "\<And>n. fault v n = None" by (simp_all add: trailed_def)
  have d: "d \<in> set (documents v k)" using assms(3) by (simp add: v_def)
  have "filter (\<lambda>x. dc_id x = dc_id d \<and> dc_tenant x = dc_tenant d \<and> \<not> dc_deleted x) (documents v k) = [d]"
    by (rule filter_by_key [OF trail_okD(1) [OF ok] d]) (use assms(4) in simp)
  then have "fst (document_history k (dc_id d) (dc_tenant d) v) = Inr (entries k d (approval_history v))"
    by (simp add: document_history_def document_findById_def repo_find_def findForReference_def io_defs orThrow_def query_def exec_def
        nf entries_def)
  then show ?thesis using trail_okD(3) [OF ok assms(2) d] by (simp add: v_def)
qed

definition demo_empty :: purchasing where
  "demo_empty = demo_purchasing\<lparr>documents := \<lambda>_. []\<rparr>"

definition demo_life :: "purchasing_request list" where
  "demo_life = [CreateRequest ''t'' \<lparr>cq_branch = None, cq_warehouse = None, cq_number = ''1'', cq_notes = None,
       cq_items = [\<lparr>ld_item = ''i'', ld_variant = None, ld_quantity = 2, ld_notes = None\<rparr>]\<rparr> ''u'',
     Submit PurchaseRequest ''r0'' ''t'' ''u'', Approve PurchaseRequest ''r0'' ''t'' ''b'', Reject PurchaseRequest ''r0'' ''t'' ''b'' ''no''
     , Cancel PurchaseRequest ''r0'' ''t'' ''u'']"

lemma demo_lived:
  "map (\<lambda>d. (dc_id d, dc_tenant d, dc_status d, dc_deleted d)) (documents (fold answer demo_life demo_empty) PurchaseRequest) =
     [(''r0'', ''t'', ''rejected'', False)]"
  "map h_new (approval_history (fold answer demo_life demo_empty)) = map Some [''submitted'', ''approved'', ''rejected'']"
  by code_simp+


lemma demo_empty_trailed: "trailed demo_empty"
proof -
  have "approval_history demo_empty = []" "documents demo_empty = (\<lambda>_. [])" "fault demo_empty n = None" for n
    by (simp_all add: demo_empty_def demo_purchasing_def warehouse.extend_def stockroom.extend_def demo_stock_def pos.extend_def demo_pos_def
        demo_shop_def catalog.extend_def)
  then show ?thesis
    by (simp add: trailed_def trail_ok_def)
qed

theorem history_is_the_life_witness:
  "\<exists>hs. fst (document_history PurchaseRequest ''r0'' ''t'' (fold answer demo_life demo_empty)) = Inr hs \<and>
     traces PurchaseRequest ''draft'' hs ''rejected''"
proof -
  obtain d where d: "documents (fold answer demo_life demo_empty) PurchaseRequest = [d]"
    "dc_id d = ''r0''" "dc_tenant d = ''t''" "dc_status d = ''rejected''" "\<not> dc_deleted d"
    using demo_lived(1) by (auto simp: map_eq_Cons_conv)
  from history_is_the_life [OF demo_empty_trailed, of PurchaseRequest d demo_life] d show ?thesis by simp
qed

end
