(* ===== verification/Commitments.thy ===== *)
theory Commitments
  imports DocumentFlow
begin

text \<open>
  What an agreement commits to: an approved amendment changes the committed quantities and values of
  its agreement exactly once, whatever requests follow; and what the check of a release against the
  commitment gives, and does not give.
\<close>

section \<open>Amendments in force\<close>

datatype measure = Quantity | Value

fun committed :: "measure \<Rightarrow> agreement_line \<Rightarrow> number option" where
  "committed Quantity l = al_quantity l"
| "committed Value l = al_value l"

fun delta_of :: "measure \<Rightarrow> amendment_line \<Rightarrow> number option" where
  "delta_of Quantity l = ml_quantity l"
| "delta_of Value l = ml_value l"

text \<open>An amendment counts from the moment its approval is in the history.\<close>

definition granted :: "history_row list \<Rightarrow> string \<Rightarrow> bool" where
  "granted H i \<longleftrightarrow> list_ex (\<lambda>h. h_type h = ''agreement_amendment'' \<and> h_ref h = i \<and> h_action h = ''approved'') H"

definition shift :: "measure \<Rightarrow> string \<Rightarrow> amendment_line \<Rightarrow> number" where
  "shift m x l = (if ml_action l = ''modify'' \<and> ml_target l = Some x then nullish (delta_of m l) 0 else 0)"

definition granted_sum :: "measure \<Rightarrow> string \<Rightarrow> 'w purchasing_scheme \<Rightarrow> number" where
  "granted_sum m x w = (\<Sum>l\<leftarrow>amendment_lines w. if granted (approval_history w) (ml_amendment l) then shift m x l else 0)"

definition lines_ok :: "agreement_line list \<Rightarrow> bool" where
  "lines_ok ls \<longleftrightarrow> distinct (map al_id ls) \<and> (\<forall>l\<in>set ls. \<forall>m. on_grid (nullish (committed m l) 0))"

definition shifted :: "(measure \<Rightarrow> string \<Rightarrow> number) \<Rightarrow> agreement_line list \<Rightarrow> agreement_line list \<Rightarrow> bool" where
  "shifted s ls ls' \<longleftrightarrow> (\<forall>l\<in>set ls. \<exists>l'\<in>set ls'. al_id l' = al_id l \<and>
     (\<forall>m. committed m l' = map_option (\<lambda>c. c + s m (al_id l)) (committed m l)))"

lemma shifted_refl: "(\<And>m x. s m x = 0) \<Longrightarrow> set ls \<subseteq> set ls' \<Longrightarrow> shifted s ls ls'"
  unfolding shifted_def by (auto simp: option.map_ident)

lemma shifted_trans:
  assumes "shifted s ls ls'" "shifted s' ls' ls''" "\<And>m x. r m x = s m x + s' m x"
  shows "shifted r ls ls''"
  unfolding shifted_def
proof
  fix l assume "l \<in> set ls"
  then obtain l' where l': "l' \<in> set ls'" "al_id l' = al_id l" "\<forall>m. committed m l' = map_option (\<lambda>c. c + s m (al_id l)) (committed m l)"
    using assms(1) by (auto simp: shifted_def)
  then obtain l'' where "l'' \<in> set ls''" "al_id l'' = al_id l'" "\<forall>m. committed m l'' = map_option (\<lambda>c. c + s' m (al_id l')) (committed m l')"
    using assms(2) unfolding shifted_def by blast
  then show "\<exists>l''\<in>set ls''. al_id l'' = al_id l \<and> (\<forall>m. committed m l'' = map_option (\<lambda>c. c + r m (al_id l)) (committed m l))"
    using l' assms(3) by (intro bexI [of _ l'']) (auto simp: option.map_comp o_def add.assoc)
qed

text \<open>What one line of an amendment does to the lines of the agreement.\<close>

lemma update_shifts:
  assumes ok: "lines_ok ls" and x: "x \<in> set ls" "P x" "\<And>y. y \<in> set ls \<Longrightarrow> P y \<Longrightarrow> y = x"
    and f: "al_id (f x) = al_id x" "\<And>m. committed m (f x) = map_option (\<lambda>c. c + s m (al_id x)) (committed m x)"
      "\<And>m. on_grid (nullish (committed m (f x)) 0)"
    and other: "\<And>m y. y \<in> set ls \<Longrightarrow> y \<noteq> x \<Longrightarrow> s m (al_id y) = 0"
  shows "lines_ok (update_where P f ls)" "shifted s ls (update_where P f ls)"
proof -
  have hit: "P y \<longleftrightarrow> y = x" if "y \<in> set ls" for y using that x(2,3) by blast
  have "map al_id (update_where P f ls) = map al_id ls"
    unfolding update_where_def map_map by (rule map_cong) (use hit f(1) in auto)
  then show "lines_ok (update_where P f ls)"
    using ok f(3) hit by (auto simp: lines_ok_def set_update_where)
  have "\<exists>l'\<in>set (update_where P f ls). al_id l' = al_id l \<and> (\<forall>m. committed m l' = map_option (\<lambda>c. c + s m (al_id l)) (committed m l))"
    if l: "l \<in> set ls" for l
  proof (cases "l = x")
    case True
    then show ?thesis using l x(2) f by (intro bexI [of _ "f x"]) (auto simp: set_update_where image_iff intro!: bexI [of _ x])
  next
    case False
    then show ?thesis using l hit [OF l] other [OF l False]
      by (intro bexI [of _ l]) (auto simp: set_update_where image_iff option.map_ident intro!: bexI [of _ l])
  qed
  then show "shifted s ls (update_where P f ls)" by (simp add: shifted_def)
qed

lemma plus_delta_shift:
  assumes "delta = None \<or> old \<noteq> None" "on_grid (nullish old 0)" "on_grid (nullish delta 0)"
  shows "plus_delta old delta = map_option (\<lambda>c. c + nullish delta 0) old" "on_grid (nullish (plus_delta old delta) 0)"
  using assms by (auto simp: plus_delta_def on_grid_add split: option.splits)

definition line_view where
  "line_view w = (amendment_lines w, approval_history w, documents w)"

definition line_done :: "(measure \<Rightarrow> string \<Rightarrow> number) \<Rightarrow> 'w purchasing_scheme \<Rightarrow> 'w purchasing_scheme \<Rightarrow> bool" where
  "line_done s w v \<longleftrightarrow> lines_ok (agreement_lines v) \<and> shifted s (agreement_lines w) (agreement_lines v) \<and> line_view v = line_view w"

lemma sok_checked: "sok m Q w \<Longrightarrow> sok (checked c m) Q w"
  by (simp add: checked_def sql_rules split: option.split)

lemma sok_insert_line:
  fixes w :: "'w purchasing_scheme"
  assumes ok: "lines_ok (agreement_lines w)" and mk: "\<And>i. al_id (mk i) = i"
      "\<And>i. on_grid (nullish (al_quantity (mk i)) 0)" "\<And>i. on_grid (nullish (al_value (mk i)) 0)"
    and s: "\<And>m x. s m x = 0"
  shows "sok (insert_rows agreement_lines agreement_lines_update al_id check [mk]) (\<lambda>_. line_done s w) w"
proof -
  have "on_grid (nullish (committed m (mk i)) 0)" for m i using mk(2,3) by (cases m) simp_all
  then have "line_done s w (agreement_lines_update (\<lambda>rs. rs @ [mk i]) (w\<lparr>row_count := n\<rparr>))"
    if "\<not> (\<exists>r\<in>set (agreement_lines w). al_id r = i)" for i n
    using that ok mk(1) s unfolding line_done_def lines_ok_def
    by (auto simp: line_view_def intro!: shifted_refl)
  then show ?thesis
    by (auto simp: sql_rules checked_def new_row_id_def sok_def sbind_def sget_def smodify_def sfail_def sret_def split: option.split)
qed

lemma apply_line_shifts:
  fixes w :: "'w purchasing_scheme"
  assumes ok: "lines_ok (agreement_lines w)" and grid: "\<And>m. on_grid (nullish (delta_of m l) 0)"
  shows "sok (apply_line t d time l) (\<lambda>_. line_done (\<lambda>m x. shift m x l) w) w"
proof -
  define s where "s = (\<lambda>m x. shift m x l)"
  have found: "x \<in> set (agreement_lines w)" "amended_item t d l x" if "find (amended_item t d l) (agreement_lines w) = Some x" for x
    using that by (auto simp: find_Some_iff)
  have only: "y = x" if "x \<in> set (agreement_lines w)" "amended_item t d l x" "y \<in> set (agreement_lines w)" "Some (al_id y) = ml_target l" for x y
    using that ok by (metis amended_item_def distinct_map inj_onD lines_ok_def option.inject)
  have hit: "y = x" if "find (amended_item t d l) (agreement_lines w) = Some x" "y \<in> set (agreement_lines w)" "amended_item t d l y" for x y
    using only [OF found [OF that(1)] that(2)] that(3) by (simp add: amended_item_def)
  have grids: "on_grid (nullish (committed m x) 0)" if "x \<in> set (agreement_lines w)" for m x using ok that by (simp add: lines_ok_def)
  note update = update_shifts [OF ok, where P = "amended_item t d l"]
  have add: "sok (apply_add t d l) (\<lambda>_. line_done s w) w" if "ml_action l = ''add''"
    unfolding apply_add_def
    using ok grid [of Quantity] grid [of Value] that
    by (auto simp: sok_sfail s_def shift_def intro!: sok_insert_line split: option.split simp del: insert_rows.simps)
  have modify: "sok (apply_modify t d l) (\<lambda>_. line_done s w) w" if act: "ml_action l = ''modify''"
  proof -
    have "line_done s w (agreement_lines_update (update_where (amended_item t d l) (\<lambda>_. x')) w)"
      if x: "find (amended_item t d l) (agreement_lines w) = Some x" and q: "ml_quantity l = None \<or> al_quantity x \<noteq> None"
        and v: "ml_value l = None \<or> al_value x \<noteq> None"
        and x': "x' = x\<lparr>al_quantity := plus_delta (al_quantity x) (ml_quantity l), al_value := plus_delta (al_value x) (ml_value l)\<rparr>"
      for x x'
    proof -
      have t: "ml_target l = Some (al_id x)" using found(2) [OF x] by (simp add: amended_item_def)
      have c: "committed m x' = map_option (\<lambda>c. c + s m (al_id x)) (committed m x)" "on_grid (nullish (committed m x') 0)" for m
        using plus_delta_shift [OF q] plus_delta_shift [OF v] grids [OF found(1) [OF x], of m] grid [of m] act t
        by (cases m; simp add: x' s_def shift_def)+
      have "s m (al_id y) = 0" if "y \<in> set (agreement_lines w)" "y \<noteq> x" for m y
        using only [OF found [OF x] that(1)] that(2) by (auto simp: s_def shift_def)
      then show ?thesis
        unfolding line_done_def
        using update [OF found [OF x] hit [OF x], where f = "\<lambda>_. x'" and s = s] c by (simp add: line_view_def x')
    qed
    note taken = this
    show ?thesis
    proof (cases "find (amended_item t d l) (agreement_lines w)")
      case (Some x)
      show ?thesis
        unfolding apply_modify_def find_or_raise_def Let_def sok_sbind sok_sget Some option.case sok_sret sok_srequire
        by (intro impI sok_checked, unfold sok_smodify, rule taken [OF Some]) (assumption | rule refl)+
    qed (simp add: apply_modify_def find_or_raise_def Let_def sql_rules)
  qed
  have discontinue: "sok (apply_discontinue t d time l) (\<lambda>_. line_done s w) w" if act: "ml_action l = ''discontinue''"
  proof -
    have "line_done s w (agreement_lines_update (update_where (amended_item t d l) f) w)"
      if x: "find (amended_item t d l) (agreement_lines w) = Some x" and f: "f = (\<lambda>x. x\<lparr>al_ended := e, al_ended_at := n\<rparr>)" for x f e n
    proof -
      have "committed m (f x) = committed m x" "s m y = 0" for m x y using act by (cases m; simp add: f s_def shift_def)+
      then show ?thesis
        unfolding line_done_def
        using update [OF found [OF x] hit [OF x], where f = f and s = s] grids [OF found(1) [OF x]]
        by (simp add: line_view_def f option.map_ident)
    qed
    then show ?thesis
      unfolding apply_discontinue_def find_or_raise_def by (auto simp: sql_rules split: option.split)
  qed
  have "line_done s w w" if "ml_action l \<noteq> ''modify''"
    using ok that by (simp add: line_done_def s_def shift_def shifted_refl)
  then show ?thesis using add modify discontinue unfolding s_def apply_line_def by (simp add: sql_rules)
qed


lemma apply_lines_shift:
  fixes w :: "'w purchasing_scheme"
  assumes "lines_ok (agreement_lines w)" "\<And>l m. l \<in> set ls \<Longrightarrow> on_grid (nullish (delta_of m l) 0)"
  shows "sok (sfor ls (apply_line t d time)) (\<lambda>_. line_done (\<lambda>m x. \<Sum>l\<leftarrow>ls. shift m x l) w) w"
  using assms
proof (induction ls arbitrary: w)
  case Nil
  then show ?case by (simp add: sql_rules line_done_def shifted_refl)
next
  case (Cons l ls)
  have "sok (apply_line t d time l) (\<lambda>_. line_done (\<lambda>m x. shift m x l) w) w" using Cons.prems by (intro apply_line_shifts) auto
  then show ?case
    unfolding sfor.simps sok_sbind
  proof (rule sok_mono)
    fix v assume v: "line_done (\<lambda>m x. shift m x l) w v"
    have "sok (sfor ls (apply_line t d time)) (\<lambda>_. line_done (\<lambda>m x. \<Sum>l\<leftarrow>ls. shift m x l) v) v"
      using v Cons.prems(2) by (intro Cons.IH) (auto simp: line_done_def)
    then show "sok (sfor ls (apply_line t d time)) (\<lambda>_. line_done (\<lambda>m x. \<Sum>l\<leftarrow>l # ls. shift m x l) w) v"
      by (rule sok_mono) (use v in \<open>auto simp: line_done_def intro: shifted_trans\<close>)
  qed
qed

section \<open>The books of the amendments\<close>

definition book_ok :: "document list \<Rightarrow> history_row list \<Rightarrow> bool" where
  "book_ok ds H \<longleftrightarrow> distinct (map dc_id ds) \<and> (\<forall>i. granted H i \<longrightarrow> i \<in> set (map dc_id ds)) \<and>
     (\<forall>d\<in>set ds. dc_status d \<in> {''draft'', ''submitted''} \<longrightarrow> \<not> granted H (dc_id d))"

definition amend_ok :: "'w purchasing_scheme \<Rightarrow> bool" where
  "amend_ok w \<longleftrightarrow> lines_ok (agreement_lines w) \<and> (\<forall>l\<in>set (amendment_lines w). \<forall>m. on_grid (nullish (delta_of m l) 0)) \<and>
     book_ok (documents w Amendment) (approval_history w)"

definition amending :: "'v purchasing_scheme \<Rightarrow> 'w purchasing_scheme \<Rightarrow> bool" where
  "amending w0 w \<longleftrightarrow> amend_ok w \<and>
     shifted (\<lambda>m x. granted_sum m x w - granted_sum m x w0) (agreement_lines w0) (agreement_lines w)"

lemma granted_snoc: "granted (H @ [h]) i \<longleftrightarrow>
    granted H i \<or> (i = h_ref h \<and> h_type h = ''agreement_amendment'' \<and> h_action h = ''approved'')"
  by (auto simp: granted_def)

lemma granted_approved: "granted (H @ [approved_row t i a]) j \<longleftrightarrow> granted H j \<or> j = i"
  by (simp add: granted_snoc approved_row_def)

lemma sum_split:
  fixes f :: "'x \<Rightarrow> number"
  assumes "\<And>l. a l \<Longrightarrow> \<not> g l"
  shows "(\<Sum>l\<leftarrow>xs. if g l \<or> a l then f l else 0) = (\<Sum>l\<leftarrow>xs. if g l then f l else 0) + (\<Sum>l\<leftarrow>filter a xs. f l)"
  by (induction xs) (auto simp: assms)

lemma book_okI:
  assumes "distinct (map dc_id ds)" "\<And>i. granted H i \<Longrightarrow> i \<in> set (map dc_id ds)"
    "\<And>d. d \<in> set ds \<Longrightarrow> dc_status d \<in> {''draft'', ''submitted''} \<Longrightarrow> \<not> granted H (dc_id d)"
  shows "book_ok ds H"
  using assms unfolding book_ok_def by blast

lemma book_okD:
  assumes "book_ok ds H"
  shows "distinct (map dc_id ds)" "granted H i \<Longrightarrow> i \<in> set (map dc_id ds)"
    "d \<in> set ds \<Longrightarrow> dc_status d \<in> {''draft'', ''submitted''} \<Longrightarrow> \<not> granted H (dc_id d)"
  using assms unfolding book_ok_def by blast+

lemma book_approve:
  assumes ok: "book_ok ds H" and d: "d \<in> set ds" "dc_id d = i" "dc_id d' = i" "dc_status d' = ''approved''"
  shows "book_ok (update_where (\<lambda>r. dc_id r = i) (\<lambda>_. d') ds) (H @ [approved_row t i a])"
proof -
  have ids: "map dc_id (update_where (\<lambda>r. dc_id r = i) (\<lambda>_. d') ds) = map dc_id ds" using d(3) by (simp add: update_where_def)
  show ?thesis
  proof (rule book_okI, unfold ids granted_approved)
    fix x assume x: "x \<in> set (update_where (\<lambda>r. dc_id r = i) (\<lambda>_. d') ds)" "dc_status x \<in> {''draft'', ''submitted''}"
    then have "x \<in> set ds" "dc_id x \<noteq> i" using d(4) by (auto simp: set_update_where split: if_splits)
    then show "\<not> (granted H (dc_id x) \<or> dc_id x = i)" using book_okD(3) [OF ok] x(2) by blast
  qed (use book_okD(1,2) [OF ok] d(1,2) in auto)
qed

lemma amending_apply:
  fixes w :: "'w purchasing_scheme"
  assumes w: "amending w0 w"
  shows "sok (fn_approve_agreement_amendment t i a time) (\<lambda>_. amending w0) w"
proof (cases "find (\<lambda>d. dc_id d = i \<and> dc_tenant d = t) (documents w Amendment)")
  case None
  then show ?thesis by (simp add: fn_approve_agreement_amendment_def find_or_raise_def sql_rules)
next
  case (Some d)
  define ls where "ls = filter (\<lambda>l. ml_amendment l = i) (amendment_lines w)"
  define d' where "d' = d\<lparr>dc_status := ''approved'', dc_approved_by := Some a, dc_approved_at := Some time\<rparr>"
  have d: "d \<in> set (documents w Amendment)" "dc_id d = i" using Some by (auto simp: find_Some_iff)
  have ok: "lines_ok (agreement_lines w)" "book_ok (documents w Amendment) (approval_history w)"
    "\<And>l m. l \<in> set (amendment_lines w) \<Longrightarrow> on_grid (nullish (delta_of m l) 0)"
    using w by (auto simp: amending_def amend_ok_def)
  have "amending w0 ((with_documents Amendment (update_where (\<lambda>r. dc_id r = i) (\<lambda>_. d')) v)\<lparr>approval_history :=
      approval_history v @ [approved_row t i a]\<rparr>)" (is "amending w0 ?v")
    if s: "dc_status d = ''submitted''" and v: "line_done (\<lambda>m x. \<Sum>l\<leftarrow>ls. shift m x l) w v" for v :: "'w purchasing_scheme"
  proof -
    have new: "\<not> granted (approval_history w) i" using ok(2) d s by (auto simp: book_ok_def)
    have view: "amendment_lines v = amendment_lines w" "approval_history v = approval_history w" "documents v = documents w"
      using v by (simp_all add: line_done_def line_view_def)
    have sums: "granted_sum m x ?v = granted_sum m x w + (\<Sum>l\<leftarrow>ls. shift m x l)" for m x
      using sum_split [of "\<lambda>l. ml_amendment l = i" "\<lambda>l. granted (approval_history w) (ml_amendment l)" "shift m x" "amendment_lines w"]
        new by (simp add: granted_sum_def view granted_approved ls_def with_documents_def)
    have "shifted (\<lambda>m x. granted_sum m x ?v - granted_sum m x w0) (agreement_lines w0) (agreement_lines v)"
    proof (rule shifted_trans)
      show "shifted (\<lambda>m x. granted_sum m x w - granted_sum m x w0) (agreement_lines w0) (agreement_lines w)"
        using w by (simp add: amending_def)
      show "shifted (\<lambda>m x. \<Sum>l\<leftarrow>ls. shift m x l) (agreement_lines w) (agreement_lines v)" using v by (simp add: line_done_def)
    qed (simp only: sums)
    moreover have "amend_ok ?v"
      using v ok(3) book_approve [OF ok(2) d, of d'] d(2) by (simp add: amend_ok_def line_done_def view with_documents_def d'_def)
    ultimately show ?thesis by (simp add: amending_def with_documents_def)
  qed
  moreover have "sok (sfor ls (apply_line t d time)) (\<lambda>_. line_done (\<lambda>m x. \<Sum>l\<leftarrow>ls. shift m x l) w) w"
    using ok(1,3) by (intro apply_lines_shift) (auto simp: ls_def)
  ultimately have "sok (sfor ls (apply_line t d time)) (\<lambda>_ v. amending w0 ((with_documents Amendment
      (update_where (\<lambda>r. dc_id r = i) (\<lambda>_. d')) v)\<lparr>approval_history := approval_history v @ [approved_row t i a]\<rparr>)) w"
    if "dc_status d = ''submitted''" using that by (auto elim: sok_mono)
  then show ?thesis using Some
    by (simp add: fn_approve_agreement_amendment_def find_or_raise_def sql_rules approved_row_def [symmetric] Let_def ls_def d'_def)
qed


section \<open>Every request keeps the books\<close>

definition amend_view where
  "amend_view w = (agreement_lines w, amendment_lines w, approval_history w, documents w Amendment)"

lemma amending_view: "amend_view v = amend_view w \<Longrightarrow> amending w0 v = amending w0 w"
  by (simp add: amend_view_def amending_def amend_ok_def granted_sum_def)

interpretation amend: view "amend_view :: 'w purchasing_scheme \<Rightarrow> _"
  by unfold_locales (simp add: amend_view_def)

lemma amending_calls [simp]: "amending w0 (w\<lparr>calls := n\<rparr>) = amending w0 w"
  by (rule amending_view) (simp add: amend_view_def)

lemma amending_keeps: "keeps amend_view m \<Longrightarrow> preserves (amending w0) m"
proof (rule preserves_keeps)
  assume "keeps amend_view m"
  then have "amend_view (snd (m w)) = amend_view w" for w by (simp add: keeps_def)
  then have "amending w0 (snd (m w)) = amending w0 w" for w by (intro amending_view)
  then show "keeps (amending w0) m" by (simp add: keeps_def)
qed

lemma amending_rpc: "skeeps (amending w0) f \<Longrightarrow> preserves (amending w0) (rpc f)"
  by (rule preserves_rpc) simp_all

lemma amending_read: "preserves (amending w0) (orThrow (query f))"
  unfolding orThrow_def by (intro amending_keeps keep_rules amend.keeps_query)

lemma amending_find: "preserves (amending w0) (repo_find k i t)" "preserves (amending w0) (document_findById k i t)"
  unfolding document_findById_def repo_find_def by (intro preserve_rules amending_read)+

text \<open>The table of amendments: a patch that does not reopen one, and a new draft.\<close>

lemma amending_documents:
  "amending w0 w \<Longrightarrow> book_ok (f (documents w Amendment)) (approval_history w) \<Longrightarrow> amending w0 (with_documents Amendment f w)"
  by (simp add: amending_def amend_ok_def granted_sum_def with_documents_def)

lemma amending_other: "k \<noteq> Amendment \<Longrightarrow> amending w0 (with_documents k f w) = amending w0 w"
  by (rule amending_view) (simp add: amend_view_def with_documents_def)

lemma book_patch:
  assumes ok: "book_ok ds H" and f: "\<And>x. dc_id (f x) = dc_id x"
    "\<And>x. P x \<Longrightarrow> dc_status (f x) \<in> {''draft'', ''submitted''} \<Longrightarrow> dc_status x \<in> {''draft'', ''submitted''}"
  shows "book_ok (update_where P f ds) H"
proof (rule book_okI)
  have ids: "map dc_id (update_where P f ds) = map dc_id ds" using f(1) by (simp add: map_update_where)
  show "distinct (map dc_id (update_where P f ds))" "\<And>i. granted H i \<Longrightarrow> i \<in> set (map dc_id (update_where P f ds))"
    unfolding ids using book_okD [OF ok] by blast+
  fix d assume "d \<in> set (update_where P f ds)" "dc_status d \<in> {''draft'', ''submitted''}"
  then obtain x where "x \<in> set ds" "dc_id x = dc_id d" "dc_status x \<in> {''draft'', ''submitted''}"
    using f by (auto simp: set_update_where split: if_splits)
  then show "\<not> granted H (dc_id d)" using book_okD(3) [OF ok] by metis
qed

lemma amending_patch:
  assumes "\<And>x. k = Amendment \<Longrightarrow> dc_id (f x) = dc_id x"
    "\<And>x. k = Amendment \<Longrightarrow> dc_status (f x) \<in> {''draft'', ''submitted''} \<Longrightarrow> (case from of None \<Rightarrow> True | Some ss \<Rightarrow> dc_status x \<in> set ss) \<Longrightarrow>
      dc_status x \<in> {''draft'', ''submitted''}"
  shows "preserves (amending w0) (repo_patch k i t from f)"
proof -
  define hit where "hit = (\<lambda>d :: document. dc_id d = i \<and> dc_tenant d = t \<and> (case from of None \<Rightarrow> True | Some ss \<Rightarrow> dc_status d \<in> set ss))"
  have "amending w0 (with_documents k (update_where hit f) w)" if w: "amending w0 w" for w :: "'w purchasing_scheme"
  proof (cases "k = Amendment")
    case True
    have "book_ok (documents w Amendment) (approval_history w)" using w by (simp add: amending_def amend_ok_def)
    then show ?thesis unfolding True
      by (intro amending_documents [OF w] book_patch) (use assms True in \<open>auto simp: hit_def\<close>)
  qed (use w in \<open>simp add: amending_other\<close>)
  then show ?thesis
    unfolding repo_patch_def statement_def [symmetric] Let_def hit_def [symmetric]
    by (intro preserves_statement) (auto split: sum.split option.split)
qed

lemma amending_softDelete: "preserves (amending w0) (softDelete k i t)"
proof -
  have "amending w0 (with_documents k (update_where P (\<lambda>d. d\<lparr>dc_deleted := True\<rparr>)) w)"
    if w: "amending w0 w" for P and w :: "'w purchasing_scheme"
  proof (cases "k = Amendment")
    case True
    have "book_ok (documents w Amendment) (approval_history w)" using w by (simp add: amending_def amend_ok_def)
    then show ?thesis unfolding True by (intro amending_documents [OF w] book_patch) auto
  qed (use w in \<open>simp add: amending_other\<close>)
  then show ?thesis unfolding softDelete_def statement_def [symmetric] by (intro preserves_statement) auto
qed

text \<open>A step is written to the history; only the stored function writes that an amendment is approved.\<close>

lemma amending_record:
  assumes "k = Amendment \<Longrightarrow> n \<noteq> ''approved''"
  shows "preserves (amending w0) (record_step k i t a s n why)"
proof -
  have "amending w0 (w\<lparr>approval_history := approval_history w @ [h]\<rparr>)"
    if "amending w0 w" "h_type h = reference_type k" "h_action h = n" for w :: "'w purchasing_scheme" and h
  proof -
    have "granted (approval_history w @ [h]) = granted (approval_history w)"
      using that(2,3) assms by (auto simp: granted_snoc fun_eq_iff reference_type_def split: document_kind.splits)
    then show ?thesis using that(1) by (simp add: amending_def amend_ok_def granted_sum_def book_ok_def)
  qed
  note recorded = this
  show ?thesis
    unfolding record_step_def history_record_def statement_def [symmetric]
    by (rule preserves_statement) (simp only: snd_conv, rule recorded, simp_all)
qed

lemmas amending_rules = preserve_rules amending_find amending_read amending_rpc amending_softDelete amending_record amending_patch

lemma amending_lift: "preserves (amending w0) (lift r)"
  by (intro amending_keeps keep_rules)

lemma amending_submit: "preserves (amending w0) (document_submit k i t a)"
  unfolding document_submit_def by (intro amending_rules) auto

lemma amending_approve: "k \<noteq> Amendment \<Longrightarrow> preserves (amending w0) (document_approve k i t a)"
  unfolding document_approve_def Let_def by (intro amending_rules) auto

lemma amending_reject: "preserves (amending w0) (document_reject k i t a why)"
  unfolding document_reject_def by (intro amending_rules amending_lift) auto

lemma amending_cancel: "preserves (amending w0) (document_cancel k ss i t a)"
  unfolding document_cancel_def by (intro amending_rules) auto

lemma amending_cancel_unapproved: "preserves (amending w0) (cancel_unapproved k complaint i t a)"
  unfolding cancel_unapproved_def by (intro amending_rules) auto

lemma amending_finish:
  "k \<noteq> Amendment \<Longrightarrow> preserves (amending w0) after \<Longrightarrow> preserves (amending w0) (document_finish k verb n i t after)"
  unfolding document_finish_def by (intro amending_rules) auto

lemma amending_update:
  "(\<And>x. dc_id (f x) = dc_id x \<and> dc_status (f x) = dc_status x) \<Longrightarrow> preserves (amending w0) (document_update k plural i t f)"
  unfolding document_update_def by (intro amending_rules) auto

lemma amending_remove: "preserves (amending w0) (document_remove k plural i t)"
  unfolding document_remove_def by (intro amending_rules)


text \<open>Creating documents.\<close>

lemma amending_rows:
  "skeeps (amending w0) (insert_rows request_lines request_lines_update ql_id check ms)"
  "skeeps (amending w0) (insert_rows rfq_lines rfq_lines_update ql_id check ms)"
  "skeeps (amending w0) (insert_rows order_lines order_lines_update ol_id check' ms')"
  "skeeps (amending w0) (insert_rows release_lines release_lines_update xl_id check4 ms4)"
  by (intro skeeps_insert_rows amending_view; simp add: amend_view_def)+

lemma amending_row_count [simp]: "amending w0 (w\<lparr>row_count := n\<rparr>) = amending w0 w"
  by (rule amending_view) (simp add: amend_view_def)

lemma sok_new_row_id: "sok new_row_id Q = (\<lambda>w. Q (row_uuid w (row_count w)) (w\<lparr>row_count := Suc (row_count w)\<rparr>))"
  by (simp add: sok_def new_row_id_def fun_eq_iff)

lemma skeeps_insert_each:
  assumes "\<And>w n. J (w\<lparr>row_count := n\<rparr>) = J w"
    and "\<And>w mk i. mk \<in> set ms \<Longrightarrow> J w \<Longrightarrow> \<not> (\<exists>r\<in>set (rows w). key r = i) \<Longrightarrow> J (put (\<lambda>rs. rs @ [mk i]) w)"
  shows "skeeps J (insert_rows rows put key check ms)"
  using assms(2)
proof (induction ms)
  case (Cons mk ms)
  have "sok (insert_rows rows put key check (mk # ms)) (\<lambda>_. J) w" if "J w" for w
  proof -
    have *: "J v \<Longrightarrow> sok (insert_rows rows put key check ms) (\<lambda>_. J) v" for v
      using Cons by (auto intro: skeepsD)
    have "sok (checked (if \<exists>r\<in>set (rows v). key r = i then Some unique_violation else check (mk i))
        (smodify (put (\<lambda>rs. rs @ [mk i])))) (\<lambda>_. sok (insert_rows rows put key check ms) (\<lambda>_. J)) v" if "J v" for i v
      using Cons.prems [of mk v i] that * by (auto simp: checked_def sql_rules split: option.split)
    then show ?thesis using \<open>J w\<close> assms(1)
      by (auto simp: sql_rules sok_new_row_id)
  qed
  then show ?case by (simp add: skeeps_def)
qed (auto intro: sql_keep)

lemma shifted_mono: "shifted s ls ls' \<Longrightarrow> set ls' \<subseteq> set ls'' \<Longrightarrow> shifted s ls ls''"
  unfolding shifted_def by blast

lemma amending_add_line:
  assumes "amending w0 w" "\<not> (\<exists>r\<in>set (agreement_lines w). al_id r = al_id l)" "\<And>m. on_grid (nullish (committed m l) 0)"
  shows "amending w0 (agreement_lines_update (\<lambda>rs. rs @ [l]) w)"
  using assms unfolding amending_def amend_ok_def lines_ok_def granted_sum_def
  by (auto intro: shifted_mono)

lemma amending_add_amendment_line:
  assumes "amending w0 w" "\<not> granted (approval_history w) (ml_amendment l)" "\<And>m. on_grid (nullish (delta_of m l) 0)"
  shows "amending w0 (amendment_lines_update (\<lambda>rs. rs @ [l]) w)"
  using assms unfolding amending_def amend_ok_def granted_sum_def by auto

lemma on_grid_option [simp]: "on_grid (nullish (map_option numeric4 q) 0)"
  by (cases q) simp_all

lemma sok_draft:
  fixes w :: "'w purchasing_scheme"
  assumes "amending w0 w"
  shows "sok (document_insert k t number notes u extra)
    (\<lambda>d v. amending w0 v \<and> (k = Amendment \<longrightarrow> \<not> granted (approval_history v) (dc_id d))) w"
proof -
  have "amending w0 (with_documents k (\<lambda>ds. ds @ [d]) v) \<and> (k = Amendment \<longrightarrow> \<not> granted (approval_history v) (dc_id d))"
    if v: "amending w0 v" and c: "document_check k (documents v k) d = None" and s: "dc_status d = ''draft''"
    for d and v :: "'w purchasing_scheme"
  proof (cases "k = Amendment")
    case True
    have ok: "book_ok (documents v Amendment) (approval_history v)" using v by (simp add: amending_def amend_ok_def)
    have new: "dc_id d \<notin> set (map dc_id (documents v Amendment))"
      using c True by (auto simp: document_check_def split: option.splits if_splits)
    then have not: "\<not> granted (approval_history v) (dc_id d)" using book_okD(2) [OF ok] by blast
    have "book_ok (documents v Amendment @ [d]) (approval_history v)"
      using ok new not by (auto simp: book_ok_def)
    then show ?thesis using True not amending_documents [OF v, of "\<lambda>ds. ds @ [d]"] by simp
  qed (use v in \<open>simp add: amending_other\<close>)
  note drafted = this
  define row where "row = \<lparr>dc_id = row_uuid w (row_count w), dc_tenant = t, dc_number = number, dc_status = ''draft'', dc_notes = notes,
    dc_created_by = u, dc_approved_by = None, dc_approved_at = None, dc_deleted = False, dc_details = extra\<rparr>"
  show ?thesis
    using drafted [of "w\<lparr>row_count := Suc (row_count w)\<rparr>" row] assms
    unfolding document_insert_def Let_def
    by (auto simp: row_def sql_rules checked_def sok_new_row_id split: option.split)
qed

lemma amending_insert: "skeeps (amending w0) (document_insert k t number notes u extra)"
  unfolding skeeps_def by (intro allI impI sok_mono [OF sok_draft]) auto


lemma amending_foldE: "(\<And>a x. preserves (amending w0) (f a x)) \<Longrightarrow> preserves (amending w0) (foldE xs a f)"
  by (induction xs arbitrary: a) (auto intro: preserve_rules)

lemma amending_suppliers: "preserves (amending w0) (insert_suppliers t i ss)" "preserves (amending w0) (mark_suppliers i)"
proof -
  have "keeps amend_view (insert_suppliers t i ss :: ('w purchasing_scheme, unit) io)"
    "keeps amend_view (mark_suppliers i :: ('w purchasing_scheme, unit) io)"
    unfolding insert_suppliers_def mark_suppliers_def orThrow_def
    by (intro keep_rules amend.keeps_exec; simp add: amend_view_def)+
  then show "preserves (amending w0) (insert_suppliers t i ss)" "preserves (amending w0) (mark_suppliers i)"
    by (auto intro: amending_keeps)
qed

lemma amending_agreement_rows:
  "skeeps (amending w0) (insert_rows agreement_lines agreement_lines_update al_id check
     (map (\<lambda>line i. \<lparr>al_id = i, al_tenant = t, al_agreement = g, al_item = ga_item line, al_variant = ga_variant line,
        al_quantity = map_option numeric4 (ga_quantity line), al_value = map_option numeric4 (ga_value line),
        al_notes = ga_notes line, al_added = None, al_ended = None, al_ended_at = None\<rparr>) lines))"
proof (rule skeeps_insert_each)
  fix w :: "'w purchasing_scheme" and mk i
  assume mk: "mk \<in> set (map (\<lambda>line i. \<lparr>al_id = i, al_tenant = t, al_agreement = g, al_item = ga_item line, al_variant = ga_variant line,
        al_quantity = map_option numeric4 (ga_quantity line), al_value = map_option numeric4 (ga_value line),
        al_notes = ga_notes line, al_added = None, al_ended = None, al_ended_at = None\<rparr>) lines)"
    and w: "amending w0 w" "\<not> (\<exists>r\<in>set (agreement_lines w). al_id r = i)"
  have "on_grid (nullish (committed m (mk i)) 0)" for m using mk by (cases m) auto
  then show "amending w0 (agreement_lines_update (\<lambda>rs. rs @ [mk i]) w)" using mk w by (intro amending_add_line) auto
qed simp

lemma amending_amendment_rows:
  "skeeps (\<lambda>w. amending w0 w \<and> \<not> granted (approval_history w) a)
     (insert_rows amendment_lines amendment_lines_update ml_id check (map (amendment_row t a) ls))"
proof (rule skeeps_insert_each)
  fix w :: "'w purchasing_scheme" and mk i
  assume mk: "mk \<in> set (map (amendment_row t a) ls)" and w: "amending w0 w \<and> \<not> granted (approval_history w) a"
  have "on_grid (nullish (delta_of m (mk i)) 0)" for m using mk by (cases m) (auto simp: amendment_row_def)
  then show "amending w0 (amendment_lines_update (\<lambda>rs. rs @ [mk i]) w) \<and>
      \<not> granted (approval_history (amendment_lines_update (\<lambda>rs. rs @ [mk i]) w)) a"
    using mk w by (intro conjI amending_add_amendment_line) (auto simp: amendment_row_def)
qed simp

lemma amending_am_create: "preserves (amending w0) (am_create t dto u)"
proof -
  have "preserves (amending w0) (bindE (rpc (document_insert Amendment t number remark u extra)) (\<lambda>d.
      bindE (rpc (insert_rows amendment_lines amendment_lines_update ml_id check (map (amendment_row t (dc_id d)) ls))) (\<lambda>_.
      repo_find Amendment (dc_id d) t)))" for number remark extra check ls
    unfolding preserves_def
  proof (intro allI impI)
    fix w :: "'w purchasing_scheme" assume w: "amending w0 w"
    have "wp (rpc (document_insert Amendment t number remark u extra))
        (\<lambda>d v. amending w0 v \<and> \<not> granted (approval_history v) (dc_id d)) (\<lambda>_. amending w0) w"
      by (rule wp_rpc_sok [OF sok_mono [OF sok_draft]]) (use w in auto)
    then show "wp (bindE (rpc (document_insert Amendment t number remark u extra)) (\<lambda>d.
      bindE (rpc (insert_rows amendment_lines amendment_lines_update ml_id check (map (amendment_row t (dc_id d)) ls))) (\<lambda>_.
      repo_find Amendment (dc_id d) t))) (\<lambda>_. amending w0) (\<lambda>_. amending w0) w"
    proof (rule wp_bind)
      fix d and v :: "'w purchasing_scheme" assume v: "amending w0 v \<and> \<not> granted (approval_history v) (dc_id d)"
      have "wp (rpc (insert_rows amendment_lines amendment_lines_update ml_id check (map (amendment_row t (dc_id d)) ls)))
          (\<lambda>_. amending w0) (\<lambda>_. amending w0) v"
        by (rule wp_rpc_sok [OF sok_mono [OF skeepsD [OF amending_amendment_rows [where a = "dc_id d"]]]]) (use v in auto)
      then show "wp (bindE (rpc (insert_rows amendment_lines amendment_lines_update ml_id check (map (amendment_row t (dc_id d)) ls)))
          (\<lambda>_. repo_find Amendment (dc_id d) t)) (\<lambda>_. amending w0) (\<lambda>_. amending w0) v"
        by (rule wp_bind) (rule amending_find(1) [unfolded preserves_def, rule_format])
    qed
  qed
  note created = this
  show ?thesis
    unfolding am_create_def getAgreementStatus_def amendment_item_def getItemHasVariants_def
    by (intro created amending_rules amending_foldE)
qed


lemma amending_creates:
  "preserves (amending w0) (pr_create t r u)" "preserves (amending w0) (pr_createFromSuggestions t b wh n ls u)"
  "preserves (amending w0) (po_create t o' u)" "preserves (amending w0) (rfq_create t f u)" "preserves (amending w0) (ag_create t g u)"
  "preserves (amending w0) (rl_create t x u)"
  unfolding pr_createFromSuggestions_def pr_create_def po_create_def rfq_create_def ag_create_def rl_create_def
    getLatestApprovedAmendment_def validateOverage_def buildSnapshotLine_def getAgreementItemCommitted_def
    getApprovedReleasedQuantity_def getEffectivePricing_def fn_create_agreement_release_def insert_release_line_def
    find_or_raise_def Let_def
  by (intro amending_rules amending_foldE amending_lift amending_rows amending_agreement_rows amending_suppliers amending_insert
      sql_keep)+

lemma amending_am_approve: "preserves (amending w0) (am_approve i t a)"
  unfolding am_approve_def am_findById_def Let_def
  by (intro amending_rules) (simp add: skeeps_def amending_apply)

lemma amending_kinds:
  "preserves (amending w0) (submit_of k i t a)" "preserves (amending w0) (approve_of k i t a)"
  "preserves (amending w0) (reject_of k i t a why)" "preserves (amending w0) (cancel_of k i t a)"
  "preserves (amending w0) (remove_of k i t)"
  unfolding submit_of_def approve_of_def reject_of_def cancel_of_def remove_of_def service_defs
    po_submit_def po_cancel_def po_findById_def
  by (auto intro!: amending_submit amending_approve amending_reject amending_cancel amending_remove amending_am_approve
      amending_cancel_unapproved amending_rules split: document_kind.split)

lemma amending_updates:
  "preserves (amending w0) (pr_update i t r)" "preserves (amending w0) (po_update i t x n)" "preserves (amending w0) (rfq_update i t r)"
  "preserves (amending w0) (ag_update i t g)" "preserves (amending w0) (am_update i t x n)" "preserves (amending w0) (rl_update i t n)"
  unfolding service_defs request_patch_def by (intro amending_update; simp)+

lemma amending_finishes: "preserves (amending w0) (rfq_send i t a)" "preserves (amending w0) (ag_close i t a)"
  unfolding rfq_send_def ag_close_def
  by (intro amending_finish amending_rules amending_suppliers; simp)+

lemma amending_answer: "amending w0 w \<Longrightarrow> amending w0 (answer r w)"
  by (cases r) (auto intro: preserves_snd amending_creates amending_am_create amending_kinds amending_updates amending_finishes)

lemma amending_answers: "amending w0 w \<Longrightarrow> amending w0 (fold answer rs w)"
  by (induction rs arbitrary: w) (simp_all add: amending_answer)

section \<open>The properties\<close>

text \<open>C11. An approved amendment is applied once, completely, and for good.  Whatever requests are made on the
  documents of purchasing, in whatever order and whatever calls fail, each committed quantity and
  each committed value of an agreement differs from what it was by exactly the sum of the deltas of
  the amendments whose approval is in the history since: an amendment that was not approved has no
  effect, one that was approved is not applied twice, none is applied in part, and an amendment that
  is rejected after its approval keeps its effect.
\<close>

theorem amendments_apply_once:
  fixes w :: "'w purchasing_scheme"
  assumes "amend_ok w" "l \<in> set (agreement_lines w)"
  shows "\<exists>l'\<in>set (agreement_lines (fold answer rs w)). al_id l' = al_id l \<and>
    (\<forall>m. committed m l' = map_option (\<lambda>c. c + (granted_sum m (al_id l) (fold answer rs w) - granted_sum m (al_id l) w)) (committed m l))"
proof -
  have "amending w w" using assms(1) by (simp add: amending_def shifted_refl)
  then have "amending w (fold answer rs w)" by (rule amending_answers)
  then show ?thesis using assms(2) unfolding amending_def shifted_def by blast
qed


definition demo_amending :: "purchasing_request list" where
  "demo_amending = [CreateAmendment ''t'' \<lparr>cm_agreement = ''g'', cm_number = ''1'', cm_type = ''quantity_change'', cm_expiration = None,
       cm_notes = None, cm_items = [\<lparr>ma_action = ''modify'', ma_target = Some ''l'', ma_item = None, ma_variant = None,
         ma_quantity = Some 5, ma_value = None, ma_price = Some 3, ma_discount = None, ma_notes = None\<rparr>]\<rparr> ''u'',
     Approve Amendment ''r0'' ''t'' ''b'', Submit Amendment ''r0'' ''t'' ''u'', Approve Amendment ''r0'' ''t'' ''b'',
     Approve Amendment ''r0'' ''t'' ''b'', Reject Amendment ''r0'' ''t'' ''b'' ''no'']"

lemma demo_amended:
  "map al_quantity (agreement_lines (fold answer demo_amending demo_purchasing)) = [Some 15]"
  "map dc_status (documents (fold answer demo_amending demo_purchasing) Amendment) = [''rejected'']"
  by code_simp+

lemma demo_amend_ok: "amend_ok demo_purchasing" "demo_commitment \<in> set (agreement_lines demo_purchasing)"
proof -
  have "on_grid (nullish (committed m demo_commitment) 0)" for m by (cases m) (simp_all add: demo_commitment_def on_grid_def)
  then show "amend_ok demo_purchasing" "demo_commitment \<in> set (agreement_lines demo_purchasing)"
    by (simp_all add: amend_ok_def lines_ok_def book_ok_def granted_def demo_purchasing_def warehouse.extend_def stockroom.extend_def)
qed

theorem amendments_apply_once_witness:
  "granted_sum Quantity ''l'' (fold answer demo_amending demo_purchasing) - granted_sum Quantity ''l'' demo_purchasing = 5"
proof -
  obtain x where x: "agreement_lines (fold answer demo_amending demo_purchasing) = [x]" "al_quantity x = Some 15"
    using demo_amended(1) by (auto simp: map_eq_Cons_conv)
  have "committed Quantity x = map_option (\<lambda>c. c + (granted_sum Quantity ''l'' (fold answer demo_amending demo_purchasing) -
      granted_sum Quantity ''l'' demo_purchasing)) (committed Quantity demo_commitment)"
    using amendments_apply_once [OF demo_amend_ok, of demo_amending] x(1) by (auto simp: demo_commitment_def)
  then show ?thesis using x(2) by (simp add: demo_commitment_def)
qed

lemma sum_filter_split:
  fixes f :: "'x \<Rightarrow> number"
  assumes "\<And>x. x \<in> set xs \<Longrightarrow> \<not> (P x \<and> Q x)"
  shows "(\<Sum>x\<leftarrow>filter (\<lambda>x. P x \<or> Q x) xs. f x) = (\<Sum>x\<leftarrow>filter P xs. f x) + (\<Sum>x\<leftarrow>filter Q xs. f x)"
  using assms by (induction xs) auto

text \<open>C27. The policy \<^verbatim>\<open>block\<close> does not hold the commitment.  What is left of it is checked when a release is
  created, against the releases approved until then, and not when a release is approved.  A
  submitted release is approved whatever its lines ask for and whatever is committed, if no call
  fails, and its quantities add to what is released.  The example has two releases of eight pieces
  each against a commitment of ten.
\<close>

theorem approval_ignores_commitment:
  fixes w :: "'w purchasing_scheme"
  assumes "\<And>n. fault w n = None" "distinct (map dc_id (documents w Release))" "d \<in> set (documents w Release)"
    "dc_tenant d = t" "dc_status d = ''submitted''" "\<not> dc_deleted d" "details_ok (dc_details d)"
  shows "\<exists>d' v. rl_approve (dc_id d) t a w = (Inr d', v) \<and> dc_status d' = ''approved'' \<and>
    (\<Sum>x\<leftarrow>approved_lines v l t. xl_quantity x) = (\<Sum>x\<leftarrow>approved_lines w l t. xl_quantity x) +
      (\<Sum>x\<leftarrow>filter (\<lambda>x. xl_release x = dc_id d \<and> xl_target x = l \<and> xl_tenant x = t) (release_lines w). xl_quantity x)"
proof -
  define f where "f = (\<lambda>b n (x :: document). x\<lparr>dc_status := ''approved'', dc_approved_by := b, dc_approved_at := n\<rparr>)"
  define hit where "hit = (\<lambda>x :: document. dc_id x = dc_id d \<and> dc_tenant x = t \<and> dc_status x \<in> {''submitted''})"
  have one: "filter (\<lambda>x. dc_id x = dc_id d \<and> Q x) (documents w Release) = [d]" if "Q d" for Q
    using filter_by_key [OF assms(2,3)] that by blast
  have found: "filter (\<lambda>x. dc_id x = dc_id d \<and> dc_tenant x = t \<and> \<not> dc_deleted x) (documents w Release) = [d]"
    "filter (\<lambda>x. dc_id x = dc_id d \<and> dc_tenant x = t \<and> dc_status x = ''submitted'') (documents w Release) = [d]"
    using one assms(4-6) by simp_all
  have "wp (rl_approve (dc_id d) t a) (\<lambda>d' v. dc_status d' = ''approved'' \<and> release_lines v = release_lines w \<and>
      (\<exists>b n. documents v Release = update_where hit (f b n) (documents w Release))) (\<lambda>_ _. False) w"
    using found assms(1,5,7)
    by (simp add: rl_approve_def document_approve_def document_findById_def repo_find_def repo_patch_def record_step_def
        history_record_def wp_rules Let_def canApprove_def pending_status_def row_check_def statuses_def with_documents_def)
       (auto simp: f_def hit_def)
  then obtain d' v b n where run: "rl_approve (dc_id d) t a w = (Inr d', v)" "dc_status d' = ''approved''"
    "release_lines v = release_lines w" "documents v Release = update_where hit (f b n) (documents w Release)"
    by (auto simp: wp_def split: prod.splits sum.splits)
  have unique: "x = d" if "x \<in> set (documents w Release)" "dc_id x = dc_id d" for x
    using assms(2,3) that by (meson distinct_map inj_onD)
  have hits: "hit x \<longleftrightarrow> x = d" if "x \<in> set (documents w Release)" for x
    using unique [OF that] assms(4,5) unfolding hit_def by blast
  have approved: "list_ex (\<lambda>x. dc_id x = r \<and> dc_status x = ''approved'') (documents v Release) \<longleftrightarrow>
      list_ex (\<lambda>x. dc_id x = r \<and> dc_status x = ''approved'') (documents w Release) \<or> r = dc_id d" for r
  proof -
    have "dc_id (if hit x then f b n x else x) = r \<and> dc_status (if hit x then f b n x else x) = ''approved'' \<longleftrightarrow>
        (dc_id x = r \<and> dc_status x = ''approved'') \<or> (x = d \<and> r = dc_id d)" if "x \<in> set (documents w Release)" for x
      using hits [OF that] assms(5) by (cases "x = d") (auto simp: f_def)
    then show ?thesis using assms(3) unfolding run(4) list_ex_iff set_update_where by blast
  qed
  have before: "\<not> list_ex (\<lambda>x. dc_id x = dc_id d \<and> dc_status x = ''approved'') (documents w Release)"
    using unique assms(5) by (force simp: list_ex_iff)
  have "approved_lines v l t = filter (\<lambda>x. (xl_target x = l \<and> xl_tenant x = t \<and> list_ex (\<lambda>d. dc_id d = xl_release x \<and>
      dc_status d = ''approved'') (documents w Release)) \<or> (xl_release x = dc_id d \<and> xl_target x = l \<and> xl_tenant x = t)) (release_lines w)"
    unfolding approved_lines_def approved run(3) by (rule filter_cong) auto
  then have "(\<Sum>x\<leftarrow>approved_lines v l t. xl_quantity x) = (\<Sum>x\<leftarrow>approved_lines w l t. xl_quantity x) +
      (\<Sum>x\<leftarrow>filter (\<lambda>x. xl_release x = dc_id d \<and> xl_target x = l \<and> xl_tenant x = t) (release_lines w). xl_quantity x)"
    using before by (simp add: approved_lines_def) (rule sum_filter_split, auto)
  then show ?thesis using run(1,2) by blast
qed


definition demo_release_line :: "string \<Rightarrow> release_line" where
  "demo_release_line r = \<lparr>xl_id = r, xl_tenant = ''t'', xl_release = r, xl_target = ''l'', xl_tier = None, xl_quantity = 8, xl_price = 5,
     xl_discount = 0, xl_currency = ''SAR'', xl_tax = None, xl_amount = 40, xl_notes = None\<rparr>"

definition demo_two :: purchasing where
  "demo_two = demo_purchasing\<lparr>documents := (documents demo_purchasing)(Release :=
       [demo_document ''x'' ''approved'' (ReleaseDetails ''g'' None), demo_document ''y'' ''submitted'' (ReleaseDetails ''g'' None)]),
     release_lines := [demo_release_line ''x'', demo_release_line ''y'']\<rparr>"

lemma demo_fault [simp]: "fault demo_purchasing n = None"
  by (simp add: demo_purchasing_def warehouse.extend_def stockroom.extend_def demo_stock_def pos.extend_def demo_pos_def
      demo_shop_def catalog.extend_def)

theorem approval_ignores_commitment_witness:
  "policy_of demo_agreement = ''block'' \<and> al_quantity demo_commitment = Some 10 \<and>
   (\<exists>d' v. rl_approve ''y'' ''t'' ''b'' demo_two = (Inr d', v) \<and> (\<Sum>x\<leftarrow>approved_lines v ''l'' ''t''. xl_quantity x) = 16)"
proof -
  define y where "y = demo_document ''y'' ''submitted'' (ReleaseDetails ''g'' None)"
  have y: "dc_id y = ''y''" by (simp add: y_def demo_document_def)
  have "\<exists>d' v. rl_approve (dc_id y) ''t'' ''b'' demo_two = (Inr d', v) \<and> dc_status d' = ''approved'' \<and>
    (\<Sum>x\<leftarrow>approved_lines v ''l'' ''t''. xl_quantity x) = (\<Sum>x\<leftarrow>approved_lines demo_two ''l'' ''t''. xl_quantity x) +
      (\<Sum>x\<leftarrow>filter (\<lambda>x. xl_release x = dc_id y \<and> xl_target x = ''l'' \<and> xl_tenant x = ''t'') (release_lines demo_two). xl_quantity x)"
    by (rule approval_ignores_commitment) (simp_all add: demo_two_def demo_document_def y_def)
  moreover have "(\<Sum>x\<leftarrow>approved_lines demo_two ''l'' ''t''. xl_quantity x) = 8"
    by (simp add: demo_two_def demo_document_def demo_release_line_def approved_lines_def)
  moreover have "(\<Sum>x\<leftarrow>filter (\<lambda>x. xl_release x = ''y'' \<and> xl_target x = ''l'' \<and> xl_tenant x = ''t'') (release_lines demo_two). xl_quantity x) = 8"
    by (simp add: demo_two_def demo_release_line_def)
  ultimately show ?thesis unfolding y by (auto simp: demo_agreement_def demo_document_def policy_of_def demo_commitment_def)
qed

end
