(* ===== verification/ReleasePrices.thy ===== *)
theory ReleasePrices
  imports Commitments
begin

text \<open>
  What a release contains: a specification of its lines over the agreement, its pricing and the
  releases approved before, and the proof that creating a release writes exactly such lines.  The
  specification is written over the rows of the tables and rational arithmetic; it uses none of
  the functions that compute a release.
\<close>

section \<open>The specification of a line\<close>

text \<open>The price in force for a quantity: of the first tier, in their order, that holds the quantity, or the fixed one.\<close>

definition holds_quantity :: "number \<Rightarrow> price_tier \<Rightarrow> bool" where
  "holds_quantity q x \<longleftrightarrow> fl (gt_min x) \<le> q \<and> (\<forall>m. gt_max x = Some m \<longrightarrow> q \<le> fl m)"

definition price_in_force :: "'w purchasing_scheme \<Rightarrow> string \<Rightarrow> pricing_row \<Rightarrow> number \<Rightarrow> number \<Rightarrow> number \<Rightarrow> string option \<Rightarrow> bool" where
  "price_in_force w t p q unitPrice percent tier \<longleftrightarrow>
     (if gp_type p = ''tiered'' then
        \<exists>x\<in>set (pricing_tiers w). gt_pricing x = gp_id p \<and> gt_tenant x = t \<and> holds_quantity q x \<and>
          (\<forall>y\<in>set (pricing_tiers w). gt_pricing y = gp_id p \<and> gt_tenant y = t \<and> holds_quantity q y \<longrightarrow> gt_order x \<le> gt_order y) \<and>
          unitPrice = fl (gt_price x) \<and> percent = fl (nullish (gt_discount x) 0) \<and> tier = Some (gt_id x)
      else gp_type p \<noteq> ''rule_based'' \<and> unitPrice = fl (nullish (gp_price p) 0) \<and> percent = fl (nullish (gp_discount p) 0) \<and> tier = None)"

text \<open>What approved releases of the tenant hold for an item of an agreement, added up.\<close>

definition released_before :: "'w purchasing_scheme \<Rightarrow> string \<Rightarrow> string \<Rightarrow> number" where
  "released_before w i t = foldl (\<lambda>acc x. fadd acc (fl (xl_quantity x))) 0
     (filter (\<lambda>x. xl_target x = i \<and> xl_tenant x = t \<and>
        (\<exists>d\<in>set (documents w Release). dc_id d = xl_release x \<and> dc_status d = ''approved'')) (release_lines w))"

text \<open>
  The amount of a line: quantity times price, less the discount, plus the tax, within two cents
  (discount, tax and the amount itself are rounded to a cent each) and a thousandth of rounding of
  the doubles.  It is stated for lines of up to 2 to the 30 in value.
\<close>

definition right_amount :: "number \<Rightarrow> number \<Rightarrow> number \<Rightarrow> number option \<Rightarrow> number \<Rightarrow> bool" where
  "right_amount q p d tax x \<longleftrightarrow>
     (0 \<le> q \<and> 0 \<le> p \<and> q * p \<le> 2 ^ 30 \<and> 0 \<le> d \<and> d \<le> 100 \<and> 0 \<le> nullish tax 0 \<and> nullish tax 0 \<le> 100 \<longrightarrow>
      \<bar>x - q * p * (1 - d / 100) * (1 + nullish tax 0 / 100)\<bar> \<le> 21 / 1000)"

definition within_commitment :: "'w purchasing_scheme \<Rightarrow> string \<Rightarrow> document \<Rightarrow> release_line_dto \<Rightarrow> bool" where
  "within_commitment w t g line \<longleftrightarrow> (\<exists>l\<in>set (agreement_lines w). al_id l = rl_target line \<and> al_tenant l = t \<and> al_agreement l = dc_id g \<and>
     (case al_quantity l of None \<Rightarrow> True
      | Some c \<Rightarrow> policy_of g = ''block'' \<longrightarrow> rl_quantity line \<le> fsub (fl c) (released_before w (rl_target line) t)))"

definition priced :: "'w purchasing_scheme \<Rightarrow> string \<Rightarrow> string \<Rightarrow> release_line_dto \<Rightarrow> release_line \<Rightarrow> bool" where
  "priced w t currency line x \<longleftrightarrow> (\<exists>p\<in>set (agreement_pricing w). \<exists>unitPrice percent. gp_target p = rl_target line \<and> gp_tenant p = t \<and>
     price_in_force w t p (rl_quantity line) unitPrice percent (xl_tier x) \<and> xl_price x = unitPrice \<and> xl_discount x = percent \<and>
     xl_tax x = map_option fl (gp_tax p) \<and> right_amount (rl_quantity line) unitPrice percent (map_option fl (gp_tax p)) (xl_amount x) \<and>
     xl_target x = rl_target line \<and> xl_quantity x = rl_quantity line \<and> xl_currency x = currency \<and> xl_notes x = rl_notes line)"

section \<open>The amount\<close>

lemma round2_error:
  assumes "\<bar>y\<bar> \<le> 8589934592" shows "\<bar>round2 y - y\<bar> \<le> 1 / 200 + 1 / 524288"
proof -
  have c: "\<bar>of_int (to_cents y) / 100 - y\<bar> \<le> 1 / 200"
  proof (cases "y < 0")
    case True
    have "of_int \<lfloor>- y * 100 + 1 / 2\<rfloor> \<le> - y * 100 + 1 / 2" "- y * 100 + 1 / 2 < of_int \<lfloor>- y * 100 + 1 / 2\<rfloor> + 1" by linarith+
    with True show ?thesis unfolding to_cents_def abs_le_iff if_P [OF True] of_int_minus by linarith
  next
    case False
    have "of_int \<lfloor>y * 100 + 1 / 2\<rfloor> \<le> y * 100 + 1 / 2" "y * 100 + 1 / 2 < of_int \<lfloor>y * 100 + 1 / 2\<rfloor> + 1" by linarith+
    with False show ?thesis unfolding to_cents_def abs_le_iff if_not_P [OF False] by linarith
  qed
  have "\<bar>of_int (to_cents y) / 100 :: rat\<bar> \<le> 17179869184" using c assms unfolding abs_le_iff by linarith
  then have "\<bar>fl (of_int (to_cents y) / 100) - of_int (to_cents y) / 100\<bar> \<le> 1 / 524288" by (intro fl_error_small) simp
  moreover have "round2 y = fl (of_int (to_cents y) / 100)" using assms by (simp add: round2_def)
  ultimately show ?thesis using c unfolding abs_le_iff by linarith
qed

lemma percentage_error:
  assumes "\<bar>s\<bar> \<le> 4294967296" "0 \<le> d" "d \<le> 100"
  shows "\<bar>applyPercentageDiscount s d - s * d / 100\<bar> \<le> 1 / 200 + 1 / 131072"
proof -
  have sd: "\<bar>s * d\<bar> \<le> 4294967296 * 100" unfolding abs_mult using assms by (intro mult_mono) auto
  then have "\<bar>s * d\<bar> \<le> 2 ^ 40" by simp
  then have m: "\<bar>fmul s d - s * d\<bar> \<le> 1 / 8192" unfolding fmul_def by (rule fl_error_money)
  then have "\<bar>fmul s d / 100\<bar> \<le> 17179869184" using sd unfolding abs_le_iff by linarith
  then have q: "\<bar>fdiv (fmul s d) 100 - fmul s d / 100\<bar> \<le> 1 / 524288" unfolding fdiv_def by (intro fl_error_small) simp
  then have "\<bar>fdiv (fmul s d) 100\<bar> \<le> 8589934592" using m sd unfolding abs_le_iff by linarith
  from round2_error [OF this] q m(1) show ?thesis unfolding applyPercentageDiscount_def abs_le_iff by linarith
qed

lemma factor_error:
  fixes a b f g e :: rat
  assumes "\<bar>a - b\<bar> \<le> e" "0 \<le> f" "f \<le> g" "0 \<le> e" shows "\<bar>a * f - b * f\<bar> \<le> e * g"
proof -
  have "\<bar>a * f - b * f\<bar> = \<bar>a - b\<bar> * f" using assms(2) by (simp add: left_diff_distrib [symmetric] abs_mult)
  also have "\<dots> \<le> e * g" using assms by (intro mult_mono) auto
  finally show ?thesis .
qed

lemma errors_add:
  fixes x y z u v w :: rat
  assumes "\<bar>x - y\<bar> \<le> 1 / 200 + 1 / 524288" "\<bar>y - (u + v)\<bar> \<le> 1 / 524288" "\<bar>v - w\<bar> \<le> 1 / 200 + 1 / 131072"
    "\<bar>u + w - z\<bar> \<le> 8217 / 819200"
  shows "\<bar>x - z\<bar> \<le> 21 / 1000"
  using assms unfolding abs_le_iff by linarith

lemma released_amount_right: "right_amount q p d tax (released_amount q p d tax)"
  unfolding right_amount_def
proof (intro impI, elim conjE)
  assume b: "0 \<le> q" "0 \<le> p" "q * p \<le> 2 ^ 30" "0 \<le> d" "d \<le> 100" "0 \<le> nullish tax 0" "nullish tax 0 \<le> 100"
  define s where "s = fmul q p"
  define a where "a = applyPercentageDiscount s d"
  define net where "net = fsub s a"
  define t where "t = (case tax of None \<Rightarrow> 0 | Some r \<Rightarrow> applyPercentageDiscount net r)"
  let ?r = "nullish tax 0"
  have qp: "0 \<le> q * p" "q * p \<le> 1073741824" using b(1-3) by simp_all
  have s: "\<bar>s - q * p\<bar> \<le> 1 / 524288" unfolding s_def fmul_def using qp by (intro fl_error_small) simp
  then have s': "\<bar>s\<bar> \<le> 1073741824 + 1" using qp unfolding abs_le_iff by linarith
  have "\<bar>s * (d / 100)\<bar> \<le> (1073741824 + 1) * 1" unfolding abs_mult using s' b by (intro mult_mono) auto
  then have sd: "\<bar>s * d / 100\<bar> \<le> 1073741825" by simp
  have a: "\<bar>a - s * d / 100\<bar> \<le> 1 / 200 + 1 / 131072" unfolding a_def using s' b by (intro percentage_error) auto
  have sa: "\<bar>s - a\<bar> \<le> 2147483648 + 3" using s' sd a unfolding abs_le_iff by linarith
  have n: "\<bar>net - (s - a)\<bar> \<le> 1 / 524288" unfolding net_def fsub_def using sa by (intro fl_error_small) simp
  have sd': "\<bar>s * (1 - d / 100) - q * p * (1 - d / 100)\<bar> \<le> 1 / 524288 * 1"
    by (rule factor_error [OF s]) (use b in auto)
  have net: "\<bar>net - q * p * (1 - d / 100)\<bar> \<le> 1 / 200 + 1 / 65536"
    using n a sd'
    unfolding right_diff_distrib distrib_left mult_1_right times_divide_eq_right abs_le_iff by linarith
  have n': "\<bar>net\<bar> \<le> 4294967296" using n sa unfolding abs_le_iff by linarith
  have t: "\<bar>t - net * ?r / 100\<bar> \<le> 1 / 200 + 1 / 131072"
  proof (cases tax)
    case (Some r)
    then show ?thesis using percentage_error [OF n', of r] b(6,7) by (simp add: t_def nullish_def)
  qed (simp add: t_def nullish_def)
  have nr: "\<bar>net * (1 + ?r / 100) - q * p * (1 - d / 100) * (1 + ?r / 100)\<bar> \<le> (1 / 200 + 1 / 65536) * 2"
    by (rule factor_error [OF net]) (use b in auto)
  have "\<bar>net\<bar> \<le> 2147483652" using n sa unfolding abs_le_iff by linarith
  then have "\<bar>net * (?r / 100)\<bar> \<le> 2147483652 * 1" unfolding abs_mult using b by (intro mult_mono) auto
  then have nr': "\<bar>net * ?r / 100\<bar> \<le> 2147483652" by simp
  have nt: "\<bar>net + t\<bar> \<le> 8589934592 - 1" using n sa nr' t unfolding abs_le_iff by linarith
  then have f: "\<bar>fadd net t - (net + t)\<bar> \<le> 1 / 524288" unfolding fadd_def by (intro fl_error_small) simp
  then have "\<bar>fadd net t\<bar> \<le> 8589934592" using nt unfolding abs_le_iff by linarith
  then have rd: "\<bar>round2 (fadd net t) - fadd net t\<bar> \<le> 1 / 200 + 1 / 524288" by (rule round2_error)
  have "net * (1 + ?r / 100) = net + net * ?r / 100" by (simp add: distrib_left)
  then have "\<bar>net + net * ?r / 100 - q * p * (1 - d / 100) * (1 + ?r / 100)\<bar> \<le> 8217 / 819200" using nr by simp
  with rd f t have "\<bar>round2 (fadd net t) - q * p * (1 - d / 100) * (1 + ?r / 100)\<bar> \<le> 21 / 1000"
    by (rule errors_add)
  moreover have "released_amount q p d tax = round2 (fadd net t)"
    by (simp add: released_amount_def Let_def t_def net_def a_def s_def split: option.split)
  ultimately show "\<bar>released_amount q p d tax - q * p * (1 - d / 100) * (1 + ?r / 100)\<bar> \<le> 21 / 1000" by simp
qed

section \<open>Reading and pricing\<close>

lemma tier_matches_holds: "tier_matches q = holds_quantity q"
  by (auto simp: fun_eq_iff tier_matches_def holds_quantity_def split: option.split)

lemma released_before_approved: "released_before w i t = foldl (\<lambda>acc x. fadd acc (fl (xl_quantity x))) 0 (approved_lines w i t)"
  by (simp add: released_before_def approved_lines_def list_ex_iff)

definition release_view where
  "release_view w = (documents w, agreement_lines w, release_lines w, agreement_pricing w, pricing_tiers w)"

lemma release_view_calls [simp]: "release_view (w\<lparr>calls := n\<rparr>) = release_view w"
  by (simp add: release_view_def)

lemma released_before_view: "release_view v = release_view w \<Longrightarrow> released_before v = released_before w"
  by (simp add: release_view_def released_before_def fun_eq_iff)

lemma spec_view:
  assumes "release_view v = release_view w"
  shows "within_commitment v = within_commitment w" "priced v = priced w"
proof -
  have "agreement_lines v = agreement_lines w" "agreement_pricing v = agreement_pricing w" "pricing_tiers v = pricing_tiers w"
    using assms by (simp_all add: release_view_def)
  then show "within_commitment v = within_commitment w" "priced v = priced w"
    by (intro ext; simp only: within_commitment_def released_before_view [OF assms] priced_def price_in_force_def)+
qed

lemma sorted_find:
  "find P (sort_key k xs) = Some x \<Longrightarrow> x \<in> set xs \<and> P x \<and> (\<forall>y\<in>set xs. P y \<longrightarrow> k x \<le> k y)"
proof -
  have "sorted (map k zs) \<Longrightarrow> find P zs = Some x \<Longrightarrow> x \<in> set zs \<and> P x \<and> (\<forall>y\<in>set zs. P y \<longrightarrow> k x \<le> k y)" for zs
    by (induction zs) (auto split: if_splits)
  from this [of "sort_key k xs"] show "find P (sort_key k xs) = Some x \<Longrightarrow> ?thesis" by simp
qed

lemma wp_overage:
  fixes w :: "'w purchasing_scheme"
  shows "wp (validateOverage line g t) (\<lambda>_ v. release_view v = release_view w \<and> within_commitment w t g line) (\<lambda>_ _. True) w"
  unfolding validateOverage_def getAgreementItemCommitted_def getApprovedReleasedQuantity_def
  by (auto simp: wp_rules Let_def within_commitment_def released_before_approved approved_lines_def dest!: maybeSingle_SomeD filter_oneD
      split: option.split sum.split)

lemma wp_pricing:
  fixes w :: "'w purchasing_scheme"
  shows "wp (getEffectivePricing i t) (\<lambda>r v. release_view v = release_view w \<and> (case r of None \<Rightarrow> True | Some (p, tiers) \<Rightarrow>
      p \<in> set (agreement_pricing w) \<and> gp_target p = i \<and> gp_tenant p = t \<and>
      (gp_type p = ''tiered'' \<longrightarrow> tiers = sort_key gt_order (filter (\<lambda>x. gt_pricing x = gp_id p \<and> gt_tenant x = t) (pricing_tiers w)))))
    (\<lambda>_ _. True) w"
  unfolding getEffectivePricing_def
  by (auto simp: wp_rules dest!: maybeSingle_SomeD filter_oneD split: option.split sum.split)

lemma effective_in_force:
  assumes "effective_price line (p, tiers) = Inr (u, d, tier)"
    "gp_type p = ''tiered'' \<longrightarrow> tiers = sort_key gt_order (filter (\<lambda>x. gt_pricing x = gp_id p \<and> gt_tenant x = t) (pricing_tiers w))"
  shows "price_in_force w t p (rl_quantity line) u d tier"
proof (cases "gp_type p = ''tiered''")
  case True
  then obtain x where x: "find (tier_matches (rl_quantity line)) tiers = Some x"
    "u = fl (gt_price x)" "d = fl (nullish (gt_discount x) 0)" "tier = Some (gt_id x)"
    using assms(1) by (auto simp: effective_price_def split: option.splits)
  have tiers: "tiers = sort_key gt_order (filter (\<lambda>x. gt_pricing x = gp_id p \<and> gt_tenant x = t) (pricing_tiers w))"
    using True assms(2) by simp
  from sorted_find [OF x(1) [unfolded tiers]] show ?thesis
    using True x(2-4) unfolding price_in_force_def tier_matches_holds by (auto intro!: bexI [of _ x])
next
  case False
  then show ?thesis using assms(1) by (auto simp: effective_price_def price_in_force_def split: if_splits)
qed

lemma wp_snapshot:
  fixes w :: "'w purchasing_scheme"
  shows "wp (buildSnapshotLine line t c) (\<lambda>x v. release_view v = release_view w \<and> priced w t c line x) (\<lambda>_ _. True) w"
  unfolding buildSnapshotLine_def
proof (rule wp_bind [OF wp_mono [OF wp_pricing]])
  fix r and v :: "'w purchasing_scheme"
  assume r: "release_view v = release_view w \<and> (case r of None \<Rightarrow> True | Some (p, tiers) \<Rightarrow>
      p \<in> set (agreement_pricing w) \<and> gp_target p = rl_target line \<and> gp_tenant p = t \<and>
      (gp_type p = ''tiered'' \<longrightarrow> tiers = sort_key gt_order (filter (\<lambda>x. gt_pricing x = gp_id p \<and> gt_tenant x = t) (pricing_tiers w))))"
  show "wp (case r of None \<Rightarrow> throw (bad_request (''No pricing configured for agreement_item '' @ rl_target line))
     | Some e \<Rightarrow> bindE (lift (effective_price line e)) (\<lambda>price.
       ret (snapshot_line line c (map_option fl (gp_tax (fst e))) price)))
     (\<lambda>x v. release_view v = release_view w \<and> priced w t c line x) (\<lambda>_ _. True) v"
  proof (cases r)
    case (Some e)
    obtain p tiers where e: "e = (p, tiers)" by (cases e)
    have "price_in_force w t p (rl_quantity line) u d tier" if "effective_price line (p, tiers) = Inr (u, d, tier)" for u d tier
      by (rule effective_in_force [OF that]) (use r Some e in simp)
    then show ?thesis using r Some e
      by (auto simp: wp_rules Let_def priced_def released_amount_right split: sum.split intro!: bexI [of _ p])
  qed (simp add: wp_rules)
qed auto


section \<open>Creating a release\<close>

definition agreed :: "'w purchasing_scheme \<Rightarrow> string \<Rightarrow> document \<Rightarrow> release_line_dto \<Rightarrow> release_line \<Rightarrow> bool" where
  "agreed w t g line x \<longleftrightarrow> within_commitment w t g line \<and> priced w t (currency_of g) line x"

lemma wp_lines:
  fixes w v :: "'w purchasing_scheme"
  assumes "release_view v = release_view w" "list_all2 (agreed w t g) done_lines acc"
  shows "wp (foldE lines acc (\<lambda>acc line. bindE (validateOverage line g t) (\<lambda>_.
      bindE (buildSnapshotLine line t (currency_of g)) (\<lambda>x. ret (acc @ [x])))))
    (\<lambda>xs v. release_view v = release_view w \<and> list_all2 (agreed w t g) (done_lines @ lines) xs) (\<lambda>_ _. True) v"
  using assms
proof (induction lines arbitrary: v acc done_lines)
  case Nil
  then show ?case by (simp add: wp_rules)
next
  case (Cons line lines)
  have "wp (bindE (validateOverage line g t) (\<lambda>_. bindE (buildSnapshotLine line t (currency_of g)) (\<lambda>x. ret (acc @ [x]))))
      (\<lambda>acc' u. release_view u = release_view w \<and> list_all2 (agreed w t g) (done_lines @ [line]) acc') (\<lambda>_ _. True) v"
  proof (rule wp_bind [OF wp_overage])
    fix u' :: "'w purchasing_scheme" assume u': "release_view u' = release_view v \<and> within_commitment v t g line"
    show "wp (bindE (buildSnapshotLine line t (currency_of g)) (\<lambda>x. ret (acc @ [x])))
      (\<lambda>acc' u. release_view u = release_view w \<and> list_all2 (agreed w t g) (done_lines @ [line]) acc') (\<lambda>_ _. True) u'"
    proof (rule wp_bind [OF wp_snapshot])
      fix x and u :: "'w purchasing_scheme" assume u: "release_view u = release_view u' \<and> priced u' t (currency_of g) line x"
      have "agreed w t g line x" using u u' Cons.prems(1) spec_view [of u' w] spec_view [of v w] by (simp add: agreed_def)
      then have "list_all2 (agreed w t g) (done_lines @ [line]) (acc @ [x])" using Cons.prems(2) by (simp add: list_all2_appendI)
      then show "wp (ret (acc @ [x])) (\<lambda>acc' u. release_view u = release_view w \<and>
          list_all2 (agreed w t g) (done_lines @ [line]) acc') (\<lambda>_ _. True) u"
        using u u' Cons.prems(1) by (simp add: wp_rules)
    qed
  qed
  then show ?case
    unfolding foldE.simps
  proof (rule wp_bind)
    fix acc' and u :: "'w purchasing_scheme"
    assume "release_view u = release_view w \<and> list_all2 (agreed w t g) (done_lines @ [line]) acc'"
    then show "wp (foldE lines acc' (\<lambda>acc line. bindE (validateOverage line g t) (\<lambda>_.
        bindE (buildSnapshotLine line t (currency_of g)) (\<lambda>x. ret (acc @ [x])))))
      (\<lambda>xs v. release_view v = release_view w \<and> list_all2 (agreed w t g) (done_lines @ line # lines) xs) (\<lambda>_ _. True) u"
      using Cons.IH [of u "done_lines @ [line]" acc'] by simp
  qed
qed

text \<open>The stored function writes the release and its lines, rounded to the columns.\<close>

lemma sok_release_lines:
  fixes w :: "'w purchasing_scheme"
  assumes "documents w = documents w0"
  shows "sok (sfor xs (insert_release_line t g r)) (\<lambda>_ v. documents v = documents w0 \<and>
    (\<exists>ids. length ids = length xs \<and> release_lines v = release_lines w @ map2 (release_row t r) xs ids)) w"
  using assms
proof (induction xs arbitrary: w)
  case Nil
  then show ?case by (simp add: sql_rules)
next
  case (Cons x xs)
  have "sok (insert_release_line t g r x) (\<lambda>_ v. documents v = documents w0 \<and>
      (\<exists>i. release_lines v = release_lines w @ [release_row t r x i])) w"
    using Cons.prems unfolding insert_release_line_def
    by (auto simp: sql_rules sok_new_row_id checked_def split: option.split)
  then show ?case unfolding sfor.simps sok_sbind
  proof (rule sok_mono)
    fix v :: "'w purchasing_scheme"
    assume v: "documents v = documents w0 \<and> (\<exists>i. release_lines v = release_lines w @ [release_row t r x i])"
    then obtain i where i: "release_lines v = release_lines w @ [release_row t r x i]" by blast
    show "sok (sfor xs (insert_release_line t g r)) (\<lambda>_ v. documents v = documents w0 \<and>
      (\<exists>ids. length ids = length (x # xs) \<and> release_lines v = release_lines w @ map2 (release_row t r) (x # xs) ids)) v"
    proof (rule sok_mono [OF Cons.IH])
      show "documents v = documents w0" using v by simp
      fix u :: "'w purchasing_scheme"
      assume "documents u = documents w0 \<and> (\<exists>ids. length ids = length xs \<and> release_lines u = release_lines v @ map2 (release_row t r) xs ids)"
      then obtain ids where "documents u = documents w0" "length ids = length xs" "release_lines u = release_lines v @ map2 (release_row t r) xs ids"
        by blast
      then show "documents u = documents w0 \<and> (\<exists>ids. length ids = length (x # xs) \<and>
          release_lines u = release_lines w @ map2 (release_row t r) (x # xs) ids)"
        by (intro conjI exI [of _ "i # ids"]) (simp_all add: i)
    qed
  qed
qed


lemma sok_create_release:
  fixes w :: "'w purchasing_scheme"
  shows "sok (fn_create_agreement_release t g number remark am u xs) (\<lambda>d v. dc_status d = ''draft'' \<and> dc_tenant d = t \<and>
    documents v = (documents w)(Release := documents w Release @ [d]) \<and>
    (\<exists>ids. length ids = length xs \<and> release_lines v = release_lines w @ map2 (release_row t (dc_id d)) xs ids)) w"
proof -
  have ins: "sok (document_insert Release t number remark u extra) (\<lambda>d v. dc_status d = ''draft'' \<and> dc_tenant d = t \<and>
      documents v = (documents w)(Release := documents w Release @ [d]) \<and> release_lines v = release_lines w) w" for extra
    unfolding document_insert_def Let_def
    by (auto simp: sql_rules sok_new_row_id checked_def with_documents_def split: option.split)
  have "sok (sbind (document_insert Release t number remark u extra) (\<lambda>r. sbind (sfor xs (insert_release_line t g (dc_id r))) (\<lambda>_. sret r)))
      (\<lambda>d v. dc_status d = ''draft'' \<and> dc_tenant d = t \<and> documents v = (documents w)(Release := documents w Release @ [d]) \<and>
        (\<exists>ids. length ids = length xs \<and> release_lines v = release_lines w @ map2 (release_row t (dc_id d)) xs ids)) w" for extra
    unfolding sok_sbind
  proof (rule sok_mono [OF ins])
    fix d and v :: "'w purchasing_scheme"
    assume d: "dc_status d = ''draft'' \<and> dc_tenant d = t \<and> documents v = (documents w)(Release := documents w Release @ [d]) \<and>
      release_lines v = release_lines w"
    show "sok (sfor xs (insert_release_line t g (dc_id d))) (\<lambda>_. sok (sret d) (\<lambda>d v. dc_status d = ''draft'' \<and> dc_tenant d = t \<and>
        documents v = (documents w)(Release := documents w Release @ [d]) \<and>
        (\<exists>ids. length ids = length xs \<and> release_lines v = release_lines w @ map2 (release_row t (dc_id d)) xs ids))) v"
      by (rule sok_mono [OF sok_release_lines [OF refl]]) (use d in \<open>simp add: sql_rules\<close>)
  qed
  then show ?thesis
    unfolding fn_create_agreement_release_def find_or_raise_def
    by (auto simp: sok_sget sok_sbind sok_srequire sok_sfail sok_sret sok_case_option split: option.split)
qed

definition released :: "string \<Rightarrow> create_release \<Rightarrow> 'w purchasing_scheme \<Rightarrow> 'w purchasing_scheme \<Rightarrow> bool" where
  "released t dto w v \<longleftrightarrow> (\<exists>g d xs ids. g \<in> set (documents w Agreement) \<and> dc_id g = crl_agreement dto \<and> dc_tenant g = t \<and>
    dc_status g = ''approved'' \<and> dc_status d = ''draft'' \<and> documents v = (documents w)(Release := documents w Release @ [d]) \<and>
    release_lines v = release_lines w @ map2 (release_row t (dc_id d)) xs ids \<and> length ids = length xs \<and>
    list_all2 (agreed w t g) (crl_items dto) xs)"

lemma wp_repo_find:
  fixes w :: "'w purchasing_scheme"
  shows "wp (repo_find k i t) (\<lambda>r v. release_view v = release_view w \<and>
    (case r of None \<Rightarrow> True | Some g \<Rightarrow> g \<in> set (documents w k) \<and> dc_id g = i \<and> dc_tenant g = t)) (\<lambda>_ _. True) w"
  unfolding repo_find_def
  by (auto simp: wp_rules dest!: maybeSingle_SomeD filter_oneD split: option.split sum.split)

lemma wp_latest_amendment:
  fixes w :: "'w purchasing_scheme"
  shows "wp (getLatestApprovedAmendment g t) (\<lambda>_ v. release_view v = release_view w) (\<lambda>_ _. True) w"
  unfolding getLatestApprovedAmendment_def by (simp add: wp_rules split: option.split)

lemma wp_release:
  fixes w :: "'w purchasing_scheme"
  shows "wp (rl_create t dto u) (\<lambda>_ v. released t dto w v) (\<lambda>_ _. True) w"
  unfolding rl_create_def
proof (rule wp_bind [OF wp_repo_find], split option.split, intro conjI allI impI)
  fix found :: "document option" and v :: "'w purchasing_scheme"
  show "wp (throw (bad_request ''Agreement not found'')) (\<lambda>_ v. released t dto w v) (\<lambda>_ _. True) v" by (simp add: wp_rules)
next
  fix found :: "document option" and v :: "'w purchasing_scheme" and g
  assume g: "release_view v = release_view w \<and> (case found of None \<Rightarrow> True | Some g \<Rightarrow> g \<in> set (documents w Agreement) \<and>
    dc_id g = crl_agreement dto \<and> dc_tenant g = t)" "found = Some g"
  show "wp (bindE (require (dc_status g = ''approved'')
         (bad_request (''Cannot create a release for agreement with status: '' @ dc_status g))) (\<lambda>_.
       bindE (foldE (crl_items dto) [] (\<lambda>acc line.
         bindE (validateOverage line g t) (\<lambda>_.
         bindE (buildSnapshotLine line t (currency_of g)) (\<lambda>x.
         ret (acc @ [x]))))) (\<lambda>lines.
       bindE (getLatestApprovedAmendment (crl_agreement dto) t) (\<lambda>amendment.
       bindE (rpc (fn_create_agreement_release t (crl_agreement dto) (crl_number dto) (crl_notes dto) amendment u
         lines)) (\<lambda>r.
       repo_find Release (dc_id r) t))))) (\<lambda>_ v. released t dto w v) (\<lambda>_ _. True) v"
  proof (cases "dc_status g = ''approved''")
    case True
    have step: "wp (bindE (rpc (fn_create_agreement_release t (crl_agreement dto) (crl_number dto) (crl_notes dto) amendment u xs))
        (\<lambda>r. repo_find Release (dc_id r) t)) (\<lambda>_ v. released t dto w v) (\<lambda>_ _. True) v'"
      if v': "release_view v' = release_view w" and xs: "list_all2 (agreed w t g) (crl_items dto) xs"
      for v' :: "'w purchasing_scheme" and amendment xs
    proof (rule wp_bind [OF wp_rpc_sok [OF sok_create_release]])
      fix d and z :: "'w purchasing_scheme"
      assume d: "dc_status d = ''draft'' \<and> dc_tenant d = t \<and>
        documents z = (documents (v'\<lparr>calls := Suc (calls v')\<rparr>))(Release := documents (v'\<lparr>calls := Suc (calls v')\<rparr>) Release @ [d]) \<and>
        (\<exists>ids. length ids = length xs \<and> release_lines z = release_lines (v'\<lparr>calls := Suc (calls v')\<rparr>) @ map2 (release_row t (dc_id d)) xs ids)"
      then obtain ids where ids: "length ids = length xs" "release_lines z = release_lines w @ map2 (release_row t (dc_id d)) xs ids"
        using v' by (auto simp: release_view_def)
      have "documents z = (documents w)(Release := documents w Release @ [d])" using d v' by (simp add: release_view_def)
      then have "released t dto w z" unfolding released_def using ids d True g xs by auto
      then show "wp (repo_find Release (dc_id d) t) (\<lambda>_ v. released t dto w v) (\<lambda>_ _. True) z"
        by (intro wp_mono [OF wp_repo_find]) (auto simp: released_def release_view_def)
    qed simp
    have "wp (bindE (foldE (crl_items dto) [] (\<lambda>acc line.
         bindE (validateOverage line g t) (\<lambda>_.
         bindE (buildSnapshotLine line t (currency_of g)) (\<lambda>x.
         ret (acc @ [x]))))) (\<lambda>lines.
       bindE (getLatestApprovedAmendment (crl_agreement dto) t) (\<lambda>amendment.
       bindE (rpc (fn_create_agreement_release t (crl_agreement dto) (crl_number dto) (crl_notes dto) amendment u
         lines)) (\<lambda>r.
       repo_find Release (dc_id r) t)))) (\<lambda>_ v. released t dto w v) (\<lambda>_ _. True) v"
    proof (rule wp_bind [OF wp_lines [where done_lines = "[]" and w = w]])
      show "release_view v = release_view w" "list_all2 (agreed w t g) [] []" using g by simp_all
      fix xs and z :: "'w purchasing_scheme"
      assume xs: "release_view z = release_view w \<and> list_all2 (agreed w t g) ([] @ crl_items dto) xs"
      show "wp (bindE (getLatestApprovedAmendment (crl_agreement dto) t) (\<lambda>amendment.
        bindE (rpc (fn_create_agreement_release t (crl_agreement dto) (crl_number dto) (crl_notes dto) amendment u
          xs)) (\<lambda>r. repo_find Release (dc_id r) t))) (\<lambda>_ v. released t dto w v) (\<lambda>_ _. True) z"
        by (rule wp_bind [OF wp_latest_amendment]) (use xs step in simp)
    qed
    then show ?thesis using True by (simp add: require_def wp_bindE wp_ret)
  qed (simp add: wp_rules)
qed

section \<open>The property\<close>

text \<open>C10. A release is what the agreement says.  If creating a release succeeds, then the agreement is one of the
  tenant's and approved; exactly one release is added, a draft; and its lines are exactly one for
  each line of the request, in order, rounded to the columns of the table: each for an item of this
  agreement and, under the policy \<^verbatim>\<open>block\<close>, for no more than what is committed and not released by
  approved releases; at the price that is in force for its quantity, which for tiers is that of
  the first tier whose bounds hold the quantity; and, where the quantity and the price are not
  negative, their product is at most 2 to the 30 and discount and tax are percentages from 0 to 100,
  for an amount that is quantity times price, less the discount, plus the tax, within 0.021.  No
  price comes from the request.
\<close>

theorem release_as_agreed:
  fixes w :: "'w purchasing_scheme"
  assumes "rl_create t dto u w = (Inr r, v)"
  shows "\<exists>g d xs ids. g \<in> set (documents w Agreement) \<and> dc_id g = crl_agreement dto \<and> dc_tenant g = t \<and> dc_status g = ''approved'' \<and>
    dc_status d = ''draft'' \<and> documents v = (documents w)(Release := documents w Release @ [d]) \<and>
    release_lines v = release_lines w @ map2 (release_row t (dc_id d)) xs ids \<and> length ids = length xs \<and>
    list_all2 (agreed w t g) (crl_items dto) xs"
proof -
  have "wp (rl_create t dto u) (\<lambda>_ v. released t dto w v) (\<lambda>_ _. True) w" by (rule wp_release)
  then have "released t dto w v" using assms by (simp add: wp_def)
  then show ?thesis unfolding released_def by blast
qed

text \<open>Ten pieces at the price of the second tier, 4, with the tax of 15 percent, are 46.\<close>

definition demo_release :: create_release where
  "demo_release = \<lparr>crl_agreement = ''g'', crl_number = ''R'', crl_notes = None,
     crl_items = [\<lparr>rl_target = ''l'', rl_quantity = 10, rl_notes = None\<rparr>]\<rparr>"

lemma demo_released:
  "case rl_create ''t'' demo_release ''u'' demo_purchasing of (Inr x, v) \<Rightarrow> map xl_amount (release_lines v) = [46] | _ \<Rightarrow> False"
  by code_simp

lemma release_as_agreed_witness:
  "\<exists>r v g d xs ids. rl_create ''t'' demo_release ''u'' demo_purchasing = (Inr r, v) \<and> map xl_amount (release_lines v) = [46] \<and>
    g \<in> set (documents demo_purchasing Agreement) \<and> dc_status g = ''approved'' \<and>
    documents v = (documents demo_purchasing)(Release := documents demo_purchasing Release @ [d]) \<and>
    release_lines v = release_lines demo_purchasing @ map2 (release_row ''t'' (dc_id d)) xs ids \<and>
    list_all2 (agreed demo_purchasing ''t'' g) (crl_items demo_release) xs"
proof -
  obtain r v where run: "rl_create ''t'' demo_release ''u'' demo_purchasing = (Inr r, v)" "map xl_amount (release_lines v) = [46]"
    using demo_released by (auto split: prod.splits sum.splits)
  from release_as_agreed [OF run(1)] show ?thesis
    by (elim exE conjE, intro exI conjI) (rule run | assumption)+
qed

end
