(* ===== verification/Spec2Isabelle.thy ===== *)
theory Spec2Isabelle
  imports UserRoles Sales Barcodes ScanAdapters Expenses AdjustmentFlow ReleasePrices
begin

text \<open>
  A model of the backend of a point-of-sale platform (NestJS, TypeScript, under \<^verbatim>\<open>src/src\<close>) and proofs
  about it.  The program is a set of services on a hosted Postgres.  A service reaches the tables
  by PostgREST calls, each of which can fail on its own, or, behind feature flags, by a pooled
  connection in a real transaction; it caches what it reads in Redis and writes an audit log.
  Nothing but the code keeps tenants, prices and money apart, so that is what is modelled: who may
  do what, what a thing costs, and what a sale writes.

  How the code is represented.
  A handler is a computation \<^verbatim>\<open>('w, 'a) io\<close> (\<^verbatim>\<open>Prelude\<close>): from a state it gives an exception or a
  result, and a new state.  An exception is a value (\<^verbatim>\<open>exn\<close>: an HTTP exception, a database error as
  thrown, or a plain error), and every \<^verbatim>\<open>throw\<close>, \<^verbatim>\<open>catch\<close> and dropped error of the source is a branch.
  The state is an extensible record that grows from theory to theory (\<^verbatim>\<open>net\<close>, \<^verbatim>\<open>infra\<close>, \<^verbatim>\<open>access\<close>,
  \<^verbatim>\<open>catalog\<close>, \<^verbatim>\<open>pos\<close>, \<^verbatim>\<open>stockroom\<close>, \<^verbatim>\<open>warehouse\<close>, \<^verbatim>\<open>purchasing\<close>), one list of rows per table.  The field \<^verbatim>\<open>fault\<close> says for the n-th call whether it
  fails and with which error, so that a theorem that says nothing of \<^verbatim>\<open>fault\<close> holds whatever calls
  fail; \<^verbatim>\<open>clock\<close> and \<^verbatim>\<open>uuid\<close> are as arbitrary.  Numbers are IEEE doubles: rationals, rounded to
  nearest after each operation (\<^verbatim>\<open>JsNum\<close>), without infinities and NaN, which the code does not
  produce from the requests it accepts.  Promises that the code starts together run one after the
  other, and one that it does not await runs where it is started.

  The theories, in the order of the code.
  \<^item> \<^verbatim>\<open>Prelude\<close>: the monad, its weakest preconditions (\<^verbatim>\<open>wp_rules\<close>), views that a computation keeps
    (\<^verbatim>\<open>keep_rules\<close>, locale \<^verbatim>\<open>view\<close>), rows, \<^verbatim>\<open>maybeSingle\<close> and \<^verbatim>\<open>single\<close>, the database errors
    (\<^verbatim>\<open>shared/supabase\<close>).
  \<^item> \<^verbatim>\<open>JsNum\<close>, \<^verbatim>\<open>Money\<close>: doubles, \<^verbatim>\<open>toFixed\<close> and the string of a number; \<^verbatim>\<open>cents n\<close> is the double nearest to
    n hundredths, and \<^verbatim>\<open>near\<close> bounds the error of a computation in hundredths.
  \<^item> \<^verbatim>\<open>Engines\<close> (\<^verbatim>\<open>engines/*\<close>): subtotals, discounts, tax, payments, shift summaries; exact in hundredths.
  \<^item> \<^verbatim>\<open>Infra\<close> (\<^verbatim>\<open>core/cache\<close>, \<^verbatim>\<open>core/audit\<close>): Redis with expiry, the audit log.
  \<^item> \<^verbatim>\<open>Permissions\<close> (\<^verbatim>\<open>core/permissions\<close>): the effective permissions of a user with roles, tenant
    overrides and user overrides, and both caches.
  \<^item> \<^verbatim>\<open>AccessControl\<close> (\<^verbatim>\<open>modules/access-control\<close>), \<^verbatim>\<open>UserRoles\<close> (\<^verbatim>\<open>modules/users\<close>): who may change roles,
    grants and overrides, and the one primary role of a user.
  \<^item> \<^verbatim>\<open>Pricing\<close> (\<^verbatim>\<open>core/pricing\<close>): the pricing role, the official price, the override policy, the decision.
  \<^item> \<^verbatim>\<open>PosTables\<close> (\<^verbatim>\<open>core/tenant\<close>): the tables of a sale, notifications, \<^verbatim>\<open>runInTenantContext\<close> with its
    \<^verbatim>\<open>BEGIN\<close>, \<^verbatim>\<open>COMMIT\<close> and \<^verbatim>\<open>ROLLBACK\<close>, and the same (\<^verbatim>\<open>runAbortable\<close>) around a body that catches the error of
    a statement: the transaction is aborted then, and its \<^verbatim>\<open>COMMIT\<close> rolls back.
  \<^item> \<^verbatim>\<open>Shifts\<close>, \<^verbatim>\<open>Loyalty\<close>, \<^verbatim>\<open>Coupons\<close>: cash sessions, the ledger of points, coupons and their limits, with
    the SQL functions and constraints of their migrations.
  \<^item> \<^verbatim>\<open>InvoicesRepo\<close>, \<^verbatim>\<open>Invoices\<close> (\<^verbatim>\<open>modules/invoices\<close>): orders and the whole of \<^verbatim>\<open>create\<close>, \<^verbatim>\<open>cancel\<close> and
    the held orders; \<^verbatim>\<open>InvoiceSafety\<close> and \<^verbatim>\<open>Sales\<close> prove that a sale writes what was checked, all of
    it or nothing, and what a cancellation does.
  \<^item> \<^verbatim>\<open>ItemCodes\<close>, \<^verbatim>\<open>Barcodes\<close> (\<^verbatim>\<open>modules/items\<close>): EAN-13 and stock codes, CSV, the barcodes of items.
  \<^item> \<^verbatim>\<open>ScanAdapters\<close> (\<^verbatim>\<open>modules/scanner/adapters\<close>): the lifecycle and the framing rules of scanners.
  \<^item> \<^verbatim>\<open>Calendar\<close>, \<^verbatim>\<open>Expenses\<close> (\<^verbatim>\<open>modules/expenses\<close>): dates, the life cycle of expenses and its
    refinement, the recurring ones.  The status \<^verbatim>\<open>cancelled\<close> is in the constraint according to \<^verbatim>\<open>STATUS.md\<close>,
    not to a migration.
  \<^item> \<^verbatim>\<open>SqlFunctions\<close>: stored functions as transactions that raise or commit, \<^verbatim>\<open>numeric(14,4)\<close>, and how
    \<^verbatim>\<open>rpc\<close> and \<^verbatim>\<open>rpc-error.util.ts\<close> hand their errors on.
  \<^item> \<^verbatim>\<open>Stock\<close> (migrations 017, 104, 105, 111, 163, 164): levels, the ledger of movements, cost layers and
    backorders; \<^verbatim>\<open>fn_apply_stock_movement\<close>, \<^verbatim>\<open>fn_add_cost_layer\<close>, \<^verbatim>\<open>fn_consume_cost_layers\<close>.
  \<^item> \<^verbatim>\<open>Warehouse\<close> (\<^verbatim>\<open>modules/inventory\<close>, migrations 018, 019, 032, 043, 107, 117, 118): adjustments, transfers,
    counts, reservations and the stock of a sale; \<^verbatim>\<open>StockFlow\<close> proves the ledger invariant for every
    sequence of their requests and that transfers conserve stock, \<^verbatim>\<open>AdjustmentFlow\<close> that an
    adjustment is posted at most once.
  \<^item> \<^verbatim>\<open>Documents\<close>, \<^verbatim>\<open>Purchasing\<close>, \<^verbatim>\<open>Agreements\<close>, \<^verbatim>\<open>Releases\<close> (\<^verbatim>\<open>modules/purchasing\<close>, migrations 018, 120 to
    122, 128 to 133, 136 to 138): purchase requests, orders, RFQs, agreements with their amendments and
    releases.  The six services repeat one life cycle, which \<^verbatim>\<open>Documents\<close> states once over the kind of the
    document; the tables of the six are one map from the kind.  \<^verbatim>\<open>DocumentFlow\<close> proves that the history
    tells the life of a document, \<^verbatim>\<open>Commitments\<close> what amendments and releases do to the committed
    quantities, \<^verbatim>\<open>ReleasePrices\<close> that a release is priced from its agreement, and bounds the error of its amounts.

  The groups of lemmas.
  A locale states what a client relies on: \<^verbatim>\<open>view\<close>, \<^verbatim>\<open>beside_permissions\<close> and \<^verbatim>\<open>beside_sale\<close> give, for any part of
  the state that an operation does not write, that it is unchanged; \<^verbatim>\<open>best_effort\<close> gives that a
  step cannot stop a sale.  Each is interpreted on the model, mostly many times.  The \<^verbatim>\<open>_sound\<close>
  lemmas say what a check that passed establishes about the tables; \<^verbatim>\<open>preserves\<close> carries invariants
  through handlers; the \<^verbatim>\<open>near\<close> lemmas carry error bounds through the arithmetic.

  Bounds and fuel.
  Amounts are exact up to \<^verbatim>\<open>money_bound\<close> hundredths for a single amount and \<^verbatim>\<open>subtotal_bound\<close> (ten thousand
  million currency units) for a sum over at most 500 lines or rows: there the accumulated error of
  all additions stays below the half hundredth that \<^verbatim>\<open>toFixed(2)\<close> removes.  The only fuel is in
  the digits of \<^verbatim>\<open>String(number)\<close>: 25 decimals are more than any double below the bound needs to be
  told apart.

  Not modelled.
  Transport and validation of requests (controllers, guards, DTO decorators), the reports and
  listings, which only read; authentication, which rests on third-party tokens; human resources,
  manufacturing, accounting, billing, the events of scanners.  Of inventory: put-away,
  pick lists and shipments, warehouse tasks, serials, snapshots, planning and replenishment.  Of
  purchasing: goods receipts, supplier quotes, awards, suppliers and their items, landed costs,
  suggestions; the names that are joined into its answers; the long dash in two of its messages is
  written as two hyphens.  A sale
  records its calls of the SQL functions for accounting and stock as calls, of which the reversal of a
  posting fails for an order without one; those for stock are
  modelled on their own in \<^verbatim>\<open>Warehouse\<close>, over a state that extends that of a sale.  Foreign keys
  are not checked.
  Row-level security, the isolation of concurrent transactions and the interleaving of two
  requests inside one handler are outside the model: a handler runs from start to end.
\<close>

end
